(* ===== verification/HC_Prelude.thy ===== *)
theory HC_Prelude
  imports "HOL-Library.Word" "HOL-Library.Sublist" "HOL-Library.AList"
    "HOL-Library.Monad_Syntax" "HOL-Library.Signed_Division"
begin

text \<open>
  Shared vocabulary of the development: machine integers and bytes as the C++ code of the
  compiler uses them, the C library's character classes and number printing, association
  lists for \<open>std::map\<close>, and the generic lemmas that the component theories share.
\<close>

unbundle bit_operations_syntax

named_theorems consume_simps \<open>how many characters or tokens a reading operation leaves\<close>
named_theorems frame_simps \<open>fields an operation does not touch\<close>

subsection \<open>Machine integers\<close>

text \<open>\<open>int64_t\<close> and \<open>uint64_t\<close> share one carrier; \<^const>\<open>sint\<close> and \<^const>\<open>uint\<close> read it.\<close>

type_synonym i64 = "64 word"

definition b2i :: "bool \<Rightarrow> i64" where
  "b2i b = (if b then 1 else 0)"

text \<open>Truncating division, as C++ has it on \<open>int64_t\<close>; the one overflowing quotient,
  \<open>INT64_MIN / -1\<close>, traps on the target and is told apart by \<open>div_traps\<close>.\<close>

definition div_traps :: "i64 \<Rightarrow> i64 \<Rightarrow> bool" where
  "div_traps a b \<longleftrightarrow> a = 0x8000000000000000 \<and> b = - 1"

definition sdiv64 :: "i64 \<Rightarrow> i64 \<Rightarrow> i64" where
  "sdiv64 a b = word_of_int (sint a sdiv sint b)"

definition smod64 :: "i64 \<Rightarrow> i64 \<Rightarrow> i64" where
  "smod64 a b = word_of_int (sint a smod sint b)"

definition slt :: "i64 \<Rightarrow> i64 \<Rightarrow> bool" where
  "slt a b \<longleftrightarrow> sint a < sint b"

definition sle :: "i64 \<Rightarrow> i64 \<Rightarrow> bool" where
  "sle a b \<longleftrightarrow> sint a \<le> sint b"

text \<open>Shifts of \<open>int64_t\<close> with the count masked to six bits: \<open>shl\<close>, and the arithmetic
  right shift.\<close>

definition shl64 :: "i64 \<Rightarrow> i64 \<Rightarrow> i64" where
  "shl64 a b = push_bit (unat (b AND 63)) a"

definition sar64 :: "i64 \<Rightarrow> i64 \<Rightarrow> i64" where
  "sar64 a b = signed_drop_bit (unat (b AND 63)) a"

lemma b2i_simps [simp]: "b2i True = 1" "b2i False = 0"
  by (simp_all add: b2i_def)

lemma b2i_eq_0 [simp]: "b2i b = 0 \<longleftrightarrow> \<not> b"
  by (simp add: b2i_def)

subsection \<open>Bytes and the C locale's character classes\<close>

definition byte :: "char \<Rightarrow> nat" where
  "byte c = of_char c"

definition isdigit :: "char \<Rightarrow> bool" where
  "isdigit c \<longleftrightarrow> 48 \<le> byte c \<and> byte c \<le> 57"

definition isupper :: "char \<Rightarrow> bool" where
  "isupper c \<longleftrightarrow> 65 \<le> byte c \<and> byte c \<le> 90"

definition islower :: "char \<Rightarrow> bool" where
  "islower c \<longleftrightarrow> 97 \<le> byte c \<and> byte c \<le> 122"

definition isalpha :: "char \<Rightarrow> bool" where
  "isalpha c \<longleftrightarrow> isupper c \<or> islower c"

definition isalnum :: "char \<Rightarrow> bool" where
  "isalnum c \<longleftrightarrow> isalpha c \<or> isdigit c"

definition isxdigit :: "char \<Rightarrow> bool" where
  "isxdigit c \<longleftrightarrow> isdigit c \<or> (65 \<le> byte c \<and> byte c \<le> 70) \<or> (97 \<le> byte c \<and> byte c \<le> 102)"

text \<open>The value of a hexadecimal digit: \<open>isdigit(d) ? d - '0' : tolower(d) - 'a' + 10\<close>.\<close>

definition hexval :: "char \<Rightarrow> nat" where
  "hexval c = (if isdigit c then byte c - 48
     else if isupper c then byte c - 65 + 10 else byte c - 97 + 10)"

lemma byte_less [simp]: "byte c < 256"
  by (simp add: byte_def)

lemma byte_char_of [simp]: "n < 256 \<Longrightarrow> byte (char_of n) = n"
  by (simp add: byte_def)

lemma char_of_byte [simp]: "char_of (byte c) = c"
  by (simp add: byte_def)

subsection \<open>Printing and reading numbers\<close>

definition digit_char :: "nat \<Rightarrow> char" where
  "digit_char d = char_of (48 + d)"

fun dec_of_nat :: "nat \<Rightarrow> string" where
  "dec_of_nat n = (if n < 10 then [digit_char n] else dec_of_nat (n div 10) @ [digit_char (n mod 10)])"

declare dec_of_nat.simps [simp del]

definition dec_of_int :: "int \<Rightarrow> string" where
  "dec_of_int i = (if i < 0 then CHR ''-'' # dec_of_nat (nat (- i)) else dec_of_nat (nat i))"

text \<open>\<open>std::to_string\<close> on \<open>int64_t\<close>.\<close>

definition to_string_i64 :: "i64 \<Rightarrow> string" where
  "to_string_i64 v = dec_of_int (sint v)"

text \<open>The value of a digit string in a base, most significant digit first.\<close>

definition digits_value :: "nat \<Rightarrow> string \<Rightarrow> nat" where
  "digits_value base s = foldl (\<lambda>v c. v * base + hexval c) 0 s"

text \<open>\<open>(int64_t)strtoull(s, nullptr, base)\<close> on a string of digits of the base: the value
  saturates at \<open>ULLONG_MAX\<close>; the empty string reads as 0.\<close>

definition strtoull :: "nat \<Rightarrow> string \<Rightarrow> i64" where
  "strtoull base s = of_nat (min (digits_value base s) (2 ^ 64 - 1))"

lemma isdigit_digit_char [simp]: "d < 10 \<Longrightarrow> isdigit (digit_char d)"
  by (simp add: isdigit_def digit_char_def)

lemma hexval_digit_char [simp]: "d < 10 \<Longrightarrow> hexval (digit_char d) = d"
  by (simp add: hexval_def isdigit_def digit_char_def)

lemma dec_of_nat_nonempty [simp]: "dec_of_nat n \<noteq> []"
  by (subst dec_of_nat.simps) simp

lemma dec_of_nat_digits: "\<forall>c \<in> set (dec_of_nat n). isdigit c"
  by (induction n rule: dec_of_nat.induct) (subst dec_of_nat.simps, auto)

lemma digits_value_append1:
  "digits_value b (s @ [c]) = digits_value b s * b + hexval c"
  by (simp add: digits_value_def)

lemma digits_value_dec_of_nat [simp]: "digits_value 10 (dec_of_nat n) = n"
proof (induction n rule: dec_of_nat.induct)
  case (1 n)
  show ?case
  proof (cases "n < 10")
    case True
    then show ?thesis by (subst dec_of_nat.simps) (simp add: digits_value_def)
  next
    case False
    with "1.IH" show ?thesis
      by (subst dec_of_nat.simps) (simp add: digits_value_append1)
  qed
qed

subsection \<open>Maps as association lists\<close>

text \<open>\<open>std::map\<close> is an association list with lookup \<^const>\<open>map_of\<close>, update \<^const>\<open>AList.update\<close>
  and erasure \<^const>\<open>AList.delete\<close>; nothing in the compiler iterates over the maps modelled.\<close>

definition has_key :: "('k \<times> 'v) list \<Rightarrow> 'k \<Rightarrow> bool" where
  "has_key m k \<longleftrightarrow> map_of m k \<noteq> None"

lemma has_key_update [simp]: "has_key (AList.update k v m) k' \<longleftrightarrow> k = k' \<or> has_key m k'"
  by (simp add: has_key_def update_conv')

lemma has_key_delete [simp]: "has_key (AList.delete k m) k' \<longleftrightarrow> k \<noteq> k' \<and> has_key m k'"
  by (auto simp: has_key_def delete_conv')

lemma has_key_iff: "has_key m k \<longleftrightarrow> k \<in> set (map fst m)"
  by (auto simp: has_key_def map_of_eq_None_iff image_iff)

subsection \<open>Lists\<close>

lemma suffix_length_less: "suffix xs ys \<Longrightarrow> xs \<noteq> ys \<Longrightarrow> length xs < length ys"
  by (auto simp: suffix_def)

lemma suffix_dropI [intro]: "suffix xs ys \<Longrightarrow> suffix (drop n xs) ys"
  by (meson suffix_drop suffix_order.trans)

lemma suffix_Cons_trans: "suffix (x # xs) ys \<Longrightarrow> suffix xs ys"
  by (meson suffix_ConsD)

end
