(* ===== verification/HC_Float64.thy ===== *)
theory HC_Float64
  imports HC_Prelude
begin

text \<open>
  The parts of IEEE binary64 that the front end computes with: \<open>strtod\<close> on the literals the
  lexer hands it, the conversions between \<open>int64_t\<close> and \<open>double\<close>, negation, and
  \<open>std::to_string(double)\<close>. A \<open>double\<close> is its bit pattern; every conversion works on exact
  natural numbers and rounds once, to nearest with ties to even.
\<close>

type_synonym f64 = "64 word"

fun ilog2 :: "nat \<Rightarrow> nat" where
  "ilog2 n = (if n < 2 then 0 else Suc (ilog2 (n div 2)))"

declare ilog2.simps [simp del]

definition round_half_even :: "nat \<Rightarrow> nat \<Rightarrow> nat" where
  "round_half_even n d =
     (let q = n div d; r = n mod d
      in if 2 * r > d \<or> (2 * r = d \<and> odd q) then Suc q else q)"

text \<open>The exponent \<open>e\<close> with \<open>2 ^ e \<le> n / d < 2 ^ (e + 1)\<close>.\<close>

definition rat_exp :: "nat \<Rightarrow> nat \<Rightarrow> int" where
  "rat_exp n d =
     (let e = int (ilog2 n) - int (ilog2 d)
      in if (if 0 \<le> e then n < d * 2 ^ nat e else n * 2 ^ nat (- e) < d) then e - 1 else e)"

text \<open>
  The double nearest to the positive rational \<open>n / d\<close>. The exponent is clamped to \<open>-1022\<close>, so
  a subnormal result falls out of the same formula, and a significand that rounds up to
  \<open>2 ^ 53\<close> carries into the exponent field.
\<close>

definition f64_of_rat :: "nat \<Rightarrow> nat \<Rightarrow> f64" where
  "f64_of_rat n d =
     (if n = 0 then 0
      else let e = max (rat_exp n d) (- 1022);
               s = 52 - e;
               m = (if 0 \<le> s then round_half_even (n * 2 ^ nat s) d
                    else round_half_even n (d * 2 ^ nat (- s)));
               bits = nat (e + 1022) * 2 ^ 52 + m
           in of_nat (min bits (2047 * 2 ^ 52)))"

definition f64_neg :: "f64 \<Rightarrow> f64" where
  "f64_neg x = x XOR 0x8000000000000000"

definition f64_sign :: "f64 \<Rightarrow> bool" where
  "f64_sign x = bit x 63"

definition f64_exp :: "f64 \<Rightarrow> nat" where
  "f64_exp x = unat x div 2 ^ 52 mod 2048"

definition f64_frac :: "f64 \<Rightarrow> nat" where
  "f64_frac x = unat x mod 2 ^ 52"

text \<open>\<open>(double)i\<close> for an \<open>int64_t\<close>.\<close>

definition i64_to_f64 :: "i64 \<Rightarrow> f64" where
  "i64_to_f64 v = (if sint v < 0 then f64_neg (f64_of_rat (nat (- sint v)) 1)
                   else f64_of_rat (nat (sint v)) 1)"

text \<open>
  \<open>(int64_t)d\<close>: truncation towards zero. Out of range C++ leaves the result open; the value is
  the one of the target's \<open>cvttsd2si\<close>, the most negative integer.
\<close>

definition f64_to_i64 :: "f64 \<Rightarrow> i64" where
  "f64_to_i64 x =
     (let m = (if f64_exp x = 0 then f64_frac x else 2 ^ 52 + f64_frac x);
          k = int (f64_exp x) - 1075;
          mag = (if 0 \<le> k then int m * 2 ^ nat k else int m div 2 ^ nat (- k));
          r = (if f64_sign x then - mag else mag)
      in if f64_exp x = 2047 \<or> r < - (2 ^ 63) \<or> 2 ^ 63 \<le> r then 0x8000000000000000
         else word_of_int r)"

subsection \<open>\<open>strtod\<close> on lexer literals\<close>

fun span_chars :: "(char \<Rightarrow> bool) \<Rightarrow> string \<Rightarrow> string \<times> string" where
  "span_chars p [] = ([], [])"
| "span_chars p (c # cs) =
     (if p c then (let (a, b) = span_chars p cs in (c # a, b)) else ([], c # cs))"

text \<open>Digits, an optional fraction and an optional decimal exponent, which is every string
  \<open>lexNumber\<close> builds.\<close>

definition strtod :: "string \<Rightarrow> f64" where
  "strtod s =
     (let (ip, r1) = span_chars isdigit s;
          (fp, r2) = (case r1 of c # cs \<Rightarrow> if c = CHR ''.'' then span_chars isdigit cs else ([], r1)
                      | [] \<Rightarrow> ([], []));
          (neg, ed) = (case r2 of
              c # d # cs \<Rightarrow> if c = CHR ''e'' \<or> c = CHR ''E''
                 then (if d = CHR ''-'' then (True, fst (span_chars isdigit cs))
                       else if d = CHR ''+'' then (False, fst (span_chars isdigit cs))
                       else (False, fst (span_chars isdigit (d # cs))))
                 else (False, [])
            | _ \<Rightarrow> (False, []));
          m = digits_value 10 (ip @ fp);
          e = (if neg then - int (digits_value 10 ed) else int (digits_value 10 ed))
                - int (length fp)
      in if 0 \<le> e then f64_of_rat (m * 10 ^ nat e) 1 else f64_of_rat m (10 ^ nat (- e)))"

subsection \<open>\<open>std::to_string(double)\<close>, that is \<open>%f\<close>\<close>

fun pad_left :: "nat \<Rightarrow> char \<Rightarrow> string \<Rightarrow> string" where
  "pad_left n c s = replicate (n - length s) c @ s"

definition to_string_f64 :: "f64 \<Rightarrow> string" where
  "to_string_f64 x =
     (let sg = (if f64_sign x then ''-'' else '''')
      in if f64_exp x = 2047 then sg @ (if f64_frac x = 0 then ''inf'' else ''nan'')
         else let m = (if f64_exp x = 0 then f64_frac x else 2 ^ 52 + f64_frac x);
                  k = int (max 1 (f64_exp x)) - 1075;
                  t = (if 0 \<le> k then m * 2 ^ nat k * 10 ^ 6
                       else round_half_even (m * 10 ^ 6) (2 ^ nat (- k)))
              in sg @ dec_of_nat (t div 10 ^ 6) @ ''.'' @ pad_left 6 CHR ''0'' (dec_of_nat (t mod 10 ^ 6)))"

lemma f64_neg_neg [simp]: "f64_neg (f64_neg x) = x"
  by (simp add: f64_neg_def ac_simps flip: xor.assoc)

end
