(* ===== verification/HC_Tokens.thy ===== *)
theory HC_Tokens
  imports HC_Float64
begin

text \<open>
  The token vocabulary of \<open>lexer.hpp\<close>: the two enumerations \<open>Tok\<close> and \<open>P\<close>, source locations,
  tokens, diagnostics, and \<open>punctStr\<close>, the spelling of every punctuator.
\<close>

datatype tok = TkEof | TkIdent | TkIntLit | TkFloatLit | TkStrLit | TkCharLit | TkPunct

datatype punct =
    PNone | PLParen | PRParen | PLBracket | PRBracket | PLBrace | PRBrace | PComma | PSemi
  | PColon | PColonColon | PDot | PEllipsis | PArrow | PPlus | PMinus | PStar | PSlash | PPercent
  | PPow | PAmp | PPipe | PCaret | PShl | PShr | PTilde | PNot | PAndAnd | POrOr | PXorXor
  | PLt | PGt | PLe | PGe | PEqEq | PNe | PAssign | PPlusEq | PMinusEq | PStarEq | PSlashEq
  | PPercentEq | PShlEq | PShrEq | PAmpEq | PPipeEq | PCaretEq | PPlusPlus | PMinusMinus
  | PDollar | PAt | PQuestion

record srcloc =
  loc_file :: string
  loc_line :: nat
  loc_col :: nat

definition srcloc_str :: "srcloc \<Rightarrow> string" where
  "srcloc_str l = loc_file l @ '':'' @ dec_of_nat (loc_line l) @ '':'' @ dec_of_nat (loc_col l)"

definition no_loc :: srcloc where
  "no_loc = \<lparr>loc_file = [], loc_line = 0, loc_col = 0\<rparr>"

record token =
  tk_kind :: tok
  tk_punct :: punct
  tk_text :: string
  tk_ival :: i64
  tk_fval :: f64
  tk_loc :: srcloc
  tk_noExpand :: bool

text \<open>A default-constructed \<open>Token\<close>.\<close>

definition token0 :: token where
  "token0 = \<lparr>tk_kind = TkEof, tk_punct = PNone, tk_text = [], tk_ival = 0, tk_fval = 0,
             tk_loc = no_loc, tk_noExpand = False\<rparr>"

definition tok_is :: "token \<Rightarrow> punct \<Rightarrow> bool" where
  "tok_is t p \<longleftrightarrow> tk_kind t = TkPunct \<and> tk_punct t = p"

definition tok_isIdent :: "token \<Rightarrow> string \<Rightarrow> bool" where
  "tok_isIdent t s \<longleftrightarrow> tk_kind t = TkIdent \<and> tk_text t = s"

text \<open>What the front end prints to \<open>stderr\<close>: errors (which set \<open>hadError\<close>) and warnings.\<close>

datatype diag = DError srcloc string | DWarn srcloc string

fun is_error :: "diag \<Rightarrow> bool" where
  "is_error (DError _ _) = True"
| "is_error (DWarn _ _) = False"

fun punctStr :: "punct \<Rightarrow> string" where
  "punctStr PNone = ''<none>''"
| "punctStr PLParen = ''(''"
| "punctStr PRParen = '')''"
| "punctStr PLBracket = ''[''"
| "punctStr PRBracket = '']''"
| "punctStr PLBrace = ''{''"
| "punctStr PRBrace = ''}''"
| "punctStr PComma = '',''"
| "punctStr PSemi = '';''"
| "punctStr PColon = '':''"
| "punctStr PColonColon = ''::''"
| "punctStr PDot = ''.''"
| "punctStr PEllipsis = ''...''"
| "punctStr PArrow = ''->''"
| "punctStr PPlus = ''+''"
| "punctStr PMinus = ''-''"
| "punctStr PStar = ''*''"
| "punctStr PSlash = ''/''"
| "punctStr PPercent = ''%''"
| "punctStr PPow = [CHR 0x60]"
| "punctStr PAmp = ''&''"
| "punctStr PPipe = ''|''"
| "punctStr PCaret = ''^''"
| "punctStr PShl = ''<<''"
| "punctStr PShr = ''>>''"
| "punctStr PTilde = ''~''"
| "punctStr PNot = ''!''"
| "punctStr PAndAnd = ''&&''"
| "punctStr POrOr = ''||''"
| "punctStr PXorXor = ''^^''"
| "punctStr PLt = ''<''"
| "punctStr PGt = ''>''"
| "punctStr PLe = ''<=''"
| "punctStr PGe = ''>=''"
| "punctStr PEqEq = ''==''"
| "punctStr PNe = ''!=''"
| "punctStr PAssign = ''=''"
| "punctStr PPlusEq = ''+=''"
| "punctStr PMinusEq = ''-=''"
| "punctStr PStarEq = ''*=''"
| "punctStr PSlashEq = ''/=''"
| "punctStr PPercentEq = ''%=''"
| "punctStr PShlEq = ''<<=''"
| "punctStr PShrEq = ''>>=''"
| "punctStr PAmpEq = ''&=''"
| "punctStr PPipeEq = ''|=''"
| "punctStr PCaretEq = ''^=''"
| "punctStr PPlusPlus = ''++''"
| "punctStr PMinusMinus = ''--''"
| "punctStr PDollar = ''$''"
| "punctStr PAt = ''@''"
| "punctStr PQuestion = ''?''"

lemma tok_is_kind: "tok_is t p \<Longrightarrow> tk_kind t = TkPunct"
  by (simp add: tok_is_def)

lemma tok_is_unique: "tok_is t p \<Longrightarrow> tok_is t q \<longleftrightarrow> p = q"
  by (auto simp: tok_is_def)

end
