(* ===== verification/HC_Source.thy ===== *)
theory HC_Source
  imports HC_Tokens
begin

text \<open>
  The character level of the lexer: the source stack with \<open>peekc\<close>, \<open>getc\<close> and \<open>here\<close>, and the
  lexer's state. \<open>src_rest\<close> is the unread part \<open>buf[pos..]\<close> of a source; \<open>None\<close> stands for the
  \<open>-1\<close> of \<open>peekc\<close> and \<open>getc\<close>.
\<close>

record source =
  src_rest :: string
  src_file :: string
  src_dir :: string
  src_line :: nat
  src_col :: nat

definition dirOf :: "string \<Rightarrow> string" where
  "dirOf path =
     (if CHR ''/'' \<in> set path
      then rev (tl (dropWhile (\<lambda>c. c \<noteq> CHR ''/'') (rev path)))
      else ''.'')"

definition mk_source :: "string \<Rightarrow> string \<Rightarrow> string \<Rightarrow> source" where
  "mk_source buf file dir =
     \<lparr>src_rest = buf, src_file = file, src_dir = dir, src_line = 1, src_col = 1\<rparr>"

text \<open>What an empty stack looks like to \<open>peekc\<close>, \<open>getc\<close> and \<open>here\<close>.\<close>

definition eof_source :: source where
  "eof_source = \<lparr>src_rest = [], src_file = ''<eof>'', src_dir = ''.'', src_line = 0, src_col = 0\<rparr>"

definition peekc :: "source \<Rightarrow> nat \<Rightarrow> char option" where
  "peekc s off = (if off < length (src_rest s) then Some (src_rest s ! off) else None)"

definition getc :: "source \<Rightarrow> char option \<times> source" where
  "getc s = (case src_rest s of [] \<Rightarrow> (None, s)
     | c # cs \<Rightarrow> (Some c,
         if c = CHR 0x0A then s\<lparr>src_rest := cs, src_line := Suc (src_line s), src_col := 1\<rparr>
         else s\<lparr>src_rest := cs, src_col := Suc (src_col s)\<rparr>))"

abbreviation skipc :: "source \<Rightarrow> source" where
  "skipc s \<equiv> snd (getc s)"

definition here :: "source \<Rightarrow> srcloc" where
  "here s = \<lparr>loc_file = src_file s, loc_line = src_line s, loc_col = src_col s\<rparr>"

text \<open>\<open>while (p(peekc())) getc();\<close> and the text it passes over.\<close>

function span_src :: "(char \<Rightarrow> bool) \<Rightarrow> source \<Rightarrow> string \<times> source" where
  "span_src p s =
     (case getc s of
        (None, _) \<Rightarrow> ([], s)
      | (Some c, s') \<Rightarrow>
          if p c then (let (t, s'') = span_src p s' in (c # t, s'')) else ([], s))"
  by pat_completeness auto
termination
  by (relation "measure (\<lambda>(p, s). length (src_rest s))")
    (auto simp: getc_def split: list.splits if_splits)

declare span_src.simps [simp del]

subsection \<open>Reading always shortens the rest\<close>

lemma getc_Nil [simp]: "src_rest s = [] \<Longrightarrow> getc s = (None, s)"
  by (simp add: getc_def)

lemma getc_Cons: "src_rest s = c # cs \<Longrightarrow> fst (getc s) = Some c \<and> src_rest (skipc s) = cs"
  by (simp add: getc_def)

lemma src_rest_skipc [consume_simps]: "src_rest (skipc s) = tl (src_rest s)"
  by (cases "src_rest s") (simp_all add: getc_def)

lemma skipc_file [frame_simps]: "src_file (skipc s) = src_file s" "src_dir (skipc s) = src_dir s"
  by (simp_all add: getc_def split: list.split)

lemma fst_getc: "fst (getc s) = peekc s 0"
  by (simp add: getc_def peekc_def split: list.split)

lemma getc_eq_Some:
  "getc s = (Some c, s') \<longleftrightarrow> s' = skipc s \<and> src_rest s = c # src_rest s'"
  by (auto simp: getc_def split: list.splits)

lemma getc_eq_None: "getc s = (None, s') \<longleftrightarrow> s' = s \<and> src_rest s = []"
  by (auto simp: getc_def split: list.splits)

lemma getc_Some_len: "(Some c, s') = getc s \<Longrightarrow> length (src_rest s) = Suc (length (src_rest s'))"
  by (auto simp: getc_def split: list.splits)

lemma peekc_0: "peekc s 0 = (case src_rest s of [] \<Rightarrow> None | c # cs \<Rightarrow> Some c)"
  by (simp add: peekc_def split: list.split)

lemma peekc_Some_less: "peekc s k = Some c \<Longrightarrow> k < length (src_rest s)"
  by (simp add: peekc_def split: if_splits)

lemma span_src_rest:
  "src_rest (snd (span_src p s)) = dropWhile p (src_rest s)
   \<and> fst (span_src p s) = takeWhile p (src_rest s)
   \<and> src_file (snd (span_src p s)) = src_file s \<and> src_dir (snd (span_src p s)) = src_dir s"
proof (induction p s rule: span_src.induct)
  case (1 p s)
  show ?case
  proof (cases "src_rest s")
    case Nil
    then show ?thesis by (simp add: span_src.simps [of p s])
  next
    case (Cons c cs)
    obtain s' where g: "getc s = (Some c, s')" and s': "src_rest s' = cs"
        "src_file s' = src_file s" "src_dir s' = src_dir s"
      using Cons by (cases "getc s") (auto simp: getc_def)
    show ?thesis
    proof (cases "p c")
      case True
      with "1.IH" g have "src_rest (snd (span_src p s')) = dropWhile p cs
         \<and> fst (span_src p s') = takeWhile p cs
         \<and> src_file (snd (span_src p s')) = src_file s \<and> src_dir (snd (span_src p s')) = src_dir s"
        using s' by simp
      with True g Cons show ?thesis
        by (simp add: span_src.simps [of p s] case_prod_beta)
    next
      case False
      with g Cons show ?thesis by (simp add: span_src.simps [of p s])
    qed
  qed
qed

lemma span_src_suffix: "suffix (src_rest (snd (span_src p s))) (src_rest s)"
  by (simp add: span_src_rest suffix_dropWhile)

subsection \<open>Reading as repeated \<open>getc\<close>\<close>

text \<open>
  Every scanner only ever moves a source forward by \<open>getc\<close>. That is the one law the scanners
  share, so it is an interface: what a client may use of a scanner follows inside it.
\<close>

definition reads :: "source \<Rightarrow> source \<Rightarrow> bool" where
  "reads s s' \<longleftrightarrow> (\<exists>k. s' = (skipc ^^ k) s)"

text \<open>The position reached after passing over a text.\<close>

fun advance :: "string \<Rightarrow> nat \<times> nat \<Rightarrow> nat \<times> nat" where
  "advance [] p = p"
| "advance (c # cs) (l, k) = advance cs (if c = CHR 0x0A then (Suc l, 1) else (l, Suc k))"

lemma reads_refl [simp, intro]: "reads s s"
  unfolding reads_def by (rule exI [of _ 0]) simp

lemma reads_trans: "reads s s' \<Longrightarrow> reads s' s'' \<Longrightarrow> reads s s''"
  unfolding reads_def by (metis funpow_add comp_apply)

lemma reads_skipc [simp, intro]: "reads s (skipc s)"
  unfolding reads_def by (rule exI [of _ 1]) simp

lemma reads_skipcI: "reads s s' \<Longrightarrow> reads s (skipc s')"
  by (rule reads_trans) auto

lemma reads_getc: "getc s = (x, s') \<Longrightarrow> reads s s'"
  by (metis reads_skipc snd_conv)

lemma reads_consumed:
  assumes "reads s s'"
  shows "\<exists>t. src_rest s = t @ src_rest s'
     \<and> (src_line s', src_col s') = advance t (src_line s, src_col s)"
proof -
  obtain k where "s' = (skipc ^^ k) s" using assms by (auto simp: reads_def)
  moreover have "\<exists>t. src_rest s = t @ src_rest ((skipc ^^ k) s)
     \<and> (src_line ((skipc ^^ k) s), src_col ((skipc ^^ k) s)) = advance t (src_line s, src_col s)"
  proof (induction k arbitrary: s)
    case 0
    show ?case by (rule exI [of _ "[]"]) simp
  next
    case (Suc k)
    from Suc.IH [of "skipc s"] obtain t where t:
      "src_rest (skipc s) = t @ src_rest ((skipc ^^ k) (skipc s))"
      "(src_line ((skipc ^^ k) (skipc s)), src_col ((skipc ^^ k) (skipc s)))
         = advance t (src_line (skipc s), src_col (skipc s))" by blast
    have swap: "(skipc ^^ Suc k) s = (skipc ^^ k) (skipc s)"
      by (simp add: funpow_Suc_right del: funpow.simps)
    show ?case unfolding swap
    proof (cases "src_rest s")
      case Nil
      then have "skipc s = s" by simp
      with t show "\<exists>t. src_rest s = t @ src_rest ((skipc ^^ k) (skipc s))
        \<and> (src_line ((skipc ^^ k) (skipc s)), src_col ((skipc ^^ k) (skipc s)))
            = advance t (src_line s, src_col s)" by auto
    next
      case (Cons c cs)
      then have "(src_line (skipc s), src_col (skipc s))
          = (if c = CHR 0x0A then (Suc (src_line s), 1) else (src_line s, Suc (src_col s)))"
        by (simp add: getc_def)
      with t Cons show "\<exists>t. src_rest s = t @ src_rest ((skipc ^^ k) (skipc s))
        \<and> (src_line ((skipc ^^ k) (skipc s)), src_col ((skipc ^^ k) (skipc s)))
            = advance t (src_line s, src_col s)"
        by (intro exI [of _ "c # t"]) (simp add: src_rest_skipc)
    qed
  qed
  ultimately show ?thesis by simp
qed

lemma reads_suffix: "reads s s' \<Longrightarrow> suffix (src_rest s') (src_rest s)"
  using reads_consumed by (auto simp: suffix_def)

lemma reads_length: "reads s s' \<Longrightarrow> length (src_rest s') \<le> length (src_rest s)"
  by (rule suffix_length_le) (rule reads_suffix)

lemma reads_file: "reads s s' \<Longrightarrow> src_file s' = src_file s \<and> src_dir s' = src_dir s"
proof -
  have "src_file ((skipc ^^ k) s) = src_file s \<and> src_dir ((skipc ^^ k) s) = src_dir s" for k
    by (induction k arbitrary: s) (simp_all add: funpow_swap1 skipc_file)
  then show "reads s s' \<Longrightarrow> ?thesis" by (auto simp: reads_def)
qed

lemma reads_span_src: "reads s (snd (span_src p s))"
proof (induction p s rule: span_src.induct)
  case (1 p s)
  obtain x s' where g: "getc s = (x, s')" by fastforce
  then have "reads s s'" by (rule reads_getc)
  with g "1.IH" [OF g [symmetric]] show ?case
    by (subst span_src.simps)
      (auto split: option.split simp: case_prod_beta intro: reads_trans)
qed

locale scanner =
  fixes scan :: "source \<Rightarrow> 'a \<times> source"
  assumes scan_reads: "reads s (snd (scan s))"
begin

lemma scan_suffix: "suffix (src_rest (snd (scan s))) (src_rest s)"
  by (rule reads_suffix) (rule scan_reads)

lemma scan_length: "length (src_rest (snd (scan s))) \<le> length (src_rest s)"
  by (rule reads_length) (rule scan_reads)

lemma scan_file: "src_file (snd (scan s)) = src_file s \<and> src_dir (snd (scan s)) = src_dir s"
  by (rule reads_file) (rule scan_reads)

lemma scan_position:
  "\<exists>t. src_rest s = t @ src_rest (snd (scan s))
     \<and> (src_line (snd (scan s)), src_col (snd (scan s))) = advance t (src_line s, src_col s)"
  by (rule reads_consumed) (rule scan_reads)

end

interpretation span: scanner "span_src p" for p
  by unfold_locales (rule reads_span_src)

subsection \<open>The lexer's state\<close>

text \<open>One record per nested \<open>#if\<close>.\<close>

record cond =
  c_active :: bool
  c_taken :: bool
  c_elseSeen :: bool

text \<open>
  The members of class \<open>Lexer\<close>. The vectors used as stacks (\<open>stack_\<close>, \<open>conds_\<close>) have their
  back at the head of the list. \<open>lx_diags\<close> is what was printed so far, newest first.
  \<open>lx_fault\<close> is a ghost flag: the process was killed at some point before this state (a
  trapping division or unbounded recursion), and nothing after that point is observable.
\<close>

record lexer =
  lx_stack :: "source list"
  lx_pending :: "token list"
  lx_macros :: "(string \<times> token list) list"
  lx_expanding :: "string list"
  lx_includeDirs :: "string list"
  lx_jitMode :: bool
  lx_conds :: "cond list"
  lx_diags :: "diag list"
  lx_fault :: bool

text \<open>
  What the lexer reads from outside: the file system behind \<open>std::ifstream\<close>, the \<open>#exe\<close> hook
  (absent until \<open>setExeHook\<close>), and the two clock strings.
\<close>

record env =
  e_file :: "string \<Rightarrow> string option"
  e_exe :: "(string \<Rightarrow> srcloc \<Rightarrow> string) option"
  e_date :: string
  e_time :: string

definition lx_hadError :: "lexer \<Rightarrow> bool" where
  "lx_hadError lx \<longleftrightarrow> (\<exists>d \<in> set (lx_diags lx). is_error d)"

definition lx_error :: "srcloc \<Rightarrow> string \<Rightarrow> lexer \<Rightarrow> lexer" where
  "lx_error l msg lx = lx\<lparr>lx_diags := DError l msg # lx_diags lx\<rparr>"

definition add_diags :: "diag list \<Rightarrow> lexer \<Rightarrow> lexer" where
  "add_diags ds lx = lx\<lparr>lx_diags := rev ds @ lx_diags lx\<rparr>"

definition atEof :: "lexer \<Rightarrow> bool" where
  "atEof lx \<longleftrightarrow> lx_stack lx = []"

definition top :: "lexer \<Rightarrow> source" where
  "top lx = (case lx_stack lx of [] \<Rightarrow> eof_source | s # _ \<Rightarrow> s)"

definition set_top :: "source \<Rightarrow> lexer \<Rightarrow> lexer" where
  "set_top s lx = (case lx_stack lx of [] \<Rightarrow> lx | _ # ss \<Rightarrow> lx\<lparr>lx_stack := s # ss\<rparr>)"

definition push_source :: "source \<Rightarrow> lexer \<Rightarrow> lexer" where
  "push_source s lx = lx\<lparr>lx_stack := s # lx_stack lx\<rparr>"

text \<open>An empty lexer; the two constructors of the class add the source they were given.\<close>

definition lexer0 :: "bool \<Rightarrow> string list \<Rightarrow> lexer" where
  "lexer0 jit dirs = \<lparr>lx_stack = [], lx_pending = [], lx_macros = [], lx_expanding = [],
     lx_includeDirs = dirs, lx_jitMode = jit, lx_conds = [], lx_diags = [], lx_fault = False\<rparr>"

definition Lexer_file :: "env \<Rightarrow> string \<Rightarrow> bool \<Rightarrow> string list \<Rightarrow> lexer" where
  "Lexer_file e path jit dirs =
     (case e_file e path of
        None \<Rightarrow> lx_error no_loc (''hcc: cannot open '' @ [CHR 0x27] @ path @ [CHR 0x27]) (lexer0 jit dirs)
      | Some buf \<Rightarrow> push_source (mk_source buf path (dirOf path)) (lexer0 jit dirs))"

definition Lexer_buffer :: "string \<Rightarrow> string \<Rightarrow> bool \<Rightarrow> lexer" where
  "Lexer_buffer buf name jit = push_source (mk_source buf name ''.'') (lexer0 jit [])"

lemma add_diags_frame [frame_simps]:
  "lx_stack (add_diags ds lx) = lx_stack lx" "lx_pending (add_diags ds lx) = lx_pending lx"
  "lx_macros (add_diags ds lx) = lx_macros lx" "lx_conds (add_diags ds lx) = lx_conds lx"
  "lx_expanding (add_diags ds lx) = lx_expanding lx"
  "lx_includeDirs (add_diags ds lx) = lx_includeDirs lx"
  "lx_jitMode (add_diags ds lx) = lx_jitMode lx" "lx_fault (add_diags ds lx) = lx_fault lx"
  by (simp_all add: add_diags_def)

lemma lx_error_frame [frame_simps]:
  "lx_stack (lx_error l m lx) = lx_stack lx" "lx_pending (lx_error l m lx) = lx_pending lx"
  "lx_macros (lx_error l m lx) = lx_macros lx" "lx_conds (lx_error l m lx) = lx_conds lx"
  "lx_expanding (lx_error l m lx) = lx_expanding lx"
  "lx_includeDirs (lx_error l m lx) = lx_includeDirs lx"
  "lx_jitMode (lx_error l m lx) = lx_jitMode lx" "lx_fault (lx_error l m lx) = lx_fault lx"
  by (simp_all add: lx_error_def)

lemma lx_hadError_error [simp]: "lx_hadError (lx_error l m lx)"
  by (simp add: lx_hadError_def lx_error_def)

lemma set_top_frame [frame_simps]:
  "lx_pending (set_top s lx) = lx_pending lx"
  "lx_macros (set_top s lx) = lx_macros lx" "lx_conds (set_top s lx) = lx_conds lx"
  "lx_expanding (set_top s lx) = lx_expanding lx"
  "lx_includeDirs (set_top s lx) = lx_includeDirs lx" "lx_diags (set_top s lx) = lx_diags lx"
  "lx_jitMode (set_top s lx) = lx_jitMode lx" "lx_fault (set_top s lx) = lx_fault lx"
  by (simp_all add: set_top_def split: list.split)

end
