(* ===== verification/HC_Scan.thy ===== *)
theory HC_Scan
  imports HC_Source
begin

text \<open>
  The scanners that read one lexeme from the top source and need no other lexer state:
  literals (\<open>lexCharsInto\<close>), numbers (\<open>lexNumber\<close>), punctuators (the switch of \<open>lexToken\<close>),
  comments, the skipping of an inactive \<open>#if\<close> region and the text of an \<open>#exe\<close> block.
\<close>

definition peek_is :: "source \<Rightarrow> nat \<Rightarrow> char \<Rightarrow> bool" where
  "peek_is s k c \<longleftrightarrow> peekc s k = Some c"

definition peek_sat :: "source \<Rightarrow> nat \<Rightarrow> (char \<Rightarrow> bool) \<Rightarrow> bool" where
  "peek_sat s k p = (case peekc s k of None \<Rightarrow> False | Some c \<Rightarrow> p c)"

abbreviation c_nl :: char where "c_nl \<equiv> CHR 0x0A"
abbreviation c_dquote :: char where "c_dquote \<equiv> CHR 0x22"
abbreviation c_squote :: char where "c_squote \<equiv> CHR 0x27"
abbreviation c_bslash :: char where "c_bslash \<equiv> CHR 0x5C"

lemma len_skipc [consume_simps]: "length (src_rest (skipc s)) = length (src_rest s) - 1"
  by (simp add: src_rest_skipc)

lemma peek_is_nonempty: "peek_is s k c \<Longrightarrow> k < length (src_rest s)"
  by (auto simp: peek_is_def dest: peekc_Some_less)

subsection \<open>String and character literals\<close>

text \<open>The simple escapes of \<open>lexCharsInto\<close>; an unknown one stands for itself.\<close>

definition escape_char :: "char \<Rightarrow> char" where
  "escape_char e =
     (if e = CHR ''n'' then CHR 0x0A
      else if e = CHR ''t'' then CHR 0x09
      else if e = CHR ''r'' then CHR 0x0D
      else if e = CHR ''a'' then CHR 0x07
      else if e = CHR ''b'' then CHR 0x08
      else if e = CHR ''f'' then CHR 0x0C
      else if e = CHR ''v'' then CHR 0x0B
      else if e = CHR ''0'' then CHR 0x00
      else e)"

text \<open>At most \<open>k\<close> hexadecimal digits: value, how many were read, and the rest.\<close>

fun read_hex :: "nat \<Rightarrow> nat \<Rightarrow> source \<Rightarrow> nat \<times> nat \<times> source" where
  "read_hex 0 v s = (v, 0, s)"
| "read_hex (Suc k) v s =
     (case getc s of
        (None, _) \<Rightarrow> (v, 0, s)
      | (Some d, s') \<Rightarrow>
          if isxdigit d
          then (let (v', n, s'') = read_hex k (v * 16 + hexval d) s' in (v', Suc n, s''))
          else (v, 0, s))"

lemma read_hex_length: "length (src_rest (snd (snd (read_hex k v s)))) \<le> length (src_rest s)"
  by (induction k v s rule: read_hex.induct)
    (auto simp: case_prod_beta getc_def split: list.splits prod.splits if_splits)

definition lex_put :: "string \<Rightarrow> string list \<Rightarrow> string \<times> string list \<times> source
    \<Rightarrow> string \<times> string list \<times> source" where
  "lex_put t ms r = (case r of (t', ms', s) \<Rightarrow> (t @ t', ms @ ms', s))"

text \<open>The loop of \<open>lexCharsInto\<close>: decoded text, error messages in order, what is left.\<close>

function lexChars :: "char \<Rightarrow> source \<Rightarrow> string \<times> string list \<times> source" where
  "lexChars q s =
     (case getc s of
        (None, s1) \<Rightarrow> ([], [''unterminated literal''], s1)
      | (Some c, s1) \<Rightarrow>
          if c = q then ([], [], s1)
          else if c = CHR ''$''
          then lex_put ''$'' [] (lexChars q (if peek_is s1 0 (CHR ''$'') then skipc s1 else s1))
          else if c \<noteq> c_bslash then lex_put [c] [] (lexChars q s1)
          else (case getc s1 of
                  (None, s2) \<Rightarrow> ([], [''unterminated literal''], s2)
                | (Some e, s2) \<Rightarrow>
                    if e = CHR ''x''
                    then lex_put [char_of (fst (read_hex 2 0 s2))]
                           (if fst (snd (read_hex 2 0 s2)) = 0
                            then [c_bslash # ''x expects hex digits''] else [])
                           (lexChars q (snd (snd (read_hex 2 0 s2))))
                    else lex_put [escape_char e] [] (lexChars q s2)))"
  by pat_completeness auto
termination
  by (relation "measure (\<lambda>(q, s). length (src_rest s))")
    (auto simp: consume_simps dest!: getc_Some_len intro: le_less_trans [OF read_hex_length])

declare lexChars.simps [simp del]

definition lexCharsInto :: "char \<Rightarrow> source \<Rightarrow> string \<times> diag list \<times> source" where
  "lexCharsInto q s = (case lexChars q s of (t, ms, s') \<Rightarrow> (t, map (DError (here s)) ms, s'))"

subsection \<open>Numbers\<close>

definition read_digits :: "(char \<Rightarrow> bool) \<Rightarrow> source \<Rightarrow> string \<times> source" where
  "read_digits p s =
     (case span_src (\<lambda>c. p c \<or> c = CHR ''_'') s of (t, s') \<Rightarrow> (filter (\<lambda>c. c \<noteq> CHR ''_'') t, s'))"

definition is_exp_part :: "source \<Rightarrow> bool" where
  "is_exp_part s \<longleftrightarrow>
     (peek_is s 0 (CHR ''e'') \<or> peek_is s 0 (CHR ''E'')) \<and>
     (peek_sat s 1 isdigit \<or>
      ((peek_is s 1 (CHR ''+'') \<or> peek_is s 1 (CHR ''-'')) \<and> peek_sat s 2 isdigit))"

definition take_char :: "source \<Rightarrow> string" where
  "take_char s = (case peekc s 0 of None \<Rightarrow> [] | Some c \<Rightarrow> [c])"

definition lexNumber :: "source \<Rightarrow> token \<times> source" where
  "lexNumber s =
     (let t = token0\<lparr>tk_loc := here s\<rparr>
      in if peek_is s 0 (CHR ''0'') \<and> (peek_is s 1 (CHR ''x'') \<or> peek_is s 1 (CHR ''X''))
         then (case read_digits isxdigit (skipc (skipc s)) of
                 (num, s') \<Rightarrow> (t\<lparr>tk_kind := TkIntLit, tk_ival := strtoull 16 num\<rparr>, s'))
         else if peek_is s 0 (CHR ''0'') \<and> (peek_is s 1 (CHR ''b'') \<or> peek_is s 1 (CHR ''B''))
         then (case read_digits (\<lambda>c. c = CHR ''0'' \<or> c = CHR ''1'') (skipc (skipc s)) of
                 (num, s') \<Rightarrow> (t\<lparr>tk_kind := TkIntLit, tk_ival := strtoull 2 num\<rparr>, s'))
         else
           (let (num0, s0) = read_digits isdigit s;
                hasFrac = peek_is s0 0 (CHR ''.'') \<and> peek_sat s0 1 isdigit;
                (num1, s1) =
                  (if hasFrac
                   then (let (fr, s') = read_digits isdigit (skipc s0) in (num0 @ ''.'' @ fr, s'))
                   else (num0, s0));
                hasExp = is_exp_part s1;
                (num2, s2) =
                  (if hasExp
                   then (let (ds, s') = span_src isdigit (skipc (skipc s1))
                         in (num1 @ take_char s1 @ take_char (skipc s1) @ ds, s'))
                   else (num1, s1))
            in if hasFrac \<or> hasExp
               then (t\<lparr>tk_kind := TkFloatLit, tk_fval := strtod num2\<rparr>, s2)
               else (t\<lparr>tk_kind := TkIntLit, tk_ival := strtoull 10 num2\<rparr>, s2)))"

subsection \<open>Punctuators\<close>

definition two :: "char \<Rightarrow> punct \<Rightarrow> punct \<Rightarrow> source \<Rightarrow> punct \<times> source" where
  "two n yes no s = (if peek_is s 0 n then (yes, skipc s) else (no, s))"

text \<open>The switch at the end of \<open>lexToken\<close>: \<open>c\<close> has been consumed; \<open>None\<close> is its default.\<close>

definition lexPunct :: "char \<Rightarrow> source \<Rightarrow> (punct \<times> source) option" where
  "lexPunct c s =
     (if c = CHR ''('' then Some (PLParen, s)
      else if c = CHR '')'' then Some (PRParen, s)
      else if c = CHR ''['' then Some (PLBracket, s)
      else if c = CHR '']'' then Some (PRBracket, s)
      else if c = CHR ''{'' then Some (PLBrace, s)
      else if c = CHR ''}'' then Some (PRBrace, s)
      else if c = CHR '','' then Some (PComma, s)
      else if c = CHR '';'' then Some (PSemi, s)
      else if c = CHR ''?'' then Some (PQuestion, s)
      else if c = CHR ''$'' then Some (PDollar, s)
      else if c = CHR 0x60 then Some (PPow, s)
      else if c = CHR ''~'' then Some (PTilde, s)
      else if c = CHR '':'' then Some (two (CHR '':'') PColonColon PColon s)
      else if c = CHR ''.'' then
        Some (if peek_is s 0 (CHR ''.'') \<and> peek_is s 1 (CHR ''.'')
              then (PEllipsis, skipc (skipc s)) else (PDot, s))
      else if c = CHR ''+'' then
        Some (if peek_is s 0 (CHR ''+'') then (PPlusPlus, skipc s)
              else two (CHR ''='') PPlusEq PPlus s)
      else if c = CHR ''-'' then
        Some (if peek_is s 0 (CHR ''-'') then (PMinusMinus, skipc s)
              else if peek_is s 0 (CHR ''>'') then (PArrow, skipc s)
              else two (CHR ''='') PMinusEq PMinus s)
      else if c = CHR ''*'' then Some (two (CHR ''='') PStarEq PStar s)
      else if c = CHR ''/'' then Some (two (CHR ''='') PSlashEq PSlash s)
      else if c = CHR ''%'' then Some (two (CHR ''='') PPercentEq PPercent s)
      else if c = CHR ''!'' then Some (two (CHR ''='') PNe PNot s)
      else if c = CHR ''='' then Some (two (CHR ''='') PEqEq PAssign s)
      else if c = CHR ''&'' then
        Some (if peek_is s 0 (CHR ''&'') then (PAndAnd, skipc s)
              else two (CHR ''='') PAmpEq PAmp s)
      else if c = CHR ''|'' then
        Some (if peek_is s 0 (CHR ''|'') then (POrOr, skipc s)
              else two (CHR ''='') PPipeEq PPipe s)
      else if c = CHR ''^'' then
        Some (if peek_is s 0 (CHR ''^'') then (PXorXor, skipc s)
              else two (CHR ''='') PCaretEq PCaret s)
      else if c = CHR ''<'' then
        Some (if peek_is s 0 (CHR ''<'') then two (CHR ''='') PShlEq PShl (skipc s)
              else two (CHR ''='') PLe PLt s)
      else if c = CHR ''>'' then
        Some (if peek_is s 0 (CHR ''>'') then two (CHR ''='') PShrEq PShr (skipc s)
              else two (CHR ''='') PGe PGt s)
      else None)"

subsection \<open>One token\<close>

definition is_ident_char :: "char \<Rightarrow> bool" where
  "is_ident_char c \<longleftrightarrow> isalnum c \<or> c = CHR ''_'' \<or> c = CHR ''@''"

text \<open>The packed value of a character constant, first character in the low byte.\<close>

definition pack_chars :: "string \<Rightarrow> i64" where
  "pack_chars cs = foldr (\<lambda>c v. push_bit 8 v OR of_nat (byte c)) cs 0"

text \<open>
  \<open>lexToken\<close> up to its default branch: the token (\<open>None\<close> after a stray character, which has
  been consumed and reported), the diagnostics in order, and the source after it.
\<close>

definition lexTokenSrc :: "source \<Rightarrow> token option \<times> diag list \<times> source" where
  "lexTokenSrc s =
     (let t = token0\<lparr>tk_loc := here s\<rparr>
      in case getc s of
           (None, s1) \<Rightarrow> (None, [DError (here s) (''stray character '' @ [c_squote, CHR 0xFF, c_squote])], s1)
         | (Some c, s1) \<Rightarrow>
             if isalpha c \<or> c = CHR ''_'' \<or> c = CHR ''@''
             then (if c = CHR ''@'' \<and> \<not> peek_is s 1 (CHR ''@'')
                   then (Some (t\<lparr>tk_kind := TkPunct, tk_punct := PAt\<rparr>), [], s1)
                   else (case span_src is_ident_char s of
                           (txt, s') \<Rightarrow> (Some (t\<lparr>tk_kind := TkIdent, tk_text := txt\<rparr>), [], s')))
             else if isdigit c then (case lexNumber s of (n, s') \<Rightarrow> (Some n, [], s'))
             else if c = c_dquote
             then (case lexCharsInto c_dquote s1 of
                     (txt, ds, s') \<Rightarrow> (Some (t\<lparr>tk_kind := TkStrLit, tk_text := txt\<rparr>), ds, s'))
             else if c = c_squote
             then (case lexCharsInto c_squote s1 of
                     (txt, ds, s') \<Rightarrow>
                       (Some (t\<lparr>tk_kind := TkCharLit, tk_text := txt, tk_ival := pack_chars txt\<rparr>),
                        ds @ (if length txt > 8
                              then [DError (here s) ''char constant longer than 8 characters'']
                              else []), s'))
             else (case lexPunct c s1 of
                     Some (p, s') \<Rightarrow> (Some (t\<lparr>tk_kind := TkPunct, tk_punct := p\<rparr>), [], s')
                   | None \<Rightarrow> (None, [DError (here s) (''stray character '' @ [c_squote, c, c_squote])], s1)))"

subsection \<open>Comments, lines and inactive regions\<close>

text \<open>The inside of a block comment: was it closed, and what is left.\<close>

function skip_block :: "source \<Rightarrow> bool \<times> source" where
  "skip_block s =
     (if src_rest s = [] then (False, s)
      else if peek_is s 0 (CHR ''*'') \<and> peek_is s 1 (CHR ''/'') then (True, skipc (skipc s))
      else skip_block (skipc s))"
  by pat_completeness auto
termination
  by (relation "measure (\<lambda>s. length (src_rest s))") (auto simp: consume_simps)

declare skip_block.simps [simp del]

abbreviation to_eol :: "source \<Rightarrow> source" where
  "to_eol s \<equiv> snd (span_src (\<lambda>c. c \<noteq> c_nl) s)"

text \<open>\<open>skipToEndOfLine\<close>: the captured text (line splices become newlines) and the rest.\<close>

function skipToEndOfLine :: "source \<Rightarrow> string \<times> source" where
  "skipToEndOfLine s =
     (case getc s of
        (None, _) \<Rightarrow> ([], s)
      | (Some c, s1) \<Rightarrow>
          if c = c_bslash \<and> peek_is s 1 c_nl
          then (case skipToEndOfLine (skipc s1) of (t, s') \<Rightarrow> (c_nl # t, s'))
          else if c = c_nl then ([], s)
          else (case skipToEndOfLine s1 of (t, s') \<Rightarrow> (c # t, s')))"
  by pat_completeness auto
termination
  by (relation "measure (\<lambda>s. length (src_rest s))") (auto simp: consume_simps dest!: getc_Some_len)

declare skipToEndOfLine.simps [simp del]

lemma reads_read_hex: "reads s (snd (snd (read_hex k v s)))"
proof (induction k v s rule: read_hex.induct)
  case (2 k v s)
  obtain x s' where g: "getc s = (x, s')" by fastforce
  then have "reads s s'" by (rule reads_getc)
  with g "2.IH" [OF g [symmetric]] show ?case
    by (auto split: option.split simp: case_prod_beta intro: reads_trans)
qed simp

lemma reads_skip_block: "reads s (snd (skip_block s))"
proof (induction s rule: skip_block.induct)
  case (1 s)
  then show ?case
    by (subst skip_block.simps) (auto intro: reads_skipcI reads_trans [OF reads_skipc])
qed

lemma reads_skipToEndOfLine: "reads s (snd (skipToEndOfLine s))"
proof (induction s rule: skipToEndOfLine.induct)
  case (1 s)
  show ?case
  proof (cases "getc s")
    case (Pair x s1)
    then have s1: "reads s s1" by (rule reads_getc)
    show ?thesis
    proof (cases x)
      case None
      with Pair show ?thesis by (subst skipToEndOfLine.simps) simp
    next
      case (Some c)
      with Pair "1.IH" s1 show ?thesis
        by (subst skipToEndOfLine.simps)
          (auto simp: case_prod_beta intro: reads_trans [OF reads_skipcI] reads_trans)
    qed
  qed
qed

lemma reads_lexChars: "reads s (snd (snd (lexChars q s)))"
proof (induction q s rule: lexChars.induct)
  case (1 q s)
  show ?case
  proof (cases "getc s")
    case (Pair x s1)
    then have s1: "reads s s1" by (rule reads_getc)
    show ?thesis
    proof (cases x)
      case None
      with Pair s1 show ?thesis by (subst lexChars.simps) simp
    next
      case (Some c)
      obtain y s2 where g2: "getc s1 = (y, s2)" by fastforce
      then have s2: "reads s s2" using s1 by (blast intro: reads_trans reads_getc)
      then have s3: "reads s (snd (snd (read_hex 2 0 s2)))"
        by (blast intro: reads_trans reads_read_hex)
      note IH = "1.IH" [OF Pair [symmetric] Some]
      show ?thesis
        using IH Pair Some s1 s2 s3 g2
        by (subst lexChars.simps)
          (auto simp: lex_put_def case_prod_beta split: option.splits
            intro: reads_trans [OF reads_skipcI] reads_trans)
    qed
  qed
qed


lemma reads_lexCharsInto: "reads s (snd (snd (lexCharsInto q s)))"
  using reads_lexChars [of s q] by (simp add: lexCharsInto_def case_prod_beta)

text \<open>
  \<open>skipCondBlockLine\<close>: what it reports and what is left. At a quote the code calls
  \<open>lexCharsInto\<close> without having consumed the opening quote.
\<close>

function skipCondBlockLine :: "source \<Rightarrow> diag list \<times> source" where
  "skipCondBlockLine s =
     (case peekc s 0 of
        None \<Rightarrow> ([], s)
      | Some c \<Rightarrow>
          if c = CHR ''#'' then ([], s)
          else if c = CHR ''/'' \<and> peek_is s 1 (CHR ''/'') then skipCondBlockLine (to_eol s)
          else if c = CHR ''/'' \<and> peek_is s 1 (CHR ''*'')
          then skipCondBlockLine (snd (skip_block (skipc (skipc s))))
          else if c = c_dquote \<or> c = c_squote
          then (case skipCondBlockLine (snd (snd (lexCharsInto c s))) of
                  (ds, s') \<Rightarrow> (fst (snd (lexCharsInto c s)) @ ds, s'))
          else if c = c_nl then ([], skipc s)
          else skipCondBlockLine (skipc s))"
  by pat_completeness auto

text \<open>The first call of \<open>getc\<close> in \<open>lexCharsInto\<close> sees the quote itself.\<close>

lemma lexChars_at_quote: "src_rest s = q # cs \<Longrightarrow> lexChars q s = ([], [], skipc s)"
  by (subst lexChars.simps) (simp add: getc_def)

lemma lexCharsInto_at_quote: "src_rest s = q # cs \<Longrightarrow> lexCharsInto q s = ([], [], skipc s)"
  by (simp add: lexCharsInto_def lexChars_at_quote)

lemma skipc_less: "src_rest s \<noteq> [] \<Longrightarrow> length (src_rest (skipc s)) < length (src_rest s)"
  by (cases "src_rest s") (simp_all add: src_rest_skipc)

lemma to_eol_less:
  "peekc s 0 = Some c \<Longrightarrow> c \<noteq> c_nl \<Longrightarrow> length (src_rest (to_eol s)) < length (src_rest s)"
  by (cases "src_rest s")
    (auto simp: span_src_rest peekc_0 length_dropWhile_le less_Suc_eq_le)

termination skipCondBlockLine
proof (relation "measure (\<lambda>s. length (src_rest s))", goal_cases)
  case (2 s c)
  then show ?case using to_eol_less [of s c] by simp
next
  case (3 s c)
  then have "src_rest s \<noteq> []" by (auto simp: peekc_0)
  moreover have "length (src_rest (snd (skip_block (skipc (skipc s))))) \<le> length (src_rest (skipc s))"
    by (rule reads_length) (blast intro: reads_trans reads_skip_block)
  ultimately show ?case using skipc_less [of s] by simp
next
  case (4 s c)
  then obtain cs where "src_rest s = c # cs" by (auto simp: peekc_0 split: list.splits)
  then show ?case by (simp add: lexCharsInto_at_quote src_rest_skipc)
qed (auto simp: peekc_0 src_rest_skipc split: list.splits)

declare skipCondBlockLine.simps [simp del]

lemma reads_skipCondBlockLine: "reads s (snd (skipCondBlockLine s))"
proof (induction s rule: skipCondBlockLine.induct)
  case (1 s)
  show ?case
  proof (cases "peekc s 0")
    case None
    then show ?thesis by (subst skipCondBlockLine.simps) simp
  next
    case (Some c)
    note IH = "1.IH" [OF Some]
    have "reads s (snd (skip_block (skipc (skipc s))))"
      by (blast intro: reads_trans reads_skip_block)
    then show ?thesis using IH Some reads_span_src [of s] reads_lexCharsInto [of s c]
      by (subst skipCondBlockLine.simps)
        (auto simp: case_prod_beta intro: reads_trans reads_trans [OF reads_skipc])
  qed
qed

subsection \<open>The text of an \<open>#exe\<close> block\<close>

definition consumed :: "source \<Rightarrow> source \<Rightarrow> string" where
  "consumed s s' = take (length (src_rest s) - length (src_rest s')) (src_rest s)"

text \<open>
  The second loop of \<open>handleExeBlock\<close>, at brace depth \<open>d > 0\<close>: the body text, whether the
  closing brace was found, the diagnostics of literals inside, and the source after it.
\<close>

function exe_scan :: "nat \<Rightarrow> source \<Rightarrow> string \<times> bool \<times> diag list \<times> source" where
  "exe_scan d s =
     (case peekc s 0 of
        None \<Rightarrow> ([], False, [], s)
      | Some c \<Rightarrow>
          if c = c_dquote \<or> c = c_squote
          then (let (_, ds1, s1) = lexCharsInto c (skipc s);
                    (b, ok, ds, s') = exe_scan d s1
                in (consumed s s1 @ b, ok, ds1 @ ds, s'))
          else if c = CHR ''/'' \<and> peek_is s 1 (CHR ''/'')
          then (let (b, ok, ds, s') = exe_scan d (to_eol s)
                in (consumed s (to_eol s) @ b, ok, ds, s'))
          else if c = CHR ''}'' \<and> d \<le> 1 then ([], True, [], skipc s)
          else (let (b, ok, ds, s') =
                  exe_scan (if c = CHR ''{'' then Suc d else if c = CHR ''}'' then d - 1 else d) (skipc s)
                in (c # b, ok, ds, s')))"
  by pat_completeness auto
termination
proof (relation "measure (\<lambda>(d, s). length (src_rest s))", goal_cases)
  case (2 d s c x y z ds1 s1)
  then have "snd (snd (lexCharsInto c (skipc s))) = s1" by (metis snd_conv)
  then have "length (src_rest s1) \<le> length (src_rest (skipc s))"
    using reads_length [OF reads_lexCharsInto [of "skipc s" c]] by simp
  moreover have "src_rest s \<noteq> []" using 2 by (auto simp: peekc_0)
  ultimately show ?case using skipc_less [of s] by simp
next
  case (3 d s c)
  then show ?case using to_eol_less [of s c] by simp
qed (auto simp: peekc_0 src_rest_skipc split: list.splits)

declare exe_scan.simps [simp del]

end
