(* ===== verification/HC_Arith.thy ===== *)
theory HC_Arith
  imports HC_Tokens
begin

text \<open>
  What the three constant evaluators of the compiler share (\<open>CondEval\<close> in \<open>lexer.cpp\<close>,
  \<open>evalConstI64\<close> in \<open>parser.cpp\<close>, \<open>evalConst\<close> in \<open>codegen.cpp\<close>): the power loop and facts
  about signed 64-bit arithmetic; and the totality predicate for readers with fuel.
\<close>

subsection \<open>Signed words\<close>

lemma sint_word_of_int_64: "- (2 ^ 63) \<le> i \<Longrightarrow> i < 2 ^ 63 \<Longrightarrow> sint (word_of_int i :: i64) = i"
  by (simp add: sint_sbintrunc' signed_take_bit_int_eq_self)

lemma sint_range_64: "- (2 ^ 63) \<le> sint (v :: i64)" "sint (v :: i64) < 2 ^ 63"
  using sint_ge [of v] sint_lt [of v] by simp_all

lemma sint_dec: "0 < sint (e :: i64) \<Longrightarrow> sint (e - 1) = sint e - 1"
proof -
  assume "0 < sint e"
  have "sint (e - 1) = sint (word_of_int (sint e - 1) :: i64)" by simp
  also have "\<dots> = sint e - 1"
    using \<open>0 < sint e\<close> sint_range_64 [of e] by (intro sint_word_of_int_64) simp_all
  finally show ?thesis .
qed

lemma slt_0_iff: "slt 0 e \<longleftrightarrow> 0 < sint e"
  by (simp add: slt_def)

subsection \<open>The power loop\<close>

text \<open>\<open>r = 1; while (e-- > 0) r *= a;\<close> with \<open>int64_t\<close> multiplication wrapping.\<close>

function pow_loop :: "i64 \<Rightarrow> i64 \<Rightarrow> i64 \<Rightarrow> i64" where
  "pow_loop r a e = (if slt 0 e then pow_loop (r * a) a (e - 1) else r)"
  by pat_completeness auto
termination
  by (relation "measure (\<lambda>(r, a, e). nat (sint e))") (auto simp: slt_0_iff sint_dec)

declare pow_loop.simps [simp del]

lemma pow_loop_eq: "pow_loop r a e = r * a ^ nat (sint e)"
proof (induction r a e rule: pow_loop.induct)
  case (1 r a e)
  show ?case
  proof (cases "slt 0 e")
    case True
    then have pos: "0 < sint e" by (simp add: slt_0_iff)
    then have "nat (sint e) = Suc (nat (sint e - 1))" by simp
    with 1 True pos show ?thesis
      by (subst pow_loop.simps) (simp add: sint_dec ac_simps)
  next
    case False
    then show ?thesis by (subst pow_loop.simps) (simp add: slt_0_iff)
  qed
qed

subsection \<open>Readers with fuel\<close>

text \<open>
  A reader takes a state, returns \<^const>\<open>None\<close> when its fuel ran out, and otherwise a value and
  the state after it. \<open>total_upto sz n p\<close>: on every state smaller than \<open>n\<close> the reader returns,
  and leaves no more than it was given.
\<close>

definition total_upto :: "('s \<Rightarrow> nat) \<Rightarrow> nat \<Rightarrow> ('s \<Rightarrow> ('a \<times> 's) option) \<Rightarrow> bool" where
  "total_upto sz n p \<longleftrightarrow> (\<forall>s. sz s < n \<longrightarrow> (\<exists>x s'. p s = Some (x, s') \<and> sz s' \<le> sz s))"

lemma total_uptoI:
  "(\<And>s. sz s < n \<Longrightarrow> \<exists>x s'. p s = Some (x, s') \<and> sz s' \<le> sz s) \<Longrightarrow> total_upto sz n p"
  by (simp add: total_upto_def)

lemma total_uptoE:
  assumes "total_upto sz n p" and "sz s < n"
  obtains x s' where "p s = Some (x, s')" and "sz s' \<le> sz s"
  using assms by (auto simp: total_upto_def)

lemma total_upto_mono: "total_upto sz n p \<Longrightarrow> m \<le> n \<Longrightarrow> total_upto sz m p"
  by (auto simp: total_upto_def)

text \<open>\<open>returns m Q\<close>: the reader returned, and what it returned satisfies \<open>Q\<close>.\<close>

definition returns :: "('a \<times> 's) option \<Rightarrow> ('a \<Rightarrow> 's \<Rightarrow> bool) \<Rightarrow> bool" where
  "returns m Q \<longleftrightarrow> (case m of None \<Rightarrow> False | Some (x, s) \<Rightarrow> Q x s)"

lemma returns_simps [simp]:
  "returns None Q = False"
  "returns (Some (x, s)) Q = Q x s"
  "returns (Option.bind m f) Q = returns m (\<lambda>x s. returns (f (x, s)) Q)"
  by (auto simp: returns_def split: option.splits prod.splits)

lemma returns_Some_pair [simp]: "returns (Some r) Q = Q (fst r) (snd r)"
  by (cases r) simp

lemma returns_if [simp]: "returns (if b then m else m') Q = (if b then returns m Q else returns m' Q)"
  by simp

lemma returns_mono: "returns m P \<Longrightarrow> (\<And>x s. P x s \<Longrightarrow> Q x s) \<Longrightarrow> returns m Q"
  by (auto simp: returns_def split: option.splits)

lemma returnsE:
  assumes "returns m Q"
  obtains x s where "m = Some (x, s)" and "Q x s"
  using assms by (auto simp: returns_def split: option.splits)

text \<open>More fuel keeps a result: \<open>extends p q\<close>, \<open>q\<close> agrees with \<open>p\<close> wherever \<open>p\<close> returns.\<close>

definition extends :: "('s \<Rightarrow> 'a option) \<Rightarrow> ('s \<Rightarrow> 'a option) \<Rightarrow> bool" where
  "extends p q \<longleftrightarrow> (\<forall>s r. p s = Some r \<longrightarrow> q s = Some r)"

lemma extendsD: "extends p q \<Longrightarrow> p s = Some r \<Longrightarrow> q s = Some r"
  by (simp add: extends_def)

lemma extends_refl [simp]: "extends p p"
  by (simp add: extends_def)

end
