(* ===== verification/HC_CondEval.thy ===== *)
theory HC_CondEval
  imports HC_Arith
begin

text \<open>
  The evaluator of \<open>#if\<close> and \<open>#assert\<close> expressions (\<open>struct CondEval\<close> of \<open>lexer.cpp\<close>). The state
  is the unread part of the token vector with the \<open>err\<close> flag. Every tier of the code is the same
  loop over its own operators, \<open>ce_loop\<close>. A macro with a longer body is evaluated by a new
  evaluator whose errors are dropped; a macro that reaches itself this way recurses without end,
  which \<open>ce_fault\<close> records (as it does a trapping division).
\<close>

type_synonym macro_map = "(string \<times> token list) list"

record ce =
  ce_rest :: "token list"
  ce_err :: bool
  ce_fault :: bool

type_synonym ce_reader = "ce \<Rightarrow> (i64 \<times> ce) option"

definition tokIsInt :: "token \<Rightarrow> bool" where
  "tokIsInt t \<longleftrightarrow> tk_kind t = TkIntLit \<or> tk_kind t = TkCharLit"

definition ce_size :: "ce \<Rightarrow> nat" where
  "ce_size s = length (ce_rest s)"

definition ce_drop :: "ce \<Rightarrow> ce" where
  "ce_drop s = s\<lparr>ce_rest := tl (ce_rest s)\<rparr>"

definition ce_at :: "ce \<Rightarrow> punct \<Rightarrow> bool" where
  "ce_at s p = (case ce_rest s of [] \<Rightarrow> False | t # _ \<Rightarrow> tok_is t p)"

definition eatP :: "punct \<Rightarrow> ce \<Rightarrow> bool \<times> ce" where
  "eatP p s = (if ce_at s p then (True, ce_drop s) else (False, s))"

definition ce_fail :: "ce \<Rightarrow> ce" where
  "ce_fail s = s\<lparr>ce_err := True\<rparr>"

text \<open>
  \<open>primary\<close>: \<open>sub\<close> evaluates a macro body with a new evaluator (value, and whether that
  faulted), \<open>pe\<close> is the recursive call of \<open>expr\<close>.
\<close>

definition ce_defined :: "macro_map \<Rightarrow> ce \<Rightarrow> i64 \<times> ce" where
  "ce_defined m s =
     (let (paren, s1) = eatP PLParen (ce_drop s)
      in case ce_rest s1 of
           t # _ \<Rightarrow>
             if tk_kind t = TkIdent
             then (let v = b2i (has_key m (tk_text t)); s2 = ce_drop s1
                   in if paren
                      then (let (close, s3) = eatP PRParen s2
                            in (v, if close then s3 else ce_fail s3))
                      else (v, s2))
             else (0, ce_fail s1)
         | [] \<Rightarrow> (0, ce_fail s1))"

definition ce_macro :: "(token list \<Rightarrow> (i64 \<times> bool) option) \<Rightarrow> macro_map \<Rightarrow> string \<Rightarrow> ce \<Rightarrow> (i64 \<times> ce) option" where
  "ce_macro sub m name s =
     (case map_of m name of
        None \<Rightarrow> Some (0, s)
      | Some body \<Rightarrow>
          if length body = 1 \<and> tokIsInt (hd body) then Some (tk_ival (hd body), s)
          else if body \<noteq> []
          then do { (v, f) \<leftarrow> sub body; Some (v, s\<lparr>ce_fault := ce_fault s \<or> f\<rparr>) }
          else Some (0, s))"

definition ce_primary :: "(token list \<Rightarrow> (i64 \<times> bool) option) \<Rightarrow> macro_map \<Rightarrow> ce_reader \<Rightarrow> ce_reader" where
  "ce_primary sub m pe s =
     (case ce_rest s of
        [] \<Rightarrow> Some (0, ce_fail s)
      | t # _ \<Rightarrow>
          if tokIsInt t then Some (tk_ival t, ce_drop s)
          else if tk_kind t = TkFloatLit then Some (f64_to_i64 (tk_fval t), ce_drop s)
          else if tk_kind t = TkIdent \<and> tk_text t = ''defined'' then Some (ce_defined m s)
          else if tk_kind t = TkIdent then ce_macro sub m (tk_text t) (ce_drop s)
          else if ce_at s PLParen
          then do {
            (v, s1) \<leftarrow> pe (ce_drop s);
            let (close, s2) = eatP PRParen s1;
            Some (v, if close then s2 else ce_fail s2)
          }
          else Some (0, ce_fail s))"

fun ce_unary :: "(token list \<Rightarrow> (i64 \<times> bool) option) \<Rightarrow> macro_map \<Rightarrow> ce_reader \<Rightarrow> nat \<Rightarrow> ce_reader" where
  "ce_unary sub m pe 0 s = None"
| "ce_unary sub m pe (Suc n) s =
     (if ce_at s PMinus
      then do { (v, s') \<leftarrow> ce_unary sub m pe n (ce_drop s); Some (- v, s') }
      else if ce_at s PPlus then ce_unary sub m pe n (ce_drop s)
      else if ce_at s PNot
      then do { (v, s') \<leftarrow> ce_unary sub m pe n (ce_drop s); Some (b2i (v = 0), s') }
      else if ce_at s PTilde
      then do { (v, s') \<leftarrow> ce_unary sub m pe n (ce_drop s); Some (NOT v, s') }
      else ce_primary sub m pe s)"

text \<open>
  One tier: while the next token is one of the tier's operators, read an operand of the tier
  above and combine. An operator gives the value, whether it is an error (division by zero) and
  whether it traps.
\<close>

type_synonym ce_ops = "punct \<Rightarrow> (i64 \<Rightarrow> i64 \<Rightarrow> i64 \<times> bool \<times> bool) option"

definition ce_op_at :: "ce_ops \<Rightarrow> ce \<Rightarrow> (i64 \<Rightarrow> i64 \<Rightarrow> i64 \<times> bool \<times> bool) option" where
  "ce_op_at ops s = (case ce_rest s of [] \<Rightarrow> None
     | t # _ \<Rightarrow> if tk_kind t = TkPunct then ops (tk_punct t) else None)"

fun ce_loop :: "nat \<Rightarrow> ce_ops \<Rightarrow> ce_reader \<Rightarrow> i64 \<Rightarrow> ce \<Rightarrow> (i64 \<times> ce) option" where
  "ce_loop 0 ops sub v s = None"
| "ce_loop (Suc n) ops sub v s =
     (case ce_op_at ops s of
        None \<Rightarrow> Some (v, s)
      | Some f \<Rightarrow> do {
          (r, s1) \<leftarrow> sub (ce_drop s);
          let (v', e, flt) = f v r;
          ce_loop n ops sub v' (s1\<lparr>ce_err := ce_err s1 \<or> e, ce_fault := ce_fault s1 \<or> flt\<rparr>)
        })"

definition ce_tier :: "nat \<Rightarrow> ce_ops \<Rightarrow> ce_reader \<Rightarrow> ce_reader" where
  "ce_tier n ops sub s = do { (v, s1) \<leftarrow> sub s; ce_loop n ops sub v s1 }"

abbreviation pure_op :: "(i64 \<Rightarrow> i64 \<Rightarrow> i64) \<Rightarrow> (i64 \<Rightarrow> i64 \<Rightarrow> i64 \<times> bool \<times> bool) option" where
  "pure_op f \<equiv> Some (\<lambda>v r. (f v r, False, False))"

text \<open>The shift counts are used as they are; the target's shifts take them modulo 64.\<close>

definition ops_tier1 :: ce_ops where
  "ops_tier1 p = (case p of PShl \<Rightarrow> pure_op shl64 | PShr \<Rightarrow> pure_op sar64
     | PPow \<Rightarrow> pure_op (\<lambda>v e. pow_loop 1 v e) | _ \<Rightarrow> None)"

definition ops_tier2 :: ce_ops where
  "ops_tier2 p = (case p of PStar \<Rightarrow> pure_op (*)
     | PSlash \<Rightarrow> Some (\<lambda>v d. if d = 0 then (0, True, False) else (sdiv64 v d, False, div_traps v d))
     | PPercent \<Rightarrow> Some (\<lambda>v d. if d = 0 then (0, True, False) else (smod64 v d, False, div_traps v d))
     | _ \<Rightarrow> None)"

definition ops_tierAnd :: ce_ops where
  "ops_tierAnd p = (case p of PAmp \<Rightarrow> pure_op (AND) | _ \<Rightarrow> None)"

definition ops_tierXor :: ce_ops where
  "ops_tierXor p = (case p of PCaret \<Rightarrow> pure_op (XOR) | _ \<Rightarrow> None)"

definition ops_tierOr :: ce_ops where
  "ops_tierOr p = (case p of PPipe \<Rightarrow> pure_op (OR) | _ \<Rightarrow> None)"

definition ops_tierAdd :: ce_ops where
  "ops_tierAdd p = (case p of PPlus \<Rightarrow> pure_op (+) | PMinus \<Rightarrow> pure_op (-) | _ \<Rightarrow> None)"

definition ops_tierRel :: ce_ops where
  "ops_tierRel p = (case p of PLt \<Rightarrow> pure_op (\<lambda>v r. b2i (slt v r)) | PGt \<Rightarrow> pure_op (\<lambda>v r. b2i (slt r v))
     | PLe \<Rightarrow> pure_op (\<lambda>v r. b2i (sle v r)) | PGe \<Rightarrow> pure_op (\<lambda>v r. b2i (sle r v)) | _ \<Rightarrow> None)"

definition ops_tierEq :: ce_ops where
  "ops_tierEq p = (case p of PEqEq \<Rightarrow> pure_op (\<lambda>v r. b2i (v = r)) | PNe \<Rightarrow> pure_op (\<lambda>v r. b2i (v \<noteq> r))
     | _ \<Rightarrow> None)"

definition ops_tierLAnd :: ce_ops where
  "ops_tierLAnd p = (case p of PAndAnd \<Rightarrow> pure_op (\<lambda>v r. b2i (v \<noteq> 0 \<and> r \<noteq> 0)) | _ \<Rightarrow> None)"

definition ops_tierLXor :: ce_ops where
  "ops_tierLXor p = (case p of PXorXor \<Rightarrow> pure_op (\<lambda>v r. b2i ((v \<noteq> 0) \<noteq> (r \<noteq> 0))) | _ \<Rightarrow> None)"

definition ops_tierLOr :: ce_ops where
  "ops_tierLOr p = (case p of POrOr \<Rightarrow> pure_op (\<lambda>v r. b2i (v \<noteq> 0 \<or> r \<noteq> 0)) | _ \<Rightarrow> None)"

text \<open>The tiers, tightest first, and \<open>expr\<close>, the loosest one.\<close>

definition ce_tiers :: "ce_ops list" where
  "ce_tiers = [ops_tier1, ops_tier2, ops_tierAnd, ops_tierXor, ops_tierOr, ops_tierAdd,
     ops_tierRel, ops_tierEq, ops_tierLAnd, ops_tierLXor, ops_tierLOr]"

fun ce_expr :: "(token list \<Rightarrow> (i64 \<times> bool) option) \<Rightarrow> macro_map \<Rightarrow> nat \<Rightarrow> ce_reader" where
  "ce_expr sub m 0 s = None"
| "ce_expr sub m (Suc n) s =
     foldl (\<lambda>p ops. ce_tier (Suc n) ops p) (ce_unary sub m (ce_expr sub m n) (Suc n)) ce_tiers s"

text \<open>
  A new evaluator over a token vector. At most \<open>d\<close> evaluators may be nested; a nesting deeper
  than the number of macros has met some macro twice and never ends.
\<close>

fun ce_sub :: "macro_map \<Rightarrow> nat \<Rightarrow> token list \<Rightarrow> (i64 \<times> bool) option" where
  "ce_sub m 0 ts = Some (0, True)"
| "ce_sub m (Suc d) ts =
     do { (v, s) \<leftarrow> ce_expr (ce_sub m d) m (Suc (length ts))
                      \<lparr>ce_rest = ts, ce_err = False, ce_fault = False\<rparr>;
          Some (v, ce_fault s) }"

text \<open>\<open>CondEval ev{toks, 0, this, macros_}; v = ev.expr();\<close> with the final evaluator.\<close>

definition condEval :: "macro_map \<Rightarrow> token list \<Rightarrow> (i64 \<times> ce) option" where
  "condEval m ts =
     ce_expr (ce_sub m (Suc (length m))) m (Suc (length ts))
       \<lparr>ce_rest = ts, ce_err = False, ce_fault = False\<rparr>"

subsection \<open>Evaluation always returns\<close>

lemma ce_size_drop [consume_simps]: "ce_size (ce_drop s) = ce_size s - 1"
  by (simp add: ce_size_def ce_drop_def)

lemma ce_size_fail [consume_simps]: "ce_size (ce_fail s) = ce_size s"
  by (simp add: ce_size_def ce_fail_def)

lemma ce_size_upd [consume_simps]:
  "ce_size (s\<lparr>ce_err := e\<rparr>) = ce_size s" "ce_size (s\<lparr>ce_fault := f\<rparr>) = ce_size s"
  "ce_size (s\<lparr>ce_err := e, ce_fault := f\<rparr>) = ce_size s"
  by (simp_all add: ce_size_def)

lemma ce_size_eatP: "eatP p s = (b, s') \<Longrightarrow> ce_size s' \<le> ce_size s"
  by (auto simp: eatP_def consume_simps split: if_splits)

lemma ce_at_size: "ce_at s p \<Longrightarrow> 0 < ce_size s"
  by (auto simp: ce_at_def ce_size_def split: list.splits)

lemma ce_op_at_size: "ce_op_at ops s = Some f \<Longrightarrow> 0 < ce_size s"
  by (auto simp: ce_op_at_def ce_size_def split: list.splits)

lemma ce_defined_size: "ce_size (snd (ce_defined m s)) \<le> ce_size s"
  by (auto simp: ce_defined_def Let_def consume_simps eatP_def split: list.split prod.split)

lemma ce_macro_total:
  assumes "\<forall>ts. sub ts \<noteq> None"
  shows "\<exists>v s'. ce_macro sub m name s = Some (v, s') \<and> ce_size s' \<le> ce_size s"
proof (cases "map_of m name")
  case (Some body)
  from assms obtain v f where "sub body = Some (v, f)" by (metis not_None_eq prod.exhaust)
  with Some show ?thesis by (simp add: ce_macro_def consume_simps)
qed (simp add: ce_macro_def)

lemma ce_primary_total:
  assumes sub: "\<forall>ts. sub ts \<noteq> None" and pe: "total_upto ce_size n pe"
  shows "total_upto ce_size (Suc n) (ce_primary sub m pe)"
proof (rule total_uptoI)
  fix s :: ce assume sz: "ce_size s < Suc n"
  show "\<exists>v s'. ce_primary sub m pe s = Some (v, s') \<and> ce_size s' \<le> ce_size s"
  proof (cases "ce_rest s")
    case Nil
    then show ?thesis by (simp add: ce_primary_def consume_simps)
  next
    case (Cons t ts)
    then have "ce_size (ce_drop s) < n" "ce_size (ce_drop s) \<le> ce_size s"
      using sz by (simp_all add: ce_size_def ce_drop_def)
    with pe obtain v s1 where "pe (ce_drop s) = Some (v, s1)" "ce_size s1 \<le> ce_size s"
      by (metis total_uptoE order.trans)
    then have paren: "\<exists>v s'. do { (v, s1) \<leftarrow> pe (ce_drop s); let (close, s2) = eatP PRParen s1;
        Some (v, if close then s2 else ce_fail s2) } = Some (v, s') \<and> ce_size s' \<le> ce_size s"
      by (auto simp: eatP_def consume_simps)
    have def: "\<exists>v s'. Some (ce_defined m s) = Some (v, s') \<and> ce_size s' \<le> ce_size s"
      using ce_defined_size [of m s] by (cases "ce_defined m s") simp
    have macro: "\<exists>v s'. ce_macro sub m (tk_text t) (ce_drop s) = Some (v, s') \<and> ce_size s' \<le> ce_size s"
      using ce_macro_total [OF sub, of m "tk_text t" "ce_drop s"] \<open>ce_size (ce_drop s) \<le> ce_size s\<close>
      by (meson order.trans)
    show ?thesis
      using paren def macro \<open>ce_size (ce_drop s) \<le> ce_size s\<close> Cons
      by (simp add: ce_primary_def consume_simps)
  qed
qed

lemma ce_unary_total:
  assumes "\<forall>ts. sub ts \<noteq> None" and "total_upto ce_size n pe"
  shows "k \<le> Suc n \<Longrightarrow> total_upto ce_size k (ce_unary sub m pe k)"
proof (induction k)
  case 0
  show ?case by (simp add: total_upto_def)
next
  case (Suc k)
  show ?case
  proof (rule total_uptoI)
    fix s :: ce assume sz: "ce_size s < Suc k"
    have prim: "\<exists>v s'. ce_primary sub m pe s = Some (v, s') \<and> ce_size s' \<le> ce_size s"
      using ce_primary_total [OF assms] sz Suc.prems by (auto simp: total_upto_def)
    show "\<exists>v s'. ce_unary sub m pe (Suc k) s = Some (v, s') \<and> ce_size s' \<le> ce_size s"
    proof (cases "ce_at s PMinus \<or> ce_at s PPlus \<or> ce_at s PNot \<or> ce_at s PTilde")
      case True
      then have "0 < ce_size s" by (auto dest: ce_at_size)
      then have "ce_size (ce_drop s) < k" "ce_size (ce_drop s) \<le> ce_size s"
        using sz by (simp_all add: consume_simps)
      moreover have "total_upto ce_size k (ce_unary sub m pe k)" using Suc by simp
      ultimately obtain v s1 where
        "ce_unary sub m pe k (ce_drop s) = Some (v, s1)" "ce_size s1 \<le> ce_size s"
        by (metis total_uptoE order.trans)
      then show ?thesis using True by auto
    qed (use prim in simp)
  qed
qed

lemma ce_loop_total:
  assumes "total_upto ce_size n sub"
  shows "ce_size s < k \<Longrightarrow> k \<le> n \<Longrightarrow> \<exists>w s'. ce_loop k ops sub v s = Some (w, s') \<and> ce_size s' \<le> ce_size s"
proof (induction k arbitrary: v s)
  case (Suc k)
  show ?case
  proof (cases "ce_op_at ops s")
    case (Some f)
    then have pos: "0 < ce_size s" by (rule ce_op_at_size)
    with Suc.prems assms obtain r s1 where
      s1: "sub (ce_drop s) = Some (r, s1)" "ce_size s1 \<le> ce_size (ce_drop s)"
      by (metis total_uptoE ce_size_drop diff_less less_trans less_le_trans zero_less_one)
    obtain v' e flt where f: "f v r = (v', e, flt)" by (metis prod_cases3)
    from s1 pos Suc.prems have
      "ce_size (s1\<lparr>ce_err := ce_err s1 \<or> e, ce_fault := ce_fault s1 \<or> flt\<rparr>) < k"
      by (simp add: consume_simps)
    from Suc.IH [OF this, of v'] Suc.prems s1 f Some show ?thesis
      by (fastforce simp: consume_simps)
  qed simp
qed simp

lemma ce_tier_total: "total_upto ce_size n sub \<Longrightarrow> total_upto ce_size n (ce_tier n ops sub)"
proof (rule total_uptoI)
  fix s assume sub: "total_upto ce_size n sub" and "ce_size s < n"
  then obtain v s1 where s1: "sub s = Some (v, s1)" "ce_size s1 \<le> ce_size s"
    by (rule total_uptoE)
  with \<open>ce_size s < n\<close> have "ce_size s1 < n" by simp
  from ce_loop_total [OF sub this order.refl, of ops v] s1
  show "\<exists>x s'. ce_tier n ops sub s = Some (x, s') \<and> ce_size s' \<le> ce_size s"
    by (auto simp: ce_tier_def intro: order.trans)
qed

lemma ce_foldl_total:
  "total_upto ce_size n p \<Longrightarrow> total_upto ce_size n (foldl (\<lambda>p ops. ce_tier n ops p) p tiers)"
  by (induction tiers arbitrary: p) (simp_all add: ce_tier_total)

lemma ce_expr_total: "\<forall>ts. sub ts \<noteq> None \<Longrightarrow> total_upto ce_size n (ce_expr sub m n)"
proof (induction n)
  case (Suc n)
  then have "total_upto ce_size (Suc n)
      (foldl (\<lambda>p ops. ce_tier (Suc n) ops p) (ce_unary sub m (ce_expr sub m n) (Suc n)) ce_tiers)"
    by (intro ce_foldl_total ce_unary_total) auto
  then show ?case by (simp add: total_upto_def)
qed (simp add: total_upto_def)

lemma ce_sub_total: "ce_sub m d ts \<noteq> None"
proof (induction d arbitrary: ts)
  case (Suc d)
  then have "total_upto ce_size (Suc (length ts)) (ce_expr (ce_sub m d) m (Suc (length ts)))"
    by (intro ce_expr_total) blast
  then obtain v s where "ce_expr (ce_sub m d) m (Suc (length ts))
      \<lparr>ce_rest = ts, ce_err = False, ce_fault = False\<rparr> = Some (v, s)"
    by (rule total_uptoE [where s = "\<lparr>ce_rest = ts, ce_err = False, ce_fault = False\<rparr>"])
      (auto simp: ce_size_def)
  then show ?case by simp
qed simp

lemma condEval_total: "\<exists>v s. condEval m ts = Some (v, s)"
proof -
  have "total_upto ce_size (Suc (length ts)) (ce_expr (ce_sub m (Suc (length m))) m (Suc (length ts)))"
    by (intro ce_expr_total allI ce_sub_total)
  then show ?thesis
    by (rule total_uptoE [where s = "\<lparr>ce_rest = ts, ce_err = False, ce_fault = False\<rparr>"])
      (auto simp: ce_size_def condEval_def)
qed

end
