(* ===== verification/HC_Macro.thy ===== *)
theory HC_Macro
  imports HC_Scan HC_CondEval
begin

text \<open>
  Macro substitution: the builtin names (\<open>builtinMacro\<close>) and the recursive expansion of a
  body inside \<open>expandOrReturn\<close>.
\<close>

text \<open>\<open>builtinMacro\<close>: the changed token where it returns true, \<^const>\<open>None\<close> where it returns false.\<close>

definition builtinMacro :: "env \<Rightarrow> bool \<Rightarrow> token \<Rightarrow> token option" where
  "builtinMacro e jit t =
     (let n = tk_text t
      in if n = ''__LINE__''
         then Some (t\<lparr>tk_kind := TkIntLit, tk_ival := of_nat (loc_line (tk_loc t))\<rparr>)
         else if n = ''__FILE__''
         then Some (t\<lparr>tk_kind := TkStrLit, tk_text := loc_file (tk_loc t)\<rparr>)
         else if n = ''__DIR__''
         then Some (t\<lparr>tk_kind := TkStrLit, tk_text := dirOf (loc_file (tk_loc t))\<rparr>)
         else if n = ''__CMD_LINE__''
         then Some (t\<lparr>tk_kind := TkIntLit, tk_ival := b2i jit\<rparr>)
         else if n = ''__DATE__''
         then Some (t\<lparr>tk_kind := TkStrLit, tk_text := e_date e\<rparr>)
         else if n = ''__TIME__''
         then Some (t\<lparr>tk_kind := TkStrLit, tk_text := e_time e\<rparr>)
         else None)"

text \<open>A body token copied to the output: located at the use site, builtins replaced.\<close>

definition copy_token :: "env \<Rightarrow> bool \<Rightarrow> srcloc \<Rightarrow> token \<Rightarrow> token" where
  "copy_token e jit l bt =
     (let copy = bt\<lparr>tk_loc := l\<rparr>
      in if tk_kind copy = TkIdent
         then (case builtinMacro e jit copy of Some t \<Rightarrow> t | None \<Rightarrow> copy)
         else copy)"

lemma card_guard_less:
  assumes "map_of m k = Some b" and "k \<notin> set ex"
  shows "card (fst ` set m - set (k # ex)) < card (fst ` set m - set ex)"
proof -
  have "k \<in> fst ` set m" using assms(1) by (force dest: map_of_SomeD)
  then have "fst ` set m - set (k # ex) \<subset> fst ` set m - set ex" using assms(2) by auto
  then show ?thesis by (rule psubset_card_mono [rotated]) simp
qed

text \<open>
  The local lambda \<open>expand\<close> of \<open>expandOrReturn\<close>: \<open>ex\<close> holds the names in \<open>expanding_\<close>, \<open>fin\<close>
  copies a token to the output.
\<close>

function expand :: "macro_map \<Rightarrow> (token \<Rightarrow> token) \<Rightarrow> string list \<Rightarrow> token list \<Rightarrow> token list" where
  "expand m fin ex [] = []"
| "expand m fin ex (bt # bts) =
     (if tk_kind bt = TkIdent \<and> \<not> tk_noExpand bt \<and> tk_text bt \<notin> set ex
      then (case map_of m (tk_text bt) of
              Some body \<Rightarrow> expand m fin (tk_text bt # ex) body @ expand m fin ex bts
            | None \<Rightarrow> fin bt # expand m fin ex bts)
      else fin bt # expand m fin ex bts)"
  by pat_completeness auto

termination
  by (relation "measures [\<lambda>(m, fin, ex, ts). card (fst ` set m - set ex), \<lambda>(m, fin, ex, ts). length ts]")
    (auto dest: card_guard_less)

text \<open>
  The tokens \<open>expandOrReturn\<close> computes for a macro name token \<open>t\<close> with the given body.
\<close>

definition macro_out :: "env \<Rightarrow> lexer \<Rightarrow> token \<Rightarrow> token list \<Rightarrow> token list" where
  "macro_out e lx t body =
     expand (lx_macros lx) (copy_token e (lx_jitMode lx) (tk_loc t))
       (tk_text t # lx_expanding lx) body"

subsection \<open>What an expansion can contain\<close>

text \<open>A token that names a macro and may be substituted.\<close>

definition is_macro :: "macro_map \<Rightarrow> token \<Rightarrow> bool" where
  "is_macro m t \<longleftrightarrow> tk_kind t = TkIdent \<and> \<not> tk_noExpand t \<and> has_key m (tk_text t)"

text \<open>
  A rank that falls from every macro to the macros of its body: there is one exactly when no
  macro reaches itself.
\<close>

definition ranked :: "macro_map \<Rightarrow> (string \<Rightarrow> nat) \<Rightarrow> bool" where
  "ranked m rk \<longleftrightarrow> (\<forall>k b. map_of m k = Some b \<longrightarrow>
     (\<forall>t \<in> set b. is_macro m t \<longrightarrow> rk (tk_text t) < rk k))"

lemma ranked_body:
  "ranked m rk \<Longrightarrow> map_of m k = Some b \<Longrightarrow> t \<in> set b \<Longrightarrow> is_macro m t \<Longrightarrow> rk (tk_text t) < rk k"
  by (auto simp: ranked_def)

text \<open>Without self-reference an expansion is complete: no substitutable macro name is left.\<close>

lemma expand_complete:
  assumes "ranked m rk"
    and "\<forall>x \<in> set ex. \<forall>t \<in> set ts. is_macro m t \<longrightarrow> rk (tk_text t) < rk x"
  shows "\<forall>t \<in> set (expand m fin ex ts). \<exists>bt. t = fin bt \<and> \<not> is_macro m bt"
  using assms
proof (induction m fin ex ts rule: expand.induct)
  case (1 m fin ex)
  then show ?case by simp
next
  case (2 m fin ex bt bts)
  show ?case
  proof (cases "is_macro m bt")
    case False
    then have "expand m fin ex (bt # bts) = fin bt # expand m fin ex bts"
      by (auto simp: is_macro_def has_key_def)
    moreover have "\<forall>t \<in> set (expand m fin ex bts). \<exists>bt. t = fin bt \<and> \<not> is_macro m bt"
      using 2 False by (auto simp: is_macro_def has_key_def split: if_splits option.splits)
    ultimately show ?thesis using False by auto
  next
    case True
    then obtain b where b: "map_of m (tk_text bt) = Some b"
      by (auto simp: is_macro_def has_key_def)
    have fresh: "tk_text bt \<notin> set ex" using "2.prems"(2) True by auto
    have cond: "tk_kind bt = TkIdent \<and> \<not> tk_noExpand bt \<and> tk_text bt \<notin> set ex"
      using True fresh by (simp add: is_macro_def)
    have below: "\<forall>x \<in> set (tk_text bt # ex). \<forall>t \<in> set b. is_macro m t \<longrightarrow> rk (tk_text t) < rk x"
      using "2.prems" True b by (auto dest: ranked_body [OF "2.prems"(1) b] intro: less_trans)
    have "\<forall>t \<in> set (expand m fin (tk_text bt # ex) b). \<exists>bt. t = fin bt \<and> \<not> is_macro m bt"
      by (rule "2.IH"(2) [OF cond b "2.prems"(1) below])
    moreover have "\<forall>t \<in> set (expand m fin ex bts). \<exists>bt. t = fin bt \<and> \<not> is_macro m bt"
      by (rule "2.IH"(3) [OF cond b "2.prems"(1)]) (use "2.prems"(2) in auto)
    ultimately show ?thesis using cond b by auto
  qed
qed

end
