(* ===== verification/HC_Lexer.thy ===== *)
theory HC_Lexer
  imports HC_Macro
begin

text \<open>
  The lexer with its built-in preprocessor: directives, conditional inclusion, includes, \<open>#exe\<close>
  blocks, raw tokens and macro expansion, up to \<open>Lexer::next\<close>. The functions that can re-enter
  each other (a stray character inside a directive line resumes raw lexing, which can meet the
  next directive) run on fuel; \<^const>\<open>None\<close> is "out of fuel" and nothing else.
\<close>

definition skippingConds :: "lexer \<Rightarrow> bool" where
  "skippingConds lx \<longleftrightarrow> (\<exists>c \<in> set (lx_conds lx). \<not> c_active c)"

definition push_cond :: "bool \<Rightarrow> bool \<Rightarrow> lexer \<Rightarrow> lexer" where
  "push_cond act tak lx =
     lx\<lparr>lx_conds := \<lparr>c_active = act, c_taken = tak, c_elseSeen = False\<rparr> # lx_conds lx\<rparr>"

text \<open>\<open>evalCondExpr\<close>. The evaluator always returns (\<open>condEval_total\<close>).\<close>

definition evalCondExpr :: "token list \<Rightarrow> srcloc \<Rightarrow> lexer \<Rightarrow> i64 \<times> lexer" where
  "evalCondExpr toks l lx =
     (if toks = [] then (0, lx_error l ''empty preprocessor expression'' lx)
      else case condEval (lx_macros lx) toks of
             None \<Rightarrow> (0, lx\<lparr>lx_fault := True\<rparr>)
           | Some (v, s) \<Rightarrow>
               let lx1 = lx\<lparr>lx_fault := lx_fault lx \<or> ce_fault s\<rparr>
               in (v, if ce_err s \<or> ce_rest s \<noteq> [] then lx_error l ''bad preprocessor expression'' lx1
                      else lx1))"

text \<open>\<open>openInclude\<close>: the candidate paths in order, and the first one that opens.\<close>

definition include_tries :: "string \<Rightarrow> lexer \<Rightarrow> string list" where
  "include_tries name lx =
     (if name \<noteq> [] \<and> hd name = CHR ''/'' then [name]
      else (if atEof lx then [] else [src_dir (top lx) @ ''/'' @ name])
           @ map (\<lambda>d. d @ ''/'' @ name) (lx_includeDirs lx))"

fun open_first :: "env \<Rightarrow> string list \<Rightarrow> lexer \<Rightarrow> bool \<times> lexer" where
  "open_first e [] lx = (False, lx)"
| "open_first e (path # ps) lx =
     (case e_file e path of
        None \<Rightarrow> open_first e ps lx
      | Some buf \<Rightarrow> (True, push_source (mk_source buf path (dirOf path)) lx))"

definition openInclude :: "env \<Rightarrow> string \<Rightarrow> lexer \<Rightarrow> bool \<times> lexer" where
  "openInclude e name lx = open_first e (include_tries name lx) lx"

definition includeFirst :: "env \<Rightarrow> string \<Rightarrow> lexer \<Rightarrow> bool \<times> lexer" where
  "includeFirst e path lx = openInclude e path lx"

definition is_ws :: "char \<Rightarrow> bool" where
  "is_ws c \<longleftrightarrow> c = CHR '' '' \<or> c = CHR 0x09 \<or> c = CHR 0x0D \<or> c = CHR 0x0A"

definition is_raw_ws :: "char \<Rightarrow> bool" where
  "is_raw_ws c \<longleftrightarrow> is_ws c \<or> c = CHR 0x0C \<or> c = CHR 0x0B"

definition is_line_ws :: "char \<Rightarrow> bool" where
  "is_line_ws c \<longleftrightarrow> c = CHR '' '' \<or> c = CHR 0x09 \<or> c = CHR 0x0D"

definition handleExeBlock :: "env \<Rightarrow> lexer \<Rightarrow> lexer" where
  "handleExeBlock e lx =
     (let l = here (top lx);
          s0 = snd (span_src is_ws (top lx));
          s1 = skipc s0
      in if \<not> peek_is s0 0 (CHR ''{'')
         then lx_error l (''#exe expects '' @ [c_squote] @ ''{'' @ [c_squote]) (set_top s1 lx)
         else (let (body, ok, ds, s2) = exe_scan 1 s1;
                   lx2 = add_diags ds (set_top s2 lx)
               in if \<not> ok then lx_error l ''unterminated #exe{}'' lx2
                  else case e_exe e of
                         None \<Rightarrow> lx_error l ''#exe{} is not available in this compilation mode'' lx2
                       | Some hook \<Rightarrow>
                           let inject = hook body l
                           in if inject = [] then lx2
                              else push_source
                                     (mk_source inject (loc_file l @ '':<#exe>'')
                                        (if atEof lx2 then ''.'' else src_dir (top lx2))) lx2))"

subsection \<open>Directives\<close>

text \<open>
  The branches of \<open>handleDirective\<close>: \<open>l\<close> is the location after the hash sign, \<open>toks\<close> the rest
  of the line.
\<close>

definition dir_ifdef :: "bool \<Rightarrow> srcloc \<Rightarrow> bool \<Rightarrow> token list \<Rightarrow> lexer \<Rightarrow> lexer" where
  "dir_ifdef neg l skipping toks lx =
     (let single = length toks = 1 \<and> tk_kind (hd toks) = TkIdent;
          v = single \<and> has_key (lx_macros lx) (tk_text (hd toks));
          lx1 = (if \<not> single \<and> \<not> skipping
                 then lx_error l (''#'' @ (if neg then ''ifndef'' else ''ifdef'') @ '' expects a single identifier'') lx
                 else lx);
          val = (if neg then \<not> v else v)
      in push_cond (if skipping then False else val) (if skipping then True else val) lx1)"

definition dir_if :: "srcloc \<Rightarrow> bool \<Rightarrow> token list \<Rightarrow> lexer \<Rightarrow> lexer" where
  "dir_if l skipping toks lx =
     (if skipping then push_cond False False lx
      else (let (v, lx1) = evalCondExpr toks l lx in push_cond (v \<noteq> 0) (v \<noteq> 0) lx1))"

definition dir_ifmode :: "bool \<Rightarrow> bool \<Rightarrow> lexer \<Rightarrow> lexer" where
  "dir_ifmode jit skipping lx =
     (let v = (if skipping then False else jit = lx_jitMode lx) in push_cond v v lx)"

definition dir_else :: "srcloc \<Rightarrow> lexer \<Rightarrow> lexer" where
  "dir_else l lx =
     (case lx_conds lx of
        [] \<Rightarrow> lx_error l ''#else without #if'' lx
      | c # cs \<Rightarrow>
          let lx1 = (if c_elseSeen c then lx_error l ''duplicate #else'' lx else lx);
              outerActive = (\<forall>o' \<in> set cs. c_active o')
          in lx1\<lparr>lx_conds := \<lparr>c_active = outerActive \<and> \<not> c_taken c, c_taken = True, c_elseSeen = True\<rparr> # cs\<rparr>)"

definition dir_endif :: "srcloc \<Rightarrow> lexer \<Rightarrow> lexer" where
  "dir_endif l lx =
     (case lx_conds lx of
        [] \<Rightarrow> lx_error l ''#endif without #if'' lx
      | c # cs \<Rightarrow> lx\<lparr>lx_conds := cs\<rparr>)"

definition dir_define :: "srcloc \<Rightarrow> token list \<Rightarrow> lexer \<Rightarrow> lexer" where
  "dir_define l toks lx =
     (case toks of
        [] \<Rightarrow> lx_error l ''#define expects an identifier'' lx
      | t # body \<Rightarrow>
          if tk_kind t \<noteq> TkIdent then lx_error l ''#define expects an identifier'' lx
          else let lx1 = (case body of
                            p # _ \<Rightarrow>
                              if tok_is p PLParen \<and>
                                 loc_col (tk_loc p) = loc_col (tk_loc t) + length (tk_text t)
                              then lx_error l ''no #define functions exist in HolyC'' lx
                              else lx
                          | [] \<Rightarrow> lx)
               in lx1\<lparr>lx_macros := AList.update (tk_text t) body (lx_macros lx1)\<rparr>)"

definition dir_undef :: "srcloc \<Rightarrow> token list \<Rightarrow> lexer \<Rightarrow> lexer" where
  "dir_undef l toks lx =
     (if length toks = 1 \<and> tk_kind (hd toks) = TkIdent
      then lx\<lparr>lx_macros := AList.delete (tk_text (hd toks)) (lx_macros lx)\<rparr>
      else lx_error l ''#undef expects a single identifier'' lx)"

definition dir_include :: "env \<Rightarrow> srcloc \<Rightarrow> token list \<Rightarrow> lexer \<Rightarrow> lexer" where
  "dir_include e l toks lx =
     (if length toks = 1 \<and> tk_kind (hd toks) = TkStrLit
      then (let (ok, lx1) = openInclude e (tk_text (hd toks)) lx
            in if ok then lx1
               else lx_error l (''cannot open include file '' @ [c_dquote] @ tk_text (hd toks) @ [c_dquote]) lx1)
      else lx_error l (''#include expects a '' @ [c_dquote] @ ''filename'' @ [c_dquote]
                       @ '' (no <> form in HolyC)'') lx)"

definition dir_assert :: "srcloc \<Rightarrow> token list \<Rightarrow> lexer \<Rightarrow> lexer" where
  "dir_assert l toks lx =
     (let (v, lx1) = evalCondExpr toks l lx
      in if v = 0 then add_diags [DWarn l ''#assert failed''] lx1 else lx1)"

text \<open>\<open>skipToEndOfLine()\<close> on the top source.\<close>

definition skip_line :: "lexer \<Rightarrow> lexer" where
  "skip_line lx = set_top (snd (skipToEndOfLine (top lx))) lx"

text \<open>\<open>handleDirective\<close>, with \<open>ll\<close> for its calls of \<open>lexLineTokens\<close>.\<close>

definition handleDirective :: "env \<Rightarrow> (lexer \<Rightarrow> (token list \<times> lexer) option) \<Rightarrow> lexer \<Rightarrow> lexer option" where
  "handleDirective e ll lx0 =
     (let l = here (top lx0);
          (name, s) = span_src (\<lambda>c. isalnum c \<or> c = CHR ''_'') (top lx0);
          lx = set_top s lx0;
          skipping = skippingConds lx
      in if name = ''ifdef'' \<or> name = ''ifndef''
         then do { (toks, lx1) \<leftarrow> ll lx; Some (dir_ifdef (name = ''ifndef'') l skipping toks lx1) }
         else if name = ''if''
         then do { (toks, lx1) \<leftarrow> ll lx; Some (dir_if l skipping toks lx1) }
         else if name = ''ifaot'' \<or> name = ''ifjit''
         then do { (toks, lx1) \<leftarrow> ll lx; Some (dir_ifmode (name = ''ifjit'') skipping lx1) }
         else if name = ''else'' then do { (toks, lx1) \<leftarrow> ll lx; Some (dir_else l lx1) }
         else if name = ''endif'' then do { (toks, lx1) \<leftarrow> ll lx; Some (dir_endif l lx1) }
         else if skipping then Some (skip_line lx)
         else if name = ''define'' then do { (toks, lx1) \<leftarrow> ll lx; Some (dir_define l toks lx1) }
         else if name = ''undef'' then do { (toks, lx1) \<leftarrow> ll lx; Some (dir_undef l toks lx1) }
         else if name = ''include'' then do { (toks, lx1) \<leftarrow> ll lx; Some (dir_include e l toks lx1) }
         else if name = ''assert'' then do { (toks, lx1) \<leftarrow> ll lx; Some (dir_assert l toks lx1) }
         else if name = ''help_index'' \<or> name = ''help_file'' then Some (skip_line lx)
         else if name = ''exe'' then Some (handleExeBlock e lx)
         else Some (skip_line (lx_error l (''unknown directive #'' @ name) lx)))"

subsection \<open>Raw tokens\<close>

definition pop_source :: "lexer \<Rightarrow> lexer" where
  "pop_source lx = lx\<lparr>lx_stack := tl (lx_stack lx)\<rparr>"

text \<open>The source of \<open>lx\<close> is at its end.\<close>

definition end_source :: "lexer \<Rightarrow> lexer" where
  "end_source lx =
     pop_source (if lx_conds lx \<noteq> [] \<and> length (lx_stack lx) = 1
                 then lx_error (here (top lx)) ''unterminated #if/#ifdef at end of file'' lx else lx)"

definition skip_comment :: "lexer \<Rightarrow> lexer" where
  "skip_comment lx =
     (let l = here (top lx); (closed, s) = skip_block (skipc (skipc (top lx)))
      in if closed then set_top s lx else lx_error l ''unterminated /* comment'' (set_top s lx))"

definition skip_inactive :: "lexer \<Rightarrow> lexer" where
  "skip_inactive lx =
     (let (ds, s) = skipCondBlockLine (top lx) in add_diags ds (set_top s lx))"

definition eof_token :: "lexer \<Rightarrow> token" where
  "eof_token lx = token0\<lparr>tk_loc := here (top lx)\<rparr>"

fun rawNext :: "env \<Rightarrow> nat \<Rightarrow> lexer \<Rightarrow> (token \<times> lexer) option"
  and lexToken :: "env \<Rightarrow> nat \<Rightarrow> lexer \<Rightarrow> (token \<times> lexer) option"
  and lexLine :: "env \<Rightarrow> nat \<Rightarrow> nat \<Rightarrow> lexer \<Rightarrow> (token list \<times> lexer) option"
where
  "rawNext e 0 lx = None"
| "rawNext e (Suc n) lx =
     (if atEof lx then Some (eof_token lx, lx)
      else let s = top lx
      in case peekc s 0 of
           None \<Rightarrow> rawNext e n (end_source lx)
         | Some c \<Rightarrow>
             if is_raw_ws c then rawNext e n (set_top (skipc s) lx)
             else if c = CHR ''/'' \<and> peek_is s 1 (CHR ''/'') then rawNext e n (set_top (to_eol s) lx)
             else if c = CHR ''/'' \<and> peek_is s 1 (CHR ''*'') then rawNext e n (skip_comment lx)
             else if c = CHR ''#''
             then do {
               lx1 \<leftarrow> handleDirective e (\<lambda>lx. lexLine e n (src_line (top lx)) lx) (set_top (skipc s) lx);
               rawNext e n lx1
             }
             else if skippingConds lx then rawNext e n (skip_inactive lx)
             else lexToken e n lx)"
| "lexToken e 0 lx = None"
| "lexToken e (Suc n) lx =
     (case lexTokenSrc (top lx) of
        (Some t, ds, s) \<Rightarrow> Some (t, add_diags ds (set_top s lx))
      | (None, ds, s) \<Rightarrow> rawNext e n (add_diags ds (set_top s lx)))"
| "lexLine e 0 startLine lx = None"
| "lexLine e (Suc n) startLine lx =
     (if atEof lx then Some ([], lx)
      else let s = snd (span_src is_line_ws (top lx)); lx1 = set_top s lx
      in if peek_is s 0 c_bslash \<and> peek_is s 1 c_nl
         then lexLine e n (src_line (skipc (skipc s))) (set_top (skipc (skipc s)) lx)
         else if peekc s 0 = None \<or> peek_is s 0 c_nl then Some ([], lx1)
         else if peek_is s 0 (CHR ''/'') \<and> peek_is s 1 (CHR ''/'') then Some ([], skip_line lx1)
         else if peek_is s 0 (CHR ''/'') \<and> peek_is s 1 (CHR ''*'')
         then lexLine e n startLine (set_top (snd (skip_block (skipc (skipc s)))) lx)
         else if src_line s \<noteq> startLine then Some ([], lx1)
         else do {
           (t, lx2) \<leftarrow> lexToken e n lx1;
           (ts, lx3) \<leftarrow> lexLine e n startLine lx2;
           Some (t # ts, lx3)
         })"

text \<open>\<open>lexLineTokens()\<close> starts with the line it is called on.\<close>

definition lexLineTokens :: "env \<Rightarrow> nat \<Rightarrow> lexer \<Rightarrow> (token list \<times> lexer) option" where
  "lexLineTokens e n lx = lexLine e n (src_line (top lx)) lx"

subsection \<open>Macro expansion and \<open>next\<close>\<close>

fun expandOrReturn :: "env \<Rightarrow> nat \<Rightarrow> token \<Rightarrow> lexer \<Rightarrow> (token \<times> lexer) option" where
  "expandOrReturn e 0 t lx = None"
| "expandOrReturn e (Suc n) t lx =
     (if tk_kind t \<noteq> TkIdent \<or> tk_noExpand t then Some (t, lx)
      else (case builtinMacro e (lx_jitMode lx) t of
              Some t' \<Rightarrow> Some (t', lx)
            | None \<Rightarrow>
                (case map_of (lx_macros lx) (tk_text t) of
                   None \<Rightarrow> Some (t, lx)
                 | Some body \<Rightarrow>
                     if tk_text t \<in> set (lx_expanding lx) then Some (t\<lparr>tk_noExpand := True\<rparr>, lx)
                     else (case macro_out e lx t body of
                             o1 # os \<Rightarrow> Some (o1, lx\<lparr>lx_pending := os @ lx_pending lx\<rparr>)
                           | [] \<Rightarrow>
                               (case lx_pending lx of
                                  p # ps \<Rightarrow> expandOrReturn e n p (lx\<lparr>lx_pending := ps\<rparr>)
                                | [] \<Rightarrow> do {
                                    (r, lx1) \<leftarrow> rawNext e n lx;
                                    if tk_kind r = TkEof then Some (r, lx1)
                                    else expandOrReturn e n r lx1
                                  })))))"

definition lexer_next :: "env \<Rightarrow> nat \<Rightarrow> lexer \<Rightarrow> (token \<times> lexer) option" where
  "lexer_next e n lx =
     (case lx_pending lx of
        p # ps \<Rightarrow> expandOrReturn e n p (lx\<lparr>lx_pending := ps\<rparr>)
      | [] \<Rightarrow> do {
          (t, lx1) \<leftarrow> rawNext e n lx;
          if tk_kind t = TkEof then Some (t, lx1) else expandOrReturn e n t lx1
        })"

text \<open>All tokens up to the end of input: at most \<open>k\<close> of them, each with fuel \<open>n\<close>.\<close>

fun lex_all :: "env \<Rightarrow> nat \<Rightarrow> nat \<Rightarrow> lexer \<Rightarrow> (token list \<times> lexer) option" where
  "lex_all e n 0 lx = None"
| "lex_all e n (Suc k) lx = do {
     (t, lx1) \<leftarrow> lexer_next e n lx;
     if tk_kind t = TkEof then Some ([], lx1)
     else do { (ts, lx2) \<leftarrow> lex_all e n k lx1; Some (t # ts, lx2) }
   }"

end
