(* ===== verification/HC_Conds.thy ===== *)
theory HC_Conds
  imports HC_Lexer
begin

text \<open>
  Conditional inclusion against its specification. A \<open>region\<close> is a well-nested piece of a source:
  plain text, or a conditional with its two branches. \<open>live\<close> says, without any stack, which
  pieces of text are selected; \<open>run_region\<close> sends the same region through the directive handlers
  of the lexer and records, at each piece of text, whether the lexer is skipping.
\<close>

datatype condition = KIfdef bool token | KIf "token list" | KMode bool

datatype region = Plain | Cond condition "region list" "region list option"

subsection \<open>The specification\<close>

definition if_value :: "macro_map \<Rightarrow> token list \<Rightarrow> i64" where
  "if_value m toks = (if toks = [] then 0 else case condEval m toks of None \<Rightarrow> 0 | Some (v, _) \<Rightarrow> v)"

fun holds :: "macro_map \<Rightarrow> bool \<Rightarrow> condition \<Rightarrow> bool" where
  "holds m jit (KIfdef neg t) \<longleftrightarrow> (tk_kind t = TkIdent \<and> has_key m (tk_text t)) \<noteq> neg"
| "holds m jit (KIf toks) \<longleftrightarrow> if_value m toks \<noteq> 0"
| "holds m jit (KMode j) \<longleftrightarrow> j = jit"

fun live :: "macro_map \<Rightarrow> bool \<Rightarrow> region \<Rightarrow> bool list"
  and lives :: "macro_map \<Rightarrow> bool \<Rightarrow> region list \<Rightarrow> bool list"
where
  "live m jit Plain = [True]"
| "live m jit (Cond k a None) = map (\<lambda>x. x \<and> holds m jit k) (lives m jit a)"
| "live m jit (Cond k a (Some b)) =
     map (\<lambda>x. x \<and> holds m jit k) (lives m jit a) @ map (\<lambda>x. x \<and> \<not> holds m jit k) (lives m jit b)"
| "lives m jit [] = []"
| "lives m jit (r # rs) = live m jit r @ lives m jit rs"

subsection \<open>The handlers\<close>

definition open_cond :: "srcloc \<Rightarrow> condition \<Rightarrow> lexer \<Rightarrow> lexer" where
  "open_cond l k lx =
     (case k of
        KIfdef neg t \<Rightarrow> dir_ifdef neg l (skippingConds lx) [t] lx
      | KIf toks \<Rightarrow> dir_if l (skippingConds lx) toks lx
      | KMode jit \<Rightarrow> dir_ifmode jit (skippingConds lx) lx)"

fun run_region :: "srcloc \<Rightarrow> region \<Rightarrow> lexer \<Rightarrow> bool list \<times> lexer"
  and run_regions :: "srcloc \<Rightarrow> region list \<Rightarrow> lexer \<Rightarrow> bool list \<times> lexer"
where
  "run_region l Plain lx = ([\<not> skippingConds lx], lx)"
| "run_region l (Cond k a None) lx =
     (let (xs, lx1) = run_regions l a (open_cond l k lx) in (xs, dir_endif l lx1))"
| "run_region l (Cond k a (Some b)) lx =
     (let (xs, lx1) = run_regions l a (open_cond l k lx);
          (ys, lx2) = run_regions l b (dir_else l lx1)
      in (xs @ ys, dir_endif l lx2))"
| "run_regions l [] lx = ([], lx)"
| "run_regions l (r # rs) lx =
     (let (xs, lx1) = run_region l r lx; (ys, lx2) = run_regions l rs lx1 in (xs @ ys, lx2))"

subsection \<open>The handlers implement the specification\<close>

text \<open>What running a region leaves alone: the stack of conditions, the macros and the mode.\<close>

definition same_conds :: "lexer \<Rightarrow> lexer \<Rightarrow> bool" where
  "same_conds a b \<longleftrightarrow> lx_conds b = lx_conds a \<and> lx_macros b = lx_macros a \<and> lx_jitMode b = lx_jitMode a"

lemma evalCondExpr_frame:
  "lx_conds (snd (evalCondExpr toks l lx)) = lx_conds lx"
  "lx_macros (snd (evalCondExpr toks l lx)) = lx_macros lx"
  "lx_jitMode (snd (evalCondExpr toks l lx)) = lx_jitMode lx"
  "fst (evalCondExpr toks l lx) = if_value (lx_macros lx) toks"
  by (auto simp: evalCondExpr_def if_value_def Let_def frame_simps split: option.split)

text \<open>Opening a condition pushes one entry, active exactly when nothing is skipped and it holds.\<close>

lemma open_cond_top:
  obtains tak where "lx_conds (open_cond l k lx) =
      \<lparr>c_active = \<not> skippingConds lx \<and> holds (lx_macros lx) (lx_jitMode lx) k,
       c_taken = tak, c_elseSeen = False\<rparr> # lx_conds lx"
    and "\<not> skippingConds lx \<Longrightarrow> tak = holds (lx_macros lx) (lx_jitMode lx) k"
    and "lx_macros (open_cond l k lx) = lx_macros lx" "lx_jitMode (open_cond l k lx) = lx_jitMode lx"
proof (rule that)
  let ?tak = "if skippingConds lx then (case k of KIfdef _ _ \<Rightarrow> True | _ \<Rightarrow> False)
      else holds (lx_macros lx) (lx_jitMode lx) k"
  show "lx_conds (open_cond l k lx) =
      \<lparr>c_active = \<not> skippingConds lx \<and> holds (lx_macros lx) (lx_jitMode lx) k,
       c_taken = ?tak, c_elseSeen = False\<rparr> # lx_conds lx"
    by (cases k)
      (auto simp: open_cond_def dir_ifdef_def dir_if_def dir_ifmode_def push_cond_def Let_def
        case_prod_beta evalCondExpr_frame frame_simps)
  show "\<not> skippingConds lx \<Longrightarrow> ?tak = holds (lx_macros lx) (lx_jitMode lx) k" by simp
  show "lx_macros (open_cond l k lx) = lx_macros lx" "lx_jitMode (open_cond l k lx) = lx_jitMode lx"
    by (cases k; auto simp: open_cond_def dir_ifdef_def dir_if_def dir_ifmode_def push_cond_def Let_def
        case_prod_beta evalCondExpr_frame frame_simps)+
qed

lemma skipping_Cons:
  "lx_conds b = c # lx_conds a \<Longrightarrow> skippingConds b \<longleftrightarrow> \<not> c_active c \<or> skippingConds a"
  by (simp add: skippingConds_def)

lemma skipping_same: "lx_conds b = lx_conds a \<Longrightarrow> skippingConds b \<longleftrightarrow> skippingConds a"
  by (simp add: skippingConds_def)

lemma dir_else_top:
  assumes "lx_conds a = c # cs"
  shows "lx_conds (dir_else l a) = \<lparr>c_active = (\<forall>o' \<in> set cs. c_active o') \<and> \<not> c_taken c,
      c_taken = True, c_elseSeen = True\<rparr> # cs"
    and "lx_macros (dir_else l a) = lx_macros a" and "lx_jitMode (dir_else l a) = lx_jitMode a"
  using assms by (simp_all add: dir_else_def Let_def frame_simps)

lemma dir_endif_top:
  assumes "lx_conds a = c # cs"
  shows "lx_conds (dir_endif l a) = cs"
    and "lx_macros (dir_endif l a) = lx_macros a" and "lx_jitMode (dir_endif l a) = lx_jitMode a"
  using assms by (simp_all add: dir_endif_def)

lemma run_region_live:
  "fst (run_region l r lx) = map (\<lambda>x. x \<and> \<not> skippingConds lx) (live (lx_macros lx) (lx_jitMode lx) r)
     \<and> same_conds lx (snd (run_region l r lx))"
  "fst (run_regions l rs lx) = map (\<lambda>x. x \<and> \<not> skippingConds lx) (lives (lx_macros lx) (lx_jitMode lx) rs)
     \<and> same_conds lx (snd (run_regions l rs lx))"
proof (induction l r lx and l rs lx rule: run_region_run_regions.induct)
  case (1 l lx)
  then show ?case by (simp add: same_conds_def)
next
  case (2 l k a lx)
  obtain tak where top: "lx_conds (open_cond l k lx) =
      \<lparr>c_active = \<not> skippingConds lx \<and> holds (lx_macros lx) (lx_jitMode lx) k,
       c_taken = tak, c_elseSeen = False\<rparr> # lx_conds lx"
    and fr: "lx_macros (open_cond l k lx) = lx_macros lx" "lx_jitMode (open_cond l k lx) = lx_jitMode lx"
    by (rule open_cond_top [of l k lx]) blast
  obtain xs lx1 where r: "run_regions l a (open_cond l k lx) = (xs, lx1)" by fastforce
  with 2 have xs: "xs = map (\<lambda>x. x \<and> \<not> skippingConds (open_cond l k lx)) (lives (lx_macros lx) (lx_jitMode lx) a)"
    and same: "same_conds (open_cond l k lx) lx1" by (simp_all add: fr)
  from same top have "lx_conds lx1 = \<lparr>c_active = \<not> skippingConds lx \<and> holds (lx_macros lx) (lx_jitMode lx) k,
       c_taken = tak, c_elseSeen = False\<rparr> # lx_conds lx" by (simp add: same_conds_def)
  note e = dir_endif_top [OF this]
  show ?case using same fr
    by (auto simp: r xs e skipping_Cons [OF top] same_conds_def)
next
  case (3 l k a b lx)
  let ?h = "holds (lx_macros lx) (lx_jitMode lx) k"
  obtain tak where top: "lx_conds (open_cond l k lx) =
      \<lparr>c_active = \<not> skippingConds lx \<and> ?h, c_taken = tak, c_elseSeen = False\<rparr> # lx_conds lx"
    and tak: "\<not> skippingConds lx \<Longrightarrow> tak = ?h"
    and fr: "lx_macros (open_cond l k lx) = lx_macros lx" "lx_jitMode (open_cond l k lx) = lx_jitMode lx"
    by (rule open_cond_top [of l k lx]) blast
  obtain xs lx1 where r: "run_regions l a (open_cond l k lx) = (xs, lx1)" by fastforce
  with 3(1) have xs: "xs = map (\<lambda>x. x \<and> \<not> skippingConds (open_cond l k lx)) (lives (lx_macros lx) (lx_jitMode lx) a)"
    and same: "same_conds (open_cond l k lx) lx1" by (simp_all add: fr)
  from same top have c1: "lx_conds lx1 = \<lparr>c_active = \<not> skippingConds lx \<and> ?h,
       c_taken = tak, c_elseSeen = False\<rparr> # lx_conds lx" by (simp add: same_conds_def)
  note els = dir_else_top [OF c1, of l]
  have fr1: "lx_macros (dir_else l lx1) = lx_macros lx" "lx_jitMode (dir_else l lx1) = lx_jitMode lx"
    using els same fr by (simp_all add: same_conds_def)
  obtain ys lx2 where r2: "run_regions l b (dir_else l lx1) = (ys, lx2)" by fastforce
  with 3(2) [OF r [symmetric] refl] have
    ys: "ys = map (\<lambda>x. x \<and> \<not> skippingConds (dir_else l lx1)) (lives (lx_macros lx) (lx_jitMode lx) b)"
    and same2: "same_conds (dir_else l lx1) lx2" by (simp_all add: fr1)
  from same2 els(1) have "lx_conds lx2 = \<lparr>c_active = (\<forall>o' \<in> set (lx_conds lx). c_active o') \<and> \<not> tak,
      c_taken = True, c_elseSeen = True\<rparr> # lx_conds lx" by (simp add: same_conds_def)
  note e = dir_endif_top [OF this]
  have sk: "skippingConds (dir_else l lx1) \<longleftrightarrow> skippingConds lx \<or> ?h"
    using skipping_Cons [OF els(1)] tak by (auto simp: skippingConds_def)
  show ?case using same2 fr1
    by (auto simp: r r2 xs ys e sk skipping_Cons [OF top] same_conds_def)
next
  case (4 l lx)
  then show ?case by (simp add: same_conds_def)
next
  case (5 l r rs lx)
  obtain xs lx1 where r: "run_region l r lx = (xs, lx1)" by fastforce
  obtain ys lx2 where r2: "run_regions l rs lx1 = (ys, lx2)" by fastforce
  from 5(1) r have "same_conds lx lx1" by simp
  then have "skippingConds lx1 \<longleftrightarrow> skippingConds lx" by (simp add: skippingConds_def same_conds_def)
  with 5(1) 5(2) [OF r [symmetric] refl] r r2 show ?case by (simp add: same_conds_def)
qed

end
