(* ===== verification/HC_LexTotal.thy ===== *)
theory HC_LexTotal
  imports HC_Lexer
begin

text \<open>
  What raw lexing does to the lexer's state, whatever the text: \<open>lx_steps\<close>, the relation every
  step and every directive respects, and the proof that raw lexing returns. The measure is
  \<open>weight\<close>, the characters left on the source stack plus one for each source.
\<close>

named_theorems lexer_intro

subsection \<open>Every scanner is a scanner\<close>

lemma reads_read_digits: "reads s (snd (read_digits p s))"
  by (simp add: read_digits_def case_prod_beta reads_span_src)

lemma reads_lexNumber: "reads s (snd (lexNumber s))"
proof -
  have d: "reads s a \<Longrightarrow> reads s (snd (read_digits p a))" for a p
    by (rule reads_trans [OF _ reads_read_digits])
  have sp: "reads s a \<Longrightarrow> reads s (snd (span_src p a))" for a p
    by (rule reads_trans [OF _ reads_span_src])
  show ?thesis
    by (simp add: lexNumber_def Let_def case_prod_beta d sp reads_skipcI)
qed

lemma reads_two: "reads s a \<Longrightarrow> reads s (snd (two n y no a))"
  by (simp add: two_def reads_skipcI)

lemma reads_two_skips: "reads s (skipc (skipc s))"
  by (simp add: reads_skipcI)

lemma pred_option_if: "pred_option P (if b then x else y) \<longleftrightarrow> (if b then pred_option P x else pred_option P y)"
  by simp

lemma reads_lexPunct: "pred_option (\<lambda>r. reads s (snd r)) (lexPunct c s)"
  unfolding lexPunct_def
  by (simp only: pred_option_if option.pred_inject if_distrib [of snd] snd_conv if_distrib [of "reads s"]
      reads_two reads_skipcI reads_refl reads_two_skips if_cancel)

text \<open>The token read from a source at a character: at least that character is gone.\<close>

lemma less_after_skip:
  assumes "reads (skipc s) s'" and "src_rest s \<noteq> []"
  shows "reads s s'" and "length (src_rest s') < length (src_rest s)"
  using assms reads_length [OF assms(1)] skipc_less [OF assms(2)]
  by (auto intro: reads_trans [OF reads_skipc])

lemma span_less:
  assumes "src_rest s = c # cs" and "p c"
  shows "length (src_rest (snd (span_src p s))) < length (src_rest s)"
  using assms by (simp add: span_src_rest less_Suc_eq_le length_dropWhile_le)

lemma read_digits_less:
  assumes "src_rest s = c # cs" and "p c"
  shows "length (src_rest (snd (read_digits p s))) < length (src_rest s)"
  using span_less [of s c cs "\<lambda>c. p c \<or> c = CHR ''_''"] assms
  by (simp add: read_digits_def case_prod_beta)

lemma lexNumber_less:
  assumes c: "src_rest s = c # cs" and d: "isdigit c"
  shows "length (src_rest (snd (lexNumber s))) < length (src_rest s)"
proof -
  have sp: "length (src_rest (snd (span_src p a))) \<le> length (src_rest a)" for p a
    by (rule span.scan_length)
  have rd: "length (src_rest (snd (read_digits p a))) \<le> length (src_rest a)" for p a
    by (rule reads_length) (rule reads_read_digits)
  have sk: "length (src_rest (skipc a)) \<le> length (src_rest a)" for a by (simp add: len_skipc)
  have ss: "length (src_rest (skipc (skipc s))) < length (src_rest s)"
    using c by (simp add: len_skipc)
  have s0: "length (src_rest (snd (read_digits isdigit s))) < length (src_rest s)"
    by (rule read_digits_less [OF c]) (rule d)
  let ?s0 = "snd (read_digits isdigit s)"
  have fr: "length (src_rest (snd (read_digits isdigit (skipc ?s0)))) < length (src_rest s)"
    using rd [of isdigit "skipc ?s0"] sk [of ?s0] s0 by linarith
  have ex: "length (src_rest a) < length (src_rest s)
      \<Longrightarrow> length (src_rest (snd (span_src p (skipc (skipc a))))) < length (src_rest s)" for p a
    using sp [of p "skipc (skipc a)"] sk [of "skipc a"] sk [of a] by linarith
  show ?thesis
    using le_less_trans [OF rd ss] s0 fr ex [OF s0] ex [OF fr]
    by (simp add: lexNumber_def Let_def case_prod_beta)
qed

lemma lexTokenSrc_cases:
  assumes "getc s = (Some c, s1)"
  shows "snd (snd (lexTokenSrc s)) =
    (if isalpha c \<or> c = CHR ''_'' \<or> c = CHR ''@''
     then (if c = CHR ''@'' \<and> \<not> peek_is s 1 (CHR ''@'') then s1 else snd (span_src is_ident_char s))
     else if isdigit c then snd (lexNumber s)
     else if c = c_dquote \<or> c = c_squote then snd (snd (lexCharsInto c s1))
     else case lexPunct c s1 of Some (p, s') \<Rightarrow> s' | None \<Rightarrow> s1)"
  by (simp add: lexTokenSrc_def assms Let_def case_prod_beta split: option.split)

lemma lexTokenSrc_reads: "reads s (snd (snd (lexTokenSrc s)))"
proof (cases "getc s")
  case (Pair x s1)
  then have s1: "reads s s1" by (rule reads_getc)
  show ?thesis
  proof (cases x)
    case None
    with Pair show ?thesis by (simp add: lexTokenSrc_def s1)
  next
    case (Some c)
    have "reads s (snd (snd (lexCharsInto q s1)))" for q
      by (rule reads_trans [OF s1 reads_lexCharsInto])
    moreover have "lexPunct c s1 = Some (p, s') \<Longrightarrow> reads s s'" for p s'
      using reads_lexPunct [of s1 c] s1 by (auto intro: reads_trans)
    ultimately show ?thesis
      using reads_lexNumber [of s] reads_span_src [of s is_ident_char] s1 Pair Some
      by (simp add: lexTokenSrc_cases split: option.split)
  qed
qed

lemma lexTokenSrc_less:
  assumes "src_rest s \<noteq> []"
  shows "length (src_rest (snd (snd (lexTokenSrc s)))) < length (src_rest s)"
proof -
  obtain c cs where c: "src_rest s = c # cs" using assms by (cases "src_rest s") auto
  obtain s1 where s1: "s1 = skipc s" by simp
  then have g: "getc s = (Some c, s1)" by (simp add: getc_eq_Some src_rest_skipc c)
  have sk: "length (src_rest s1) < length (src_rest s)" unfolding s1 using assms by (rule skipc_less)
  have lit: "length (src_rest (snd (snd (lexCharsInto q s1)))) < length (src_rest s)" for q
    using reads_length [OF reads_lexCharsInto [of s1 q]] sk by simp
  have pun: "lexPunct c s1 = Some (p, s') \<Longrightarrow> length (src_rest s') < length (src_rest s)" for p s'
    using reads_lexPunct [of s1 c] sk by (auto dest: reads_length)
  have "isalpha c \<or> c = CHR ''_'' \<or> c = CHR ''@'' \<Longrightarrow> is_ident_char c"
    by (auto simp: is_ident_char_def isalnum_def)
  then have "isalpha c \<or> c = CHR ''_'' \<or> c = CHR ''@''
      \<Longrightarrow> length (src_rest (snd (span_src is_ident_char s))) < length (src_rest s)"
    using span_less [OF c] by blast
  with lexNumber_less [OF c] lit pun sk show ?thesis
    by (simp add: lexTokenSrc_cases [OF g] split: option.split)
qed

text \<open>The scanners of this theory and of \<open>HC_Scan\<close> as instances of the interface.\<close>

interpretation token: scanner "\<lambda>s. case lexTokenSrc s of (t, ds, s') \<Rightarrow> ((t, ds), s')"
  by unfold_locales (simp add: case_prod_beta lexTokenSrc_reads)

interpretation number: scanner lexNumber
  by unfold_locales (rule reads_lexNumber)

interpretation literal: scanner "\<lambda>s. case lexCharsInto q s of (t, ds, s') \<Rightarrow> ((t, ds), s')" for q
  by unfold_locales (simp add: case_prod_beta reads_lexCharsInto)

interpretation block: scanner skip_block
  by unfold_locales (rule reads_skip_block)

interpretation line: scanner skipToEndOfLine
  by unfold_locales (rule reads_skipToEndOfLine)

interpretation inactive: scanner skipCondBlockLine
  by unfold_locales (rule reads_skipCondBlockLine)

subsection \<open>What a step of the lexer does to its state\<close>

definition weight :: "lexer \<Rightarrow> nat" where
  "weight lx = (\<Sum>s\<leftarrow>lx_stack lx. Suc (length (src_rest s)))"

text \<open>
  The stack of open \<open>#if\<close>s, innermost first: a branch is active only if it was taken and every
  enclosing branch is active, and \<open>#else\<close> has taken whatever was left.
\<close>

fun conds_ok :: "cond list \<Rightarrow> bool" where
  "conds_ok [] = True"
| "conds_ok (c # cs) \<longleftrightarrow>
     (c_active c \<longrightarrow> c_taken c \<and> (\<forall>o' \<in> set cs. c_active o')) \<and> (c_elseSeen c \<longrightarrow> c_taken c) \<and> conds_ok cs"

text \<open>
  The relation of every step. At the very end of the input the stack of \<open>#if\<close>s no longer
  matters and may be inconsistent: a directive whose line runs into the end of the input can
  still push to it.
\<close>

definition lx_steps :: "lexer \<Rightarrow> lexer \<Rightarrow> bool" where
  "lx_steps a b \<longleftrightarrow> weight b \<le> weight a \<and> suffix (lx_diags a) (lx_diags b)
     \<and> (conds_ok (lx_conds a) \<longrightarrow> weight b = 0 \<or> conds_ok (lx_conds b))
     \<and> lx_pending b = lx_pending a \<and> lx_expanding b = lx_expanding a
     \<and> lx_includeDirs b = lx_includeDirs a \<and> lx_jitMode b = lx_jitMode a
     \<and> (lx_fault a \<longrightarrow> lx_fault b)"

lemma lx_steps_refl [lexer_intro]: "lx_steps a a"
  by (simp add: lx_steps_def)

lemma lx_steps_trans: "lx_steps a b \<Longrightarrow> lx_steps b c \<Longrightarrow> lx_steps a c"
  by (auto simp: lx_steps_def intro: suffix_order.trans)

lemma lx_steps_weight: "lx_steps a b \<Longrightarrow> weight b \<le> weight a"
  by (simp add: lx_steps_def)

lemma weight_simps [simp]:
  "weight (add_diags ds lx) = weight lx" "weight (lx_error l m lx) = weight lx"
  "weight (lx\<lparr>lx_fault := f\<rparr>) = weight lx" "weight (lx\<lparr>lx_conds := cs\<rparr>) = weight lx"
  "weight (lx\<lparr>lx_macros := ms\<rparr>) = weight lx" "weight (lx\<lparr>lx_pending := ps\<rparr>) = weight lx"
  by (simp_all add: weight_def add_diags_def lx_error_def)

lemma weight_set_top:
  "length (src_rest s) \<le> length (src_rest (top lx)) \<Longrightarrow> weight (set_top s lx) \<le> weight lx"
  by (cases "lx_stack lx") (simp_all add: weight_def set_top_def top_def)

lemma weight_set_top_less:
  "length (src_rest s) < length (src_rest (top lx)) \<Longrightarrow> weight (set_top s lx) < weight lx"
  by (cases "lx_stack lx") (simp_all add: weight_def set_top_def top_def eof_source_def)

lemma weight_pop: "\<not> atEof lx \<Longrightarrow> weight (pop_source lx) < weight lx"
  by (cases "lx_stack lx") (simp_all add: weight_def pop_source_def atEof_def)

lemma weight_pop_le: "weight (pop_source lx) \<le> weight lx"
  by (cases "lx_stack lx") (simp_all add: weight_def pop_source_def)

lemma steps_set_top [lexer_intro]:
  "lx_steps a b \<Longrightarrow> reads (top b) s \<Longrightarrow> lx_steps a (set_top s b)"
  using weight_set_top [of s b]
  by (auto simp: lx_steps_def frame_simps dest: reads_length)

lemma steps_add_diags [lexer_intro]: "lx_steps a b \<Longrightarrow> lx_steps a (add_diags ds b)"
  by (simp add: lx_steps_def frame_simps) (simp add: add_diags_def suffix_appendI)

lemma steps_error [lexer_intro]: "lx_steps a b \<Longrightarrow> lx_steps a (lx_error l m b)"
  by (simp add: lx_steps_def frame_simps) (simp add: lx_error_def suffix_ConsI)

lemma steps_pop [lexer_intro]: "lx_steps a b \<Longrightarrow> lx_steps a (pop_source b)"
  using weight_pop_le [of b] by (auto simp: lx_steps_def pop_source_def)

lemma steps_macros [lexer_intro]: "lx_steps a b \<Longrightarrow> lx_steps a (b\<lparr>lx_macros := ms\<rparr>)"
  by (simp add: lx_steps_def)

lemma steps_fault [lexer_intro]: "lx_steps a b \<Longrightarrow> (lx_fault b \<Longrightarrow> f) \<Longrightarrow> lx_steps a (b\<lparr>lx_fault := f\<rparr>)"
  by (auto simp: lx_steps_def)

lemma steps_conds [lexer_intro]:
  "lx_steps a b \<Longrightarrow> (conds_ok (lx_conds b) \<Longrightarrow> conds_ok cs) \<Longrightarrow> lx_steps a (b\<lparr>lx_conds := cs\<rparr>)"
  by (auto simp: lx_steps_def)

lemma conds_push: "conds_ok cs \<Longrightarrow> (act \<Longrightarrow> tak \<and> (\<forall>o' \<in> set cs. c_active o'))
    \<Longrightarrow> conds_ok (\<lparr>c_active = act, c_taken = tak, c_elseSeen = False\<rparr> # cs)"
  by simp

lemma steps_push_cond [lexer_intro]:
  "lx_steps a b \<Longrightarrow> (act \<Longrightarrow> tak \<and> (skippingConds b \<longrightarrow> weight b = 0)) \<Longrightarrow> lx_steps a (push_cond act tak b)"
  by (auto simp: push_cond_def skippingConds_def lx_steps_def)

lemma skippingConds_frame [simp]:
  "skippingConds (lx_error l m b) = skippingConds b"
  "skippingConds (add_diags ds b) = skippingConds b"
  "skippingConds (set_top s b) = skippingConds b"
  "skippingConds (b\<lparr>lx_fault := f\<rparr>) = skippingConds b"
  by (simp_all add: skippingConds_def frame_simps)

subsection \<open>Directives\<close>

text \<open>An environment in which no file opens and no \<open>#exe\<close> hook is set: nothing can be included.\<close>

definition closed_env :: "env \<Rightarrow> bool" where
  "closed_env e \<longleftrightarrow> (\<forall>path. e_file e path = None) \<and> e_exe e = None"

lemma steps_evalCondExpr [lexer_intro]:
  "lx_steps a b \<Longrightarrow> lx_steps a (snd (evalCondExpr toks l b))"
  by (auto simp: evalCondExpr_def Let_def split: option.split intro!: lexer_intro)

lemma skipping_evalCondExpr [simp]:
  "skippingConds (snd (evalCondExpr toks l b)) = skippingConds b"
  by (auto simp: evalCondExpr_def Let_def split: option.split)

lemma weight_evalCondExpr [simp]: "weight (snd (evalCondExpr toks l b)) = weight b"
  by (auto simp: evalCondExpr_def Let_def split: option.split)

lemma steps_dir_ifdef [lexer_intro]:
  "lx_steps a b \<Longrightarrow> (skippingConds b \<Longrightarrow> sk \<or> weight b = 0) \<Longrightarrow> lx_steps a (dir_ifdef neg l sk toks b)"
  by (auto simp: dir_ifdef_def Let_def intro!: lexer_intro split: if_splits)

lemma steps_dir_if [lexer_intro]:
  "lx_steps a b \<Longrightarrow> (skippingConds b \<Longrightarrow> sk \<or> weight b = 0) \<Longrightarrow> lx_steps a (dir_if l sk toks b)"
  by (auto simp: dir_if_def case_prod_beta intro!: lexer_intro)

lemma steps_dir_ifmode [lexer_intro]:
  "lx_steps a b \<Longrightarrow> (skippingConds b \<Longrightarrow> sk \<or> weight b = 0) \<Longrightarrow> lx_steps a (dir_ifmode jit sk b)"
  by (auto simp: dir_ifmode_def Let_def intro!: lexer_intro split: if_splits)

lemma steps_dir_else [lexer_intro]: "lx_steps a b \<Longrightarrow> lx_steps a (dir_else l b)"
  by (cases "lx_conds b")
    (auto simp: dir_else_def Let_def frame_simps intro!: lexer_intro)

lemma steps_dir_endif [lexer_intro]: "lx_steps a b \<Longrightarrow> lx_steps a (dir_endif l b)"
  by (cases "lx_conds b") (auto simp: dir_endif_def intro!: lexer_intro)

lemma steps_dir_define [lexer_intro]: "lx_steps a b \<Longrightarrow> lx_steps a (dir_define l toks b)"
  by (auto simp: dir_define_def Let_def split: list.split intro!: lexer_intro)

lemma steps_dir_undef [lexer_intro]: "lx_steps a b \<Longrightarrow> lx_steps a (dir_undef l toks b)"
  by (auto simp: dir_undef_def intro!: lexer_intro)

lemma open_first_closed: "closed_env e \<Longrightarrow> open_first e ps lx = (False, lx)"
  by (induction ps) (simp_all add: closed_env_def)

lemma steps_dir_include [lexer_intro]:
  "lx_steps a b \<Longrightarrow> closed_env e \<Longrightarrow> lx_steps a (dir_include e l toks b)"
  by (auto simp: dir_include_def openInclude_def open_first_closed intro!: lexer_intro)

lemma steps_dir_assert [lexer_intro]: "lx_steps a b \<Longrightarrow> lx_steps a (dir_assert l toks b)"
  by (auto simp: dir_assert_def case_prod_beta intro!: lexer_intro)

lemma steps_skip_line [lexer_intro]: "lx_steps a b \<Longrightarrow> lx_steps a (skip_line b)"
  unfolding skip_line_def by (erule steps_set_top) (rule line.scan_reads)

lemma reads_exe_scan: "reads s (snd (snd (snd (exe_scan d s))))"
proof (induction d s rule: exe_scan.induct)
  case (1 d s)
  show ?case
  proof (cases "peekc s 0")
    case None
    then show ?thesis by (subst exe_scan.simps) simp
  next
    case (Some c)
    have lit: "reads s (snd (snd (lexCharsInto c (skipc s))))"
      by (rule reads_trans [OF reads_skipc reads_lexCharsInto])
    consider (lit) "c = c_dquote \<or> c = c_squote"
      | (comment) "\<not> (c = c_dquote \<or> c = c_squote)" "c = CHR ''/'' \<and> peek_is s 1 (CHR ''/'')"
      | (close) "\<not> (c = c_dquote \<or> c = c_squote)" "\<not> (c = CHR ''/'' \<and> peek_is s 1 (CHR ''/''))"
          "c = CHR ''}'' \<and> d \<le> 1"
      | (other) "\<not> (c = c_dquote \<or> c = c_squote)" "\<not> (c = CHR ''/'' \<and> peek_is s 1 (CHR ''/''))"
          "\<not> (c = CHR ''}'' \<and> d \<le> 1)" by blast
    then show ?thesis
    proof cases
      case lit
      obtain t ds s1 where s1: "lexCharsInto c (skipc s) = (t, ds, s1)" by (metis prod_cases3)
      have "reads s1 (snd (snd (snd (exe_scan d s1))))"
        by (rule "1.IH"(1) [OF Some lit s1 [symmetric] refl refl])
      moreover have "reads s s1" using \<open>reads s (snd (snd (lexCharsInto c (skipc s))))\<close> s1 by simp
      ultimately have "reads s (snd (snd (snd (exe_scan d s1))))" by (rule reads_trans [rotated])
      then show ?thesis
        using lit s1 Some by (subst exe_scan.simps) (simp add: case_prod_beta Let_def)
    next
      case comment
      from "1.IH"(2) [OF Some comment]
      have "reads s (snd (snd (snd (exe_scan d (to_eol s)))))"
        by (rule reads_trans [OF reads_span_src])
      then show ?thesis
        using comment Some by (subst exe_scan.simps) (simp add: case_prod_beta Let_def)
    next
      case close
      then show ?thesis using Some by (subst exe_scan.simps) simp
    next
      case other
      from "1.IH"(3) [OF Some other] show ?thesis
        using other Some
        by (subst exe_scan.simps) (simp only: case_prod_beta Let_def option.case if_False snd_conv,
          rule reads_trans [OF reads_skipc], simp)
    qed
  qed
qed

lemma top_set_top: "\<not> atEof lx \<Longrightarrow> top (set_top s lx) = s"
  by (cases "lx_stack lx") (simp_all add: top_def set_top_def atEof_def)

lemma steps_handleExeBlock [lexer_intro]:
  assumes "lx_steps a b" and "closed_env e"
  shows "lx_steps a (handleExeBlock e b)"
proof -
  let ?s1 = "skipc (snd (span_src is_ws (top b)))"
  have s1: "reads (top b) ?s1" by (rule reads_skipcI) (rule reads_span_src)
  then have "reads (top b) (snd (snd (snd (exe_scan 1 ?s1))))"
    by (rule reads_trans) (rule reads_exe_scan)
  with s1 assms show ?thesis
    by (auto simp: handleExeBlock_def Let_def case_prod_beta closed_env_def intro!: lexer_intro)
qed

text \<open>Skipping starts only in a directive, or at the end of the input.\<close>

definition lx_stays :: "lexer \<Rightarrow> lexer \<Rightarrow> bool" where
  "lx_stays a b \<longleftrightarrow> lx_steps a b \<and> (skippingConds b \<longrightarrow> skippingConds a \<or> weight b = 0)"

lemma lx_stays_steps: "lx_stays a b \<Longrightarrow> lx_steps a b"
  by (simp add: lx_stays_def)

lemma lx_stays_trans: "lx_stays a b \<Longrightarrow> lx_stays b c \<Longrightarrow> lx_stays a c"
  by (auto simp: lx_stays_def lx_steps_def intro: suffix_order.trans)

text \<open>A directive is a step if the reader of its line is.\<close>

lemma handleDirective_steps:
  assumes ll: "\<And>b. weight b \<le> w \<Longrightarrow> returns (ll b) (\<lambda>_. lx_stays b)"
    and w: "weight b \<le> w" and e: "closed_env e"
  shows "\<exists>c. handleDirective e ll b = Some c \<and> lx_steps b c"
proof -
  define s where "s = snd (span_src (\<lambda>c. isalnum c \<or> c = CHR ''_'') (top b))"
  define name where "name = fst (span_src (\<lambda>c. isalnum c \<or> c = CHR ''_'') (top b))"
  define lx where "lx = set_top s b"
  have lx: "lx_steps b lx" unfolding lx_def s_def
    by (rule steps_set_top) (auto intro: lexer_intro reads_span_src)
  have sk: "skippingConds lx = skippingConds b" by (simp add: lx_def)
  have "weight lx \<le> w" using lx_steps_weight [OF lx] w by simp
  then obtain toks c where c: "ll lx = Some (toks, c)" and st: "lx_stays lx c"
    using ll by (blast elim: returnsE)
  have steps: "lx_steps b c" using lx lx_stays_steps [OF st] by (rule lx_steps_trans)
  have cond: "skippingConds c \<Longrightarrow> skippingConds lx \<or> weight c = 0"
    using st by (auto simp: lx_stays_def)
  have eq: "handleDirective e ll b =
    (let l = here (top b); skipping = skippingConds lx
      in if name = ''ifdef'' \<or> name = ''ifndef'' then Some (dir_ifdef (name = ''ifndef'') l skipping toks c)
         else if name = ''if'' then Some (dir_if l skipping toks c)
         else if name = ''ifaot'' \<or> name = ''ifjit'' then Some (dir_ifmode (name = ''ifjit'') skipping c)
         else if name = ''else'' then Some (dir_else l c)
         else if name = ''endif'' then Some (dir_endif l c)
         else if skipping then Some (skip_line lx)
         else if name = ''define'' then Some (dir_define l toks c)
         else if name = ''undef'' then Some (dir_undef l toks c)
         else if name = ''include'' then Some (dir_include e l toks c)
         else if name = ''assert'' then Some (dir_assert l toks c)
         else if name = ''help_index'' \<or> name = ''help_file'' then Some (skip_line lx)
         else if name = ''exe'' then Some (handleExeBlock e lx)
         else Some (skip_line (lx_error l (''unknown directive #'' @ name) lx)))"
    using c by (simp add: handleDirective_def case_prod_beta Let_def name_def s_def lx_def)
  have some_if: "(\<exists>d. (if p then x else y) = Some d \<and> lx_steps b d)
      \<longleftrightarrow> (if p then \<exists>d. x = Some d \<and> lx_steps b d else \<exists>d. y = Some d \<and> lx_steps b d)" for p x y
    by simp
  have some: "(\<exists>d. Some x = Some d \<and> lx_steps b d) \<longleftrightarrow> lx_steps b x" for x by simp
  have "lx_steps b (dir_ifdef neg l (skippingConds lx) toks c)"
       "lx_steps b (dir_if l (skippingConds lx) toks c)"
       "lx_steps b (dir_ifmode jit (skippingConds lx) c)"
       "lx_steps b (dir_else l c)" "lx_steps b (dir_endif l c)" "lx_steps b (dir_define l toks c)"
       "lx_steps b (dir_undef l toks c)" "lx_steps b (dir_include e l toks c)"
       "lx_steps b (dir_assert l toks c)" "lx_steps b (skip_line lx)"
       "lx_steps b (handleExeBlock e lx)" "lx_steps b (skip_line (lx_error l m lx))" for neg jit l m
    using steps cond lx e by (blast intro: lexer_intro)+
  then show ?thesis unfolding eq Let_def some_if some by (simp only: if_cancel split: if_split)
qed

subsection \<open>Raw lexing returns\<close>

text \<open>What raw lexing promises of its result: it is past some input, and not inside a skipped region.\<close>

definition raw_ok :: "lexer \<Rightarrow> token \<Rightarrow> lexer \<Rightarrow> bool" where
  "raw_ok a t b \<longleftrightarrow> lx_steps a b \<and> (0 < weight a \<longrightarrow> weight b < weight a)
     \<and> (skippingConds b \<longrightarrow> weight b = 0) \<and> (tk_kind t = TkEof \<longleftrightarrow> weight b = 0)"

definition tok_ok :: "lexer \<Rightarrow> token \<Rightarrow> lexer \<Rightarrow> bool" where
  "tok_ok a t b \<longleftrightarrow> lx_stays a b \<and> weight b < weight a \<and> (tk_kind t = TkEof \<longleftrightarrow> weight b = 0)"

lemma weight_0_iff: "weight lx = 0 \<longleftrightarrow> atEof lx"
  by (cases "lx_stack lx") (simp_all add: weight_def atEof_def)

lemma raw_ok_later: "lx_steps a b \<Longrightarrow> weight b < weight a \<Longrightarrow> raw_ok b t c \<Longrightarrow> raw_ok a t c"
  by (auto simp: raw_ok_def intro: lx_steps_trans dest: lx_steps_weight)

lemma lexNumber_kind: "tk_kind (fst (lexNumber s)) \<in> {TkIntLit, TkFloatLit}"
  by (simp add: lexNumber_def Let_def case_prod_beta)

lemma lexTokenSrc_kind:
  assumes "lexTokenSrc s = (Some t, ds, s')"
  shows "tk_kind t \<noteq> TkEof"
proof (cases "getc s")
  case (Pair x s1)
  show ?thesis
  proof (cases x)
    case (Some c)
    show ?thesis
      using assms lexNumber_kind [of s]
      by (auto simp: lexTokenSrc_def Pair Some Let_def case_prod_beta split: if_split_asm option.split_asm)
  qed (use assms Pair in \<open>simp add: lexTokenSrc_def\<close>)
qed

lemma weight_top: "peekc (top lx) 0 = Some c \<Longrightarrow> 0 < weight lx"
  by (cases "lx_stack lx") (auto simp: weight_def top_def eof_source_def peekc_def)

lemma less_weight:
  assumes "length (src_rest s) < length (src_rest (top lx))" and "weight b = weight (set_top s lx)"
  shows "weight b < weight lx"
  using weight_set_top_less [OF assms(1)] assms(2) by simp

lemma steps_end_source: "lx_steps lx (end_source lx)"
  by (auto simp: end_source_def intro!: lexer_intro)

lemma weight_end_source: "\<not> atEof lx \<Longrightarrow> weight (end_source lx) < weight lx"
  using weight_pop [of lx] weight_pop [of "lx_error l m lx" for l m]
  by (simp add: end_source_def atEof_def frame_simps)

lemma steps_skip_comment: "lx_steps lx (skip_comment lx)"
proof -
  have "reads (top lx) (snd (skip_block (skipc (skipc (top lx)))))"
    by (blast intro: reads_trans reads_skip_block)
  then show ?thesis by (auto simp: skip_comment_def case_prod_beta Let_def intro!: lexer_intro)
qed

lemma weight_skip_comment: "src_rest (top lx) \<noteq> [] \<Longrightarrow> weight (skip_comment lx) < weight lx"
proof -
  assume ne: "src_rest (top lx) \<noteq> []"
  have "length (src_rest (snd (skip_block (skipc (skipc (top lx)))))) \<le> length (src_rest (skipc (top lx)))"
    by (rule reads_length) (blast intro: reads_trans reads_skip_block)
  then have "length (src_rest (snd (skip_block (skipc (skipc (top lx)))))) < length (src_rest (top lx))"
    using skipc_less [OF ne] by linarith
  then show ?thesis
    by (intro less_weight) (auto simp: skip_comment_def case_prod_beta Let_def)
qed

lemma steps_skip_inactive: "lx_steps lx (skip_inactive lx)"
  by (auto simp: skip_inactive_def case_prod_beta reads_skipCondBlockLine intro!: lexer_intro)

lemma skipCondBlockLine_less:
  assumes c: "src_rest s = c # cs" and nh: "c \<noteq> CHR ''#''"
  shows "length (src_rest (snd (skipCondBlockLine s))) < length (src_rest s)"
proof -
  have p: "peekc s 0 = Some c" by (simp add: peekc_0 c)
  have sk: "length (src_rest (skipc s)) < length (src_rest s)" by (rule skipc_less) (simp add: c)
  have after: "length (src_rest (snd (skipCondBlockLine a))) < length (src_rest s)"
    if "length (src_rest a) < length (src_rest s)" for a
    using reads_length [OF reads_skipCondBlockLine [of a]] that by simp
  have "length (src_rest (snd (skip_block (skipc (skipc s))))) \<le> length (src_rest (skipc s))"
    by (rule reads_length) (blast intro: reads_trans reads_skip_block)
  then have block: "length (src_rest (snd (skip_block (skipc (skipc s))))) < length (src_rest s)"
    using sk by simp
  have lit: "lexCharsInto c s = ([], [], skipc s)" by (rule lexCharsInto_at_quote) (rule c)
  have eol: "c \<noteq> c_nl \<Longrightarrow> length (src_rest (to_eol s)) < length (src_rest s)"
    by (rule to_eol_less [OF p])
  show ?thesis
    using after [OF sk] after [OF block] after [OF eol] sk
    by (subst skipCondBlockLine.simps) (simp add: p nh lit case_prod_beta)
qed

lemma weight_skip_inactive:
  assumes "src_rest (top lx) = c # cs" and "c \<noteq> CHR ''#''"
  shows "weight (skip_inactive lx) < weight lx"
  using skipCondBlockLine_less [OF assms]
  by (intro less_weight) (auto simp: skip_inactive_def case_prod_beta)

lemma raw_total:
  assumes e: "closed_env e"
  shows "(2 * weight lx < n \<longrightarrow> returns (rawNext e n lx) (raw_ok lx))
       \<and> (2 * weight lx \<le> n \<longrightarrow> src_rest (top lx) \<noteq> [] \<longrightarrow> returns (lexToken e n lx) (tok_ok lx))
       \<and> (2 * weight lx < n \<longrightarrow> returns (lexLine e n k lx) (\<lambda>_. lx_stays lx))"
proof (induction n arbitrary: lx k)
  case 0
  show ?case by (cases "lx_stack lx") (auto simp: weight_def top_def eof_source_def)
next
  case (Suc n)
  have raw: "returns (rawNext e n b) (raw_ok b)" if "2 * weight b < n" for b
    using Suc.IH that by blast
  have tok: "returns (lexToken e n b) (tok_ok b)" if "2 * weight b \<le> n" "src_rest (top b) \<noteq> []" for b
    using Suc.IH that by blast
  have line: "returns (lexLine e n k b) (\<lambda>_. lx_stays b)" if "2 * weight b < n" for b k
    using Suc.IH that by blast
  have next_raw: "returns (rawNext e n b) (raw_ok lx)"
    if "lx_steps lx b" "weight b < weight lx" "2 * weight lx < Suc n" for b
    by (rule returns_mono [OF raw]) (use that in \<open>auto intro: raw_ok_later\<close>)
  have "returns (rawNext e (Suc n) lx) (raw_ok lx)" if w: "2 * weight lx < Suc n"
  proof (cases "atEof lx")
    case True
    then show ?thesis by (simp add: raw_ok_def lexer_intro eof_token_def token0_def weight_0_iff)
  next
    case False
    show ?thesis
    proof (cases "peekc (top lx) 0")
      case None
      have "returns (rawNext e n (end_source lx)) (raw_ok lx)"
        by (rule next_raw) (use False w in \<open>simp_all add: steps_end_source weight_end_source\<close>)
      with False None show ?thesis by simp
    next
      case (Some c)
      then have ne: "src_rest (top lx) \<noteq> []" by (auto simp: peekc_def)
      then obtain cs where c: "src_rest (top lx) = c # cs" using Some by (auto simp: peekc_def neq_Nil_conv)
      have skip: "lx_steps lx (set_top (skipc (top lx)) lx)" "weight (set_top (skipc (top lx)) lx) < weight lx"
        using skipc_less [OF ne] by (auto intro: lexer_intro weight_set_top_less)
      have later: "returns (rawNext e n (set_top a lx)) (raw_ok lx)"
        if "reads (top lx) a" "length (src_rest a) < length (src_rest (top lx))" for a
        by (rule next_raw) (use that w in \<open>auto intro: lexer_intro weight_set_top_less\<close>)
      have dir: "returns (Option.bind (handleDirective e (\<lambda>lx. lexLine e n (src_line (top lx)) lx)
          (set_top (skipc (top lx)) lx)) (rawNext e n)) (raw_ok lx)"
      proof -
        let ?b = "set_top (skipc (top lx)) lx"
        have ll: "returns (lexLine e n (src_line (top b)) b) (\<lambda>_. lx_stays b)" if "weight b \<le> weight ?b" for b
          by (rule line) (use that skip(2) w in simp)
        obtain d where "handleDirective e (\<lambda>lx. lexLine e n (src_line (top lx)) lx) ?b = Some d"
            "lx_steps ?b d"
          using handleDirective_steps [where w = "weight ?b" and b = ?b, OF ll order.refl e] by blast
        moreover from this have "returns (rawNext e n d) (raw_ok lx)"
          by (intro next_raw) (use skip w in \<open>auto intro: lx_steps_trans dest: lx_steps_weight\<close>)
        ultimately show ?thesis by simp
      qed
      have comment: "returns (rawNext e n (skip_comment lx)) (raw_ok lx)"
        by (rule next_raw) (use w ne in \<open>simp_all add: steps_skip_comment weight_skip_comment\<close>)
      have inactive: "returns (rawNext e n (skip_inactive lx)) (raw_ok lx)" if "c \<noteq> CHR ''#''"
        by (rule next_raw) (use w c that in \<open>simp_all add: steps_skip_inactive weight_skip_inactive\<close>)
      have tok': "returns (lexToken e n lx) (raw_ok lx)" if "\<not> skippingConds lx"
        by (rule returns_mono [OF tok])
          (use w ne that in \<open>auto simp: raw_ok_def tok_ok_def lx_stays_def\<close>)
      have eol: "returns (rawNext e n (set_top (to_eol (top lx)) lx)) (raw_ok lx)" if "c \<noteq> c_nl"
        by (rule later [OF reads_span_src to_eol_less [OF Some that]])
      have white: "returns (rawNext e n (set_top (skipc (top lx)) lx)) (raw_ok lx)"
        by (rule later [OF reads_skipc skipc_less [OF ne]])
      have "returns (rawNext e (Suc n) lx) (raw_ok lx) \<longleftrightarrow>
        returns (if is_raw_ws c then rawNext e n (set_top (skipc (top lx)) lx)
             else if c = CHR ''/'' \<and> peek_is (top lx) 1 (CHR ''/'') then rawNext e n (set_top (to_eol (top lx)) lx)
             else if c = CHR ''/'' \<and> peek_is (top lx) 1 (CHR ''*'') then rawNext e n (skip_comment lx)
             else if c = CHR ''#''
             then Option.bind (handleDirective e (\<lambda>lx. lexLine e n (src_line (top lx)) lx)
                (set_top (skipc (top lx)) lx)) (rawNext e n)
             else if skippingConds lx then rawNext e n (skip_inactive lx)
             else lexToken e n lx) (raw_ok lx)"
        by (simp only: rawNext.simps False if_False Let_def Some option.case)
      also have "\<dots>"
        using white eol comment dir inactive tok' by (simp only: returns_if if_cancel split: if_split) simp
      finally show ?thesis .
    qed
  qed
  moreover have "returns (lexToken e (Suc n) lx) (tok_ok lx)"
    if w: "2 * weight lx \<le> Suc n" and ne: "src_rest (top lx) \<noteq> []"
  proof -
    obtain t ds a where a: "lexTokenSrc (top lx) = (t, ds, a)" by (metis prod_cases3)
    have rd: "reads (top lx) a" "length (src_rest a) < length (src_rest (top lx))"
      using lexTokenSrc_reads [of "top lx"] lexTokenSrc_less [OF ne] a by simp_all
    let ?b = "add_diags ds (set_top a lx)"
    have b: "lx_steps lx ?b" "weight ?b < weight lx"
      using rd by (auto intro: lexer_intro less_weight)
    show ?thesis
    proof (cases t)
      case None
      have "returns (rawNext e n ?b) (raw_ok ?b)" by (rule raw) (use b w in simp)
      then have "returns (rawNext e n ?b) (tok_ok lx)"
        by (rule returns_mono)
          (use b in \<open>auto simp: raw_ok_def tok_ok_def lx_stays_def intro: lx_steps_trans dest: lx_steps_weight\<close>)
      with a None show ?thesis by simp
    next
      case (Some t')
      have "lx_stack lx \<noteq> []" using ne by (auto simp: top_def eof_source_def)
      then have "weight ?b \<noteq> 0" by (simp add: weight_0_iff atEof_def frame_simps set_top_def split: list.split)
      with a Some b lexTokenSrc_kind [of "top lx"] show ?thesis
        by (simp add: tok_ok_def lx_stays_def)
    qed
  qed
  moreover have "returns (lexLine e (Suc n) k lx) (\<lambda>_. lx_stays lx)" if w: "2 * weight lx < Suc n"
  proof (cases "atEof lx")
    case True
    then show ?thesis by (simp add: lx_stays_def lexer_intro)
  next
    case False
    define s where "s = snd (span_src is_line_ws (top lx))"
    have s: "reads (top lx) s" unfolding s_def by (rule reads_span_src)
    have stay: "lx_stays lx (set_top a lx)" if "reads s a" for a
      using reads_trans [OF s that] by (auto simp: lx_stays_def intro: lexer_intro)
    have again: "returns (lexLine e n k (set_top a lx)) (\<lambda>_. lx_stays lx)"
      if "reads (skipc s) a" "src_rest s \<noteq> []" for a k
    proof (rule returns_mono)
      have a: "reads s a" "length (src_rest a) < length (src_rest s)" using that by (auto dest: less_after_skip)
      then have "length (src_rest a) < length (src_rest (top lx))" using reads_length [OF s] by simp
      then have "weight (set_top a lx) < weight lx" by (rule weight_set_top_less)
      with w show "returns (lexLine e n k (set_top a lx)) (\<lambda>_. lx_stays (set_top a lx))"
        by (intro line) simp
      show "lx_stays lx b" if "lx_stays (set_top a lx) b" for b
        using stay [OF a(1)] that by (rule lx_stays_trans)
    qed
    have skip: "lx_stays lx (skip_line (set_top s lx))"
      using stay [OF reads_refl] by (auto simp: lx_stays_def skip_line_def intro: lexer_intro steps_skip_line [unfolded skip_line_def])
    have tokens: "returns (Option.bind (lexToken e n (set_top s lx)) (\<lambda>(t, lx2).
        Option.bind (lexLine e n k lx2) (\<lambda>(ts, lx3). Some (t # ts, lx3)))) (\<lambda>_. lx_stays lx)"
      if ne: "src_rest s \<noteq> []"
    proof -
      have top: "top (set_top s lx) = s" using False by (rule top_set_top)
      have le: "weight (set_top s lx) \<le> weight lx" by (rule weight_set_top) (rule reads_length [OF s])
      then have "returns (lexToken e n (set_top s lx)) (tok_ok (set_top s lx))"
        using w ne top by (intro tok) auto
      then obtain t b where b: "lexToken e n (set_top s lx) = Some (t, b)" "tok_ok (set_top s lx) t b"
        by (rule returnsE)
      then have lt: "weight b < weight lx" and st: "lx_stays lx b"
        using le stay [OF reads_refl] by (auto simp: tok_ok_def intro: lx_stays_trans)
      have "returns (lexLine e n k b) (\<lambda>_. lx_stays b)" by (rule line) (use lt w in simp)
      then have "returns (lexLine e n k b) (\<lambda>_. lx_stays lx)"
        by (rule returns_mono) (rule lx_stays_trans [OF st])
      then obtain ts d where "lexLine e n k b = Some (ts, d)" "lx_stays lx d" by (rule returnsE)
      with b show ?thesis by simp
    qed
    have splice: "reads (skipc s) (skipc (skipc s))" by (rule reads_skipc)
    have block: "reads (skipc s) (snd (skip_block (skipc (skipc s))))"
      by (rule reads_trans [OF reads_skipc reads_skip_block])
    have "returns (lexLine e (Suc n) k lx) (\<lambda>_. lx_stays lx) \<longleftrightarrow>
      returns (if peek_is s 0 c_bslash \<and> peek_is s 1 c_nl
         then lexLine e n (src_line (skipc (skipc s))) (set_top (skipc (skipc s)) lx)
         else if peekc s 0 = None \<or> peek_is s 0 c_nl then Some ([], set_top s lx)
         else if peek_is s 0 (CHR ''/'') \<and> peek_is s 1 (CHR ''/'') then Some ([], skip_line (set_top s lx))
         else if peek_is s 0 (CHR ''/'') \<and> peek_is s 1 (CHR ''*'')
         then lexLine e n k (set_top (snd (skip_block (skipc (skipc s)))) lx)
         else if src_line s \<noteq> k then Some ([], set_top s lx)
         else Option.bind (lexToken e n (set_top s lx)) (\<lambda>(t, lx2).
           Option.bind (lexLine e n k lx2) (\<lambda>(ts, lx3). Some (t # ts, lx3)))) (\<lambda>_. lx_stays lx)"
      by (simp only: lexLine.simps False if_False Let_def s_def)
    also have "\<dots>"
    proof (cases "src_rest s")
      case Nil
      then show ?thesis using stay [OF reads_refl] by (simp add: peek_is_def peekc_def)
    next
      case (Cons c cs)
      then have ne: "src_rest s \<noteq> []" by simp
      show ?thesis
        using again [OF splice ne] again [OF block ne] stay [OF reads_refl] skip tokens [OF ne]
        by (simp only: returns_if returns_simps if_cancel split: if_split)
    qed
    finally show ?thesis .
  qed
  ultimately show ?case by blast
qed

text \<open>Raw lexing and the reading of a directive's line, from any state, with the fuel \<open>2 weight + 1\<close>.\<close>

lemma rawNext_returns: "closed_env e \<Longrightarrow> 2 * weight lx < n \<Longrightarrow> returns (rawNext e n lx) (raw_ok lx)"
  using raw_total by blast

lemma lexLineTokens_returns:
  "closed_env e \<Longrightarrow> 2 * weight lx < n \<Longrightarrow> returns (lexLineTokens e n lx) (\<lambda>_. lx_stays lx)"
  unfolding lexLineTokens_def using raw_total by blast

subsection \<open>Every call of \<open>next\<close> returns\<close>

text \<open>What \<open>next\<close> does to the state: the steps of raw lexing, and a new queue of pending tokens.\<close>

definition nx_steps :: "lexer \<Rightarrow> lexer \<Rightarrow> bool" where
  "nx_steps a b \<longleftrightarrow> lx_steps a (b\<lparr>lx_pending := lx_pending a\<rparr>)"

lemma nx_steps_iff:
  "nx_steps a b \<longleftrightarrow> weight b \<le> weight a \<and> suffix (lx_diags a) (lx_diags b)
     \<and> (conds_ok (lx_conds a) \<longrightarrow> weight b = 0 \<or> conds_ok (lx_conds b))
     \<and> lx_expanding b = lx_expanding a \<and> lx_includeDirs b = lx_includeDirs a
     \<and> lx_jitMode b = lx_jitMode a \<and> (lx_fault a \<longrightarrow> lx_fault b)"
  by (simp add: nx_steps_def lx_steps_def)

lemma nx_steps_refl [simp]: "nx_steps a a" "nx_steps a (a\<lparr>lx_pending := ps\<rparr>)"
  by (simp_all add: nx_steps_iff)

lemma nx_steps_trans: "nx_steps a b \<Longrightarrow> nx_steps b c \<Longrightarrow> nx_steps a c"
  by (auto simp: nx_steps_iff intro: suffix_order.trans)

lemma lx_nx_steps: "lx_steps a b \<Longrightarrow> nx_steps a b"
  by (simp add: nx_steps_iff lx_steps_def)

lemma expandOrReturn_returns:
  assumes e: "closed_env e"
  shows "2 * weight lx + length (lx_pending lx) + 1 < n
    \<Longrightarrow> returns (expandOrReturn e n t lx) (\<lambda>_. nx_steps lx)"
proof (induction n arbitrary: t lx)
  case (Suc n)
  have pending: "returns (expandOrReturn e n p (lx\<lparr>lx_pending := ps\<rparr>)) (\<lambda>_. nx_steps lx)"
    if ps: "lx_pending lx = p # ps" for p ps
  proof (rule returns_mono)
    show "returns (expandOrReturn e n p (lx\<lparr>lx_pending := ps\<rparr>)) (\<lambda>_. nx_steps (lx\<lparr>lx_pending := ps\<rparr>))"
      by (rule Suc.IH) (use Suc.prems that in simp_all)
    show "nx_steps lx b" if "nx_steps (lx\<lparr>lx_pending := ps\<rparr>) b" for b
      using that by (simp add: nx_steps_iff)
  qed
  have fresh: "returns (do { (r, lx1) \<leftarrow> rawNext e n lx;
      if tk_kind r = TkEof then Some (r, lx1) else expandOrReturn e n r lx1 }) (\<lambda>_. nx_steps lx)"
    if "lx_pending lx = []"
  proof -
    obtain r b where b: "rawNext e n lx = Some (r, b)" "raw_ok lx r b"
      using rawNext_returns [OF e, of lx n] Suc.prems(1) that by (auto elim: returnsE)
    then have st: "nx_steps lx b" "lx_pending b = []"
      using that by (auto simp: raw_ok_def lx_nx_steps lx_steps_def)
    have "returns (expandOrReturn e n r b) (\<lambda>_. nx_steps lx)" if "tk_kind r \<noteq> TkEof"
    proof (rule returns_mono)
      have "weight b < weight lx" using b(2) that by (auto simp: raw_ok_def lx_steps_def)
      then show "returns (expandOrReturn e n r b) (\<lambda>_. nx_steps b)"
        by (intro Suc.IH) (use st Suc.prems in simp)
      show "nx_steps lx c" if "nx_steps b c" for c using st(1) that by (rule nx_steps_trans)
    qed
    with b st show ?thesis by simp
  qed
  show ?case
  proof (cases "tk_kind t \<noteq> TkIdent \<or> tk_noExpand t \<or> builtinMacro e (lx_jitMode lx) t \<noteq> None
      \<or> map_of (lx_macros lx) (tk_text t) = None")
    case True
    then show ?thesis by (auto split: option.split)
  next
    case False
    then obtain body where body: "map_of (lx_macros lx) (tk_text t) = Some body" by auto
    show ?thesis
    proof (cases "macro_out e lx t body")
      case Nil
      then show ?thesis
        using False body pending fresh by (cases "lx_pending lx") (simp_all del: returns_simps(3))
    next
      case (Cons o1 os)
      then show ?thesis using False body by simp
    qed
  qed
qed simp

lemma lexer_next_returns:
  assumes e: "closed_env e" and n: "2 * weight lx + length (lx_pending lx) + 1 < n"
  shows "returns (lexer_next e n lx) (\<lambda>_. nx_steps lx)"
proof (cases "lx_pending lx")
  case Nil
  obtain t b where b: "rawNext e n lx = Some (t, b)" "raw_ok lx t b"
    using rawNext_returns [OF e, of lx n] n by (auto elim: returnsE)
  then have st: "nx_steps lx b" "weight b \<le> weight lx" "lx_pending b = []"
    using Nil by (auto simp: raw_ok_def lx_nx_steps lx_steps_def)
  have "returns (expandOrReturn e n t b) (\<lambda>_. nx_steps b)"
    by (rule expandOrReturn_returns [OF e]) (use st n in simp)
  then have "returns (expandOrReturn e n t b) (\<lambda>_. nx_steps lx)"
    by (rule returns_mono) (rule nx_steps_trans [OF st(1)])
  with b st Nil show ?thesis by (simp add: lexer_next_def)
next
  case (Cons p ps)
  have "returns (expandOrReturn e n p (lx\<lparr>lx_pending := ps\<rparr>)) (\<lambda>_. nx_steps (lx\<lparr>lx_pending := ps\<rparr>))"
    by (rule expandOrReturn_returns [OF e]) (use n Cons in simp)
  then have "returns (expandOrReturn e n p (lx\<lparr>lx_pending := ps\<rparr>)) (\<lambda>_. nx_steps lx)"
    by (rule returns_mono) (simp add: nx_steps_iff)
  with Cons show ?thesis by (simp add: lexer_next_def)
qed

end
