(* ===== verification/HC_TokenText.thy ===== *)
theory HC_TokenText
  imports HC_LexTotal
begin

text \<open>
  The spelling of tokens and the proof that the lexer reads it back: literals with their
  escapes, decimal numbers, identifiers, every punctuator, and whole texts of spelled tokens
  with a blank after each.
\<close>

subsection \<open>Literals\<close>

definition plain_char :: "char \<Rightarrow> bool" where
  "plain_char c \<longleftrightarrow> 32 \<le> byte c \<and> byte c < 127"

definition hex_char :: "nat \<Rightarrow> char" where
  "hex_char d = (if d < 10 then digit_char d else char_of (87 + d))"

text \<open>One character of a literal delimited by \<open>q\<close>.\<close>

definition encode_char :: "char \<Rightarrow> char \<Rightarrow> string" where
  "encode_char q c =
     (if c = CHR ''$'' then ''$$''
      else if c = q \<or> c = c_bslash then [c_bslash, c]
      else if plain_char c then [c]
      else [c_bslash, CHR ''x'', hex_char (byte c div 16), hex_char (byte c mod 16)])"

definition encode :: "char \<Rightarrow> string \<Rightarrow> string" where
  "encode q t = concat (map (encode_char q) t)"

lemma encode_simps [simp]: "encode q [] = []" "encode q (c # t) = encode_char q c @ encode q t"
  by (simp_all add: encode_def)

lemma hex_char_digit [simp]:
  assumes "d < 16"
  shows "isxdigit (hex_char d)" and "hexval (hex_char d) = d"
  using assms by (auto simp: hex_char_def isxdigit_def hexval_def isdigit_def isupper_def digit_char_def)

lemma getc_next:
  assumes "src_rest s = c # cs"
  obtains s1 where "getc s = (Some c, s1)" and "src_rest s1 = cs"
  using assms by (auto simp: getc_def split: if_splits)

lemma read_hex_two:
  assumes "src_rest s = hex_char a # hex_char b # r" and "a < 16" and "b < 16"
  shows "\<exists>s'. read_hex 2 0 s = (a * 16 + b, 2, s') \<and> src_rest s' = r"
proof -
  obtain s1 where s1: "getc s = (Some (hex_char a), s1)" "src_rest s1 = hex_char b # r"
    using assms(1) by (rule getc_next)
  obtain s2 where s2: "getc s1 = (Some (hex_char b), s2)" "src_rest s2 = r"
    using s1(2) by (rule getc_next)
  show ?thesis using s1 s2 assms(2,3) by (simp add: numeral_2_eq_2)
qed

lemma escape_char_self: "c = c_dquote \<or> c = c_squote \<or> c = c_bslash \<Longrightarrow> escape_char c = c"
  by (auto simp: escape_char_def)

text \<open>The decoder inverts the encoder, for both kinds of literal.\<close>

lemma lexChars_encode:
  assumes q: "q = c_dquote \<or> q = c_squote"
  shows "src_rest s = encode q t @ q # r \<Longrightarrow> \<exists>s'. lexChars q s = (t, [], s') \<and> src_rest s' = r"
proof (induction t arbitrary: s)
  case Nil
  then obtain s1 where "getc s = (Some q, s1)" "src_rest s1 = r" by (auto elim: getc_next)
  then show ?case by (subst lexChars.simps) simp
next
  case (Cons c t)
  have put: "\<exists>s'. lex_put [c] [] (lexChars q a) = (c # t, [], s') \<and> src_rest s' = r"
    if "src_rest a = encode q t @ q # r" for a
    using Cons.IH [OF that] by (auto simp: lex_put_def)
  have qd: "q \<noteq> CHR ''$''" "q \<noteq> c_bslash" using q by auto
  consider (dollar) "c = CHR ''$''" | (esc) "c \<noteq> CHR ''$''" "c = q \<or> c = c_bslash"
    | (plain) "c \<noteq> CHR ''$''" "c \<noteq> q" "c \<noteq> c_bslash" "plain_char c"
    | (hex) "c \<noteq> CHR ''$''" "c \<noteq> q" "c \<noteq> c_bslash" "\<not> plain_char c" by blast
  then show ?case
  proof cases
    case dollar
    with Cons.prems obtain s1 where s1: "getc s = (Some (CHR ''$''), s1)"
        "src_rest s1 = CHR ''$'' # encode q t @ q # r"
      by (auto simp: encode_char_def elim: getc_next)
    then have "peek_is s1 0 (CHR ''$'')" "src_rest (skipc s1) = encode q t @ q # r"
      by (simp_all add: peek_is_def peekc_def src_rest_skipc)
    with s1 put [of "skipc s1"] dollar qd show ?thesis by (subst lexChars.simps) auto
  next
    case esc
    with Cons.prems have "src_rest s = c_bslash # c # encode q t @ q # r"
      by (auto simp: encode_char_def)
    then obtain s1 where s1: "getc s = (Some c_bslash, s1)" "src_rest s1 = c # encode q t @ q # r"
      by (rule getc_next)
    obtain s2 where s2: "getc s1 = (Some c, s2)" "src_rest s2 = encode q t @ q # r"
      using s1(2) by (rule getc_next)
    have "escape_char c = c" "c \<noteq> CHR ''x''" using esc q by (auto intro: escape_char_self)
    with s1 s2 put [OF s2(2)] qd show ?thesis by (subst lexChars.simps) simp
  next
    case plain
    with Cons.prems have "src_rest s = c # encode q t @ q # r" by (simp add: encode_char_def)
    then obtain s1 where s1: "getc s = (Some c, s1)" "src_rest s1 = encode q t @ q # r"
      by (rule getc_next)
    with plain put [OF s1(2)] show ?thesis by (subst lexChars.simps) simp
  next
    case hex
    let ?h = "hex_char (byte c div 16)" and ?l = "hex_char (byte c mod 16)"
    from hex Cons.prems have "src_rest s = c_bslash # CHR ''x'' # ?h # ?l # encode q t @ q # r"
      by (simp add: encode_char_def)
    then obtain s1 where s1: "getc s = (Some c_bslash, s1)"
        "src_rest s1 = CHR ''x'' # ?h # ?l # encode q t @ q # r" by (rule getc_next)
    obtain s2 where s2: "getc s1 = (Some (CHR ''x''), s2)" "src_rest s2 = ?h # ?l # encode q t @ q # r"
      using s1(2) by (rule getc_next)
    have "byte c div 16 < 16" by (simp add: less_mult_imp_div_less)
    from read_hex_two [OF s2(2) this] obtain s3 where
      s3: "read_hex 2 0 s2 = (byte c div 16 * 16 + byte c mod 16, 2, s3)" "src_rest s3 = encode q t @ q # r"
      by auto
    have "byte c div 16 * 16 + byte c mod 16 = byte c" by simp
    with s3 have s3': "read_hex 2 0 s2 = (byte c, 2, s3)" by simp
    with s1 s2 put [OF s3(2)] qd show ?thesis by (subst lexChars.simps) simp
  qed
qed

lemma lexCharsInto_encode:
  assumes "q = c_dquote \<or> q = c_squote" and "src_rest s = encode q t @ q # r"
  shows "\<exists>s'. lexCharsInto q s = (t, [], s') \<and> src_rest s' = r"
  using lexChars_encode [OF assms] by (auto simp: lexCharsInto_def)

subsection \<open>Tokens\<close>

definition builtin_names :: "string list" where
  "builtin_names = [''__LINE__'', ''__FILE__'', ''__DIR__'', ''__CMD_LINE__'', ''__DATE__'', ''__TIME__'']"

definition ident_text :: "string \<Rightarrow> bool" where
  "ident_text x \<longleftrightarrow> x \<noteq> [] \<and> (isalpha (hd x) \<or> hd x = CHR ''_'') \<and> list_all is_ident_char x
     \<and> x \<notin> set builtin_names"

definition unloc :: "token \<Rightarrow> token" where
  "unloc t = t\<lparr>tk_loc := no_loc\<rparr>"

text \<open>The tokens that have a spelling, without their location.\<close>

definition lexable :: "token \<Rightarrow> bool" where
  "lexable t \<longleftrightarrow>
     (case tk_kind t of
        TkIdent \<Rightarrow> ident_text (tk_text t) \<and> t = token0\<lparr>tk_kind := TkIdent, tk_text := tk_text t\<rparr>
      | TkIntLit \<Rightarrow> t = token0\<lparr>tk_kind := TkIntLit, tk_ival := tk_ival t\<rparr>
      | TkStrLit \<Rightarrow> t = token0\<lparr>tk_kind := TkStrLit, tk_text := tk_text t\<rparr>
      | TkCharLit \<Rightarrow> length (tk_text t) \<le> 8
          \<and> t = token0\<lparr>tk_kind := TkCharLit, tk_text := tk_text t, tk_ival := pack_chars (tk_text t)\<rparr>
      | TkPunct \<Rightarrow> tk_punct t \<noteq> PNone \<and> t = token0\<lparr>tk_kind := TkPunct, tk_punct := tk_punct t\<rparr>
      | _ \<Rightarrow> False)"

definition spell :: "token \<Rightarrow> string" where
  "spell t =
     (case tk_kind t of
        TkIdent \<Rightarrow> tk_text t
      | TkIntLit \<Rightarrow> dec_of_nat (unat (tk_ival t))
      | TkStrLit \<Rightarrow> c_dquote # encode c_dquote (tk_text t) @ [c_dquote]
      | TkCharLit \<Rightarrow> c_squote # encode c_squote (tk_text t) @ [c_squote]
      | TkPunct \<Rightarrow> punctStr (tk_punct t)
      | _ \<Rightarrow> [])"

definition spells :: "token list \<Rightarrow> string" where
  "spells ts = concat (map (\<lambda>t. spell t @ '' '') ts)"

lemma spells_simps [simp]: "spells [] = []" "spells (t # ts) = spell t @ CHR '' '' # spells ts"
  by (simp_all add: spells_def)

text \<open>What follows a spelled token: the end of the input or a blank.\<close>

lemma takeWhile_stop: "list_all p x \<Longrightarrow> \<not> p c \<Longrightarrow> takeWhile p (x @ c # r) = x \<and> dropWhile p (x @ c # r) = c # r"
  by (induction x) auto

lemma span_stop:
  assumes "src_rest s = x @ c # r" and "list_all p x" and "\<not> p c"
  shows "\<exists>s'. span_src p s = (x, s') \<and> src_rest s' = c # r"
  using span_src_rest [of p s] takeWhile_stop [OF assms(2,3), of r] assms(1)
  by (cases "span_src p s") auto

lemma strtoull_dec: "strtoull 10 (dec_of_nat (unat v)) = v"
proof -
  have "unat v < 2 ^ LENGTH(64)" by (rule unsigned_less)
  then have "unat v \<le> 2 ^ 64 - 1" by simp
  then show ?thesis by (simp add: strtoull_def min_absorb1)
qed

lemma isdigit_not: "isdigit c \<Longrightarrow> c \<noteq> CHR ''_'' \<and> c \<noteq> CHR ''x'' \<and> c \<noteq> CHR ''X'' \<and> c \<noteq> CHR ''b'' \<and> c \<noteq> CHR ''B''"
  by (auto simp: isdigit_def byte_def)

lemma lexNumber_dec:
  assumes s: "src_rest s = dec_of_nat (unat v) @ CHR '' '' # r"
  shows "\<exists>s'. lexNumber s = (token0\<lparr>tk_kind := TkIntLit, tk_ival := v, tk_loc := here s\<rparr>, s')
     \<and> src_rest s' = CHR '' '' # r"
proof -
  let ?d = "dec_of_nat (unat v)"
  have dig: "list_all isdigit ?d" using dec_of_nat_digits [of "unat v"] by (simp add: list_all_iff)
  have no1: "\<not> peek_is s 1 c" if "\<not> isdigit c" "c \<noteq> CHR '' ''" for c
  proof
    assume "peek_is s 1 c"
    then have c: "src_rest s ! 1 = c" "1 < length (src_rest s)" by (auto simp: peek_is_def peekc_def split: if_splits)
    show False
    proof (cases "1 < length ?d")
      case True
      then show False using c that(1) dig by (auto simp: s nth_append list_all_length)
    next
      case False
      moreover have "?d \<noteq> []" by simp
      ultimately have "length ?d = 1" by (cases ?d) auto
      then show False using c that(2) by (simp add: s nth_append)
    qed
  qed
  have "list_all (\<lambda>c. isdigit c \<or> c = CHR ''_'') ?d" using dig by (auto simp: list_all_iff)
  from span_stop [OF s this] obtain s1 where
    s1: "span_src (\<lambda>c. isdigit c \<or> c = CHR ''_'') s = (?d, s1)" "src_rest s1 = CHR '' '' # r"
    by (auto simp: isdigit_def byte_def)
  have "filter (\<lambda>c. c \<noteq> CHR ''_'') ?d = ?d"
    using dig by (auto simp: list_all_iff filter_id_conv dest: isdigit_not)
  with s1 have rd: "read_digits isdigit s = (?d, s1)" by (simp add: read_digits_def)
  have "\<not> peek_is s 1 (CHR ''x'')" "\<not> peek_is s 1 (CHR ''X'')" "\<not> peek_is s 1 (CHR ''b'')" "\<not> peek_is s 1 (CHR ''B'')"
    by (rule no1; simp add: isdigit_def byte_def)+
  moreover have "\<not> peek_is s1 0 (CHR ''.'')" "\<not> is_exp_part s1"
    by (simp_all add: is_exp_part_def peek_is_def peekc_def s1)
  ultimately show ?thesis
    using s1(2) by (simp add: lexNumber_def rd Let_def strtoull_dec)
qed

text \<open>A punctuator in front of a blank is read whole.\<close>

lemma lexPunct_spell:
  assumes "p \<noteq> PNone" and "p \<noteq> PAt" and "src_rest s = tl (punctStr p) @ CHR '' '' # r"
  shows "\<exists>s'. lexPunct (hd (punctStr p)) s = Some (p, s') \<and> src_rest s' = CHR '' '' # r"
proof -
  have "lexPunct (hd (punctStr p)) s
      = Some (p, if tl (punctStr p) = [] then s else if tl (tl (punctStr p)) = [] then skipc s else skipc (skipc s))"
    using assms
    by (cases p) (simp_all add: lexPunct_def two_def peek_is_def peekc_def src_rest_skipc)
  moreover have "length (tl (punctStr p)) \<le> 2" using assms(1) by (cases p) simp_all
  ultimately show ?thesis using assms(3)
    by (cases "tl (punctStr p)" rule: remdups_adj.cases) (auto simp: src_rest_skipc)
qed

lemma punct_first:
  assumes "p \<noteq> PNone" and "p \<noteq> PAt"
  shows "\<exists>c cs. punctStr p = c # cs \<and> \<not> isalpha c \<and> \<not> isdigit c \<and> c \<notin> {CHR ''_'', CHR ''@'', c_dquote, c_squote, CHR ''#''}
     \<and> \<not> is_raw_ws c \<and> \<not> (c = CHR ''/'' \<and> cs \<noteq> [] \<and> hd cs \<in> {CHR ''/'', CHR ''*''})"
  using assms
  by (cases p) (simp_all add: isalpha_def isupper_def islower_def isdigit_def byte_def is_raw_ws_def is_ws_def)

lemma lexTokenSrc_at:
  assumes "getc s = (Some c, s1)"
  shows "lexTokenSrc s =
     (let t = token0\<lparr>tk_loc := here s\<rparr>
      in if isalpha c \<or> c = CHR ''_'' \<or> c = CHR ''@''
             then (if c = CHR ''@'' \<and> \<not> peek_is s 1 (CHR ''@'')
                   then (Some (t\<lparr>tk_kind := TkPunct, tk_punct := PAt\<rparr>), [], s1)
                   else (case span_src is_ident_char s of
                           (txt, s') \<Rightarrow> (Some (t\<lparr>tk_kind := TkIdent, tk_text := txt\<rparr>), [], s')))
             else if isdigit c then (case lexNumber s of (n, s') \<Rightarrow> (Some n, [], s'))
             else if c = c_dquote
             then (case lexCharsInto c_dquote s1 of
                     (txt, ds, s') \<Rightarrow> (Some (t\<lparr>tk_kind := TkStrLit, tk_text := txt\<rparr>), ds, s'))
             else if c = c_squote
             then (case lexCharsInto c_squote s1 of
                     (txt, ds, s') \<Rightarrow>
                       (Some (t\<lparr>tk_kind := TkCharLit, tk_text := txt, tk_ival := pack_chars txt\<rparr>),
                        ds @ (if length txt > 8
                              then [DError (here s) ''char constant longer than 8 characters'']
                              else []), s'))
             else (case lexPunct c s1 of
                     Some (p, s') \<Rightarrow> (Some (t\<lparr>tk_kind := TkPunct, tk_punct := p\<rparr>), [], s')
                   | None \<Rightarrow> (None, [DError (here s) (''stray character '' @ [c_squote, c, c_squote])], s1)))"
  by (simp only: lexTokenSrc_def assms Let_def prod.case option.case)

lemma char_classes:
  "isalpha c \<or> c = CHR ''_'' \<Longrightarrow> is_ident_char c \<and> c \<noteq> CHR ''@'' \<and> \<not> is_raw_ws c \<and> c \<noteq> CHR ''#'' \<and> c \<noteq> CHR ''/''"
  "isdigit c \<Longrightarrow> \<not> isalpha c \<and> c \<noteq> CHR ''_'' \<and> c \<noteq> CHR ''@'' \<and> \<not> is_raw_ws c \<and> c \<noteq> CHR ''#'' \<and> c \<noteq> CHR ''/''"
  "\<not> is_ident_char CHR '' ''" "\<not> isalpha c_dquote" "\<not> isdigit c_dquote" "\<not> isalpha c_squote" "\<not> isdigit c_squote"
  by (auto simp: isalpha_def isupper_def islower_def isdigit_def isalnum_def is_ident_char_def is_raw_ws_def
      is_ws_def byte_def)

definition raw_first :: "string \<Rightarrow> bool" where
  "raw_first x \<longleftrightarrow> (\<exists>c cs. x = c # cs \<and> \<not> is_raw_ws c \<and> c \<noteq> CHR ''#''
     \<and> \<not> (c = CHR ''/'' \<and> cs \<noteq> [] \<and> hd cs \<in> {CHR ''/'', CHR ''*''}))"

lemma lexTokenSrc_spell:
  assumes t: "lexable t" and s: "src_rest s = spell t @ CHR '' '' # r"
  shows "\<exists>s'. lexTokenSrc s = (Some (t\<lparr>tk_loc := here s\<rparr>), [], s') \<and> src_rest s' = CHR '' '' # r"
    and "raw_first (src_rest s)"
proof -
  have "(\<exists>s'. lexTokenSrc s = (Some (t\<lparr>tk_loc := here s\<rparr>), [], s') \<and> src_rest s' = CHR '' '' # r)
      \<and> raw_first (src_rest s)"
  proof (cases "tk_kind t")
    case TkIdent
    define x where "x = tk_text t"
    have tx: "t = token0\<lparr>tk_kind := TkIdent, tk_text := x\<rparr>" and x: "ident_text x"
      using t TkIdent by (simp_all add: lexable_def x_def)
    obtain c cs where c: "x = c # cs" using x by (cases x) (auto simp: ident_text_def)
    have first: "isalpha c \<or> c = CHR ''_''" using x c by (simp add: ident_text_def)
    have rest: "src_rest s = x @ CHR '' '' # r" using s TkIdent by (simp add: spell_def x_def)
    obtain s1 where g: "getc s = (Some c, s1)" using rest c by (auto elim: getc_next)
    obtain s' where s': "span_src is_ident_char s = (x, s')" "src_rest s' = CHR '' '' # r"
      using span_stop [OF rest, of is_ident_char] x char_classes(3) by (auto simp: ident_text_def)
    show ?thesis
      using s' first char_classes(1) [OF first] rest
      by (auto simp: lexTokenSrc_at [OF g] raw_first_def c tx)
  next
    case TkIntLit
    define v where "v = tk_ival t"
    have tv: "t = token0\<lparr>tk_kind := TkIntLit, tk_ival := v\<rparr>"
      using t TkIntLit by (simp add: lexable_def v_def)
    have rest: "src_rest s = dec_of_nat (unat v) @ CHR '' '' # r" using s TkIntLit by (simp add: spell_def v_def)
    obtain c cs where c: "dec_of_nat (unat v) = c # cs" by (metis dec_of_nat_nonempty neq_Nil_conv)
    have first: "isdigit c" using dec_of_nat_digits [of "unat v"] c by simp
    obtain s1 where g: "getc s = (Some c, s1)" using rest c by (auto elim: getc_next)
    show ?thesis
      using lexNumber_dec [OF rest] first char_classes(2) [OF first] rest
      by (auto simp: lexTokenSrc_at [OF g] raw_first_def c tv)
  next
    case TkStrLit
    define x where "x = tk_text t"
    have tx: "t = token0\<lparr>tk_kind := TkStrLit, tk_text := x\<rparr>"
      using t TkStrLit by (simp add: lexable_def x_def)
    have rest: "src_rest s = c_dquote # encode c_dquote x @ c_dquote # CHR '' '' # r"
      using s TkStrLit by (simp add: spell_def x_def)
    then obtain s1 where g: "getc s = (Some c_dquote, s1)"
        and s1: "src_rest s1 = encode c_dquote x @ c_dquote # CHR '' '' # r" by (rule getc_next)
    obtain s' where "lexCharsInto c_dquote s1 = (x, [], s')" "src_rest s' = CHR '' '' # r"
      using lexCharsInto_encode [OF _ s1] by auto
    then show ?thesis using rest char_classes(4,5)
      by (simp add: lexTokenSrc_at [OF g] raw_first_def tx is_raw_ws_def is_ws_def)
  next
    case TkCharLit
    define x where "x = tk_text t"
    have tx: "t = token0\<lparr>tk_kind := TkCharLit, tk_text := x, tk_ival := pack_chars x\<rparr>" and "length x \<le> 8"
      using t TkCharLit by (simp_all add: lexable_def x_def)
    have rest: "src_rest s = c_squote # encode c_squote x @ c_squote # CHR '' '' # r"
      using s TkCharLit by (simp add: spell_def x_def)
    then obtain s1 where g: "getc s = (Some c_squote, s1)"
        and s1: "src_rest s1 = encode c_squote x @ c_squote # CHR '' '' # r" by (rule getc_next)
    obtain s' where "lexCharsInto c_squote s1 = (x, [], s')" "src_rest s' = CHR '' '' # r"
      using lexCharsInto_encode [OF _ s1] by auto
    then show ?thesis using rest char_classes(6,7) \<open>length x \<le> 8\<close>
      by (simp add: lexTokenSrc_at [OF g] raw_first_def tx is_raw_ws_def is_ws_def)
  next
    case TkPunct
    define p where "p = tk_punct t"
    have tp: "t = token0\<lparr>tk_kind := TkPunct, tk_punct := p\<rparr>" and ne: "p \<noteq> PNone"
      using t TkPunct by (simp_all add: lexable_def p_def)
    have rest: "src_rest s = punctStr p @ CHR '' '' # r" using s TkPunct by (simp add: spell_def p_def)
    show ?thesis
    proof (cases "p = PAt")
      case True
      then have "src_rest s = CHR ''@'' # CHR '' '' # r" using rest by simp
      then obtain s1 where "getc s = (Some (CHR ''@''), s1)" "src_rest s1 = CHR '' '' # r" by (rule getc_next)
      then show ?thesis using rest True
        by (simp add: lexTokenSrc_at raw_first_def tp peek_is_def peekc_def is_raw_ws_def is_ws_def)
    next
      case False
      obtain c cs where c: "punctStr p = c # cs" "\<not> isalpha c" "\<not> isdigit c"
          "c \<notin> {CHR ''_'', CHR ''@'', c_dquote, c_squote, CHR ''#''}" "\<not> is_raw_ws c"
          "\<not> (c = CHR ''/'' \<and> cs \<noteq> [] \<and> hd cs \<in> {CHR ''/'', CHR ''*''})"
        using punct_first [OF ne False] by blast
      obtain s1 where g: "getc s = (Some c, s1)" and s1: "src_rest s1 = tl (punctStr p) @ CHR '' '' # r"
        using rest c(1) by (auto elim: getc_next)
      show ?thesis
        using lexPunct_spell [OF ne False s1] c rest
        by (auto simp: lexTokenSrc_at [OF g] raw_first_def tp hd_append)
    qed
  qed (use t in \<open>simp_all add: lexable_def\<close>)
  then show "\<exists>s'. lexTokenSrc s = (Some (t\<lparr>tk_loc := here s\<rparr>), [], s') \<and> src_rest s' = CHR '' '' # r"
    and "raw_first (src_rest s)" by auto
qed

subsection \<open>Texts\<close>

text \<open>The lexer inside one source, outside any \<open>#if\<close>, with no expansion pending.\<close>

definition plain_state :: "lexer \<Rightarrow> source \<Rightarrow> bool" where
  "plain_state lx s \<longleftrightarrow> lx_stack lx = [s] \<and> lx_conds lx = [] \<and> lx_pending lx = []"

lemma plain_top [simp]: "plain_state lx s \<Longrightarrow> top lx = s" "plain_state lx s \<Longrightarrow> \<not> atEof lx"
    "plain_state lx s \<Longrightarrow> \<not> skippingConds lx"
  by (simp_all add: plain_state_def top_def atEof_def skippingConds_def)

lemma plain_set: "plain_state lx s \<Longrightarrow> plain_state (set_top a lx) a"
  by (simp add: plain_state_def set_top_def)

lemma set_top_twice: "set_top a (set_top b lx) = set_top a lx"
  by (cases "lx_stack lx") (simp_all add: set_top_def)

lemma rawNext_spell:
  assumes lx: "plain_state lx s" and t: "lexable t" and s: "src_rest s = spell t @ CHR '' '' # r"
  shows "\<exists>s'. rawNext e (Suc (Suc n)) lx = Some (t\<lparr>tk_loc := here s\<rparr>, set_top s' lx)
     \<and> src_rest s' = CHR '' '' # r"
proof -
  obtain s' where s': "lexTokenSrc s = (Some (t\<lparr>tk_loc := here s\<rparr>), [], s')" "src_rest s' = CHR '' '' # r"
    using lexTokenSrc_spell(1) [OF t s] by blast
  obtain c cs where c: "src_rest s = c # cs" "\<not> is_raw_ws c" "c \<noteq> CHR ''#''"
      "\<not> (c = CHR ''/'' \<and> cs \<noteq> [] \<and> hd cs \<in> {CHR ''/'', CHR ''*''})"
    using lexTokenSrc_spell(2) [OF t s] by (auto simp: raw_first_def)
  have p: "peekc s 0 = Some c" using c(1) by (simp add: peekc_0)
  have q: "\<not> (c = CHR ''/'' \<and> peek_is s 1 q)" if "q = CHR ''/'' \<or> q = CHR ''*''" for q
    using c that by (cases cs) (auto simp: peek_is_def peekc_def)
  have nc: "(c = CHR ''/'' \<and> peek_is s 1 (CHR ''/'')) = False" "(c = CHR ''/'' \<and> peek_is s 1 (CHR ''*'')) = False"
    using q by simp_all
  have "rawNext e (Suc (Suc n)) lx = lexToken e (Suc n) lx"
    by (subst rawNext.simps) (simp only: plain_top [OF lx] p Let_def option.case nc c(2,3) if_False)
  then show ?thesis
    using lx s' by (auto simp: add_diags_def simp del: rawNext.simps)
qed

lemma rawNext_blank:
  assumes "plain_state lx s" and "src_rest s = CHR '' '' # r"
  shows "rawNext e (Suc n) lx = rawNext e n (set_top (skipc s) lx)"
  using assms by (simp add: peekc_0 is_raw_ws_def is_ws_def Let_def)

lemma builtin_none: "ident_text (tk_text t) \<Longrightarrow> builtinMacro e jit t = None"
  by (simp add: ident_text_def builtin_names_def builtinMacro_def Let_def)

lemma expand_none:
  assumes "lexable t" and "tk_kind t = TkIdent \<Longrightarrow> \<not> has_key (lx_macros lx) (tk_text t)"
  shows "expandOrReturn e (Suc n) (t\<lparr>tk_loc := l\<rparr>) lx = Some (t\<lparr>tk_loc := l\<rparr>, lx)"
proof (cases "tk_kind t = TkIdent")
  case True
  then have "ident_text (tk_text t)" "map_of (lx_macros lx) (tk_text t) = None"
    using assms by (auto simp: lexable_def has_key_def)
  then show ?thesis by (simp add: builtin_none)
qed simp

lemma unloc_lexable: "lexable t \<Longrightarrow> unloc (t\<lparr>tk_loc := l\<rparr>) = t"
proof -
  assume "lexable t"
  then have "tk_loc t = no_loc"
    by (auto simp: lexable_def token0_def split: tok.splits dest: arg_cong [where f = tk_loc])
  then show ?thesis by (simp add: unloc_def)
qed

lemma lexer_next_end:
  assumes lx: "plain_state lx s" and s: "src_rest s = [] \<or> src_rest s = '' ''"
  shows "\<exists>t lx'. lexer_next e (Suc (Suc (Suc n))) lx = Some (t, lx') \<and> tk_kind t = TkEof
     \<and> lx_diags lx' = lx_diags lx \<and> atEof lx'"
proof -
  have fin: "\<exists>t lx'. rawNext e (Suc (Suc n)) a = Some (t, lx') \<and> tk_kind t = TkEof
      \<and> lx_diags lx' = lx_diags a \<and> atEof lx'" if "plain_state a b" "src_rest b = []" for a b n
  proof -
    have "end_source a = a\<lparr>lx_stack := []\<rparr>"
      using that by (simp add: plain_state_def end_source_def pop_source_def)
    then show ?thesis using that
      by (simp add: peekc_0 Let_def eof_token_def token0_def atEof_def [of "a\<lparr>lx_stack := []\<rparr>"])
  qed
  have "\<exists>t lx'. rawNext e (Suc (Suc (Suc n))) lx = Some (t, lx') \<and> tk_kind t = TkEof
      \<and> lx_diags lx' = lx_diags lx \<and> atEof lx'"
    using s
  proof
    assume "src_rest s = []"
    then show ?thesis using fin [OF lx] by blast
  next
    assume s: "src_rest s = '' ''"
    have "src_rest (skipc s) = []" by (simp add: src_rest_skipc s)
    from fin [OF plain_set [OF lx] this] show ?thesis
      by (simp only: rawNext_blank [OF lx s] frame_simps)
  qed
  then show ?thesis using lx by (auto simp: lexer_next_def plain_state_def simp del: rawNext.simps)
qed

lemma lexer_next_spell:
  assumes lx: "plain_state lx s" and t: "lexable t"
    and s: "src_rest s = spell t @ CHR '' '' # r \<or> src_rest s = CHR '' '' # spell t @ CHR '' '' # r"
    and m: "tk_kind t = TkIdent \<Longrightarrow> \<not> has_key (lx_macros lx) (tk_text t)"
  shows "\<exists>l s'. lexer_next e (Suc (Suc (Suc n))) lx = Some (t\<lparr>tk_loc := l\<rparr>, set_top s' lx)
     \<and> src_rest s' = CHR '' '' # r"
proof -
  have "\<exists>l s'. rawNext e (Suc (Suc (Suc n))) lx = Some (t\<lparr>tk_loc := l\<rparr>, set_top s' lx)
     \<and> src_rest s' = CHR '' '' # r"
    using s
  proof
    assume "src_rest s = spell t @ CHR '' '' # r"
    from rawNext_spell [OF lx t this] show ?thesis by blast
  next
    assume b: "src_rest s = CHR '' '' # spell t @ CHR '' '' # r"
    have "src_rest (skipc s) = spell t @ CHR '' '' # r" by (simp add: src_rest_skipc b)
    from rawNext_spell [OF plain_set [OF lx] t this, of e n] show ?thesis
      by (auto simp: rawNext_blank [OF lx b] set_top_twice simp del: rawNext.simps)
  qed
  then obtain l s' where r: "rawNext e (Suc (Suc (Suc n))) lx = Some (t\<lparr>tk_loc := l\<rparr>, set_top s' lx)"
      "src_rest s' = CHR '' '' # r" by blast
  have "tk_kind t \<noteq> TkEof" using t by (auto simp: lexable_def)
  moreover have "expandOrReturn e (Suc (Suc (Suc n))) (t\<lparr>tk_loc := l\<rparr>) (set_top s' lx)
      = Some (t\<lparr>tk_loc := l\<rparr>, set_top s' lx)"
    by (rule expand_none [OF t]) (simp add: m frame_simps)
  ultimately show ?thesis using r lx
    by (auto simp: lexer_next_def plain_state_def simp del: rawNext.simps expandOrReturn.simps)
qed

text \<open>A text of spelled tokens, at its start or at the blank after a token.\<close>

lemma lex_all_spells:
  assumes "list_all lexable ts"
    and "\<forall>t \<in> set ts. tk_kind t = TkIdent \<longrightarrow> \<not> has_key (lx_macros lx) (tk_text t)"
    and "plain_state lx s" and "src_rest s = spells ts \<or> src_rest s = CHR '' '' # spells ts"
    and "length ts < k"
  shows "\<exists>ts' lx'. lex_all e (Suc (Suc (Suc n))) k lx = Some (ts', lx') \<and> map unloc ts' = ts
     \<and> lx_diags lx' = lx_diags lx \<and> atEof lx'"
  using assms
proof (induction ts arbitrary: lx s k)
  case Nil
  then obtain j where "k = Suc j" by (cases k) auto
  moreover have "src_rest s = [] \<or> src_rest s = '' ''" using Nil by simp
  ultimately show ?case using lexer_next_end [OF Nil(3), of e n] by auto
next
  case (Cons t ts)
  then obtain j where j: "k = Suc j" by (cases k) auto
  obtain l s' where r: "lexer_next e (Suc (Suc (Suc n))) lx = Some (t\<lparr>tk_loc := l\<rparr>, set_top s' lx)"
      "src_rest s' = CHR '' '' # spells ts"
    using lexer_next_spell [OF Cons.prems(3), of t "spells ts" e n] Cons.prems by auto
  have "\<exists>ts' lx'. lex_all e (Suc (Suc (Suc n))) j (set_top s' lx) = Some (ts', lx') \<and> map unloc ts' = ts
     \<and> lx_diags lx' = lx_diags (set_top s' lx) \<and> atEof lx'"
    by (rule Cons.IH) (use Cons.prems r j plain_set in \<open>auto simp: frame_simps\<close>)
  moreover have "tk_kind t \<noteq> TkEof" using Cons.prems(1) by (auto simp: lexable_def)
  ultimately show ?case using r j Cons.prems(1) by (auto simp: unloc_lexable frame_simps)
qed

lemma lex_buffer_spells:
  assumes "list_all lexable ts" and "length ts < k"
  shows "\<exists>ts' lx'. lex_all e (Suc (Suc (Suc n))) k (Lexer_buffer (spells ts) name jit) = Some (ts', lx')
     \<and> map unloc ts' = ts \<and> lx_diags lx' = [] \<and> atEof lx'"
proof -
  let ?lx = "Lexer_buffer (spells ts) name jit"
  have p: "plain_state ?lx (mk_source (spells ts) name ''.'')" and "lx_macros ?lx = []" "lx_diags ?lx = []"
    by (simp_all add: plain_state_def Lexer_buffer_def push_source_def lexer0_def)
  then show ?thesis
    using lex_all_spells [OF assms(1) _ p _ assms(2), of e n] by (simp add: has_key_def mk_source_def)
qed

end
