(* ===== verification/HC_Ast.thy ===== *)
theory HC_Ast
  imports HC_Arith
begin

text \<open>
  The AST of \<open>ast.hpp\<close>: types, classes, expressions, statements and top-level items. A
  \<open>shared_ptr<ClassInfo>\<close> is an index into the class store, a list of \<open>ClassInfo\<close> records, because
  class objects are shared and completed in place after other types already point at them.
\<close>

subsection \<open>Types and expressions\<close>

text \<open>\<open>struct Type\<close> by its \<open>kind\<close>, \<open>struct FuncParam\<close> and \<open>struct Expr\<close> by its \<open>kind\<close>. A missing
  call argument is \<^const>\<open>None\<close>, which stands for the null child and its false \<open>argPresent\<close>.\<close>

datatype ty =
    TyVoid
  | TyInt nat bool
  | TyF64
  | TyPtr ty
  | TyArray ty i64
  | TyClass nat
  | TyFunc ty "fparam list" bool
and fparam =
    FParam string ty "expr option" bool srcloc
and expr =
    EIntLit srcloc i64
  | EFloatLit srcloc f64
  | EStrLit srcloc string
  | ECharLit srcloc i64 nat
  | EIdent srcloc string
  | EUnary srcloc punct bool expr
  | EBinary srcloc punct expr expr
  | EChainCmp srcloc expr "(punct \<times> expr) list"
  | EAssign srcloc punct expr expr
  | ECall srcloc expr "expr option list"
  | EIndex srcloc expr expr
  | EMember srcloc bool expr string
  | ECast srcloc ty expr
  | ESizeofType srcloc ty
  | ESizeofExpr srcloc expr
  | EOffsetOf srcloc string "nat option" string
  | ELastClass srcloc
  | EInitList srcloc "expr list"

fun expr_loc :: "expr \<Rightarrow> srcloc" where
  "expr_loc (EIntLit l _) = l"
| "expr_loc (EFloatLit l _) = l"
| "expr_loc (EStrLit l _) = l"
| "expr_loc (ECharLit l _ _) = l"
| "expr_loc (EIdent l _) = l"
| "expr_loc (EUnary l _ _ _) = l"
| "expr_loc (EBinary l _ _ _) = l"
| "expr_loc (EChainCmp l _ _) = l"
| "expr_loc (EAssign l _ _ _) = l"
| "expr_loc (ECall l _ _) = l"
| "expr_loc (EIndex l _ _) = l"
| "expr_loc (EMember l _ _ _) = l"
| "expr_loc (ECast l _ _) = l"
| "expr_loc (ESizeofType l _) = l"
| "expr_loc (ESizeofExpr l _) = l"
| "expr_loc (EOffsetOf l _ _ _) = l"
| "expr_loc (ELastClass l) = l"
| "expr_loc (EInitList l _) = l"

text \<open>The type constructors \<open>tyVoid\<close> ... \<open>tyArray\<close>.\<close>

definition tyVoid :: ty where "tyVoid = TyVoid"
definition tyInt :: "nat \<Rightarrow> bool \<Rightarrow> ty" where "tyInt n uns = TyInt n uns"
definition tyI64 :: ty where "tyI64 = tyInt 8 False"
definition tyU64 :: ty where "tyU64 = tyInt 8 True"
definition tyU8 :: ty where "tyU8 = tyInt 1 True"
definition tyF64 :: ty where "tyF64 = TyF64"
definition tyPtr :: "ty \<Rightarrow> ty" where "tyPtr t = TyPtr t"
definition tyArray :: "ty \<Rightarrow> i64 \<Rightarrow> ty" where "tyArray t n = TyArray t n"

subsection \<open>Classes\<close>

record cmember =
  cm_name :: string
  cm_type :: ty
  cm_offset :: i64
  cm_meta :: "(string \<times> token) list"

record classinfo =
  ci_name :: string
  ci_isUnion :: bool
  ci_base :: "ty option"
  ci_wholeType :: "ty option"
  ci_members :: "cmember list"
  ci_size :: i64
  ci_complete :: bool

type_synonym store = "classinfo list"

definition new_class :: "string \<Rightarrow> classinfo" where
  "new_class n = \<lparr>ci_name = n, ci_isUnion = False, ci_base = None, ci_wholeType = None,
     ci_members = [], ci_size = 0, ci_complete = False\<rparr>"

definition class_at :: "store \<Rightarrow> nat \<Rightarrow> classinfo option" where
  "class_at st c = (if c < length st then Some (st ! c) else None)"

text \<open>\<open>base->cls\<close> of a class, where there is one.\<close>

definition base_of :: "store \<Rightarrow> nat \<Rightarrow> nat option" where
  "base_of st c = (case class_at st c of None \<Rightarrow> None
     | Some ci \<Rightarrow> (case ci_base ci of Some (TyClass b) \<Rightarrow> Some b | _ \<Rightarrow> None))"

text \<open>
  \<open>ClassInfo::findMember\<close>: its own members first, then the base class. The outer \<^const>\<open>None\<close> is
  a recursion of more than \<open>k\<close> calls.
\<close>

fun findMember :: "store \<Rightarrow> nat \<Rightarrow> nat \<Rightarrow> string \<Rightarrow> cmember option option" where
  "findMember st 0 c n = None"
| "findMember st (Suc k) c n =
     (case class_at st c of
        None \<Rightarrow> Some None
      | Some ci \<Rightarrow>
          (case find (\<lambda>m. cm_name m = n) (ci_members ci) of
             Some m \<Rightarrow> Some (Some m)
           | None \<Rightarrow>
               (case base_of st c of
                  Some b \<Rightarrow> findMember st k b n
                | None \<Rightarrow> Some None)))"

text \<open>\<open>Type::size\<close>.\<close>

fun ty_size :: "store \<Rightarrow> ty \<Rightarrow> i64" where
  "ty_size st TyVoid = 0"
| "ty_size st (TyInt n _) = of_nat n"
| "ty_size st TyF64 = 8"
| "ty_size st (TyPtr _) = 8"
| "ty_size st (TyFunc _ _ _) = 8"
| "ty_size st (TyArray t n) = ty_size st t * n"
| "ty_size st (TyClass c) = (case class_at st c of Some ci \<Rightarrow> ci_size ci | None \<Rightarrow> 0)"

text \<open>\<open>Type::str\<close>.\<close>

fun ty_str :: "store \<Rightarrow> ty \<Rightarrow> string" where
  "ty_str st TyVoid = ''U0''"
| "ty_str st (TyInt n uns) = (if uns then ''U'' else ''I'') @ dec_of_nat (n * 8)"
| "ty_str st TyF64 = ''F64''"
| "ty_str st (TyPtr t) = ty_str st t @ ''*''"
| "ty_str st (TyArray t n) = ty_str st t @ ''['' @ to_string_i64 n @ '']''"
| "ty_str st (TyClass c) = (case class_at st c of Some ci \<Rightarrow> ci_name ci | None \<Rightarrow> ''<class>'')"
| "ty_str st (TyFunc _ _ _) = ''<fun>''"

subsection \<open>Statements and top-level items\<close>

text \<open>\<open>struct VarDeclarator\<close>.\<close>

record vdecl =
  vd_name :: string
  vd_type :: ty
  vd_init :: "expr option"
  vd_noreg :: bool
  vd_isReg :: bool
  vd_regName :: string
  vd_loc :: srcloc

definition vdecl0 :: vdecl where
  "vdecl0 = \<lparr>vd_name = [], vd_type = TyVoid, vd_init = None, vd_noreg = False, vd_isReg = False,
     vd_regName = [], vd_loc = no_loc\<rparr>"

text \<open>\<open>struct Stmt\<close> by its \<open>kind\<close>.\<close>

datatype stmt =
    SBlock srcloc "stmt list"
  | SExpr srcloc expr
  | SIf srcloc expr stmt "stmt option"
  | SWhile srcloc expr stmt
  | SDoWhile srcloc stmt "expr option"
  | SFor srcloc "expr list" "expr option" "stmt list" stmt
  | SSwitch srcloc bool expr stmt
  | SCase srcloc "(expr \<times> expr option) option"
  | SDefault srcloc
  | SSubStart srcloc
  | SSubEnd srcloc
  | SBreak srcloc
  | SGoto srcloc string
  | SLabel srcloc string
  | SReturn srcloc "expr option"
  | SVarDecl srcloc bool "vdecl list"
  | STry srcloc "stmt list" "stmt list"
  | SNoWarn srcloc
  | SLock srcloc stmt
  | SEmpty srcloc

datatype linkage = LNormal | LPublic | LExtern | LImport | LExternAlias | LImportAlias | LStatic

record funcdecl =
  fd_name :: string
  fd_aliasSym :: string
  fd_type :: ty
  fd_linkage :: linkage
  fd_interrupt :: bool
  fd_hasErrCode :: bool
  fd_argPop :: bool
  fd_noArgPop :: bool
  fd_body :: "stmt list"
  fd_hasBody :: bool
  fd_loc :: srcloc

record globalvar =
  gv_name :: string
  gv_aliasSym :: string
  gv_type :: ty
  gv_init :: "expr option"
  gv_linkage :: linkage
  gv_loc :: srcloc

datatype topitem = IFunc funcdecl | IGlobal globalvar | IStmt stmt | IClass nat

subsection \<open>Member lookup\<close>

text \<open>Following base classes from \<open>c\<close> ends within \<open>k\<close> steps.\<close>

fun chain_ends :: "store \<Rightarrow> nat \<Rightarrow> nat \<Rightarrow> bool" where
  "chain_ends st 0 c = False"
| "chain_ends st (Suc k) c = (case base_of st c of None \<Rightarrow> True | Some b \<Rightarrow> chain_ends st k b)"

text \<open>The members \<open>findMember\<close> can see, nearest class first.\<close>

fun all_members :: "store \<Rightarrow> nat \<Rightarrow> nat \<Rightarrow> cmember list" where
  "all_members st 0 c = []"
| "all_members st (Suc k) c =
     (case class_at st c of None \<Rightarrow> []
      | Some ci \<Rightarrow> ci_members ci @ (case base_of st c of None \<Rightarrow> [] | Some b \<Rightarrow> all_members st k b))"

lemma findMember_spec:
  "chain_ends st k c \<Longrightarrow> findMember st k c n = Some (find (\<lambda>m. cm_name m = n) (all_members st k c))"
proof (induction k arbitrary: c)
  case (Suc k)
  have find_append: "find P (xs @ ys) = (case find P xs of None \<Rightarrow> find P ys | Some x \<Rightarrow> Some x)"
    for P :: "cmember \<Rightarrow> bool" and xs ys
    by (induction xs) auto
  from Suc show ?case
    by (auto simp: find_append split: option.splits)
qed simp

lemma findMember_mono: "findMember st k c n = Some r \<Longrightarrow> k \<le> k' \<Longrightarrow> findMember st k' c n = Some r"
proof (induction k arbitrary: c k')
  case (Suc k)
  then obtain j where "k' = Suc j" "k \<le> j" by (auto simp: Suc_le_D dest: Suc_le_D)
  with Suc show ?case by (auto split: option.splits)
qed simp

lemma ty_size_builders [simp]:
  "ty_size st tyVoid = 0" "ty_size st (tyInt n u) = of_nat n" "ty_size st tyI64 = 8"
  "ty_size st tyU64 = 8" "ty_size st tyU8 = 1" "ty_size st tyF64 = 8" "ty_size st (tyPtr t) = 8"
  "ty_size st (tyArray t k) = ty_size st t * k"
  by (simp_all add: tyVoid_def tyInt_def tyI64_def tyU64_def tyU8_def tyF64_def tyPtr_def tyArray_def)

end
