(* ===== verification/HC_ParserBase.thy ===== *)
theory HC_ParserBase
  imports HC_Ast
begin

text \<open>
  The parser's state and its token primitives (\<open>Parser::Impl\<close>: \<open>tok\<close>, \<open>take\<close>, \<open>is\<close>, \<open>accept\<close>,
  \<open>expect\<close>), type names, the cast lookahead and the skipping used for resynchronisation.

  \<open>ps_toks\<close> is what the lexer will still deliver, without the end-of-file token, which is
  delivered for ever after the last one; the lookahead queue of the code is the front of this list.
  \<open>ps_fault\<close> is the ghost flag of the lexer, for the parser.
\<close>

record pst =
  ps_toks :: "token list"
  ps_diags :: "diag list"
  ps_classes :: "(string \<times> nat) list"
  ps_store :: store
  ps_items :: "topitem list"
  ps_fault :: bool

type_synonym 'a reader = "pst \<Rightarrow> ('a \<times> pst) option"

text \<open>The state before the first token; \<open>prog->classes\<close> and \<open>prog->items\<close> are empty.\<close>

definition pst0 :: "token list \<Rightarrow> pst" where
  "pst0 ts = \<lparr>ps_toks = ts, ps_diags = [], ps_classes = [], ps_store = [], ps_items = [],
     ps_fault = False\<rparr>"

text \<open>The end-of-file token: a default token at the location \<open><eof>:0:0\<close>.\<close>

definition eofTok :: token where
  "eofTok = token0\<lparr>tk_loc := \<lparr>loc_file = ''<eof>'', loc_line = 0, loc_col = 0\<rparr>\<rparr>"

definition p_tok :: "pst \<Rightarrow> nat \<Rightarrow> token" where
  "p_tok s k = (if k < length (ps_toks s) then ps_toks s ! k else eofTok)"

text \<open>The state after \<open>take()\<close>; the token taken is \<open>p_tok s 0\<close>.\<close>

definition p_drop :: "pst \<Rightarrow> pst" where
  "p_drop s = s\<lparr>ps_toks := tl (ps_toks s)\<rparr>"

definition p_is :: "pst \<Rightarrow> punct \<Rightarrow> nat \<Rightarrow> bool" where
  "p_is s p k = tok_is (p_tok s k) p"

definition p_isIdent :: "pst \<Rightarrow> string \<Rightarrow> nat \<Rightarrow> bool" where
  "p_isIdent s w k = tok_isIdent (p_tok s k) w"

definition p_accept :: "punct \<Rightarrow> pst \<Rightarrow> bool \<times> pst" where
  "p_accept p s = (if p_is s p 0 then (True, p_drop s) else (False, s))"

definition p_error :: "srcloc \<Rightarrow> string \<Rightarrow> pst \<Rightarrow> pst" where
  "p_error l msg s = s\<lparr>ps_diags := DError l msg # ps_diags s\<rparr>"

definition p_hadError :: "pst \<Rightarrow> bool" where
  "p_hadError s \<longleftrightarrow> (\<exists>d \<in> set (ps_diags s). is_error d)"

definition quoted :: "string \<Rightarrow> string" where
  "quoted t = [CHR 0x27] @ t @ [CHR 0x27]"

definition describe :: "token \<Rightarrow> string" where
  "describe t = (case tk_kind t of
       TkEof \<Rightarrow> ''<eof>''
     | TkIdent \<Rightarrow> tk_text t
     | TkIntLit \<Rightarrow> to_string_i64 (tk_ival t)
     | TkFloatLit \<Rightarrow> to_string_f64 (tk_fval t)
     | TkStrLit \<Rightarrow> [CHR 0x22] @ tk_text t @ [CHR 0x22]
     | TkCharLit \<Rightarrow> quoted (tk_text t)
     | TkPunct \<Rightarrow> punctStr (tk_punct t))"

text \<open>\<open>expect\<close>: on a mismatch it reports and skips one token.\<close>

definition p_expect :: "punct \<Rightarrow> string \<Rightarrow> pst \<Rightarrow> pst" where
  "p_expect p what s =
     (if p_is s p 0 then p_drop s
      else (let s1 = p_error (tk_loc (p_tok s 0))
                       (''expected '' @ quoted (punctStr p) @ '' '' @ what @ '' (got ''
                        @ quoted (describe (p_tok s 0)) @ '')'') s
            in if tk_kind (p_tok s 0) \<noteq> TkEof then p_drop s1 else s1))"

subsection \<open>Types\<close>

text \<open>The table \<open>builtinTypes()\<close>: size, unsigned, void, F64.\<close>

definition builtinTypes :: "(string \<times> nat \<times> bool \<times> bool \<times> bool) list" where
  "builtinTypes =
    [(''U0'', 0, True, True, False), (''I0'', 0, False, True, False),
     (''I8'', 1, False, False, False), (''U8'', 1, True, False, False),
     (''I16'', 2, False, False, False), (''U16'', 2, True, False, False),
     (''I32'', 4, False, False, False), (''U32'', 4, True, False, False),
     (''I64'', 8, False, False, False), (''U64'', 8, True, False, False),
     (''F64'', 8, False, False, True),
     (''I8i'', 1, False, False, False), (''U8i'', 1, True, False, False),
     (''I16i'', 2, False, False, False), (''U16i'', 2, True, False, False),
     (''I32i'', 4, False, False, False), (''U32i'', 4, True, False, False),
     (''I64i'', 8, False, False, False), (''U64i'', 8, True, False, False)]"

definition isTypeName :: "pst \<Rightarrow> token \<Rightarrow> bool" where
  "isTypeName s t \<longleftrightarrow> tk_kind t = TkIdent \<and>
     (has_key builtinTypes (tk_text t) \<or> has_key (ps_classes s) (tk_text t))"

definition baseTypeFor :: "pst \<Rightarrow> string \<Rightarrow> ty option" where
  "baseTypeFor s name =
     (case map_of builtinTypes name of
        Some (sz, uns, isVoid, isF64) \<Rightarrow>
          Some (if isVoid then tyVoid else if isF64 then tyF64 else tyInt sz uns)
      | None \<Rightarrow> map_option TyClass (map_of (ps_classes s) name))"

text \<open>The loop \<open>while (is(P::Star)) { take(); ty = tyPtr(ty); }\<close> on the tokens.\<close>

fun star_loop :: "ty \<Rightarrow> token list \<Rightarrow> ty \<times> token list" where
  "star_loop t [] = (t, [])"
| "star_loop t (k # ks) = (if tok_is k PStar then star_loop (tyPtr t) ks else (t, k # ks))"

definition p_stars :: "ty \<Rightarrow> pst \<Rightarrow> ty \<times> pst" where
  "p_stars t s = (case star_loop t (ps_toks s) of (t', ks) \<Rightarrow> (t', s\<lparr>ps_toks := ks\<rparr>))"

definition parseBaseTypeNoStars :: "pst \<Rightarrow> ty \<times> pst" where
  "parseBaseTypeNoStars s =
     (let t = p_tok s 0; s1 = p_drop s
      in case baseTypeFor s1 (tk_text t) of
           Some b \<Rightarrow> (b, s1)
         | None \<Rightarrow> (tyI64, p_error (tk_loc t) (''unknown type '' @ quoted (tk_text t)) s1))"

definition parseBaseType :: "pst \<Rightarrow> ty \<times> pst" where
  "parseBaseType s = (case parseBaseTypeNoStars s of (t, s1) \<Rightarrow> p_stars t s1)"

text \<open>The number of stars from position \<open>k\<close> on: the lookahead loops of \<open>looksLikeCast\<close> and
  \<open>startsDecl\<close>.\<close>

definition skip_stars :: "pst \<Rightarrow> nat \<Rightarrow> nat" where
  "skip_stars s k = k + length (takeWhile (\<lambda>t. tok_is t PStar) (drop k (ps_toks s)))"

definition looksLikeCast :: "pst \<Rightarrow> bool" where
  "looksLikeCast s \<longleftrightarrow>
     p_is s PLParen 0 \<and> isTypeName s (p_tok s 1) \<and> p_is s PRParen (skip_stars s 2)"

definition startsDecl :: "pst \<Rightarrow> bool" where
  "startsDecl s \<longleftrightarrow>
     (let k = skip_stars s 1
      in tk_kind (p_tok s k) = TkIdent \<or> (p_is s PLParen k \<and> p_is s PStar (Suc k)))"

subsection \<open>Resynchronisation\<close>

text \<open>The loops of \<open>skipToSemi\<close>, \<open>skipBraceBlock\<close> and \<open>skipToParenEnd\<close> on the tokens.\<close>

fun skip_to_semi :: "int \<Rightarrow> token list \<Rightarrow> token list" where
  "skip_to_semi d [] = []"
| "skip_to_semi d (t # ts) =
     (let d' = (if tok_is t PLBrace then d + 1 else if tok_is t PRBrace then d - 1 else d)
      in if tok_is t PSemi \<and> d' \<le> 0 then ts else skip_to_semi d' ts)"

fun skip_brace_block :: "int \<Rightarrow> token list \<Rightarrow> token list" where
  "skip_brace_block d [] = []"
| "skip_brace_block d (t # ts) =
     (if tok_is t PLBrace then skip_brace_block (d + 1) ts
      else if tok_is t PRBrace then (if d - 1 = 0 then ts else skip_brace_block (d - 1) ts)
      else skip_brace_block d ts)"

fun skip_to_paren_end :: "int \<Rightarrow> token list \<Rightarrow> token list" where
  "skip_to_paren_end d [] = []"
| "skip_to_paren_end d (t # ts) =
     (if tok_is t PLParen then skip_to_paren_end (d + 1) ts
      else if tok_is t PRParen then (if d - 1 = 0 then ts else skip_to_paren_end (d - 1) ts)
      else skip_to_paren_end d ts)"

definition skipToSemi :: "pst \<Rightarrow> pst" where
  "skipToSemi s = s\<lparr>ps_toks := skip_to_semi 0 (ps_toks s)\<rparr>"

definition skipBraceBlock :: "pst \<Rightarrow> pst" where
  "skipBraceBlock s =
     (if \<not> p_is s PLBrace 0 then skipToSemi s
      else s\<lparr>ps_toks := skip_brace_block 0 (ps_toks s)\<rparr>)"

definition skipToParenEnd :: "pst \<Rightarrow> pst" where
  "skipToParenEnd s = s\<lparr>ps_toks := skip_to_paren_end 1 (ps_toks s)\<rparr>"

end
