(* ===== verification/HC_ParserExpr.thy ===== *)
theory HC_ParserExpr
  imports HC_ParserBase
begin

text \<open>
  The expression parser. Every function between two calls of \<open>parseAssign\<close> takes the recursive
  call as its argument \<open>pe\<close> (\<open>parseExpr\<close> is \<open>parseAssign\<close>) and fuel for its own loops;
  \<open>parseAssign\<close> ties the knot. \<^const>\<open>None\<close> is "out of fuel" and nothing else.
\<close>

subsection \<open>Primary expressions\<close>

text \<open>Adjacent string literals are one literal.\<close>

fun str_run :: "token list \<Rightarrow> string \<times> token list" where
  "str_run [] = ([], [])"
| "str_run (t # ts) =
     (if tk_kind t = TkStrLit then (case str_run ts of (x, r) \<Rightarrow> (tk_text t @ x, r)) else ([], t # ts))"

definition parseStrRun :: "pst \<Rightarrow> string \<times> pst" where
  "parseStrRun s = (case str_run (ps_toks s) of (x, r) \<Rightarrow> (x, s\<lparr>ps_toks := r\<rparr>))"

fun init_loop :: "expr reader \<Rightarrow> nat \<Rightarrow> expr list reader" where
  "init_loop pe 0 s = None"
| "init_loop pe (Suc n) s = do {
     (k, s1) \<leftarrow> pe s;
     if p_is s1 PComma 0
     then (if p_is (p_drop s1) PRBrace 0 then Some ([k], p_drop s1)
           else do { (ks, s2) \<leftarrow> init_loop pe n (p_drop s1); Some (k # ks, s2) })
     else Some ([k], s1)
   }"

definition parseInitList :: "expr reader \<Rightarrow> nat \<Rightarrow> expr reader" where
  "parseInitList pe n s =
     (let l = tk_loc (p_tok s 0); s1 = p_drop s
      in if p_is s1 PRBrace 0 then Some (EInitList l [], p_drop s1)
         else do {
           (ks, s2) \<leftarrow> init_loop pe n s1;
           Some (EInitList l ks, p_expect PRBrace ''after initializer list'' s2)
         })"

text \<open>The type of \<open>class.member\<close> in \<open>sizeof\<close>; a lookup that never ends is the fault.\<close>

definition sizeof_member :: "srcloc \<Rightarrow> string \<Rightarrow> string \<Rightarrow> pst \<Rightarrow> ty \<times> pst" where
  "sizeof_member kwloc cname mname s =
     (case map_of (ps_classes s) cname of
        None \<Rightarrow> (tyI64, s)
      | Some c \<Rightarrow>
          (case findMember (ps_store s) (Suc (length (ps_store s))) c mname of
             None \<Rightarrow> (tyI64, s\<lparr>ps_fault := True\<rparr>)
           | Some None \<Rightarrow>
               (tyI64, p_error kwloc (''no member '' @ quoted mname @ '' in class '' @ quoted cname) s)
           | Some (Some m) \<Rightarrow> (cm_type m, s)))"

definition parseSizeof :: "expr reader \<Rightarrow> expr reader" where
  "parseSizeof pe s =
     (let kw = tk_loc (p_tok s 0); s1 = p_expect PLParen ''after sizeof'' (p_drop s);
          name = tk_text (p_tok s1 0)
      in if isTypeName s1 (p_tok s1 0) \<and> \<not> has_key (ps_classes s1) name
         then (let (t, s2) = parseBaseType s1
               in Some (ESizeofType kw t, p_expect PRParen ''after sizeof'' s2))
         else if has_key (ps_classes s1) name
         then (if p_is s1 PDot 1
               then (let s2 = p_drop (p_drop s1)
                     in if tk_kind (p_tok s2 0) \<noteq> TkIdent
                        then (let s3 = p_error (tk_loc (p_tok s2 0)) ''expected member name in sizeof'' s2
                              in Some (ESizeofType kw tyI64, p_expect PRParen ''after sizeof'' s3))
                        else (let (t, s3) = sizeof_member kw name (tk_text (p_tok s2 0)) (p_drop s2)
                              in Some (ESizeofType kw t, p_expect PRParen ''after sizeof'' s3)))
               else (let (t, s2) = parseBaseType s1
                     in Some (ESizeofType kw t, p_expect PRParen ''after sizeof'' s2)))
         else do {
           (e, s2) \<leftarrow> pe s1;
           Some (ESizeofExpr kw e, p_expect PRParen ''after sizeof'' s2)
         })"

definition parseOffset :: "pst \<Rightarrow> expr \<times> pst" where
  "parseOffset s =
     (let kw = tk_loc (p_tok s 0); s1 = p_expect PLParen ''after offset'' (p_drop s);
          t = p_tok s1 0
      in if tk_kind t \<noteq> TkIdent
         then (EOffsetOf kw [] None [],
               p_expect PRParen ''after offset()''
                 (p_error (tk_loc t) ''offset(classname.membername) expected'' s1))
         else (let cname = tk_text t;
                   ref = map_of (ps_classes s1) cname;
                   s2 = p_expect PDot ''in offset(classname.membername)'' (p_drop s1);
                   t2 = p_tok s2 0
               in if tk_kind t2 = TkIdent
                  then (EOffsetOf kw cname ref (tk_text t2),
                        p_expect PRParen ''after offset()'' (p_drop s2))
                  else (EOffsetOf kw cname ref [],
                        p_expect PRParen ''after offset()''
                          (p_error (tk_loc t2) ''expected member name in offset()'' s2))))"

text \<open>The end of \<open>parsePrimary\<close>: no expression starts here.\<close>

definition primary_error :: "expr reader" where
  "primary_error s =
     (let t = p_tok s 0;
          s1 = p_error (tk_loc t) (''expected expression (got '' @ quoted (describe t) @ '')'') s
      in Some (EIntLit (tk_loc t) 0, if tk_kind t \<noteq> TkEof then p_drop s1 else s1))"

definition parsePrimary :: "expr reader \<Rightarrow> nat \<Rightarrow> expr reader" where
  "parsePrimary pe n s =
     (let t = p_tok s 0; l = tk_loc t
      in case tk_kind t of
           TkIntLit \<Rightarrow> Some (EIntLit l (tk_ival t), p_drop s)
         | TkFloatLit \<Rightarrow> Some (EFloatLit l (tk_fval t), p_drop s)
         | TkCharLit \<Rightarrow> Some (ECharLit l (tk_ival t) (length (tk_text t)), p_drop s)
         | TkStrLit \<Rightarrow> (let (x, s1) = parseStrRun s in Some (EStrLit l x, s1))
         | TkIdent \<Rightarrow>
             if tk_text t = ''sizeof'' then parseSizeof pe s
             else if tk_text t = ''offset'' then Some (parseOffset s)
             else if tk_text t = ''lastclass'' then Some (ELastClass l, p_drop s)
             else Some (EIdent l (tk_text t), p_drop s)
         | TkPunct \<Rightarrow>
             if tk_punct t = PLParen
             then do {
               (e, s1) \<leftarrow> pe (p_drop s);
               Some (e, p_expect PRParen ''after parenthesized expression'' s1)
             }
             else if tk_punct t = PLBrace then parseInitList pe n s
             else if tk_punct t = PDollar
             then Some (EIntLit l 0,
                    p_error l (quoted ''$'' @ '' (instruction address) is not supported by hcc'') (p_drop s))
             else primary_error s
         | TkEof \<Rightarrow> primary_error s)"

subsection \<open>Postfix and unary operators\<close>

text \<open>\<open>parseCallArgs\<close>: a skipped argument is \<^const>\<open>None\<close>.\<close>

definition opt_arg :: "expr reader \<Rightarrow> expr option reader" where
  "opt_arg pe s =
     (if p_is s PComma 0 \<or> p_is s PRParen 0 then Some (None, s)
      else do { (e, s1) \<leftarrow> pe s; Some (Some e, s1) })"

fun arg_loop :: "expr reader \<Rightarrow> nat \<Rightarrow> expr option list reader" where
  "arg_loop pe 0 s = None"
| "arg_loop pe (Suc n) s = do {
     (a, s1) \<leftarrow> opt_arg pe s;
     if p_is s1 PComma 0
     then do { (as, s2) \<leftarrow> arg_loop pe n (p_drop s1); Some (a # as, s2) }
     else Some ([a], p_expect PRParen ''after call arguments'' s1)
   }"

definition parseCallArgs :: "expr reader \<Rightarrow> nat \<Rightarrow> expr option list reader" where
  "parseCallArgs pe n s =
     (if p_is s PRParen 0 then Some ([], p_drop s) else arg_loop pe n s)"

fun postfix_loop :: "expr reader \<Rightarrow> nat \<Rightarrow> expr \<Rightarrow> expr reader" where
  "postfix_loop pe 0 e s = None"
| "postfix_loop pe (Suc n) e s =
     (let l = tk_loc (p_tok s 0); s1 = p_drop s
      in if looksLikeCast s
         then (let (t, s2) = parseBaseType s1
               in postfix_loop pe n (ECast l t e) (p_expect PRParen ''after cast type'' s2))
         else if p_is s PLParen 0
         then do { (as, s2) \<leftarrow> parseCallArgs pe n s1; postfix_loop pe n (ECall l e as) s2 }
         else if p_is s PLBracket 0
         then do {
           (ix, s2) \<leftarrow> pe s1;
           postfix_loop pe n (EIndex l e ix) (p_expect PRBracket ''after index'' s2)
         }
         else if p_is s PDot 0 \<or> p_is s PArrow 0
         then (if tk_kind (p_tok s1 0) \<noteq> TkIdent
               then Some (e, p_error (tk_loc (p_tok s1 0)) ''expected member name'' s1)
               else postfix_loop pe n (EMember l (p_is s PArrow 0) e (tk_text (p_tok s1 0))) (p_drop s1))
         else if p_is s PPlusPlus 0 \<or> p_is s PMinusMinus 0
         then postfix_loop pe n (EUnary l (tk_punct (p_tok s 0)) False e) s1
         else Some (e, s))"

definition parsePostfix :: "expr reader \<Rightarrow> nat \<Rightarrow> expr reader" where
  "parsePostfix pe n s = do { (e, s1) \<leftarrow> parsePrimary pe n s; postfix_loop pe n e s1 }"

definition unary_ops :: "punct list" where
  "unary_ops = [PNot, PTilde, PMinus, PPlus, PStar, PAmp, PPlusPlus, PMinusMinus]"

definition p_at_any :: "pst \<Rightarrow> punct list \<Rightarrow> bool" where
  "p_at_any s ps \<longleftrightarrow> tk_kind (p_tok s 0) = TkPunct \<and> tk_punct (p_tok s 0) \<in> set ps"

fun parseUnary :: "expr reader \<Rightarrow> nat \<Rightarrow> expr reader" where
  "parseUnary pe 0 s = None"
| "parseUnary pe (Suc n) s =
     (if p_at_any s unary_ops
      then do {
        (k, s1) \<leftarrow> parseUnary pe n (p_drop s);
        Some (EUnary (tk_loc (p_tok s 0)) (tk_punct (p_tok s 0)) True k, s1)
      }
      else parsePostfix pe (Suc n) s)"

subsection \<open>Binary operators\<close>

text \<open>\<open>binaryLoop\<close>: left-associative, over the operators of one precedence.\<close>

fun bin_loop :: "nat \<Rightarrow> expr reader \<Rightarrow> punct list \<Rightarrow> expr \<Rightarrow> expr reader" where
  "bin_loop 0 sub ops lhs s = None"
| "bin_loop (Suc n) sub ops lhs s =
     (if p_at_any s ops
      then do {
        (rhs, s1) \<leftarrow> sub (p_drop s);
        bin_loop n sub ops (EBinary (tk_loc (p_tok s 0)) (tk_punct (p_tok s 0)) lhs rhs) s1
      }
      else Some (lhs, s))"

definition binaryLoop :: "nat \<Rightarrow> expr reader \<Rightarrow> punct list \<Rightarrow> expr reader" where
  "binaryLoop n sub ops s = do { (lhs, s1) \<leftarrow> sub s; bin_loop n sub ops lhs s1 }"

definition rel_ops :: "punct list" where
  "rel_ops = [PLt, PGt, PLe, PGe]"

fun chain_loop :: "nat \<Rightarrow> expr reader \<Rightarrow> (punct \<times> expr) list reader" where
  "chain_loop 0 sub s = None"
| "chain_loop (Suc n) sub s =
     (if p_at_any s rel_ops
      then do {
        (k, s1) \<leftarrow> sub (p_drop s);
        (ks, s2) \<leftarrow> chain_loop n sub s1;
        Some ((tk_punct (p_tok s 0), k) # ks, s2)
      }
      else Some ([], s))"

definition parsePow :: "expr reader \<Rightarrow> nat \<Rightarrow> expr reader" where
  "parsePow pe n = binaryLoop n (parseUnary pe n) [PPow, PShl, PShr]"

definition parseMul :: "expr reader \<Rightarrow> nat \<Rightarrow> expr reader" where
  "parseMul pe n = binaryLoop n (parsePow pe n) [PStar, PSlash, PPercent]"

definition parseBand :: "expr reader \<Rightarrow> nat \<Rightarrow> expr reader" where
  "parseBand pe n = binaryLoop n (parseMul pe n) [PAmp]"

definition parseBxor :: "expr reader \<Rightarrow> nat \<Rightarrow> expr reader" where
  "parseBxor pe n = binaryLoop n (parseBand pe n) [PCaret]"

definition parseBor :: "expr reader \<Rightarrow> nat \<Rightarrow> expr reader" where
  "parseBor pe n = binaryLoop n (parseBxor pe n) [PPipe]"

definition parseAdd :: "expr reader \<Rightarrow> nat \<Rightarrow> expr reader" where
  "parseAdd pe n = binaryLoop n (parseBor pe n) [PPlus, PMinus]"

definition parseRel :: "expr reader \<Rightarrow> nat \<Rightarrow> expr reader" where
  "parseRel pe n s = do {
     (first, s1) \<leftarrow> parseAdd pe n s;
     if \<not> p_at_any s1 rel_ops then Some (first, s1)
     else do {
       (ks, s2) \<leftarrow> chain_loop n (parseAdd pe n) s1;
       Some (EChainCmp (tk_loc (p_tok s1 0)) first ks, s2)
     }
   }"

definition parseEq :: "expr reader \<Rightarrow> nat \<Rightarrow> expr reader" where
  "parseEq pe n = binaryLoop n (parseRel pe n) [PEqEq, PNe]"

definition parseLand :: "expr reader \<Rightarrow> nat \<Rightarrow> expr reader" where
  "parseLand pe n = binaryLoop n (parseEq pe n) [PAndAnd]"

definition parseLxor :: "expr reader \<Rightarrow> nat \<Rightarrow> expr reader" where
  "parseLxor pe n = binaryLoop n (parseLand pe n) [PXorXor]"

definition parseLor :: "expr reader \<Rightarrow> nat \<Rightarrow> expr reader" where
  "parseLor pe n = binaryLoop n (parseLxor pe n) [POrOr]"

subsection \<open>Assignment and the knot\<close>

definition assign_ops :: "punct list" where
  "assign_ops = [PAssign, PPlusEq, PMinusEq, PStarEq, PSlashEq, PPercentEq, PShlEq, PShrEq,
     PAmpEq, PPipeEq, PCaretEq]"

definition assign_step :: "expr reader \<Rightarrow> nat \<Rightarrow> expr reader" where
  "assign_step pe n s = do {
     (lhs, s1) \<leftarrow> parseLor pe n s;
     let l = tk_loc (p_tok s1 0);
     if p_at_any s1 assign_ops
     then do {
       (rhs, s2) \<leftarrow> pe (p_drop s1);
       Some (EAssign l (tk_punct (p_tok s1 0)) lhs rhs, s2)
     }
     else if p_is s1 PQuestion 0
     then do {
       (_, s2) \<leftarrow> pe (p_drop (p_error l ''there is no question-colon operator in HolyC -- use if/else'' s1));
       if p_is s2 PColon 0
       then do { (_, s3) \<leftarrow> pe (p_drop s2); Some (lhs, s3) }
       else Some (lhs, s2)
     }
     else Some (lhs, s1)
   }"

fun parseAssign :: "nat \<Rightarrow> expr reader" where
  "parseAssign 0 s = None"
| "parseAssign (Suc n) s = assign_step (parseAssign n) (Suc n) s"

abbreviation parseExpr :: "nat \<Rightarrow> expr reader" where
  "parseExpr \<equiv> parseAssign"

end
