(* ===== verification/HC_ConstEval.thy ===== *)
theory HC_ConstEval
  imports HC_Ast
begin

text \<open>
  The two constant evaluators over the AST: \<open>Impl::evalConstI64\<close> of the parser (array
  dimensions) and \<open>CG::evalConst\<close> of the code generator (case labels, global and static
  initialisers). \<^const>\<open>None\<close> is "does not return": the target traps on \<open>INT64_MIN / -1\<close>, or member
  lookup runs in a circle of base classes.
\<close>

text \<open>The operators both evaluators share; the outer \<^const>\<open>None\<close> is the trap, the inner one "not
  constant".\<close>

definition const_div :: "(i64 \<Rightarrow> i64 \<Rightarrow> i64) \<Rightarrow> i64 \<Rightarrow> i64 \<Rightarrow> i64 option option" where
  "const_div f a b = (if b = 0 then Some None else if div_traps a b then None else Some (Some (f a b)))"

definition const_binop :: "punct \<Rightarrow> i64 \<Rightarrow> i64 \<Rightarrow> i64 option option" where
  "const_binop p a b = (case p of
       PPlus \<Rightarrow> Some (Some (a + b))
     | PMinus \<Rightarrow> Some (Some (a - b))
     | PStar \<Rightarrow> Some (Some (a * b))
     | PSlash \<Rightarrow> const_div sdiv64 a b
     | PPercent \<Rightarrow> const_div smod64 a b
     | PShl \<Rightarrow> Some (Some (shl64 a b))
     | PShr \<Rightarrow> Some (Some (sar64 a b))
     | PAmp \<Rightarrow> Some (Some (a AND b))
     | PPipe \<Rightarrow> Some (Some (a OR b))
     | PCaret \<Rightarrow> Some (Some (a XOR b))
     | PPow \<Rightarrow> Some (Some (pow_loop 1 a b))
     | _ \<Rightarrow> Some None)"

definition const_unop :: "punct \<Rightarrow> i64 \<Rightarrow> i64 option" where
  "const_unop p v = (case p of
       PMinus \<Rightarrow> Some (- v)
     | PPlus \<Rightarrow> Some v
     | PTilde \<Rightarrow> Some (NOT v)
     | PNot \<Rightarrow> Some (b2i (v = 0))
     | _ \<Rightarrow> None)"

text \<open>
  \<open>evalConstI64(e, ok)\<close>: the value and \<open>*ok\<close> afterwards. The flag is threaded, as the code
  does: once it is false no operator is applied.
\<close>

fun evalConstI64 :: "store \<Rightarrow> expr \<Rightarrow> bool \<Rightarrow> (i64 \<times> bool) option" where
  "evalConstI64 st (EIntLit _ v) ok = Some (v, ok)"
| "evalConstI64 st (ECharLit _ v _) ok = Some (v, ok)"
| "evalConstI64 st (EFloatLit _ f) ok = Some (f64_to_i64 f, ok)"
| "evalConstI64 st (ESizeofType _ t) ok = Some (ty_size st t, ok)"
| "evalConstI64 st (EUnary _ p _ k) ok = do {
     (v, ok1) \<leftarrow> evalConstI64 st k ok;
     (case const_unop p v of Some w \<Rightarrow> Some (w, ok1) | None \<Rightarrow> Some (0, False))
   }"
| "evalConstI64 st (EBinary _ p k1 k2) ok = do {
     (a, ok1) \<leftarrow> evalConstI64 st k1 ok;
     (b, ok2) \<leftarrow> evalConstI64 st k2 ok1;
     if \<not> ok2 then Some (0, ok2)
     else do {
       r \<leftarrow> const_binop p a b;
       (case r of Some v \<Rightarrow> Some (v, ok2) | None \<Rightarrow> Some (0, False))
     }
   }"
| "evalConstI64 st _ ok = Some (0, False)"

text \<open>The narrowing of \<open>evalConst\<close> at a cast to an integer type of less than 8 bytes.\<close>

definition const_narrow :: "ty \<Rightarrow> i64 \<Rightarrow> i64" where
  "const_narrow t v = (case t of
       TyInt n uns \<Rightarrow>
         if 0 < n \<and> n < 8
         then let bits = n * 8; mask = drop_bit (64 - bits) (- 1 :: i64); w = v AND mask
              in if \<not> uns \<and> drop_bit (bits - 1) w \<noteq> 0 then w OR (NOT mask) else w
         else v
     | _ \<Rightarrow> v)"

definition const_logic :: "punct \<Rightarrow> i64 \<Rightarrow> i64 \<Rightarrow> i64 option" where
  "const_logic p a c = (case p of
       PAndAnd \<Rightarrow> Some (b2i (a \<noteq> 0 \<and> c \<noteq> 0))
     | POrOr \<Rightarrow> Some (b2i (a \<noteq> 0 \<or> c \<noteq> 0))
     | PXorXor \<Rightarrow> Some (b2i ((a \<noteq> 0) \<noteq> (c \<noteq> 0)))
     | PEqEq \<Rightarrow> Some (b2i (a = c))
     | PNe \<Rightarrow> Some (b2i (a \<noteq> c))
     | PLt \<Rightarrow> Some (b2i (slt a c))
     | PGt \<Rightarrow> Some (b2i (slt c a))
     | PLe \<Rightarrow> Some (b2i (sle a c))
     | PGe \<Rightarrow> Some (b2i (sle c a))
     | _ \<Rightarrow> None)"

text \<open>
  \<open>evalConst(e, out)\<close>: \<^term>\<open>Some (Some v)\<close> where it returns true with \<open>*out = v\<close>, \<^term>\<open>Some None\<close>
  where it returns false. \<open>cls\<close> is \<open>prog_.classes\<close>.
\<close>

fun evalConst :: "store \<Rightarrow> (string \<times> nat) list \<Rightarrow> expr \<Rightarrow> i64 option option" where
  "evalConst st cls (EIntLit _ v) = Some (Some v)"
| "evalConst st cls (ECharLit _ v _) = Some (Some v)"
| "evalConst st cls (EFloatLit _ f) = Some (Some (f64_to_i64 f))"
| "evalConst st cls (ESizeofType _ t) = Some (Some (ty_size st t))"
| "evalConst st cls (EOffsetOf _ cname ref mname) =
     (case (case ref of Some c \<Rightarrow> Some c | None \<Rightarrow> map_of cls cname) of
        None \<Rightarrow> Some None
      | Some c \<Rightarrow> do {
          r \<leftarrow> findMember st (Suc (length st)) c mname;
          Some (map_option cm_offset r)
        })"
| "evalConst st cls (ECast _ t k) = do {
     r \<leftarrow> evalConst st cls k;
     Some (map_option (const_narrow t) r)
   }"
| "evalConst st cls (EUnary _ p pre k) =
     (if \<not> pre then Some None
      else do {
        r \<leftarrow> evalConst st cls k;
        Some (case r of None \<Rightarrow> None | Some v \<Rightarrow> const_unop p v)
      })"
| "evalConst st cls (EBinary _ p k1 k2) = do {
     ra \<leftarrow> evalConst st cls k1;
     (case ra of
        None \<Rightarrow> Some None
      | Some a \<Rightarrow> do {
          rc \<leftarrow> evalConst st cls k2;
          (case rc of
             None \<Rightarrow> Some None
           | Some c \<Rightarrow> (case const_logic p a c of Some v \<Rightarrow> Some (Some v) | None \<Rightarrow> const_binop p a c))
        })
   }"
| "evalConst st cls _ = Some None"

text \<open>
  \<open>evalConstF64\<close>: literals and their negations exactly, everything else through the integer
  evaluator.
\<close>

fun evalConstF64 :: "store \<Rightarrow> (string \<times> nat) list \<Rightarrow> expr \<Rightarrow> f64 option option" where
  "evalConstF64 st cls (EFloatLit _ f) = Some (Some f)"
| "evalConstF64 st cls (EUnary l p pre k) =
     (if p = PMinus
      then do { r \<leftarrow> evalConstF64 st cls k; Some (map_option f64_neg r) }
      else do { r \<leftarrow> evalConst st cls (EUnary l p pre k); Some (map_option i64_to_f64 r) })"
| "evalConstF64 st cls e = do { r \<leftarrow> evalConst st cls e; Some (map_option i64_to_f64 r) }"

subsection \<open>The evaluators agree\<close>

lemma const_binop_logic: "const_binop p a b \<noteq> Some None \<Longrightarrow> const_logic p a b = None"
  by (cases p) (simp_all add: const_binop_def const_logic_def)

lemma evalConstI64_False: "evalConstI64 st e ok = Some (v, ok') \<Longrightarrow> ok' \<Longrightarrow> ok"
  by (induction st e ok arbitrary: v ok' rule: evalConstI64.induct)
    (auto split: option.splits if_splits bind_splits)

text \<open>Unary operators only occur prefixed where \<open>++\<close> and \<open>--\<close> are the exception.\<close>

fun prefixed :: "expr \<Rightarrow> bool" where
  "prefixed (EUnary _ p pre k) = ((pre \<or> p = PPlusPlus \<or> p = PMinusMinus) \<and> prefixed k)"
| "prefixed (EBinary _ _ a b) = (prefixed a \<and> prefixed b)"
| "prefixed (ECast _ _ k) = prefixed k"
| "prefixed _ = True"

lemma evalConstI64_refines:
  "prefixed e \<Longrightarrow> evalConstI64 st e ok = Some (v, True) \<Longrightarrow> evalConst st cls e = Some (Some v)"
proof (induction st e ok arbitrary: v rule: evalConstI64.induct)
  case (5 st l p pre k ok)
  from "5.prems"(2) obtain w ok1 where k: "evalConstI64 st k ok = Some (w, ok1)"
      and w: "const_unop p w = Some v" and "ok1"
    by (auto split: option.splits bind_splits)
  with "5.IH" "5.prems"(1) have "evalConst st cls k = Some (Some w)" by auto
  moreover have "pre" using "5.prems"(1) w by (auto simp: const_unop_def)
  ultimately show ?case using w by simp
next
  case (6 st l p k1 k2 ok)
  from "6.prems"(2) obtain a ok1 b where k1: "evalConstI64 st k1 ok = Some (a, ok1)"
      and k2: "evalConstI64 st k2 ok1 = Some (b, True)" and op: "const_binop p a b = Some (Some v)"
    by (auto split: option.splits bind_splits if_splits)
  from k2 have "ok1" by (blast dest: evalConstI64_False)
  with "6.IH" k1 k2 "6.prems"(1) have
    "evalConst st cls k1 = Some (Some a)" "evalConst st cls k2 = Some (Some b)" by auto
  with op const_binop_logic [of p a b] show ?case by simp
qed auto

text \<open>
  Where an expression uses no cast, no \<open>offset\<close>, no comparison and no logical operator, the two
  evaluators accept the same expressions.
\<close>

definition arith_op :: "punct \<Rightarrow> bool" where
  "arith_op p \<longleftrightarrow> p \<in> {PPlus, PMinus, PStar, PSlash, PPercent, PShl, PShr, PAmp, PPipe, PCaret, PPow}"

fun arith_only :: "expr \<Rightarrow> bool" where
  "arith_only (EUnary _ _ _ k) = arith_only k"
| "arith_only (EBinary _ p a b) = (arith_op p \<and> arith_only a \<and> arith_only b)"
| "arith_only (ECast _ _ _) = False"
| "arith_only (EOffsetOf _ _ _ _) = False"
| "arith_only _ = True"

lemma const_logic_arith: "arith_op p \<Longrightarrow> const_logic p a b = None"
  by (auto simp: arith_op_def const_logic_def)

lemma evalConst_arith:
  "prefixed e \<Longrightarrow> arith_only e \<Longrightarrow> evalConst st cls e = Some (Some v) \<Longrightarrow> evalConstI64 st e True = Some (v, True)"
proof (induction st cls e arbitrary: v rule: evalConst.induct)
  case (8 st cls l p k1 k2)
  then obtain a c where "evalConst st cls k1 = Some (Some a)" "evalConst st cls k2 = Some (Some c)"
      "const_binop p a c = Some (Some v)"
    by (auto split: option.splits bind_splits simp: const_logic_arith)
  with 8 show ?case by auto
next
  case (7 st cls l p pre k)
  then obtain w where "evalConst st cls k = Some (Some w)" "const_unop p w = Some v"
    by (auto split: option.splits bind_splits if_splits)
  with 7 show ?case by (auto split: if_splits)
qed auto

end
