(* ===== verification/HC_ParserDecl.thy ===== *)
theory HC_ParserDecl
  imports HC_ParserExpr HC_ConstEval
begin

text \<open>
  Declarators, parameter lists and variable declaration statements. As in the expression parser,
  \<open>pe\<close> is the expression parser and the number is the fuel of the loops.
\<close>

subsection \<open>Declarators\<close>

text \<open>The loop over \<open>*\<close>, \<open>reg\<close> and \<open>noreg\<close>; two identifiers after \<open>reg\<close> are a register and a name.\<close>

fun declar_prefix :: "ty \<Rightarrow> vdecl \<Rightarrow> token list \<Rightarrow> ty \<times> vdecl \<times> token list" where
  "declar_prefix t d [] = (t, d, [])"
| "declar_prefix t d (k # ks) =
     (if tok_is k PStar then declar_prefix (tyPtr t) d ks
      else if tok_isIdent k ''reg''
      then (case ks of
              a # b # _ \<Rightarrow>
                if tk_kind a = TkIdent \<and> tk_kind b = TkIdent
                then declar_prefix t (d\<lparr>vd_isReg := True, vd_regName := tk_text a\<rparr>) (tl ks)
                else declar_prefix t (d\<lparr>vd_isReg := True\<rparr>) ks
            | _ \<Rightarrow> declar_prefix t (d\<lparr>vd_isReg := True\<rparr>) ks)
      else if tok_isIdent k ''noreg'' then declar_prefix t (d\<lparr>vd_noreg := True\<rparr>) ks
      else (t, d, k # ks))"

text \<open>One array dimension: the value pushed, after the check; a trap is the fault.\<close>

definition array_dim :: "srcloc \<Rightarrow> expr \<Rightarrow> pst \<Rightarrow> i64 \<times> pst" where
  "array_dim l e s =
     (case evalConstI64 (ps_store s) e True of
        None \<Rightarrow> (1, s\<lparr>ps_fault := True\<rparr>)
      | Some (n, ok) \<Rightarrow>
          if \<not> ok \<or> slt n 0
          then (1, p_error l ''array dimension must be a constant expression'' s)
          else (n, s))"

text \<open>The loop over \<open>[dim]\<close>: the type, which \<open>[]\<close> of a parameter makes a pointer, and the dimensions.\<close>

fun dims_loop :: "expr reader \<Rightarrow> bool \<Rightarrow> srcloc \<Rightarrow> nat \<Rightarrow> ty \<Rightarrow> (ty \<times> i64 list) reader" where
  "dims_loop pe isParam l 0 t s = None"
| "dims_loop pe isParam l (Suc n) t s =
     (if \<not> p_is s PLBracket 0 then Some ((t, []), s)
      else if p_is (p_drop s) PRBracket 0 \<and> isParam
      then dims_loop pe isParam l n (tyPtr t) (p_drop (p_drop s))
      else do {
        (e, s1) \<leftarrow> pe (p_drop s);
        let (d, s2) = array_dim l e s1;
        ((t', ds), s3) \<leftarrow> dims_loop pe isParam l n t (p_expect PRBracket ''after array dimension'' s2);
        Some ((t', d # ds), s3)
      })"

text \<open>Dimensions are folded from the last one, which is innermost.\<close>

definition array_of :: "ty \<Rightarrow> i64 list \<Rightarrow> ty" where
  "array_of t ds = foldr (\<lambda>n u. tyArray u n) ds t"

text \<open>The optional \<open>= init\<close> of a declarator.\<close>

definition declar_init :: "expr reader \<Rightarrow> bool \<Rightarrow> vdecl \<Rightarrow> vdecl option reader" where
  "declar_init pe allowInit d s =
     (if allowInit \<and> p_is s PAssign 0
      then do { (e, s1) \<leftarrow> pe (p_drop s); Some (Some (d\<lparr>vd_init := Some e\<rparr>), s1) }
      else Some (Some d, s))"

text \<open>A named declarator that is no function pointer.\<close>

definition declar_name :: "expr reader \<Rightarrow> nat \<Rightarrow> bool \<Rightarrow> bool \<Rightarrow> ty \<Rightarrow> vdecl \<Rightarrow> vdecl option reader" where
  "declar_name pe n allowInit isParam t d s =
     (if tk_kind (p_tok s 0) \<noteq> TkIdent
      then Some (if isParam then Some (d\<lparr>vd_name := [], vd_type := t\<rparr>) else None, s)
      else (let name = p_tok s 0
            in do {
              ((t', ds), s1) \<leftarrow> dims_loop pe isParam (tk_loc name) n t (p_drop s);
              declar_init pe allowInit
                (d\<lparr>vd_name := tk_text name, vd_loc := tk_loc name, vd_type := array_of t' ds\<rparr>) s1
            }))"

text \<open>The default value of a parameter, and whether it is \<open>lastclass\<close>.\<close>

definition param_default :: "expr reader \<Rightarrow> (expr option \<times> bool) reader" where
  "param_default pe s =
     (if \<not> p_is s PAssign 0 then Some ((None, False), s)
      else if p_isIdent (p_drop s) ''lastclass'' 0 then Some ((None, True), p_drop (p_drop s))
      else do { (e, s1) \<leftarrow> pe (p_drop s); Some ((Some e, False), s1) })"

text \<open>\<open>parseParams\<close>, with its loop \<open>pl\<close>.\<close>

definition params_with :: "(fparam list \<times> bool) reader \<Rightarrow> (fparam list \<times> bool) reader" where
  "params_with pl s = (if p_is s PRParen 0 then Some (([], False), p_drop s) else pl s)"

text \<open>A function pointer declarator, at its \<open>(*\<close>.\<close>

definition declar_fnptr ::
    "expr reader \<Rightarrow> (fparam list \<times> bool) reader \<Rightarrow> bool \<Rightarrow> ty \<Rightarrow> vdecl \<Rightarrow> vdecl option reader" where
  "declar_fnptr pe pl allowInit t d s =
     (let s1 = p_drop (p_drop s); name = p_tok s1 0
      in if tk_kind name \<noteq> TkIdent
         then Some (None, p_error (tk_loc name) ''expected function pointer name'' s1)
         else do {
           ((ps, va), s3) \<leftarrow> params_with pl
             (p_expect PLParen ''in function pointer declarator''
               (p_expect PRParen ''after function pointer name'' (p_drop s1)));
           declar_init pe allowInit
             (d\<lparr>vd_name := tk_text name, vd_loc := tk_loc name,
                vd_type := tyPtr (TyFunc t ps va)\<rparr>) s3
         })"

text \<open>
  \<open>parseDeclarator\<close> (\<^const>\<open>None\<close> inside: it returned false, and \<open>d\<close> has neither name nor type) and
  the loop of \<open>parseParams\<close>, which need each other for function pointers.
\<close>

fun parseDeclarator :: "expr reader \<Rightarrow> nat \<Rightarrow> bool \<Rightarrow> bool \<Rightarrow> ty \<Rightarrow> vdecl option reader"
and params_loop :: "expr reader \<Rightarrow> nat \<Rightarrow> (fparam list \<times> bool) reader" where
  "parseDeclarator pe 0 allowInit isParam base s = None"
| "parseDeclarator pe (Suc n) allowInit isParam base s =
     (let (t, d, ks) = declar_prefix base vdecl0 (ps_toks s); s0 = s\<lparr>ps_toks := ks\<rparr>
      in if p_is s0 PLParen 0 \<and> p_is s0 PStar 1
         then declar_fnptr pe (params_loop pe n) allowInit t d s0
         else declar_name pe n allowInit isParam t d s0)"
| "params_loop pe 0 s = None"
| "params_loop pe (Suc n) s =
     (if p_is s PEllipsis 0 then Some (([], True), p_expect PRParen ''after ...'' (p_drop s))
      else if \<not> isTypeName s (p_tok s 0)
      then Some (([], False),
             skipToParenEnd (p_error (tk_loc (p_tok s 0))
               (''expected parameter type (got '' @ quoted (describe (p_tok s 0)) @ '')'') s))
      else (let (base, s1) = parseBaseType s; l = tk_loc (p_tok s1 0)
            in do {
              (dcl, s2) \<leftarrow> (if tk_kind (p_tok s1 0) = TkIdent \<or> p_is s1 PLParen 0
                           then parseDeclarator pe n False True base s1 else Some (None, s1));
              ((dflt, lastc), s3) \<leftarrow> param_default pe s2;
              let p = (case dcl of Some d \<Rightarrow> FParam (vd_name d) (vd_type d) dflt lastc l
                       | None \<Rightarrow> FParam [] base dflt lastc l);
              if p_is s3 PComma 0
              then do { ((ps, va), s4) \<leftarrow> params_loop pe n (p_drop s3); Some ((p # ps, va), s4) }
              else Some (([p], False), p_expect PRParen ''after parameters'' s3)
            }))"

definition parseParams :: "expr reader \<Rightarrow> nat \<Rightarrow> (fparam list \<times> bool) reader" where
  "parseParams pe n = params_with (params_loop pe n)"

subsection \<open>Variable declarations\<close>

text \<open>The loop of \<open>parseVarDeclStmt\<close>.\<close>

fun decl_loop :: "expr reader \<Rightarrow> nat \<Rightarrow> ty \<Rightarrow> vdecl list reader" where
  "decl_loop pe 0 base s = None"
| "decl_loop pe (Suc n) base s = do {
     (dcl, s1) \<leftarrow> parseDeclarator pe (Suc n) True False base s;
     (case dcl of
        None \<Rightarrow> Some ([], skipToSemi (p_error (tk_loc (p_tok s1 0)) ''expected variable name'' s1))
      | Some d \<Rightarrow>
          if p_is s1 PComma 0
          then do { (ds, s2) \<leftarrow> decl_loop pe n base (p_drop s1); Some (d # ds, s2) }
          else if p_is s1 PLParen 0
          then Some ([d], skipBraceBlock (p_error (tk_loc (p_tok s1 0))
                 ''nested function definitions are not allowed in HolyC (functions are top-level only)'' s1))
          else Some ([d], p_expect PSemi ''after variable declaration'' s1))
   }"

definition parseVarDeclStmt :: "expr reader \<Rightarrow> nat \<Rightarrow> bool \<Rightarrow> stmt reader" where
  "parseVarDeclStmt pe n isStatic s =
     (let l = tk_loc (p_tok s 0); (base, s1) = parseBaseTypeNoStars s
      in do { (ds, s2) \<leftarrow> decl_loop pe n base s1; Some (SVarDecl l isStatic ds, s2) })"

end
