(* ===== verification/HC_ParserStmt.thy ===== *)
theory HC_ParserStmt
  imports HC_ParserDecl
begin

text \<open>
  The statement parser. Every handler of \<open>parser.cpp\<close> is a definition; \<open>pe\<close> is the expression
  parser, \<open>ps\<close> the recursive call of \<open>parseStmt\<close>, and \<open>parseStmt\<close> ties the knot. Where the code
  reads \<open>t.loc\<close> through a reference to a token it has already taken (\<open>continue\<close>, \<open>typedef\<close>,
  \<open>asm\<close>, \<open>class\<close>), the location is the token's.
\<close>

subsection \<open>Expression lists\<close>

fun parseExprList :: "expr reader \<Rightarrow> nat \<Rightarrow> expr list reader" where
  "parseExprList pe 0 s = None"
| "parseExprList pe (Suc n) s = do {
     (e, s1) \<leftarrow> pe s;
     if p_is s1 PComma 0
     then do { (es, s2) \<leftarrow> parseExprList pe n (p_drop s1); Some (e # es, s2) }
     else Some ([e], s1)
   }"

text \<open>The loop \<open>while (accept(P::Comma))\<close> over the arguments of a print statement.\<close>

fun comma_args :: "expr reader \<Rightarrow> nat \<Rightarrow> expr option list reader" where
  "comma_args pe 0 s = None"
| "comma_args pe (Suc n) s =
     (if p_is s PComma 0
      then do {
        (e, s1) \<leftarrow> pe (p_drop s);
        (es, s2) \<leftarrow> comma_args pe n s1;
        Some (Some e # es, s2)
      }
      else Some ([], s))"

subsection \<open>Implicit calls of Print and PutChars\<close>

definition parsePrintStmt :: "expr reader \<Rightarrow> nat \<Rightarrow> stmt reader" where
  "parsePrintStmt pe n s =
     (let l = tk_loc (p_tok s 0); (fmt, s1) = parseStrRun s
      in do {
        (a, s2) \<leftarrow> (if \<not> p_is s1 PComma 0 \<and> \<not> p_is s1 PSemi 0 \<and> fmt = [] then pe s1
                   else Some (EStrLit l fmt, s1));
        (as, s3) \<leftarrow> comma_args pe n s2;
        Some (SExpr l (ECall l (EIdent l ''Print'') (Some a # as)),
              p_expect PSemi ''after print statement'' s3)
      })"

definition parsePutCharsStmt :: "expr reader \<Rightarrow> stmt reader" where
  "parsePutCharsStmt pe s =
     (let t = p_tok s 0; l = tk_loc t
      in do {
        (a, s1) \<leftarrow> (if tk_text t = [] then pe (p_drop s)
                   else Some (ECharLit l (tk_ival t) (length (tk_text t)), p_drop s));
        Some (SExpr l (ECall l (EIdent l ''PutChars'') [Some a]),
              p_expect PSemi ''after char statement'' s1)
      })"

subsection \<open>Blocks and control flow\<close>

text \<open>The loop of \<open>parseBlock\<close>; \<open>lb\<close> is the location of the opening brace.\<close>

fun block_loop :: "stmt reader \<Rightarrow> nat \<Rightarrow> srcloc \<Rightarrow> stmt list reader" where
  "block_loop ps 0 lb s = None"
| "block_loop ps (Suc n) lb s =
     (if p_is s PRBrace 0 then Some ([], p_drop s)
      else if tk_kind (p_tok s 0) = TkEof then Some ([], p_error lb ''unterminated block'' s)
      else do {
        (b, s1) \<leftarrow> ps s;
        (bs, s2) \<leftarrow> block_loop ps n lb s1;
        Some (b # bs, s2)
      })"

text \<open>\<open>parseBlock\<close>: the location and body of the block.\<close>

definition parseBlock :: "stmt reader \<Rightarrow> nat \<Rightarrow> stmt list reader" where
  "parseBlock ps n s = block_loop ps n (tk_loc (p_tok s 0)) (p_drop s)"

definition parseIf :: "expr reader \<Rightarrow> stmt reader \<Rightarrow> stmt reader" where
  "parseIf pe ps s = do {
     (c, s1) \<leftarrow> pe (p_expect PLParen ''after if'' (p_drop s));
     (a, s2) \<leftarrow> ps (p_expect PRParen ''after if condition'' s1);
     if p_isIdent s2 ''else'' 0
     then do { (b, s3) \<leftarrow> ps (p_drop s2); Some (SIf (tk_loc (p_tok s 0)) c a (Some b), s3) }
     else Some (SIf (tk_loc (p_tok s 0)) c a None, s2)
   }"

definition parseWhile :: "expr reader \<Rightarrow> stmt reader \<Rightarrow> stmt reader" where
  "parseWhile pe ps s = do {
     (c, s1) \<leftarrow> pe (p_expect PLParen ''after while'' (p_drop s));
     (b, s2) \<leftarrow> ps (p_expect PRParen ''after while condition'' s1);
     Some (SWhile (tk_loc (p_tok s 0)) c b, s2)
   }"

definition parseDoWhile :: "expr reader \<Rightarrow> stmt reader \<Rightarrow> stmt reader" where
  "parseDoWhile pe ps s = do {
     (b, s1) \<leftarrow> ps (p_drop s);
     if \<not> p_isIdent s1 ''while'' 0
     then Some (SDoWhile (tk_loc (p_tok s 0)) b None,
                p_error (tk_loc (p_tok s1 0)) ''expected while after do body'' s1)
     else do {
       (c, s2) \<leftarrow> pe (p_expect PLParen ''after do..while'' (p_drop s1));
       Some (SDoWhile (tk_loc (p_tok s 0)) b (Some c),
             p_expect PSemi ''after do..while'' (p_expect PRParen ''after do..while condition'' s2))
     }
   }"

text \<open>\<open>if (!is(p)) r = f();\<close>\<close>

definition unless_is :: "punct \<Rightarrow> 'a \<Rightarrow> 'a reader \<Rightarrow> 'a reader" where
  "unless_is p d f s = (if p_is s p 0 then Some (d, s) else f s)"

definition some_expr :: "expr reader \<Rightarrow> expr option reader" where
  "some_expr pe s = do { (e, s1) \<leftarrow> pe s; Some (Some e, s1) }"

definition parseFor :: "expr reader \<Rightarrow> stmt reader \<Rightarrow> nat \<Rightarrow> stmt reader" where
  "parseFor pe ps n s = do {
     (ini, s1) \<leftarrow> unless_is PSemi [] (parseExprList pe n) (p_expect PLParen ''after for'' (p_drop s));
     (cond, s2) \<leftarrow> unless_is PSemi None (some_expr pe) (p_expect PSemi ''after for-init'' s1);
     (post, s3) \<leftarrow> unless_is PRParen [] (parseExprList pe n) (p_expect PSemi ''after for-condition'' s2);
     (b, s4) \<leftarrow> ps (p_expect PRParen ''after for header'' s3);
     Some (SFor (tk_loc (p_tok s 0)) ini cond (List.map (\<lambda>e. SExpr (expr_loc e) e) post) b, s4)
   }"

definition parseSwitch :: "expr reader \<Rightarrow> stmt reader \<Rightarrow> stmt reader" where
  "parseSwitch pe ps s =
     (let l = tk_loc (p_tok s 0); (uc, s1) = p_accept PLBracket (p_drop s)
      in do {
        (c, s2) \<leftarrow> pe (if uc then s1 else p_expect PLParen ''after switch'' s1);
        (b, s3) \<leftarrow> ps (if uc then p_expect PRBracket ''after switch [expr]'' s2
                       else p_expect PRParen ''after switch expression'' s2);
        Some (SSwitch l uc c b, s3)
      })"

definition parseCase :: "expr reader \<Rightarrow> stmt reader" where
  "parseCase pe s =
     (let l = tk_loc (p_tok s 0); s1 = p_drop s
      in if p_is s1 PColon 0 then Some (SCase l None, p_drop s1)
         else do {
           (lo, s2) \<leftarrow> pe s1;
           if p_is s2 PEllipsis 0
           then do {
             (hi, s3) \<leftarrow> pe (p_drop s2);
             Some (SCase l (Some (lo, Some hi)), p_expect PColon ''after case'' s3)
           }
           else Some (SCase l (Some (lo, None)), p_expect PColon ''after case'' s2)
         })"

definition parseTry :: "stmt reader \<Rightarrow> nat \<Rightarrow> stmt reader" where
  "parseTry ps n s =
     (let l = tk_loc (p_tok s 0); s1 = p_drop s; here = \<lambda>z. tk_loc (p_tok z 0)
      in if \<not> p_is s1 PLBrace 0
         then Some (STry l [] [], p_error (here s1) (''expected '' @ quoted ''{'' @ '' after try'') s1)
         else do {
           (b, s2) \<leftarrow> parseBlock ps n s1;
           if \<not> p_isIdent s2 ''catch'' 0
           then Some (STry l b [], p_error (here s2) ''expected catch after try block'' s2)
           else (let s3 = p_drop s2
                 in if \<not> p_is s3 PLBrace 0
                    then Some (STry l b [], p_error (here s3) (''expected '' @ quoted ''{'' @ '' after catch'') s3)
                    else do { (c, s4) \<leftarrow> parseBlock ps n s3; Some (STry l b c, s4) })
         })"

definition parseGoto :: "pst \<Rightarrow> stmt \<times> pst" where
  "parseGoto s =
     (let l = tk_loc (p_tok s 0); s1 = p_drop s; t = p_tok s1 0
      in if tk_kind t = TkIdent
         then (SGoto l (tk_text t), p_expect PSemi ''after goto'' (p_drop s1))
         else (SGoto l [], p_expect PSemi ''after goto'' (p_error (tk_loc t) ''expected label after goto'' s1)))"

definition parseReturn :: "expr reader \<Rightarrow> stmt reader" where
  "parseReturn pe s = do {
     (e, s1) \<leftarrow> unless_is PSemi None (some_expr pe) (p_drop s);
     Some (SReturn (tk_loc (p_tok s 0)) e, p_expect PSemi ''after return'' s1)
   }"

definition parseNoWarn :: "expr reader \<Rightarrow> nat \<Rightarrow> stmt reader" where
  "parseNoWarn pe n s = do {
     (_, s1) \<leftarrow> unless_is PSemi [] (parseExprList pe n) (p_drop s);
     Some (SNoWarn (tk_loc (p_tok s 0)), p_expect PSemi ''after no_warn'' s1)
   }"

text \<open>The expression statement at the end of \<open>parseStmt\<close>.\<close>

definition parseExprStmt :: "expr reader \<Rightarrow> stmt reader" where
  "parseExprStmt pe s = do {
     (e, s1) \<leftarrow> pe s;
     Some (SExpr (tk_loc (p_tok s 0)) e, p_expect PSemi ''after expression'' s1)
   }"

subsection \<open>Statements that start with an identifier\<close>

text \<open>The statements HolyC does not have: an error, and the source is skipped.\<close>

definition rejected_stmt :: "string \<Rightarrow> pst \<Rightarrow> pst option" where
  "rejected_stmt kw s =
     (let l = tk_loc (p_tok s 0); err = (\<lambda>m. p_drop (p_error l m s))
      in if kw = ''continue''
         then Some (snd (p_accept PSemi
                (err (''there is no '' @ quoted ''continue'' @ '' stmt in HolyC -- use goto''))))
         else if kw = ''typedef''
         then Some (skipToSemi (err (''there is no '' @ quoted ''typedef'' @ '' in HolyC -- use class'')))
         else if kw = ''asm''
         then Some (skipBraceBlock (err ''inline asm blocks are not supported by hcc''))
         else if kw = ''class'' \<or> kw = ''union''
         then Some (skipToSemi (err ''class definitions are only allowed at top level''))
         else None)"

text \<open>The chain of keyword tests; \<^const>\<open>None\<close> outside: no keyword statement, outer loop of the
  code falls through to labels, declarations and expressions.\<close>

definition keyword_stmt :: "expr reader \<Rightarrow> stmt reader \<Rightarrow> nat \<Rightarrow> pst \<Rightarrow> (stmt \<times> pst) option option" where
  "keyword_stmt pe ps n s =
     (let t = p_tok s 0; kw = tk_text t; l = tk_loc t; s1 = p_drop s
      in if kw = ''if'' then Some (parseIf pe ps s)
         else if kw = ''while'' then Some (parseWhile pe ps s)
         else if kw = ''do'' then Some (parseDoWhile pe ps s)
         else if kw = ''for'' then Some (parseFor pe ps n s)
         else if kw = ''switch'' then Some (parseSwitch pe ps s)
         else if kw = ''break'' then Some (Some (SBreak l, p_expect PSemi ''after break'' s1))
         else if kw = ''goto'' then Some (Some (parseGoto s))
         else if kw = ''return'' then Some (parseReturn pe s)
         else if kw = ''case'' then Some (parseCase pe s)
         else if kw = ''default'' \<and> p_is s PColon 1 then Some (Some (SDefault l, p_drop s1))
         else if kw = ''start'' \<and> p_is s PColon 1 then Some (Some (SSubStart l, p_drop s1))
         else if kw = ''end'' \<and> p_is s PColon 1 then Some (Some (SSubEnd l, p_drop s1))
         else if kw = ''try'' then Some (parseTry ps n s)
         else if kw = ''no_warn'' then Some (parseNoWarn pe n s)
         else if kw = ''lock'' then Some (do { (b, s2) \<leftarrow> ps s1; Some (SLock l b, s2) })
         else (case rejected_stmt kw s of
                 Some s2 \<Rightarrow> Some (Some (SEmpty l, s2))
               | None \<Rightarrow> None))"

definition ident_stmt :: "expr reader \<Rightarrow> stmt reader \<Rightarrow> nat \<Rightarrow> stmt reader" where
  "ident_stmt pe ps n s =
     (let t = p_tok s 0
      in case keyword_stmt pe ps n s of
           Some r \<Rightarrow> r
         | None \<Rightarrow>
             if p_is s PColon 1 \<and> \<not> isTypeName s t
             then Some (SLabel (tk_loc t) (tk_text t), p_drop (p_drop s))
             else if isTypeName s t \<and> startsDecl s then parseVarDeclStmt pe n False s
             else if tk_text t = ''static'' then parseVarDeclStmt pe n True (p_drop s)
             else parseExprStmt pe s)"

subsection \<open>The knot\<close>

definition stmt_step :: "expr reader \<Rightarrow> stmt reader \<Rightarrow> nat \<Rightarrow> stmt reader" where
  "stmt_step pe ps n s =
     (let t = p_tok s 0
      in if p_is s PSemi 0 then Some (SEmpty (tk_loc t), p_drop s)
         else if p_is s PLBrace 0
         then do { (b, s1) \<leftarrow> parseBlock ps n s; Some (SBlock (tk_loc t) b, s1) }
         else if tk_kind t = TkStrLit then parsePrintStmt pe n s
         else if tk_kind t = TkCharLit then parsePutCharsStmt pe s
         else if tk_kind t = TkIdent then ident_stmt pe ps n s
         else parseExprStmt pe s)"

fun parseStmt :: "nat \<Rightarrow> stmt reader" where
  "parseStmt 0 s = None"
| "parseStmt (Suc n) s = stmt_step (parseExpr (Suc n)) (parseStmt n) (Suc n) s"

end
