(* ===== verification/HC_ParserTop.thy ===== *)
theory HC_ParserTop
  imports HC_ParserStmt
begin

text \<open>
  The top level of the parser: qualifiers, class definitions with their packed layout, global
  variables, functions, and the loop \<open>run\<close>.
\<close>

subsection \<open>Qualifiers\<close>

record quals =
  q_linkage :: linkage
  q_aliasSym :: string
  q_interrupt :: bool
  q_hasErrCode :: bool
  q_argPop :: bool
  q_noArgPop :: bool
  q_any :: bool

definition quals0 :: quals where
  "quals0 = \<lparr>q_linkage = LNormal, q_aliasSym = [], q_interrupt = False, q_hasErrCode = False,
     q_argPop = False, q_noArgPop = False, q_any = False\<rparr>"

definition qual_words :: "string list" where
  "qual_words = [''public'', ''static'', ''extern'', ''import'', ''_extern'', ''_import'',
     ''interrupt'', ''haserrcode'', ''argpop'', ''noargpop'']"

definition isQualKw :: "token \<Rightarrow> bool" where
  "isQualKw t \<longleftrightarrow> tk_kind t = TkIdent \<and> tk_text t \<in> set qual_words"

text \<open>The effect of one qualifier other than \<open>_extern\<close> and \<open>_import\<close>.\<close>

definition set_qual :: "string \<Rightarrow> quals \<Rightarrow> quals" where
  "set_qual kw q =
     (if kw = ''public'' then q\<lparr>q_linkage := LPublic\<rparr>
      else if kw = ''static'' then q\<lparr>q_linkage := LStatic\<rparr>
      else if kw = ''extern'' then q\<lparr>q_linkage := LExtern\<rparr>
      else if kw = ''import'' then q\<lparr>q_linkage := LImport\<rparr>
      else if kw = ''interrupt'' then q\<lparr>q_interrupt := True\<rparr>
      else if kw = ''haserrcode'' then q\<lparr>q_hasErrCode := True\<rparr>
      else if kw = ''argpop'' then q\<lparr>q_argPop := True\<rparr>
      else if kw = ''noargpop'' then q\<lparr>q_noArgPop := True\<rparr>
      else q)"

fun quals_loop :: "nat \<Rightarrow> quals \<Rightarrow> quals reader" where
  "quals_loop 0 q s = None"
| "quals_loop (Suc n) q s =
     (let t = p_tok s 0; kw = tk_text t; s1 = p_drop s; q1 = q\<lparr>q_any := True\<rparr>
      in if \<not> isQualKw t then Some (q, s)
         else if kw = ''_extern'' \<or> kw = ''_import''
         then (let q2 = q1\<lparr>q_linkage := (if kw = ''_extern'' then LExternAlias else LImportAlias)\<rparr>
               in if tk_kind (p_tok s1 0) = TkIdent
                  then quals_loop n (q2\<lparr>q_aliasSym := tk_text (p_tok s1 0)\<rparr>) (p_drop s1)
                  else quals_loop n q2
                         (p_error (tk_loc (p_tok s1 0)) (''expected symbol name after '' @ kw) s1))
         else quals_loop n (set_qual kw q1) s1)"

definition parseQuals :: "nat \<Rightarrow> quals reader" where
  "parseQuals n = quals_loop n quals0"

subsection \<open>Classes\<close>

definition upd_class :: "nat \<Rightarrow> (classinfo \<Rightarrow> classinfo) \<Rightarrow> pst \<Rightarrow> pst" where
  "upd_class c f s = s\<lparr>ps_store := list_update (ps_store s) c (f (ps_store s ! c))\<rparr>"

definition push_item :: "topitem \<Rightarrow> pst \<Rightarrow> pst" where
  "push_item i s = s\<lparr>ps_items := ps_items s @ [i]\<rparr>"

text \<open>A fresh class object under the name; it hides an earlier one.\<close>

definition fresh_class :: "string \<Rightarrow> pst \<Rightarrow> nat \<times> pst" where
  "fresh_class name s =
     (length (ps_store s),
      s\<lparr>ps_store := ps_store s @ [new_class name],
        ps_classes := AList.update name (length (ps_store s)) (ps_classes s)\<rparr>)"

text \<open>The class object a definition fills in: the forward-declared one, or a fresh one.\<close>

definition class_entry :: "string \<Rightarrow> pst \<Rightarrow> nat \<times> pst" where
  "class_entry name s =
     (case map_of (ps_classes s) name of
        None \<Rightarrow> fresh_class name s
      | Some c \<Rightarrow>
          if ci_complete (ps_store s ! c) \<and> (p_is s PLBrace 0 \<or> p_is s PColon 0)
          then fresh_class name s
          else (c, s))"

text \<open>\<open>[:BASE]\<close>.\<close>

definition class_base :: "nat \<Rightarrow> pst \<Rightarrow> pst" where
  "class_base c s =
     (if \<not> p_is s PColon 0 then s
      else (let s1 = p_drop s; t = p_tok s1 0
            in if tk_kind t \<noteq> TkIdent \<or> \<not> has_key (ps_classes s1) (tk_text t)
               then p_error (tk_loc t) ''expected base class name'' s1
               else (let s2 = upd_class c (\<lambda>ci. ci\<lparr>ci_base := baseTypeFor s1 (tk_text t)\<rparr>) (p_drop s1)
                     in if p_is s2 PComma 0
                        then p_error (tk_loc (p_tok s2 0)) ''only one base class is allowed'' s2
                        else s2)))"

text \<open>The running layout of a class: \<open>offset\<close> and \<open>maxSize\<close>; and the step for one member type.\<close>

definition layout_step :: "bool \<Rightarrow> i64 \<Rightarrow> i64 \<times> i64 \<Rightarrow> i64 \<times> (i64 \<times> i64)" where
  "layout_step isUnion sz = (\<lambda>(offset, maxSize).
     if isUnion then (0, (offset, if slt maxSize sz then sz else maxSize))
     else (offset, (offset + sz, if slt maxSize (offset + sz) then offset + sz else maxSize)))"

text \<open>The meta data of a member: \<open>while (tok().kind == Ident) ...\<close>.\<close>

fun meta_loop :: "expr reader \<Rightarrow> nat \<Rightarrow> (string \<times> token) list reader" where
  "meta_loop pe 0 s = None"
| "meta_loop pe (Suc n) s =
     (if tk_kind (p_tok s 0) \<noteq> TkIdent then Some ([], s)
      else do {
        (_, s1) \<leftarrow> pe (p_drop s);
        (ms, s2) \<leftarrow> meta_loop pe n s1;
        Some ((tk_text (p_tok s 0), p_tok (p_drop s) 0) # ms, s2)
      })"

text \<open>The check for a duplicate name, and the member appended.\<close>

definition add_member :: "nat \<Rightarrow> cmember \<Rightarrow> pst \<Rightarrow> pst" where
  "add_member c m s =
     (let ci = ps_store s ! c; n = cm_name m;
          s1 = (if n \<noteq> ''pad'' \<and> n \<noteq> ''reserved'' \<and> (\<exists>p \<in> set (ci_members ci). cm_name p = n)
                then p_error (tk_loc (p_tok s 0))
                       (''duplicate member '' @ quoted n @ '' in class '' @ quoted (ci_name ci)
                        @ '' (only '' @ quoted ''pad'' @ ''/'' @ quoted ''reserved'' @ '' may repeat)'') s
                else s)
      in upd_class c (\<lambda>ci. ci\<lparr>ci_members := ci_members ci @ [m]\<rparr>) s1)"

text \<open>The loop over the declarators of one member declaration.\<close>

fun member_decls ::
    "expr reader \<Rightarrow> nat \<Rightarrow> nat \<Rightarrow> bool \<Rightarrow> ty \<Rightarrow> i64 \<times> i64 \<Rightarrow> (i64 \<times> i64) reader" where
  "member_decls pe 0 c isUnion base lay s = None"
| "member_decls pe (Suc n) c isUnion base lay s = do {
     (dcl, s1) \<leftarrow> parseDeclarator pe (Suc n) False False base s;
     (case dcl of
        None \<Rightarrow> Some (lay, p_error (tk_loc (p_tok s1 0)) ''expected member name'' s1)
      | Some d \<Rightarrow> do {
          (meta, s2) \<leftarrow> meta_loop pe (Suc n) s1;
          let (ofs, lay') = layout_step isUnion (ty_size (ps_store s2) (vd_type d)) lay;
          let s3 = add_member c \<lparr>cm_name = vd_name d, cm_type = vd_type d, cm_offset = ofs,
                                 cm_meta = meta\<rparr> s2;
          if p_is s3 PComma 0 then member_decls pe n c isUnion base lay' (p_drop s3)
          else Some (lay', p_expect PSemi ''after class member'' s3)
        })
   }"

text \<open>The loop over the body of a class. The boolean is false where the code returned because the
  input ended.\<close>

fun class_body ::
    "expr reader \<Rightarrow> nat \<Rightarrow> nat \<Rightarrow> bool \<Rightarrow> srcloc \<Rightarrow> i64 \<times> i64 \<Rightarrow> (bool \<times> i64) reader" where
  "class_body pe 0 c isUnion kw lay s = None"
| "class_body pe (Suc n) c isUnion kw lay s =
     (let t = p_tok s 0
      in if p_is s PRBrace 0 then Some ((True, snd lay), s)
         else if tk_kind t = TkEof
         then Some ((False, snd lay), p_error kw ''unterminated class definition'' s)
         else if p_is s PSemi 0 then class_body pe n c isUnion kw lay (p_drop s)
         else if p_is s PDollar 0
         then class_body pe n c isUnion kw lay
                (skipToSemi (p_error (tk_loc t)
                   (quoted ''$'' @ '' offset hacks in classes are not supported by hcc'') s))
         else if \<not> isTypeName s t
         then class_body pe n c isUnion kw lay
                (skipToSemi (p_error (tk_loc t)
                   (''expected member type (got '' @ quoted (describe t) @ '')'') s))
         else (let (base, s1) = parseBaseTypeNoStars s
               in do {
                 (lay', s2) \<leftarrow> member_decls pe (Suc n) c isUnion base lay s1;
                 class_body pe n c isUnion kw lay' s2
               }))"

text \<open>The size of the base class, where members start.\<close>

definition base_size :: "nat \<Rightarrow> pst \<Rightarrow> i64" where
  "base_size c s = (case base_of (ps_store s) c of Some b \<Rightarrow> ci_size (ps_store s ! b) | None \<Rightarrow> 0)"

definition addGlobalOrLocalTop :: "vdecl \<Rightarrow> quals \<Rightarrow> pst \<Rightarrow> pst" where
  "addGlobalOrLocalTop d q s =
     push_item (IGlobal \<lparr>gv_name = vd_name d, gv_aliasSym = q_aliasSym q, gv_type = vd_type d,
       gv_init = vd_init d, gv_linkage = q_linkage q, gv_loc = vd_loc d\<rparr>) s"

text \<open>The instances declared after a class body.\<close>

fun instance_loop :: "expr reader \<Rightarrow> nat \<Rightarrow> string \<Rightarrow> quals \<Rightarrow> unit reader" where
  "instance_loop pe 0 cname q s = None"
| "instance_loop pe (Suc n) cname q s = do {
     (dcl, s1) \<leftarrow> parseDeclarator pe (Suc n) True False (the (baseTypeFor s cname)) s;
     (case dcl of
        None \<Rightarrow> Some ((), p_error (tk_loc (p_tok s1 0)) ''expected declarator after class definition'' s1)
      | Some d \<Rightarrow>
          (let s2 = addGlobalOrLocalTop d q s1
           in if p_is s2 PComma 0 then instance_loop pe n cname q (p_drop s2) else Some ((), s2)))
   }"

text \<open>From the opening brace of a class on.\<close>

definition class_def_body :: "expr reader \<Rightarrow> nat \<Rightarrow> nat \<Rightarrow> string \<Rightarrow> bool \<Rightarrow> srcloc \<Rightarrow> quals \<Rightarrow> unit reader" where
  "class_def_body pe n c cname isUnion kw q s =
     (let s1 = p_expect PLBrace ''in class definition'' s; b = base_size c s1
      in do {
        ((done, sz), s2) \<leftarrow> class_body pe n c isUnion kw (b, b) s1;
        if \<not> done then Some ((), s2)
        else do {
          let s3 = push_item (IClass c)
                     (upd_class c (\<lambda>ci. ci\<lparr>ci_size := sz, ci_complete := True\<rparr>) (p_drop s2));
          (_, s4) \<leftarrow> (if p_is s3 PSemi 0 then Some ((), s3) else instance_loop pe n cname q s3);
          Some ((), p_expect PSemi ''after class definition'' s4)
        }
      })"

definition parseClassDef :: "expr reader \<Rightarrow> nat \<Rightarrow> quals \<Rightarrow> unit reader" where
  "parseClassDef pe n q s =
     (let (whole, s1) = (if \<not> p_isIdent s ''class'' 0 \<and> \<not> p_isIdent s ''union'' 0
                         then (case parseBaseType s of (t, z) \<Rightarrow> (Some t, z)) else (None, s));
          isUnion = p_isIdent s1 ''union'' 0; kw = tk_loc (p_tok s1 0); s2 = p_drop s1;
          name = p_tok s2 0
      in if tk_kind name \<noteq> TkIdent
         then Some ((), skipToSemi (p_error (tk_loc name) ''expected class name'' s2))
         else (let (c, s3) = class_entry (tk_text name) (p_drop s2);
                   s4 = upd_class c (\<lambda>ci. ci\<lparr>ci_isUnion := isUnion, ci_wholeType := whole\<rparr>) s3;
                   s5 = class_base c s4
               in if p_is s5 PSemi 0 then Some ((), p_drop s5)
                  else class_def_body pe n c (tk_text name) isUnion kw q s5))"

subsection \<open>Functions, globals and the loop\<close>

definition parseFunc :: "expr reader \<Rightarrow> stmt reader \<Rightarrow> nat \<Rightarrow> ty \<Rightarrow> quals \<Rightarrow> unit reader" where
  "parseFunc pe ps n ret q s =
     (let name = p_tok s 0
      in do {
        ((params, va), s1) \<leftarrow> parseParams pe n (p_drop (p_drop s));
        let fd = \<lparr>fd_name = tk_text name, fd_aliasSym = q_aliasSym q, fd_type = TyFunc ret params va,
                  fd_linkage = q_linkage q, fd_interrupt = q_interrupt q,
                  fd_hasErrCode = q_hasErrCode q, fd_argPop = q_argPop q, fd_noArgPop = q_noArgPop q,
                  fd_body = [], fd_hasBody = False, fd_loc = tk_loc name\<rparr>;
        if p_is s1 PLBrace 0
        then do {
          (b, s2) \<leftarrow> parseBlock ps n s1;
          Some ((), push_item (IFunc (fd\<lparr>fd_body := b, fd_hasBody := True\<rparr>)) s2)
        }
        else Some ((), push_item (IFunc fd) (p_expect PSemi ''after function prototype'' s1))
      })"

text \<open>The list of global variables; the first declarator's stars are in \<open>dbase\<close>.\<close>

fun global_loop :: "expr reader \<Rightarrow> nat \<Rightarrow> ty \<Rightarrow> ty \<Rightarrow> quals \<Rightarrow> unit reader" where
  "global_loop pe 0 dbase base q s = None"
| "global_loop pe (Suc n) dbase base q s = do {
     (dcl, s1) \<leftarrow> parseDeclarator pe (Suc n) True False dbase s;
     (case dcl of
        None \<Rightarrow> Some ((), skipToSemi (p_error (tk_loc (p_tok s1 0)) ''expected declarator'' s1))
      | Some d \<Rightarrow>
          (let s2 = addGlobalOrLocalTop d q s1
           in if p_is s2 PComma 0 then global_loop pe n base base q (p_drop s2)
              else Some ((), p_expect PSemi ''after global variable'' s2)))
   }"

text \<open>\<open>parseTopLevel\<close> after the qualifiers \<open>q\<close>.\<close>

definition parseItem :: "expr reader \<Rightarrow> stmt reader \<Rightarrow> nat \<Rightarrow> quals \<Rightarrow> unit reader" where
  "parseItem pe ps n q s =
     (let t = p_tok s 0
      in if p_isIdent s ''class'' 0 \<or> p_isIdent s ''union'' 0
            \<or> (isTypeName s t \<and> (p_isIdent s ''class'' 1 \<or> p_isIdent s ''union'' 1))
         then parseClassDef pe n q s
         else if isTypeName s t \<and> (startsDecl s \<or> q_any q)
         then (let (base, s2) = parseBaseTypeNoStars s; (u, s3) = p_stars base s2
               in if tk_kind (p_tok s3 0) = TkIdent \<and> p_is s3 PLParen 1 then parseFunc pe ps n u q s3
                  else global_loop pe n u base q s3)
         else if q_any q
         then Some ((), skipToSemi (p_error (tk_loc t) ''expected declaration after qualifiers'' s))
         else do { (st, s2) \<leftarrow> ps s; Some ((), push_item (IStmt st) s2) })"

definition parseTopLevel :: "expr reader \<Rightarrow> stmt reader \<Rightarrow> nat \<Rightarrow> unit reader" where
  "parseTopLevel pe ps n s =
     (if p_is s PSemi 0 then Some ((), p_drop s)
      else do { (q, s1) \<leftarrow> parseQuals n s; parseItem pe ps n q s1 })"

text \<open>\<open>run\<close>: the state when only the end of file is left.\<close>

fun run_loop :: "expr reader \<Rightarrow> stmt reader \<Rightarrow> nat \<Rightarrow> nat \<Rightarrow> pst \<Rightarrow> pst option" where
  "run_loop pe ps f 0 s = None"
| "run_loop pe ps f (Suc n) s =
     (if tk_kind (p_tok s 0) = TkEof then Some s
      else do { (_, s1) \<leftarrow> parseTopLevel pe ps f s; run_loop pe ps f n s1 })"

definition parse_with :: "nat \<Rightarrow> token list \<Rightarrow> pst option" where
  "parse_with n ts = run_loop (parseExpr n) (parseStmt n) n n (pst0 ts)"

text \<open>\<open>Parser::parseProgram\<close> on the tokens of a program, with the fuel the parser needs.\<close>

definition parseProgram :: "token list \<Rightarrow> pst option" where
  "parseProgram ts = parse_with (Suc (length ts)) ts"

end
