(* ===== verification/HC_Reader.thy ===== *)
theory HC_Reader
  imports HC_ParserTop
begin

text \<open>
  How readers of the parser are reasoned about, on top of \<open>returns\<close>: \<open>p_steps\<close>, what every
  expression and statement parser does to the state; \<open>p_eats\<close>, that it also consumes a token
  when there is one. The rules in \<open>reader_intro\<close> peel
  the state transformers of \<open>HC_ParserBase\<close> off the later state.
\<close>

named_theorems reader_intro

subsection \<open>What a reader does to the state\<close>

abbreviation plen :: "pst \<Rightarrow> nat" where
  "plen s \<equiv> length (ps_toks s)"

definition p_steps :: "pst \<Rightarrow> pst \<Rightarrow> bool" where
  "p_steps s s' \<longleftrightarrow> suffix (ps_toks s') (ps_toks s) \<and> suffix (ps_diags s) (ps_diags s')
     \<and> ps_classes s' = ps_classes s \<and> ps_store s' = ps_store s \<and> ps_items s' = ps_items s
     \<and> (ps_fault s \<longrightarrow> ps_fault s')"

definition p_eats :: "pst \<Rightarrow> pst \<Rightarrow> bool" where
  "p_eats s s' \<longleftrightarrow> p_steps s s' \<and> (tk_kind (p_tok s 0) \<noteq> TkEof \<longrightarrow> plen s' < plen s)"

lemma p_steps_refl [reader_intro]: "p_steps s s"
  by (simp add: p_steps_def)

lemma p_steps_trans: "p_steps s t \<Longrightarrow> p_steps t u \<Longrightarrow> p_steps s u"
  by (auto simp: p_steps_def intro: suffix_order.trans)

lemma p_steps_len: "p_steps s t \<Longrightarrow> plen t \<le> plen s"
  by (auto simp: p_steps_def dest: suffix_length_le)

lemma p_eats_steps: "p_eats s t \<Longrightarrow> p_steps s t"
  by (simp add: p_eats_def)

lemma p_eats_then: "p_eats s t \<Longrightarrow> p_steps t u \<Longrightarrow> p_eats s u"
  by (auto simp: p_eats_def intro: p_steps_trans dest: p_steps_len)

lemma suffix_same_length: "suffix xs ys \<Longrightarrow> length xs = length ys \<Longrightarrow> xs = ys"
  by (auto simp: suffix_def)

lemma p_then_eats: "p_steps s t \<Longrightarrow> p_eats t u \<Longrightarrow> p_eats s u"
proof (cases "plen t = plen s")
  case True
  assume *: "p_steps s t" "p_eats t u"
  with True have "ps_toks t = ps_toks s"
    by (auto simp: p_steps_def intro: suffix_same_length)
  then have "p_tok t = p_tok s" by (simp add: fun_eq_iff p_tok_def)
  with * True show ?thesis by (auto simp: p_eats_def intro: p_steps_trans)
next
  case False
  assume *: "p_steps s t" "p_eats t u"
  with False show ?thesis
    using p_steps_len [of s t] p_steps_len [of t u] by (auto simp: p_eats_def intro: p_steps_trans)
qed

subsection \<open>The token primitives\<close>

lemma tok_is_eofTok [simp]: "\<not> tok_is eofTok p" "\<not> tok_isIdent eofTok w" "tk_kind eofTok = TkEof"
  by (simp_all add: eofTok_def token0_def tok_is_def tok_isIdent_def)

text \<open>At a token that is not the end of file the input is not empty.\<close>

lemma not_eof_toks: "tk_kind (p_tok s 0) \<noteq> TkEof \<Longrightarrow> ps_toks s \<noteq> []"
  by (auto simp: p_tok_def)

lemma at_token:
  "p_is s p k \<Longrightarrow> tk_kind (p_tok s k) \<noteq> TkEof" "p_isIdent s w k \<Longrightarrow> tk_kind (p_tok s k) \<noteq> TkEof"
  "p_at_any s ps \<Longrightarrow> tk_kind (p_tok s 0) \<noteq> TkEof"
  by (auto simp: p_is_def p_isIdent_def p_at_any_def tok_is_def tok_isIdent_def)

lemma suffix_tl_trans: "suffix xs ys \<Longrightarrow> suffix (tl xs) ys"
  by (metis suffix_order.trans suffix_tl)

lemma p_steps_drop [reader_intro]: "p_steps s t \<Longrightarrow> p_steps s (p_drop t)"
  by (simp add: p_steps_def p_drop_def suffix_tl_trans)

lemma p_eats_drop [reader_intro]: "p_steps s t \<Longrightarrow> p_eats s (p_drop t)"
  by (rule p_then_eats) (auto simp: p_eats_def p_drop_def p_steps_def dest!: not_eof_toks)

lemma p_steps_error [reader_intro]: "p_steps s t \<Longrightarrow> p_steps s (p_error l m t)"
  by (auto simp: p_steps_def p_error_def intro: suffix_ConsI)

lemma p_eats_error [reader_intro]: "p_eats s t \<Longrightarrow> p_eats s (p_error l m t)"
  using p_steps_error [of s t l m] by (simp add: p_eats_def) (simp add: p_error_def)

lemma p_steps_expect [reader_intro]: "p_steps s t \<Longrightarrow> p_steps s (p_expect p w t)"
  by (auto simp: p_expect_def Let_def intro: p_steps_drop p_steps_error)

lemma p_eats_expect [reader_intro]: "p_eats s t \<Longrightarrow> p_eats s (p_expect p w t)"
  by (rule p_eats_then [OF _ p_steps_expect [OF p_steps_refl]])

lemma p_steps_set_toks: "p_steps s t \<Longrightarrow> suffix ks (ps_toks t) \<Longrightarrow> p_steps s (t\<lparr>ps_toks := ks\<rparr>)"
  by (auto simp: p_steps_def intro: suffix_order.trans)

lemma p_steps_fault [reader_intro]: "p_steps s t \<Longrightarrow> p_steps s (t\<lparr>ps_fault := True\<rparr>)"
  by (simp add: p_steps_def)

lemma p_eats_fault [reader_intro]: "p_eats s t \<Longrightarrow> p_eats s (t\<lparr>ps_fault := True\<rparr>)"
  by (simp add: p_eats_def p_steps_def)

text \<open>Lengths, for the side conditions on fuel.\<close>

lemma plen_simps [simp]:
  "plen (p_drop s) = plen s - 1" "plen (p_error l m s) = plen s"
  "plen s < n \<Longrightarrow> plen (p_expect p w s) < n"
  using p_steps_len [OF p_steps_expect [OF p_steps_refl], of p w s]
  by (auto simp: p_drop_def p_error_def)

lemma at_pos:
  "p_is s p 0 \<Longrightarrow> (\<exists>k. plen s = Suc k) \<and> tk_kind (p_tok s 0) \<noteq> TkEof"
  "p_isIdent s w 0 \<Longrightarrow> (\<exists>k. plen s = Suc k) \<and> tk_kind (p_tok s 0) \<noteq> TkEof"
  "p_at_any s ps \<Longrightarrow> (\<exists>k. plen s = Suc k) \<and> tk_kind (p_tok s 0) \<noteq> TkEof"
  by (metis Suc_pred at_token length_greater_0_conv not_eof_toks)+

lemma not_eof_pos: "tk_kind (p_tok s 0) \<noteq> TkEof \<Longrightarrow> \<exists>k. plen s = Suc k"
  by (metis Suc_pred length_greater_0_conv not_eof_toks)

subsection \<open>Readers\<close>

text \<open>\<open>eats n rd\<close>: on fewer than \<open>n\<close> tokens \<open>rd\<close> returns and consumes; \<open>keeps n rd\<close>: it
  returns, and may consume nothing.\<close>

definition eats :: "nat \<Rightarrow> 'a reader \<Rightarrow> bool" where
  "eats n rd \<longleftrightarrow> (\<forall>s. plen s < n \<longrightarrow> returns (rd s) (\<lambda>_. p_eats s))"

definition keeps :: "nat \<Rightarrow> 'a reader \<Rightarrow> bool" where
  "keeps n rd \<longleftrightarrow> (\<forall>s. plen s < n \<longrightarrow> returns (rd s) (\<lambda>_. p_steps s))"

lemma eatsI: "(\<And>s. plen s < n \<Longrightarrow> returns (rd s) (\<lambda>_. p_eats s)) \<Longrightarrow> eats n rd"
  by (simp add: eats_def)

lemma keepsI: "(\<And>s. plen s < n \<Longrightarrow> returns (rd s) (\<lambda>_. p_steps s)) \<Longrightarrow> keeps n rd"
  by (simp add: keeps_def)

lemma eats_keeps: "eats n rd \<Longrightarrow> keeps n rd"
  unfolding eats_def keeps_def by (blast intro: returns_mono p_eats_steps)

lemma eats_mono: "eats n rd \<Longrightarrow> m \<le> n \<Longrightarrow> eats m rd"
  by (simp add: eats_def)

lemma keeps_mono: "keeps n rd \<Longrightarrow> m \<le> n \<Longrightarrow> keeps m rd"
  by (simp add: keeps_def)

text \<open>Using a reader at a state \<open>t\<close> reached from \<open>s\<close>: what it leaves is described from \<open>s\<close>.\<close>

lemma eatsD:
  assumes "eats n rd" and "plen t < n" and "p_steps s t"
    and "\<And>x u. p_eats s u \<Longrightarrow> p_steps s u \<Longrightarrow> plen u \<le> plen s
           \<Longrightarrow> (tk_kind (p_tok s 0) \<noteq> TkEof \<Longrightarrow> plen u < plen s) \<Longrightarrow> Q x u"
  shows "returns (rd t) Q"
proof (rule returns_mono)
  show "returns (rd t) (\<lambda>_. p_eats t)" using assms(1,2) by (simp add: eats_def)
  show "Q x u" if "p_eats t u" for x u
    using p_then_eats [OF assms(3) that]
    by (intro assms(4)) (auto simp: p_eats_def dest: p_steps_len)
qed

lemma keepsD:
  assumes "keeps n rd" and "plen t < n" and "p_steps s t"
    and "\<And>x u. p_steps s u \<Longrightarrow> (p_eats s t \<Longrightarrow> p_eats s u) \<Longrightarrow> plen u \<le> plen t
           \<Longrightarrow> plen u \<le> plen s \<Longrightarrow> Q x u"
  shows "returns (rd t) Q"
proof (rule returns_mono)
  show "returns (rd t) (\<lambda>_. p_steps t)" using assms(1,2) by (simp add: keeps_def)
  show "Q x u" if "p_steps t u" for x u
    using p_steps_len [OF that] p_steps_len [OF assms(3)] that assms(3)
    by (intro assms(4)) (auto intro: p_steps_trans p_eats_then)
qed

lemma keepsD_after:
  assumes "keeps n rd" and "plen t < n" and "p_eats s t"
    and "\<And>x u. p_eats s u \<Longrightarrow> p_steps s u \<Longrightarrow> (tk_kind (p_tok s 0) \<noteq> TkEof \<Longrightarrow> plen u < plen s) \<Longrightarrow> Q x u"
  shows "returns (rd t) Q"
proof (rule returns_mono)
  show "returns (rd t) (\<lambda>_. p_steps t)" using assms(1,2) by (simp add: keeps_def)
  show "Q x u" if "p_steps t u" for x u
    using p_eats_then [OF assms(3) that] by (intro assms(4)) (auto simp: p_eats_def)
qed

end
