(* ===== verification/HC_ExprTotal.thy ===== *)
theory HC_ExprTotal
  imports HC_Reader
begin

text \<open>
  The expression parser returns on every input: with more fuel than tokens it always yields an
  expression, consumes a token where there is one, adds diagnostics and changes neither the class
  table nor the items.
\<close>

subsection \<open>Steps without recursion\<close>

lemma suffix_str_run: "suffix (snd (str_run ts)) ts"
  by (induction ts) (auto split: prod.splits intro: suffix_ConsI)

lemma suffix_str_run_less: "tk_kind t = TkStrLit \<Longrightarrow> suffix (snd (str_run (t # ts))) ts"
  using suffix_str_run [of ts] by (auto split: prod.splits)

lemma p_steps_strrun [reader_intro]: "p_steps s t \<Longrightarrow> p_steps s (snd (parseStrRun t))"
  using suffix_str_run [of "ps_toks t"]
  by (auto simp: parseStrRun_def split: prod.splits intro!: p_steps_set_toks)

lemma p_eats_strrun:
  assumes "tk_kind (p_tok s 0) = TkStrLit" shows "p_eats s (snd (parseStrRun s))"
proof (cases "ps_toks s")
  case (Cons t ts)
  with assms have "suffix (snd (str_run (t # ts))) ts" "tk_kind t = TkStrLit"
    by (auto intro!: suffix_str_run_less simp: p_tok_def simp del: str_run.simps)
  then show ?thesis using p_steps_strrun [OF p_steps_refl, of s] Cons
    by (auto simp: parseStrRun_def p_eats_def split: prod.splits dest: suffix_length_le)
qed (use assms in \<open>simp add: p_tok_def\<close>)

lemma suffix_star_loop: "suffix (snd (star_loop t ts)) ts"
  by (induction t ts rule: star_loop.induct) (auto intro: suffix_ConsI)

lemma p_steps_stars [reader_intro]: "p_steps s u \<Longrightarrow> p_steps s (snd (p_stars t u))"
  using suffix_star_loop [of t "ps_toks u"]
  by (auto simp: p_stars_def split: prod.splits intro!: p_steps_set_toks)

lemma p_eats_base [reader_intro]: "p_steps s u \<Longrightarrow> p_eats s (snd (parseBaseTypeNoStars u))"
  by (auto simp: parseBaseTypeNoStars_def Let_def intro!: reader_intro split: option.splits)

lemma p_eats_basetype [reader_intro]: "p_steps s u \<Longrightarrow> p_eats s (snd (parseBaseType u))"
  using p_eats_base [of s u] p_steps_stars [OF p_steps_refl]
  by (auto simp: parseBaseType_def split: prod.splits) (metis p_eats_then snd_conv)

lemma p_steps_of_eats [reader_intro]:
  "p_steps s u \<Longrightarrow> p_steps s (snd (parseBaseTypeNoStars u))"
  "p_steps s u \<Longrightarrow> p_steps s (snd (parseBaseType u))"
  by (auto intro: p_eats_steps reader_intro)

lemma p_steps_sizeof_member [reader_intro]: "p_steps s u \<Longrightarrow> p_steps s (snd (sizeof_member l c m u))"
  by (auto simp: sizeof_member_def intro!: reader_intro split: option.splits)

lemma p_eats_sizeof_member [reader_intro]: "p_eats s u \<Longrightarrow> p_eats s (snd (sizeof_member l c m u))"
  by (rule p_eats_then [OF _ p_steps_sizeof_member [OF p_steps_refl]])

lemma p_eats_offset [reader_intro]: "p_steps s u \<Longrightarrow> p_eats s (snd (parseOffset u))"
  by (auto simp: parseOffset_def Let_def intro!: reader_intro)

lemma plen_types [simp]:
  "plen s - 1 < n \<Longrightarrow> plen (snd (parseBaseTypeNoStars s)) < n"
  "plen s < n \<Longrightarrow> plen (snd (p_stars t s)) < n"
  "plen s - 1 < n \<Longrightarrow> plen (snd (parseBaseType s)) < n"
  "plen s < n \<Longrightarrow> plen (snd (parseStrRun s)) < n"
proof -
  have base: "p_steps (p_drop s) (snd (parseBaseTypeNoStars s))" for s
    by (auto simp: parseBaseTypeNoStars_def Let_def split: option.splits intro!: reader_intro)
  then show "plen s - 1 < n \<Longrightarrow> plen (snd (parseBaseTypeNoStars s)) < n"
    using p_steps_len [OF base, of s] by simp
  have "p_steps (p_drop s) (snd (parseBaseType s))"
    using p_steps_stars [OF base] by (auto simp: parseBaseType_def split: prod.split) (metis snd_conv)
  then show "plen s - 1 < n \<Longrightarrow> plen (snd (parseBaseType s)) < n"
    using p_steps_len [of "p_drop s" "snd (parseBaseType s)"] by simp
qed (auto intro: le_less_trans p_steps_len reader_intro)

lemma p_eats_at_eof: "tk_kind (p_tok s 0) = TkEof \<Longrightarrow> p_steps s u \<Longrightarrow> p_eats s u"
  by (simp add: p_eats_def)

lemma primary_error_eats: "returns (primary_error s) (\<lambda>_. p_eats s)"
  by (auto simp: primary_error_def Let_def intro!: reader_intro intro: p_eats_at_eof)

subsection \<open>The contract of the recursive call\<close>

text \<open>The client of this interface is everything between two calls of \<open>parseAssign\<close>.\<close>

locale expr_parser =
  fixes pe :: "expr reader" and n :: nat
  assumes pe_eats: "eats n pe"
begin

lemmas pe_at = eatsD [OF pe_eats]

lemma init_loop_eats: "eats (min m n) (init_loop pe m)"
proof (induction m)
  case (Suc m)
  show ?case
    by (rule eatsI)
      (auto simp: split_beta intro!: reader_intro pe_at eatsD [OF Suc.IH] dest!: at_pos)
qed (simp add: eats_def)

lemma arg_loop_keeps: "keeps (min m n) (arg_loop pe m)"
proof (induction m)
  case (Suc m)
  show ?case
    by (rule keepsI)
      (auto simp: opt_arg_def split_beta intro!: reader_intro pe_at keepsD [OF Suc.IH] dest!: at_pos)
qed (simp add: keeps_def)

lemma parseInitList_eats: "p_is s PLBrace 0 \<Longrightarrow> plen s < m \<Longrightarrow> plen s < Suc n
    \<Longrightarrow> returns (parseInitList pe m s) (\<lambda>_. p_eats s)"
  by (auto simp: parseInitList_def Let_def split_beta
      intro!: reader_intro eatsD [OF init_loop_eats] dest!: at_pos)

lemma parseSizeof_eats: "tk_kind (p_tok s 0) \<noteq> TkEof \<Longrightarrow> plen s < Suc n
    \<Longrightarrow> returns (parseSizeof pe s) (\<lambda>_. p_eats s)"
  using not_eof_pos [of s]
  by (auto simp: parseSizeof_def Let_def split_beta intro!: reader_intro pe_at)

lemma parsePrimary_eats: "eats (min m (Suc n)) (parsePrimary pe m)"
proof (rule eatsI)
  fix s assume len: "plen s < min m (Suc n)"
  show "returns (parsePrimary pe m s) (\<lambda>_. p_eats s)"
  proof (cases "tk_kind (p_tok s 0) = TkEof")
    case True
    then show ?thesis by (simp add: parsePrimary_def Let_def primary_error_eats)
  next
    case False
    then obtain k where pos: "plen s = Suc k" using not_eof_pos by blast
    show ?thesis
    proof (cases "tk_kind (p_tok s 0)")
      case TkIdent
      with len pos show ?thesis
        by (auto simp: parsePrimary_def Let_def intro!: reader_intro parseSizeof_eats)
    next
      case TkPunct
      with len pos show ?thesis
        by (auto simp: parsePrimary_def Let_def p_is_def tok_is_def
            intro!: reader_intro pe_at parseInitList_eats primary_error_eats)
    qed (use False p_eats_strrun [of s] in
        \<open>auto simp: parsePrimary_def Let_def split_beta intro!: reader_intro\<close>)
  qed
qed

lemma parseCallArgs_keeps: "keeps (min m n) (parseCallArgs pe m)"
  by (rule keepsI)
    (auto simp: parseCallArgs_def intro!: reader_intro keepsD [OF arg_loop_keeps])

lemma cast_pos: "looksLikeCast s \<Longrightarrow> (\<exists>k. plen s = Suc k) \<and> tk_kind (p_tok s 0) \<noteq> TkEof"
  by (auto simp: looksLikeCast_def dest!: at_pos)

lemma postfix_loop_keeps: "keeps (min m (Suc n)) (postfix_loop pe m e)"
proof (induction m arbitrary: e)
  case (Suc m)
  note IH = keepsD [OF Suc.IH]
  show ?case
  proof (rule keepsI)
    fix s assume len: "plen s < min (Suc m) (Suc n)"
    have *: "p_eats s (p_drop s)" "p_steps s (p_drop s)" by (auto intro!: reader_intro)
    consider (cast) "looksLikeCast s" | (call) "\<not> looksLikeCast s" "p_is s PLParen 0"
      | (index) "\<not> looksLikeCast s" "\<not> p_is s PLParen 0" "p_is s PLBracket 0"
      | (rest) "\<not> looksLikeCast s" "\<not> p_is s PLParen 0" "\<not> p_is s PLBracket 0"
      by blast
    then show "returns (postfix_loop pe (Suc m) e s) (\<lambda>_. p_steps s)"
    proof cases
      case cast
      with len show ?thesis
        by (auto simp: Let_def split_beta intro!: reader_intro IH dest!: cast_pos)
    next
      case call
      with len show ?thesis
        by (auto simp: Let_def split_beta intro!: reader_intro IH keepsD [OF parseCallArgs_keeps] dest!: at_pos)
    next
      case index
      with len show ?thesis
        by (auto simp: Let_def split_beta intro!: reader_intro IH pe_at dest!: at_pos)
    next
      case rest
      with len show ?thesis
        by (auto simp: Let_def split_beta intro!: reader_intro IH dest!: at_pos)
    qed
  qed
qed (simp add: keeps_def)

lemma parsePostfix_eats: "eats (min m (Suc n)) (parsePostfix pe m)"
  by (rule eatsI)
    (auto simp: parsePostfix_def intro!: eatsD [OF parsePrimary_eats] keepsD [OF postfix_loop_keeps] reader_intro)

lemma parseUnary_eats: "eats (min m (Suc n)) (parseUnary pe m)"
proof (induction m)
  case (Suc m)
  show ?case
    by (rule eatsI)
      (auto intro!: reader_intro eatsD [OF Suc.IH] eatsD [OF parsePostfix_eats] dest!: at_pos)
qed (simp add: eats_def)

end

subsection \<open>Binary operators\<close>

lemma bin_loop_keeps: "eats n sub \<Longrightarrow> keeps (min m n) (bin_loop m sub ops lhs)"
proof (induction m arbitrary: lhs)
  case (Suc m)
  show ?case
    by (rule keepsI)
      (auto intro!: reader_intro eatsD [OF Suc.prems] keepsD [OF Suc.IH [OF Suc.prems]] dest!: at_pos)
qed (simp add: keeps_def)

lemma binaryLoop_eats: "eats n sub \<Longrightarrow> eats n (binaryLoop n sub ops)"
  by (rule eatsI)
    (auto simp: binaryLoop_def intro!: eatsD [where rd = sub] keepsD [OF bin_loop_keeps] reader_intro)

lemma chain_loop_keeps: "eats n sub \<Longrightarrow> keeps (min m n) (chain_loop m sub)"
proof (induction m)
  case (Suc m)
  show ?case
    by (rule keepsI)
      (auto intro!: reader_intro eatsD [OF Suc.prems] keepsD [OF Suc.IH [OF Suc.prems]] dest!: at_pos)
qed (simp add: keeps_def)

context expr_parser
begin

lemma parseUnary_top: "eats (Suc n) (parseUnary pe (Suc n))"
  using parseUnary_eats [of "Suc n"] by simp

lemma parseAdd_eats: "eats (Suc n) (parseAdd pe (Suc n))"
  unfolding parseAdd_def parseBor_def parseBxor_def parseBand_def parseMul_def parsePow_def
  by (intro binaryLoop_eats parseUnary_top)

lemma parseRel_eats: "eats (Suc n) (parseRel pe (Suc n))"
  by (rule eatsI)
    (auto simp: parseRel_def simp del: chain_loop.simps intro!: eatsD [OF parseAdd_eats]
       keepsD [OF chain_loop_keeps [OF parseAdd_eats]] reader_intro)

lemma parseLor_eats: "eats (Suc n) (parseLor pe (Suc n))"
  unfolding parseLor_def parseLxor_def parseLand_def parseEq_def
  by (intro binaryLoop_eats parseRel_eats)

lemma assign_step_eats: "eats (Suc n) (assign_step pe (Suc n))"
  by (rule eatsI)
    (auto simp: assign_step_def Let_def intro!: eatsD [OF parseLor_eats] pe_at reader_intro dest!: at_pos)

end

subsection \<open>The knot\<close>

lemma parseAssign_eats: "eats n (parseAssign n)"
proof (induction n)
  case (Suc n)
  then have "expr_parser (parseAssign n) n" by unfold_locales
  from expr_parser.assign_step_eats [OF this] show ?case by (simp add: eats_def)
qed (simp add: eats_def)

interpretation assign: expr_parser "parseAssign n" n for n
  by unfold_locales (rule parseAssign_eats)

end
