(* ===== verification/HC_StmtTotal.thy ===== *)
theory HC_StmtTotal
  imports HC_ExprTotal
begin

text \<open>
  Declarators and statements: the same contract as for expressions, from the contracts of the
  two recursive calls.
\<close>

subsection \<open>Declarators\<close>

lemma suffix_declar_prefix: "suffix (snd (snd (declar_prefix t d ts))) ts"
proof (induction t d ts rule: declar_prefix.induct)
  case (2 t d k ks)
  define r where "r = snd (snd (declar_prefix t d (k # ks)))"
  have "r = k # ks \<or> suffix r ks \<or> suffix r (tl ks)"
  proof (cases "tok_is k PStar \<or> \<not> tok_isIdent k ''reg''")
    case True
    then show ?thesis using 2(1,6) by (auto simp: r_def)
  next
    case False
    then show ?thesis using 2(2,3,4,5)
      by (cases ks; cases "tl ks") (auto simp: r_def)
  qed
  then show ?case
    unfolding r_def [symmetric] by (auto intro: suffix_ConsI suffix_order.trans [OF _ suffix_tl])
qed simp

lemma suffix_skip_to_semi: "suffix (skip_to_semi d ts) ts"
  by (induction d ts rule: skip_to_semi.induct) (auto simp: Let_def intro: suffix_ConsI)

lemma suffix_skip_brace_block: "suffix (skip_brace_block d ts) ts"
  by (induction d ts rule: skip_brace_block.induct) (auto intro: suffix_ConsI)

lemma suffix_skip_to_paren_end: "suffix (skip_to_paren_end d ts) ts"
  by (induction d ts rule: skip_to_paren_end.induct) (auto intro: suffix_ConsI)

lemma p_steps_skip [reader_intro]:
  "p_steps s t \<Longrightarrow> p_steps s (skipToSemi t)"
  "p_steps s t \<Longrightarrow> p_steps s (skipBraceBlock t)"
  "p_steps s t \<Longrightarrow> p_steps s (skipToParenEnd t)"
  by (auto simp: skipToSemi_def skipBraceBlock_def skipToParenEnd_def suffix_skip_to_semi
      suffix_skip_brace_block suffix_skip_to_paren_end intro!: p_steps_set_toks)

lemma p_eats_skip [reader_intro]:
  "p_eats s t \<Longrightarrow> p_eats s (skipToSemi t)"
  "p_eats s t \<Longrightarrow> p_eats s (skipBraceBlock t)"
  by (auto intro: p_eats_then reader_intro)

lemma p_steps_array_dim [reader_intro]: "p_steps s t \<Longrightarrow> p_steps s (snd (array_dim l e t))"
  by (auto simp: array_dim_def split: option.splits intro!: reader_intro)

lemma plen_array_dim [simp]: "plen s < n \<Longrightarrow> plen (snd (array_dim l e s)) < n"
  by (auto intro: le_less_trans p_steps_len reader_intro)

lemma isTypeName_pos: "isTypeName s (p_tok s 0) \<Longrightarrow> (\<exists>k. plen s = Suc k) \<and> tk_kind (p_tok s 0) \<noteq> TkEof"
  using not_eof_pos [of s] by (auto simp: isTypeName_def)

context expr_parser
begin

lemma dims_loop_keeps: "keeps (min m n) (dims_loop pe ip l m t)"
proof (induction m arbitrary: t ip)
  case (Suc m)
  show ?case
    by (rule keepsI)
      (auto simp: split_beta Let_def intro!: reader_intro pe_at keepsD [OF Suc.IH] dest!: at_pos)
qed (simp add: keeps_def)

lemma declar_init_keeps: "keeps n (declar_init pe ai d)"
  by (rule keepsI) (auto simp: declar_init_def intro!: reader_intro pe_at)

lemma declar_name_keeps: "keeps (min (Suc m) n) (declar_name pe m ai ip t d)"
proof (rule keepsI)
  fix s assume "plen s < min (Suc m) n"
  then show "returns (declar_name pe m ai ip t d s) (\<lambda>_. p_steps s)"
    using not_eof_pos [of s]
    by (auto simp: declar_name_def Let_def split_beta
        intro!: reader_intro keepsD [OF dims_loop_keeps] keepsD [OF declar_init_keeps])
qed

lemma param_default_keeps: "keeps n (param_default pe)"
  by (rule keepsI) (auto simp: param_default_def intro!: reader_intro pe_at)

lemma params_with_keeps: "keeps k pl \<Longrightarrow> keeps k (params_with pl)"
  by (rule keepsI) (auto simp: params_with_def intro!: reader_intro keepsD [of k pl])

lemma declar_fnptr_returns:
  "keeps k pl \<Longrightarrow> p_is s PLParen 0 \<Longrightarrow> plen s < Suc k \<Longrightarrow> plen s < n
    \<Longrightarrow> returns (declar_fnptr pe pl ai t d s) (\<lambda>_. p_steps s)"
  by (auto simp: declar_fnptr_def Let_def split_beta intro!: reader_intro
      keepsD [OF params_with_keeps] keepsD [OF declar_init_keeps] dest!: at_pos)

lemma p_steps_prefix:
  "declar_prefix b d (ps_toks s) = (t, d', ks) \<Longrightarrow> p_steps s (s\<lparr>ps_toks := ks\<rparr>)"
  using suffix_declar_prefix [of b d "ps_toks s"] by (auto intro!: p_steps_set_toks reader_intro)

lemma declarator_keeps:
  "keeps (min m n) (parseDeclarator pe m ai ip base)" "keeps (min m n) (params_loop pe m)"
proof (induction m arbitrary: ai ip base)
  case (Suc m)
  {
    case 1
    show ?case
    proof (rule keepsI)
      fix s assume len: "plen s < min (Suc m) n"
      obtain t d ks where pre: "declar_prefix base vdecl0 (ps_toks s) = (t, d, ks)"
        by (cases "declar_prefix base vdecl0 (ps_toks s)")
      define s0 where "s0 = s\<lparr>ps_toks := ks\<rparr>"
      have s0: "p_steps s s0" using p_steps_prefix [OF pre] by (simp add: s0_def)
      then have len0: "plen s0 < min (Suc m) n" using p_steps_len [OF s0] len by simp
      from len0 Suc.IH(2) have "returns (parseDeclarator pe (Suc m) ai ip base s) (\<lambda>_. p_steps s0)"
        by (auto simp: pre s0_def [symmetric] intro!: declar_fnptr_returns keepsD [OF declar_name_keeps] reader_intro)
      then show "returns (parseDeclarator pe (Suc m) ai ip base s) (\<lambda>_. p_steps s)"
        by (rule returns_mono) (rule p_steps_trans [OF s0])
    qed
  next
    case 2
    show ?case
      by (rule keepsI)
        (auto simp: split_beta Let_def intro!: reader_intro keepsD [OF Suc.IH(1)]
          keepsD [OF Suc.IH(2)] keepsD [OF param_default_keeps] dest!: isTypeName_pos)
  }
qed (simp_all add: keeps_def)

lemma decl_loop_keeps: "keeps (min m n) (decl_loop pe m base)"
proof (induction m)
  case (Suc m)
  show ?case
    by (rule keepsI)
      (auto simp del: parseDeclarator.simps split: option.split
        intro!: reader_intro keepsD [OF declarator_keeps(1)] keepsD [OF Suc.IH] dest!: at_pos)
qed (simp add: keeps_def)

lemma parseVarDeclStmt_eats: "eats (min m n) (parseVarDeclStmt pe m st)"
  by (rule eatsI)
    (auto simp: parseVarDeclStmt_def Let_def split_beta intro!: reader_intro keepsD [OF decl_loop_keeps])

lemma exprlist_eats: "eats (min m n) (parseExprList pe m)"
proof (induction m)
  case (Suc m)
  show ?case
    by (rule eatsI) (auto intro!: reader_intro pe_at eatsD [OF Suc.IH] dest!: at_pos)
qed (simp add: eats_def)

lemma comma_args_keeps: "keeps (min m n) (comma_args pe m)"
proof (induction m)
  case (Suc m)
  show ?case
    by (rule keepsI) (auto intro!: reader_intro pe_at keepsD [OF Suc.IH] dest!: at_pos)
qed (simp add: keeps_def)

lemma parsePrintStmt_returns:
  "tk_kind (p_tok s 0) = TkStrLit \<Longrightarrow> plen s < min m n
    \<Longrightarrow> returns (parsePrintStmt pe m s) (\<lambda>_. p_eats s)"
  using p_eats_strrun [of s]
  by (auto simp: parsePrintStmt_def Let_def split_beta
      intro!: reader_intro pe_at keepsD [OF comma_args_keeps])

lemma parsePutCharsStmt_eats: "eats n (parsePutCharsStmt pe)"
  by (rule eatsI) (auto simp: parsePutCharsStmt_def Let_def intro!: reader_intro pe_at)

lemma parseExprStmt_eats: "eats n (parseExprStmt pe)"
  by (rule eatsI) (auto simp: parseExprStmt_def intro!: reader_intro pe_at)

lemma parseCase_eats: "eats n (parseCase pe)"
  by (rule eatsI) (auto simp: parseCase_def Let_def intro!: reader_intro pe_at)

lemma unless_is_keeps: "keeps k f \<Longrightarrow> keeps k (unless_is p d f)"
  by (rule keepsI) (auto simp: unless_is_def intro!: reader_intro keepsD)

lemma some_expr_eats: "eats n (some_expr pe)"
  by (rule eatsI) (auto simp: some_expr_def intro!: reader_intro pe_at)

lemmas opt_expr = keepsD_after [OF unless_is_keeps [OF eats_keeps [OF some_expr_eats]]]

lemmas opt_list = keepsD_after [OF unless_is_keeps [OF eats_keeps [OF exprlist_eats]]]

lemma parseReturn_eats: "eats n (parseReturn pe)"
  by (rule eatsI) (auto simp: parseReturn_def intro!: reader_intro opt_expr)

lemma parseNoWarn_eats: "eats (min m n) (parseNoWarn pe m)"
  by (rule eatsI) (auto simp: parseNoWarn_def intro!: reader_intro opt_list)

end

subsection \<open>Statements\<close>

text \<open>The interface of the statement handlers: the expression parser for the whole input, and
  \<open>parseStmt\<close> for what is left after one token.\<close>

locale stmt_parser = expr_parser pe "Suc n" for pe :: "expr reader" and n :: nat +
  fixes ps :: "stmt reader"
  assumes ps_eats: "eats n ps"
begin

lemmas ps_at = eatsD [OF ps_eats]

lemma block_loop_keeps: "keeps (min m n) (block_loop ps m lb)"
proof (induction m)
  case (Suc m)
  show ?case
  proof (rule keepsI)
    fix s assume "plen s < min (Suc m) n"
    then show "returns (block_loop ps (Suc m) lb s) (\<lambda>_. p_steps s)"
      using not_eof_pos [of s]
      by (auto intro!: reader_intro ps_at keepsD [OF Suc.IH])
  qed
qed (simp add: keeps_def)

lemma parseBlock_returns:
  "p_is s PLBrace 0 \<Longrightarrow> plen s < Suc n \<Longrightarrow> returns (parseBlock ps (Suc n) s) (\<lambda>_. p_eats s)"
  by (auto simp: parseBlock_def simp del: block_loop.simps
      intro!: reader_intro keepsD [OF block_loop_keeps] dest!: at_pos)

lemma parseIf_returns:
  "tk_kind (p_tok s 0) \<noteq> TkEof \<Longrightarrow> plen s < Suc n \<Longrightarrow> returns (parseIf pe ps s) (\<lambda>_. p_eats s)"
  using not_eof_pos [of s]
  by (auto simp: parseIf_def intro!: reader_intro pe_at ps_at)

lemma parseWhile_returns:
  "tk_kind (p_tok s 0) \<noteq> TkEof \<Longrightarrow> plen s < Suc n \<Longrightarrow> returns (parseWhile pe ps s) (\<lambda>_. p_eats s)"
  using not_eof_pos [of s]
  by (auto simp: parseWhile_def intro!: reader_intro pe_at ps_at)

lemma parseDoWhile_returns:
  "tk_kind (p_tok s 0) \<noteq> TkEof \<Longrightarrow> plen s < Suc n \<Longrightarrow> returns (parseDoWhile pe ps s) (\<lambda>_. p_eats s)"
  using not_eof_pos [of s]
  by (auto simp: parseDoWhile_def intro!: reader_intro pe_at ps_at)

lemma parseFor_returns:
  "tk_kind (p_tok s 0) \<noteq> TkEof \<Longrightarrow> plen s < Suc n
    \<Longrightarrow> returns (parseFor pe ps (Suc n) s) (\<lambda>_. p_eats s)"
  using not_eof_pos [of s]
  by (auto simp: parseFor_def simp del: parseExprList.simps intro!: reader_intro opt_expr opt_list ps_at)

lemma parseSwitch_returns:
  "tk_kind (p_tok s 0) \<noteq> TkEof \<Longrightarrow> plen s < Suc n \<Longrightarrow> returns (parseSwitch pe ps s) (\<lambda>_. p_eats s)"
  using not_eof_pos [of s]
  by (auto simp: parseSwitch_def p_accept_def intro!: reader_intro pe_at ps_at)

lemma parseTry_returns:
  "plen s < Suc n \<Longrightarrow> returns (parseTry ps (Suc n) s) (\<lambda>_. p_eats s)"
proof -
  assume len: "plen s < Suc n"
  have block: "returns (parseBlock ps (Suc n) t) Q"
    if "p_is t PLBrace 0" "p_eats s t" "plen t < Suc n"
      "\<And>x u. p_eats s u \<Longrightarrow> p_steps s u \<Longrightarrow> plen u < Suc n \<Longrightarrow> Q x u" for t Q
  proof (rule returns_mono [OF parseBlock_returns [OF that(1,3)]], rule that(4))
    fix u assume "p_eats t u"
    with that(2) show "p_eats s u" by (blast intro: p_then_eats p_eats_steps)
    then show "p_steps s u" by (rule p_eats_steps)
    with len show "plen u < Suc n" by (auto dest!: p_steps_len)
  qed
  show ?thesis using len
    by (auto simp: parseTry_def Let_def intro!: block reader_intro)
qed

lemma parseGoto_eats [reader_intro]: "p_steps s t \<Longrightarrow> p_eats s (snd (parseGoto t))"
  by (auto simp: parseGoto_def Let_def intro!: reader_intro)

lemma p_eats_rejected: "rejected_stmt kw s = Some t \<Longrightarrow> p_eats s t"
  by (auto simp: rejected_stmt_def Let_def p_accept_def split: if_splits intro!: reader_intro)

lemma keyword_stmt_returns:
  "tk_kind (p_tok s 0) \<noteq> TkEof \<Longrightarrow> plen s < Suc n \<Longrightarrow> keyword_stmt pe ps (Suc n) s = Some r
    \<Longrightarrow> returns r (\<lambda>_. p_eats s)"
  using not_eof_pos [of s]
  by (auto simp: keyword_stmt_def Let_def split: if_splits option.splits
      dest: p_eats_rejected intro!: parseIf_returns parseWhile_returns parseDoWhile_returns parseFor_returns
        parseSwitch_returns parseTry_returns eatsD [OF parseReturn_eats] eatsD [OF parseCase_eats]
        eatsD [OF parseNoWarn_eats] ps_at reader_intro)

lemma ident_stmt_returns:
  "tk_kind (p_tok s 0) \<noteq> TkEof \<Longrightarrow> plen s < Suc n
    \<Longrightarrow> returns (ident_stmt pe ps (Suc n) s) (\<lambda>_. p_eats s)"
  by (auto simp: ident_stmt_def Let_def split: option.split
      intro!: keyword_stmt_returns eatsD [OF parseExprStmt_eats] eatsD [OF parseVarDeclStmt_eats]
        reader_intro)

lemma stmt_step_eats: "eats (Suc n) (stmt_step pe ps (Suc n))"
  by (rule eatsI)
    (auto simp: stmt_step_def Let_def intro!: parseBlock_returns ident_stmt_returns
      parsePrintStmt_returns eatsD [OF parsePutCharsStmt_eats] eatsD [OF parseExprStmt_eats] reader_intro)

end

lemma parseStmt_eats: "eats n (parseStmt n)"
proof (induction n)
  case (Suc n)
  then have "stmt_parser (parseExpr (Suc n)) n (parseStmt n)"
    by unfold_locales (use parseAssign_eats in auto)
  from stmt_parser.stmt_step_eats [OF this] show ?case by (simp add: eats_def)
qed (simp add: eats_def)

interpretation stmt: stmt_parser "parseExpr (Suc n)" n "parseStmt n" for n
  by unfold_locales (rule parseStmt_eats)

end
