(* ===== verification/HC_TopTotal.thy ===== *)
theory HC_TopTotal
  imports HC_StmtTotal
begin

text \<open>
  The top level of the parser returns on every token list. Class definitions change the class
  table, so the relation between states is weaker here: \<open>p_grows\<close> keeps the input a suffix, the
  diagnostics and items a growing log, and never forgets a class object.
\<close>

definition p_grows :: "pst \<Rightarrow> pst \<Rightarrow> bool" where
  "p_grows s s' \<longleftrightarrow> suffix (ps_toks s') (ps_toks s) \<and> suffix (ps_diags s) (ps_diags s')
     \<and> prefix (ps_items s) (ps_items s') \<and> length (ps_store s) \<le> length (ps_store s')
     \<and> (ps_fault s \<longrightarrow> ps_fault s')"

definition p_gains :: "pst \<Rightarrow> pst \<Rightarrow> bool" where
  "p_gains s s' \<longleftrightarrow> p_grows s s' \<and> (tk_kind (p_tok s 0) \<noteq> TkEof \<longrightarrow> plen s' < plen s)"

named_theorems top_intro

lemma p_grows_refl [top_intro]: "p_grows s s"
  by (simp add: p_grows_def)

lemma p_grows_trans: "p_grows s t \<Longrightarrow> p_grows t u \<Longrightarrow> p_grows s u"
  by (auto simp: p_grows_def intro: suffix_order.trans prefix_order.trans)

lemma p_steps_grows: "p_steps s t \<Longrightarrow> p_grows s t"
  by (simp add: p_grows_def p_steps_def)

lemma p_eats_gains: "p_eats s t \<Longrightarrow> p_gains s t"
  by (simp add: p_gains_def p_eats_def p_steps_grows)

lemma p_grows_len: "p_grows s t \<Longrightarrow> plen t \<le> plen s"
  by (auto simp: p_grows_def dest: suffix_length_le)

lemma p_gains_then: "p_gains s t \<Longrightarrow> p_grows t u \<Longrightarrow> p_gains s u"
  by (auto simp: p_gains_def intro: p_grows_trans dest: p_grows_len)

lemma p_then_gains: "p_grows s t \<Longrightarrow> p_gains t u \<Longrightarrow> p_gains s u"
proof (cases "plen t = plen s")
  case True
  assume *: "p_grows s t" "p_gains t u"
  with True have "ps_toks t = ps_toks s"
    by (auto simp: p_grows_def intro: suffix_same_length)
  then have "p_tok t = p_tok s" by (simp add: fun_eq_iff p_tok_def)
  with * True show ?thesis by (auto simp: p_gains_def intro: p_grows_trans)
next
  case False
  assume *: "p_grows s t" "p_gains t u"
  with False show ?thesis
    using p_grows_len [of s t] p_grows_len [of t u] by (auto simp: p_gains_def intro: p_grows_trans)
qed

lemma grows_steps: "p_steps t u \<Longrightarrow> p_grows s t \<Longrightarrow> p_grows s u"
  by (blast intro: p_grows_trans p_steps_grows)

lemma gains_steps: "p_steps t u \<Longrightarrow> p_gains s t \<Longrightarrow> p_gains s u"
  by (blast intro: p_gains_then p_steps_grows)

lemma grows_eats: "p_eats t u \<Longrightarrow> p_grows s t \<Longrightarrow> p_gains s u"
  by (blast intro: p_then_gains p_eats_gains)

subsection \<open>The state transformers of the top level\<close>

lemmas step_rules =
  p_steps_drop [OF p_steps_refl] p_steps_error [OF p_steps_refl] p_steps_expect [OF p_steps_refl]
  p_steps_skip(1) [OF p_steps_refl] p_steps_stars [OF p_steps_refl]
  p_steps_of_eats [OF p_steps_refl]

lemmas grows_rules [top_intro] = step_rules [THEN grows_steps]
lemmas gains_rules = step_rules [THEN gains_steps]

lemmas gains_eats [top_intro] =
  p_eats_drop [OF p_steps_refl, THEN grows_eats] p_eats_base [OF p_steps_refl, THEN grows_eats]
  p_eats_basetype [OF p_steps_refl, THEN grows_eats]

lemma skipToSemi_len: "plen (skipToSemi s) \<le> plen s - 1"
  using suffix_skip_to_semi [THEN suffix_length_le]
  by (cases "ps_toks s") (auto simp: skipToSemi_def Let_def)

lemma skipToSemi_eats: "p_eats s (skipToSemi s)"
  using skipToSemi_len [of s] not_eof_pos [of s] p_steps_skip(1) [OF p_steps_refl, of s]
  by (auto simp: p_eats_def)

lemma p_grows_upd_class [top_intro]: "p_grows s t \<Longrightarrow> p_grows s (upd_class c f t)"
  by (simp add: p_grows_def upd_class_def)

lemma p_grows_push_item [top_intro]: "p_grows s t \<Longrightarrow> p_grows s (push_item i t)"
  by (auto simp: p_grows_def push_item_def intro: prefix_order.trans)

lemma p_grows_add_global [top_intro]: "p_grows s t \<Longrightarrow> p_grows s (addGlobalOrLocalTop d q t)"
  by (simp add: addGlobalOrLocalTop_def top_intro)

lemma p_grows_add_member [top_intro]: "p_grows s t \<Longrightarrow> p_grows s (add_member c m t)"
  by (auto simp: add_member_def Let_def intro!: top_intro)

lemma p_grows_class_entry [top_intro]: "p_grows s t \<Longrightarrow> p_grows s (snd (class_entry n t))"
  by (auto simp: class_entry_def fresh_class_def p_grows_def split: option.splits)

lemma p_grows_class_base [top_intro]: "p_grows s t \<Longrightarrow> p_grows s (class_base c t)"
  by (auto simp: class_base_def Let_def intro!: top_intro)

lemma p_gains_transformers [top_intro]:
  "p_gains s t \<Longrightarrow> p_gains s (p_error l m t)"
  "p_gains s t \<Longrightarrow> p_gains s (p_expect p w t)"
  "p_gains s t \<Longrightarrow> p_gains s (snd (p_stars ty t))"
  "p_gains s t \<Longrightarrow> p_gains s (upd_class c f t)"
  "p_gains s t \<Longrightarrow> p_gains s (push_item i t)"
  "p_gains s t \<Longrightarrow> p_gains s (addGlobalOrLocalTop d q t)"
  "p_gains s t \<Longrightarrow> p_gains s (add_member c mem t)"
  "p_gains s t \<Longrightarrow> p_gains s (snd (class_entry n t))"
  "p_gains s t \<Longrightarrow> p_gains s (class_base c t)"
  by (auto elim!: p_gains_then intro!: top_intro)

lemma plen_top [simp]:
  "plen (upd_class c f s) = plen s" "plen (push_item i s) = plen s"
  "plen (addGlobalOrLocalTop d q s) = plen s" "plen (add_member c mem s) = plen s"
  "plen s - 1 < n \<Longrightarrow> plen (skipToSemi s) < n"
  "plen s < n \<Longrightarrow> plen (class_base c s) < n"
  "plen s < n \<Longrightarrow> plen (snd (class_entry nm s)) < n"
proof -
  show "plen s - 1 < n \<Longrightarrow> plen (skipToSemi s) < n"
    using skipToSemi_len [of s] by simp
  show "plen s < n \<Longrightarrow> plen (class_base c s) < n" "plen s < n \<Longrightarrow> plen (snd (class_entry nm s)) < n"
    by (auto intro: le_less_trans p_grows_len top_intro)
qed (auto simp: upd_class_def push_item_def addGlobalOrLocalTop_def add_member_def Let_def p_error_def)

text \<open>Readers at the top level.\<close>

lemma top_keeps:
  assumes "keeps n rd" and "plen t < n" and "p_grows s t"
    and "\<And>x u. p_grows s u \<Longrightarrow> plen u \<le> plen t \<Longrightarrow> plen u \<le> plen s
           \<Longrightarrow> (p_gains s t \<Longrightarrow> p_gains s u) \<Longrightarrow> Q x u"
  shows "returns (rd t) Q"
proof (rule returns_mono)
  show "returns (rd t) (\<lambda>_. p_steps t)" using assms(1,2) by (simp add: keeps_def)
  show "Q x u" if "p_steps t u" for x u
    using p_steps_len [OF that] p_grows_len [OF assms(3)] that assms(3)
    by (intro assms(4)) (auto intro: grows_steps gains_steps)
qed

definition top_total :: "nat \<Rightarrow> 'a reader \<Rightarrow> bool" where
  "top_total n rd \<longleftrightarrow> (\<forall>s. plen s < n \<longrightarrow> returns (rd s) (\<lambda>_. p_grows s))"

lemma top_totalI: "(\<And>s. plen s < n \<Longrightarrow> returns (rd s) (\<lambda>_. p_grows s)) \<Longrightarrow> top_total n rd"
  by (simp add: top_total_def)

lemma topD:
  assumes "top_total n rd" and "plen t < n" and "p_grows s t"
    and "\<And>x u. p_grows s u \<Longrightarrow> plen u \<le> plen t \<Longrightarrow> plen u \<le> plen s
           \<Longrightarrow> (p_gains s t \<Longrightarrow> p_gains s u) \<Longrightarrow> Q x u"
  shows "returns (rd t) Q"
proof (rule returns_mono)
  show "returns (rd t) (\<lambda>_. p_grows t)" using assms(1,2) by (simp add: top_total_def)
  show "Q x u" if "p_grows t u" for x u
    using p_grows_len [OF that] p_grows_len [OF assms(3)] that assms(3)
    by (intro assms(4)) (auto intro: p_grows_trans p_gains_then)
qed

lemma topD_after:
  assumes "top_total n rd" and "plen t < n" and "p_gains s t"
    and "\<And>x u. p_gains s u \<Longrightarrow> p_grows s u \<Longrightarrow> (tk_kind (p_tok s 0) \<noteq> TkEof \<Longrightarrow> plen u < plen s) \<Longrightarrow> Q x u"
  shows "returns (rd t) Q"
proof (rule returns_mono)
  show "returns (rd t) (\<lambda>_. p_grows t)" using assms(1,2) by (simp add: top_total_def)
  show "Q x u" if "p_grows t u" for x u
    using p_gains_then [OF assms(3) that] by (intro assms(4)) (auto simp: p_gains_def)
qed

lemma quals_loop_keeps: "keeps m (quals_loop m q)"
proof (induction m arbitrary: q)
  case (Suc m)
  show ?case
  proof (rule keepsI)
    fix s assume "plen s < Suc m"
    then show "returns (quals_loop (Suc m) q s) (\<lambda>_. p_steps s)"
      using not_eof_pos [of s]
      by (auto simp: Let_def isQualKw_def intro!: reader_intro keepsD [OF Suc.IH])
  qed
qed (simp add: keeps_def)

lemma p_gains_skip_error: "p_grows s t \<Longrightarrow> p_gains s (skipToSemi (p_error l m t))"
  by (rule grows_eats [OF p_then_eats [OF p_steps_error [OF p_steps_refl] skipToSemi_eats]])

subsection \<open>Classes and globals\<close>

context expr_parser
begin

lemmas declar_top = top_keeps [OF declarator_keeps(1)]

lemma meta_loop_keeps: "keeps (min m n) (meta_loop pe m)"
proof (induction m)
  case (Suc m)
  show ?case
  proof (rule keepsI)
    fix s assume "plen s < min (Suc m) n"
    then show "returns (meta_loop pe (Suc m) s) (\<lambda>_. p_steps s)"
      using not_eof_pos [of s]
      by (auto intro!: reader_intro pe_at keepsD [OF Suc.IH])
  qed
qed (simp add: keeps_def)

lemma member_decls_total: "top_total (min m n) (member_decls pe m c u base lay)"
proof (induction m arbitrary: lay)
  case (Suc m)
  show ?case
    by (rule top_totalI)
      (auto simp: split_beta Let_def simp del: parseDeclarator.simps meta_loop.simps split: option.split
        intro!: top_intro declar_top top_keeps [OF meta_loop_keeps] topD [OF Suc.IH] dest!: at_pos)
qed (simp add: top_total_def)

lemma class_body_total: "top_total (min m n) (class_body pe m c u kw lay)"
proof (induction m arbitrary: lay)
  case (Suc m)
  show ?case
  proof (rule top_totalI)
    fix s assume "plen s < min (Suc m) n"
    then show "returns (class_body pe (Suc m) c u kw lay s) (\<lambda>_. p_grows s)"
      using not_eof_pos [of s]
      by (auto simp: split_beta Let_def simp del: member_decls.simps
          intro!: top_intro topD_after [OF member_decls_total] topD [OF Suc.IH])
  qed
qed (simp add: top_total_def)

lemma instance_loop_total: "top_total (min m n) (instance_loop pe m cn q)"
proof (induction m)
  case (Suc m)
  show ?case
    by (rule top_totalI)
      (auto simp: Let_def simp del: parseDeclarator.simps split: option.split
        intro!: top_intro declar_top topD [OF Suc.IH] dest!: at_pos)
qed (simp add: top_total_def)

lemma global_loop_total: "top_total (min m n) (global_loop pe m dbase base q)"
proof (induction m arbitrary: dbase)
  case (Suc m)
  show ?case
    by (rule top_totalI)
      (auto simp: Let_def simp del: parseDeclarator.simps split: option.split
        intro!: top_intro declar_top topD [OF Suc.IH] dest!: at_pos)
qed (simp add: top_total_def)

lemma class_def_body_total: "top_total (min m n) (class_def_body pe m c cn u kw q)"
  by (rule top_totalI)
    (auto simp: class_def_body_def Let_def split_beta
      intro!: top_intro topD [OF class_body_total] topD [OF instance_loop_total])

lemma parseClassDef_returns:
  "tk_kind (p_tok s 0) \<noteq> TkEof \<Longrightarrow> plen s < m \<Longrightarrow> plen s < n
    \<Longrightarrow> returns (parseClassDef pe m q s) (\<lambda>_. p_gains s)"
  using not_eof_pos [of s]
  by (auto simp: parseClassDef_def Let_def split_beta less_imp_diff_less
      intro!: top_intro p_gains_skip_error topD [OF class_def_body_total])

end

subsection \<open>One item, and the loop\<close>

text \<open>\<open>parseTopLevel\<close> calls \<open>parseStmt\<close> on all of the input.\<close>

locale top_parser = stmt_parser +
  assumes ps_top: "eats (Suc n) ps"
begin

lemma parseFunc_total: "top_total (Suc n) (parseFunc pe ps (Suc n) ret q)"
proof (rule top_totalI)
  fix s assume len: "plen s < Suc n"
  have block: "returns (parseBlock ps (Suc n) t) Q"
    if "p_is t PLBrace 0" "p_grows s t" "\<And>x u. p_grows s u \<Longrightarrow> Q x u" for t Q
  proof (rule returns_mono [OF parseBlock_returns [OF that(1)]])
    show "plen t < Suc n" using p_grows_len [OF that(2)] len by simp
    show "Q x u" if "p_eats t u" for x u
      using that \<open>p_grows s t\<close> by (intro \<open>\<And>x u. p_grows s u \<Longrightarrow> Q x u\<close>) (blast intro: grows_steps p_eats_steps)
  qed
  show "returns (parseFunc pe ps (Suc n) ret q s) (\<lambda>_. p_grows s)"
    using len
    by (auto simp: parseFunc_def parseParams_def Let_def
        intro!: top_intro block top_keeps [OF params_with_keeps [OF declarator_keeps(2)]])
qed

lemma parseItem_gains:
  assumes len: "plen s < Suc n"
  shows "returns (parseItem pe ps (Suc n) q s) (\<lambda>_. p_gains s)"
proof -
  have type: "tk_kind (p_tok s 0) \<noteq> TkEof" if "isTypeName s (p_tok s 0)"
    using isTypeName_pos [OF that] by simp
  have base: "p_gains s (snd (p_stars (fst (parseBaseTypeNoStars s)) (snd (parseBaseTypeNoStars s))))"
    by (intro top_intro)
  have ps: "returns (ps s) (\<lambda>x u. p_gains s (push_item (IStmt x) u))"
  proof (rule returns_mono)
    show "returns (ps s) (\<lambda>_. p_eats s)" using ps_top len by (simp add: eats_def)
  qed (intro top_intro p_eats_gains)
  show ?thesis
    using len base ps type
    by (auto simp: parseItem_def Let_def split_beta dest: at_token
        simp del: global_loop.simps
        intro!: parseClassDef_returns p_gains_skip_error topD_after [OF parseFunc_total]
          topD_after [OF global_loop_total] top_intro)
qed

lemma parseTopLevel_gains:
  assumes len: "plen s < Suc n"
  shows "returns (parseTopLevel pe ps (Suc n) s) (\<lambda>_. p_gains s)"
proof -
  have "returns (parseQuals (Suc n) s) (\<lambda>q t. returns (parseItem pe ps (Suc n) q t) (\<lambda>_. p_gains s))"
  proof (unfold parseQuals_def, rule top_keeps [OF quals_loop_keeps len p_grows_refl])
    fix q t assume t: "p_grows s t" "plen t \<le> plen s"
    with len have "returns (parseItem pe ps (Suc n) q t) (\<lambda>_. p_gains t)"
      by (intro parseItem_gains) simp
    with t show "returns (parseItem pe ps (Suc n) q t) (\<lambda>_. p_gains s)"
      by (blast intro: returns_mono p_then_gains)
  qed
  then show ?thesis by (auto simp: parseTopLevel_def intro!: top_intro)
qed

lemma run_loop_returns:
  "plen s < m \<Longrightarrow> plen s < Suc n
    \<Longrightarrow> \<exists>u. run_loop pe ps (Suc n) m s = Some u \<and> p_grows s u \<and> tk_kind (p_tok u 0) = TkEof"
proof (induction m arbitrary: s)
  case (Suc m)
  show ?case
  proof (cases "tk_kind (p_tok s 0) = TkEof")
    case False
    from parseTopLevel_gains [OF Suc.prems(2)] obtain x t
      where t: "parseTopLevel pe ps (Suc n) s = Some (x, t)" "p_gains s t"
      by (rule returnsE)
    with False Suc.prems Suc.IH [of t] show ?thesis
      by (auto simp: p_gains_def intro: p_grows_trans)
  qed (simp add: p_grows_refl)
qed simp

end

interpretation top: top_parser "parseExpr (Suc n)" n "parseStmt (Suc n)" for n
  by unfold_locales (auto intro: parseStmt_eats eats_mono)

text \<open>Any fuel above the number of tokens is enough.\<close>

lemma parse_with_returns:
  assumes "length ts < n"
  shows "\<exists>u. parse_with n ts = Some u \<and> p_grows (pst0 ts) u \<and> tk_kind (p_tok u 0) = TkEof"
proof -
  obtain k where "n = Suc k" using assms by (cases n) auto
  with assms show ?thesis
    using top.run_loop_returns [of "pst0 ts" n k] by (simp add: parse_with_def pst0_def)
qed

end
