(* ===== verification/HC_Unparse.thy ===== *)
theory HC_Unparse
  imports HC_ExprTotal
begin

text \<open>
  The concrete syntax of HolyC expressions as the specification of the expression parser: the
  TempleOS precedence table, and the token sequence of an expression with the fewest parentheses
  the table allows. \<open>HC_RoundTrip\<close> proves that the parser inverts it.
\<close>

subsection \<open>Precedence\<close>

text \<open>
  The level at which a punctuator continues an expression: 13 postfix, 11 \<open>` << >>\<close>,
  10 \<open>* / %\<close>, 9 \<open>&\<close>, 8 \<open>^\<close>, 7 \<open>|\<close>, 6 \<open>+ -\<close>, 5 relations, 4 equality, 3 \<open>&&\<close>, 2 \<open>^^\<close>,
  1 \<open>||\<close>, 0 assignment. Level 12 is the unary operators, which stand in front.
\<close>

definition bin_ops :: "nat \<Rightarrow> punct list" where
  "bin_ops k =
     (if k = 11 then [PPow, PShl, PShr]
      else if k = 10 then [PStar, PSlash, PPercent]
      else if k = 9 then [PAmp]
      else if k = 8 then [PCaret]
      else if k = 7 then [PPipe]
      else if k = 6 then [PPlus, PMinus]
      else if k = 4 then [PEqEq, PNe]
      else if k = 3 then [PAndAnd]
      else if k = 2 then [PXorXor]
      else if k = 1 then [POrOr]
      else [])"

definition level_ops :: "nat \<Rightarrow> punct list" where
  "level_ops k =
     (if k = 13 then [PLParen, PLBracket, PDot, PArrow, PPlusPlus, PMinusMinus]
      else if k = 5 then rel_ops
      else if k = 0 then PQuestion # assign_ops
      else bin_ops k)"

definition bin_level :: "punct \<Rightarrow> nat" where
  "bin_level p =
     (case List.find (\<lambda>k. p \<in> set (bin_ops k)) [11, 10, 9, 8, 7, 6, 4, 3, 2, 1] of
        Some k \<Rightarrow> k | None \<Rightarrow> 0)"

fun elevel :: "expr \<Rightarrow> nat" where
  "elevel (EAssign _ _ _ _) = 0"
| "elevel (EBinary _ p _ _) = bin_level p"
| "elevel (EChainCmp _ _ _) = 5"
| "elevel (EUnary _ _ pre _) = (if pre then 12 else 13)"
| "elevel (ECall _ _ _) = 13"
| "elevel (EIndex _ _ _) = 13"
| "elevel (EMember _ _ _ _) = 13"
| "elevel (ECast _ _ _) = 13"
| "elevel _ = 14"

subsection \<open>Tokens of an expression\<close>

definition pt :: "srcloc \<Rightarrow> punct \<Rightarrow> token" where
  "pt l p = token0\<lparr>tk_kind := TkPunct, tk_punct := p, tk_loc := l\<rparr>"

definition idt :: "srcloc \<Rightarrow> string \<Rightarrow> token" where
  "idt l x = token0\<lparr>tk_kind := TkIdent, tk_text := x, tk_loc := l\<rparr>"

definition paren :: "bool \<Rightarrow> token list \<Rightarrow> token list" where
  "paren b ts = (if b then pt no_loc PLParen # ts @ [pt no_loc PRParen] else ts)"

fun comma_join :: "token list list \<Rightarrow> token list" where
  "comma_join [] = []"
| "comma_join [x] = x"
| "comma_join (x # y # ys) = x @ pt no_loc PComma # comma_join (y # ys)"

text \<open>A type as \<open>NAME **...\<close>.\<close>

fun ty_toks :: "store \<Rightarrow> ty \<Rightarrow> token list" where
  "ty_toks st (TyPtr t) = ty_toks st t @ [pt no_loc PStar]"
| "ty_toks st t = [idt no_loc (ty_str st t)]"

text \<open>\<open>up st k e\<close>: the tokens of \<open>e\<close> where an operand of level \<open>k\<close> is expected.\<close>

fun up :: "store \<Rightarrow> nat \<Rightarrow> expr \<Rightarrow> token list" where
  "up st k (EIntLit l v) = [token0\<lparr>tk_kind := TkIntLit, tk_ival := v, tk_loc := l\<rparr>]"
| "up st k (EFloatLit l f) = [token0\<lparr>tk_kind := TkFloatLit, tk_fval := f, tk_loc := l\<rparr>]"
| "up st k (EStrLit l x) = [token0\<lparr>tk_kind := TkStrLit, tk_text := x, tk_loc := l\<rparr>]"
| "up st k (ECharLit l v n) =
     [token0\<lparr>tk_kind := TkCharLit, tk_ival := v, tk_text := replicate n CHR 0x20, tk_loc := l\<rparr>]"
| "up st k (EIdent l x) = [idt l x]"
| "up st k (ELastClass l) = [idt l ''lastclass'']"
| "up st k (ESizeofType l t) =
     idt l ''sizeof'' # pt no_loc PLParen # ty_toks st t @ [pt no_loc PRParen]"
| "up st k (ESizeofExpr l e) =
     idt l ''sizeof'' # pt no_loc PLParen # up st 0 e @ [pt no_loc PRParen]"
| "up st k (EOffsetOf l c ref m) =
     [idt l ''offset'', pt no_loc PLParen, idt no_loc c, pt no_loc PDot, idt no_loc m, pt no_loc PRParen]"
| "up st k (EInitList l es) =
     pt l PLBrace # comma_join (map (up st 0) es) @ [pt no_loc PRBrace]"
| "up st k (EUnary l p pre e) =
     (if pre then paren (12 < k) (pt l p # up st 12 e) else paren (13 < k) (up st 13 e @ [pt l p]))"
| "up st k (EBinary l p a b) =
     paren (bin_level p < k) (up st (bin_level p) a @ pt l p # up st (Suc (bin_level p)) b)"
| "up st k (EChainCmp l a ks) =
     paren (5 < k) (up st 6 a @ concat (map (\<lambda>(p, e). pt l p # up st 6 e) ks))"
| "up st k (EAssign l p a b) = paren (0 < k) (up st 1 a @ pt l p # up st 0 b)"
| "up st k (ECall l f as) =
     paren (13 < k) (up st 13 f @ pt l PLParen
       # comma_join (map (\<lambda>a. case a of None \<Rightarrow> [] | Some e \<Rightarrow> up st 0 e) as) @ [pt no_loc PRParen])"
| "up st k (EIndex l a i) =
     paren (13 < k) (up st 13 a @ pt l PLBracket # up st 0 i @ [pt no_loc PRBracket])"
| "up st k (EMember l arrow a m) =
     paren (13 < k) (up st 13 a @ [pt l (if arrow then PArrow else PDot), idt no_loc m])"
| "up st k (ECast l t e) =
     paren (13 < k) (up st 13 e @ pt l PLParen # ty_toks st t @ [pt no_loc PRParen])"

subsection \<open>Well-formed expressions\<close>

text \<open>Types that a cast or \<open>sizeof\<close> can name: builtin types and classes in scope, and pointers.\<close>

fun wf_ty :: "(string \<times> nat) list \<Rightarrow> store \<Rightarrow> ty \<Rightarrow> bool" where
  "wf_ty cls st TyVoid = True"
| "wf_ty cls st TyF64 = True"
| "wf_ty cls st (TyInt n uns) = (n \<in> {1, 2, 4, 8})"
| "wf_ty cls st (TyPtr t) = wf_ty cls st t"
| "wf_ty cls st (TyClass c) =
     (c < length st \<and> map_of cls (ci_name (st ! c)) = Some c
      \<and> \<not> has_key builtinTypes (ci_name (st ! c)))"
| "wf_ty cls st _ = False"

definition expr_words :: "string list" where
  "expr_words = [''sizeof'', ''offset'', ''lastclass'']"

definition wf_ident :: "(string \<times> nat) list \<Rightarrow> string \<Rightarrow> bool" where
  "wf_ident cls x \<longleftrightarrow> \<not> has_key builtinTypes x \<and> \<not> has_key cls x"

text \<open>
  The expressions that have a concrete syntax under a class table. The operand of \<open>sizeof\<close> may
  not begin with a literal whose text is a class name, because \<open>parseSizeof\<close> looks at the text
  of the token only.
\<close>

fun wf_expr :: "(string \<times> nat) list \<Rightarrow> store \<Rightarrow> expr \<Rightarrow> bool" where
  "wf_expr cls st (EIdent l x) = (wf_ident cls x \<and> x \<notin> set expr_words)"
| "wf_expr cls st (ELastClass l) = wf_ident cls ''lastclass''"
| "wf_expr cls st (ESizeofType l t) = (wf_ident cls ''sizeof'' \<and> wf_ty cls st t)"
| "wf_expr cls st (ESizeofExpr l e) =
     (wf_ident cls ''sizeof'' \<and> wf_expr cls st e \<and> \<not> has_key cls (tk_text (hd (up st 0 e))))"
| "wf_expr cls st (EOffsetOf l c ref m) = (wf_ident cls ''offset'' \<and> ref = map_of cls c)"
| "wf_expr cls st (EInitList l es) = list_all (wf_expr cls st) es"
| "wf_expr cls st (EUnary l p pre e) =
     (p \<in> set (if pre then unary_ops else [PPlusPlus, PMinusMinus]) \<and> wf_expr cls st e)"
| "wf_expr cls st (EBinary l p a b) =
     (p \<in> set (bin_ops (bin_level p)) \<and> wf_expr cls st a \<and> wf_expr cls st b)"
| "wf_expr cls st (EChainCmp l a ks) =
     (ks \<noteq> [] \<and> wf_expr cls st a \<and> list_all (\<lambda>(p, e). p \<in> set rel_ops \<and> wf_expr cls st e) ks)"
| "wf_expr cls st (EAssign l p a b) =
     (p \<in> set assign_ops \<and> wf_expr cls st a \<and> wf_expr cls st b)"
| "wf_expr cls st (ECall l f as) =
     (wf_expr cls st f \<and> as \<noteq> [None]
      \<and> list_all (\<lambda>a. case a of None \<Rightarrow> True | Some e \<Rightarrow> wf_expr cls st e) as)"
| "wf_expr cls st (EIndex l a i) = (wf_expr cls st a \<and> wf_expr cls st i)"
| "wf_expr cls st (EMember l arrow a m) = wf_expr cls st a"
| "wf_expr cls st (ECast l t e) = (wf_ty cls st t \<and> wf_expr cls st e)"
| "wf_expr cls st _ = True"

end
