(* ===== verification/HC_Levels.thy ===== *)
theory HC_Levels
  imports HC_Unparse
begin

text \<open>
  The expression parser seen level by level (\<open>parse_level\<close>), which tokens may follow an
  expression of a level (\<open>ends\<close>), and the reading of printed types.
\<close>

subsection \<open>States over a token list\<close>

abbreviation with_toks :: "pst \<Rightarrow> token list \<Rightarrow> pst" where
  "with_toks s ts \<equiv> s\<lparr>ps_toks := ts\<rparr>"

lemma with_toks_simps [simp]:
  "p_tok (with_toks s (t # ts)) 0 = t" "p_tok (with_toks s (t # ts)) (Suc k) = p_tok (with_toks s ts) k"
  "p_drop (with_toks s (t # ts)) = with_toks s ts"
  "p_is (with_toks s (t # ts)) p 0 = tok_is t p"
  "p_is (with_toks s (t # ts)) p (Suc k) = p_is (with_toks s ts) p k"
  "p_at_any (with_toks s (t # ts)) ps = (tk_kind t = TkPunct \<and> tk_punct t \<in> set ps)"
  "isTypeName (with_toks s ts) t = isTypeName s t" "baseTypeFor (with_toks s ts) x = baseTypeFor s x"
  by (simp_all add: p_tok_def p_drop_def p_is_def p_at_any_def isTypeName_def fun_eq_iff baseTypeFor_def
      split: option.split)

lemma pt_simps [simp]:
  "tok_is (pt l p) q \<longleftrightarrow> p = q" "tk_kind (pt l p) = TkPunct" "tk_punct (pt l p) = p" "tk_loc (pt l p) = l"
  "tk_text (pt l p) = []" "\<not> isTypeName s (pt l p)"
  by (simp_all add: pt_def tok_is_def token0_def isTypeName_def)

lemma idt_simps [simp]:
  "\<not> tok_is (idt l x) q" "tk_kind (idt l x) = TkIdent" "tk_text (idt l x) = x" "tk_loc (idt l x) = l"
  by (simp_all add: idt_def tok_is_def token0_def)

lemma p_expect_pt [simp]: "p_expect p w (with_toks s (pt l p # ts)) = with_toks s ts"
  by (simp add: p_expect_def)

subsection \<open>What may follow an expression\<close>

text \<open>\<open>ends k ts\<close>: the first token of \<open>ts\<close> does not continue an expression of level \<open>k\<close>.\<close>

definition ends :: "nat \<Rightarrow> token list \<Rightarrow> bool" where
  "ends k ts \<longleftrightarrow> (case ts of [] \<Rightarrow> True
     | t # _ \<Rightarrow> tk_kind t \<noteq> TkStrLit
         \<and> (tk_kind t = TkPunct \<longrightarrow> (\<forall>j. k \<le> j \<longrightarrow> tk_punct t \<notin> set (level_ops j))))"

lemma ends_mono: "ends k ts \<Longrightarrow> k \<le> j \<Longrightarrow> ends j ts"
  by (auto simp: ends_def split: list.splits)

lemma ends_not_at: "ends k ts \<Longrightarrow> k \<le> j \<Longrightarrow> \<not> p_at_any (with_toks s ts) (level_ops j)"
  by (auto simp: ends_def p_at_any_def p_tok_def eofTok_def token0_def split: list.splits)

lemma level_ops_bin: "bin_ops k \<noteq> [] \<Longrightarrow> level_ops k = bin_ops k"
  by (auto simp: level_ops_def bin_ops_def split: if_splits)

text \<open>Each operator belongs to one level.\<close>

definition cont_level :: "punct \<Rightarrow> nat option" where
  "cont_level p = (case p of
       PLParen \<Rightarrow> Some 13 | PLBracket \<Rightarrow> Some 13 | PDot \<Rightarrow> Some 13 | PArrow \<Rightarrow> Some 13
     | PPlusPlus \<Rightarrow> Some 13 | PMinusMinus \<Rightarrow> Some 13
     | PPow \<Rightarrow> Some 11 | PShl \<Rightarrow> Some 11 | PShr \<Rightarrow> Some 11
     | PStar \<Rightarrow> Some 10 | PSlash \<Rightarrow> Some 10 | PPercent \<Rightarrow> Some 10
     | PAmp \<Rightarrow> Some 9 | PCaret \<Rightarrow> Some 8 | PPipe \<Rightarrow> Some 7 | PPlus \<Rightarrow> Some 6 | PMinus \<Rightarrow> Some 6
     | PLt \<Rightarrow> Some 5 | PGt \<Rightarrow> Some 5 | PLe \<Rightarrow> Some 5 | PGe \<Rightarrow> Some 5
     | PEqEq \<Rightarrow> Some 4 | PNe \<Rightarrow> Some 4 | PAndAnd \<Rightarrow> Some 3 | PXorXor \<Rightarrow> Some 2 | POrOr \<Rightarrow> Some 1
     | PQuestion \<Rightarrow> Some 0 | PAssign \<Rightarrow> Some 0 | PPlusEq \<Rightarrow> Some 0 | PMinusEq \<Rightarrow> Some 0
     | PStarEq \<Rightarrow> Some 0 | PSlashEq \<Rightarrow> Some 0 | PPercentEq \<Rightarrow> Some 0 | PShlEq \<Rightarrow> Some 0
     | PShrEq \<Rightarrow> Some 0 | PAmpEq \<Rightarrow> Some 0 | PPipeEq \<Rightarrow> Some 0 | PCaretEq \<Rightarrow> Some 0
     | _ \<Rightarrow> None)"

lemma cont_level: "p \<in> set (level_ops j) \<Longrightarrow> cont_level p = Some j"
  by (auto simp: level_ops_def bin_ops_def rel_ops_def assign_ops_def cont_level_def split: if_splits)

lemma level_unique: "p \<in> set (level_ops j) \<Longrightarrow> p \<in> set (level_ops k) \<Longrightarrow> j = k"
  by (auto dest!: cont_level)

lemma ends_op: "p \<in> set (level_ops j) \<Longrightarrow> j < k \<Longrightarrow> ends k (pt l p # ts)"
  by (auto simp: ends_def dest: level_unique)

lemma ends_close:
  "p \<in> {PRParen, PRBracket, PRBrace, PComma, PSemi, PColon} \<Longrightarrow> ends k (pt l p # ts)"
  by (auto simp: ends_def cont_level_def dest!: cont_level)

subsection \<open>The parser, level by level\<close>

definition parse_level :: "expr reader \<Rightarrow> nat \<Rightarrow> nat \<Rightarrow> expr reader" where
  "parse_level pe n k =
     (if k = 0 then assign_step pe n
      else if k = 1 then parseLor pe n
      else if k = 2 then parseLxor pe n
      else if k = 3 then parseLand pe n
      else if k = 4 then parseEq pe n
      else if k = 5 then parseRel pe n
      else if k = 6 then parseAdd pe n
      else if k = 7 then parseBor pe n
      else if k = 8 then parseBxor pe n
      else if k = 9 then parseBand pe n
      else if k = 10 then parseMul pe n
      else if k = 11 then parsePow pe n
      else if k = 12 then parseUnary pe n
      else parsePostfix pe n)"

lemma parse_level_bin:
  "bin_ops k \<noteq> [] \<Longrightarrow> parse_level pe n k = binaryLoop n (parse_level pe n (Suc k)) (bin_ops k)"
  by (auto simp: parse_level_def bin_ops_def parsePow_def parseMul_def parseBand_def parseBxor_def
      parseBor_def parseAdd_def parseEq_def parseLand_def parseLxor_def parseLor_def split: if_splits)

lemma bin_ops_ne: "bin_ops k \<noteq> [] \<longleftrightarrow> k \<in> {1, 2, 3, 4, 6, 7, 8, 9, 10, 11}"
  by (auto simp: bin_ops_def)

text \<open>An expression a tighter level returned is returned by the looser one when nothing of the
  looser level follows.\<close>

lemma climb_one:
  assumes "parse_level pe n (Suc k) q = Some (e, with_toks s ts)" and "ends k ts" and "0 < n"
    and "k = 12 \<Longrightarrow> \<not> p_at_any q unary_ops" and "k < 13"
  shows "parse_level pe n k q = Some (e, with_toks s ts)"
proof -
  obtain m where n: "n = Suc m" using assms(3) by (cases n) auto
  have stop: "\<not> p_at_any (with_toks s ts) (level_ops k)" using assms(2) by (rule ends_not_at) simp
  consider (bin) "bin_ops k \<noteq> []" | (rel) "k = 5" | (un) "k = 12" | (assign) "k = 0"
  proof -
    from \<open>k < 13\<close> have "k \<in> {1, 2, 3, 4, 6, 7, 8, 9, 10, 11} \<or> k = 5 \<or> k = 12 \<or> k = 0"
      by (simp, presburger)
    then show thesis using bin rel un assign by (simp only: bin_ops_ne [symmetric]) blast
  qed
  then show ?thesis
  proof cases
    case bin
    with assms(1) stop show ?thesis
      by (simp add: parse_level_bin binaryLoop_def n level_ops_bin)
  next
    case rel
    with assms(1) stop show ?thesis
      by (simp add: parse_level_def parseRel_def level_ops_def)
  next
    case un
    with assms(1,4) show ?thesis by (simp add: parse_level_def n)
  next
    case assign
    have "\<not> p_at_any (with_toks s ts) assign_ops" "\<not> p_is (with_toks s ts) PQuestion 0"
      using stop assign by (auto simp: level_ops_def p_at_any_def p_is_def tok_is_def)
    with assms(1) assign show ?thesis by (simp add: parse_level_def assign_step_def Let_def)
  qed
qed

lemma climb:
  assumes "parse_level pe n j q = Some (e, with_toks s ts)" and "k \<le> j" and "j \<le> 13"
    and "ends k ts" and "0 < n" and "j = 13 \<Longrightarrow> \<not> p_at_any q unary_ops"
  shows "parse_level pe n k q = Some (e, with_toks s ts)"
  using assms(2,1,3-6)
proof (induction rule: inc_induct)
  case (step i)
  show ?case
  proof (rule climb_one)
    show "parse_level pe n (Suc i) q = Some (e, with_toks s ts)"
      using step.prems ends_mono [of i ts "Suc i"] by (intro step.IH) auto
    show "ends i ts" "0 < n" by fact+
    show "\<not> p_at_any q unary_ops" if "i = 12" using that step by simp
    show "i < 13" using step by simp
  qed
qed simp

subsection \<open>Types\<close>

fun ty_base :: "ty \<Rightarrow> ty" where
  "ty_base (TyPtr t) = ty_base t"
| "ty_base t = t"

fun ty_depth :: "ty \<Rightarrow> nat" where
  "ty_depth (TyPtr t) = Suc (ty_depth t)"
| "ty_depth t = 0"

lemma ty_toks_eq:
  "ty_toks st t = idt no_loc (ty_str st (ty_base t)) # replicate (ty_depth t) (pt no_loc PStar)"
  by (induction t) (simp_all add: replicate_append_same)

lemma ty_base_wf: "wf_ty cls st t \<Longrightarrow> wf_ty cls st (ty_base t) \<and> (\<forall>u. ty_base t \<noteq> TyPtr u)"
  by (induction t) simp_all

lemma star_loop_replicate:
  "star_loop (ty_base t) (replicate (ty_depth t) (pt no_loc PStar) @ r) = star_loop t r"
proof (induction t arbitrary: r)
  case (TyPtr t)
  from TyPtr [of "pt no_loc PStar # r"] show ?case
    by (simp add: tyPtr_def replicate_app_Cons_same)
qed simp_all

lemma has_key_map_of: "has_key xs k \<longleftrightarrow> map_of xs k \<noteq> None"
  by (simp add: has_key_iff map_of_eq_None_iff)

lemma dec_of_nat_small:
  "dec_of_nat 8 = ''8''" "dec_of_nat 16 = ''16''" "dec_of_nat 32 = ''32''"
  "dec_of_nat 64 = ''64''"
  by (simp_all add: dec_of_nat.simps digit_char_def char_of_def bit_0)

lemma builtin_lookup:
  "map_of builtinTypes ''U0'' = Some (0, True, True, False)"
  "map_of builtinTypes ''F64'' = Some (8, False, False, True)"
  "map_of builtinTypes ''I8'' = Some (1, False, False, False)"
  "map_of builtinTypes ''U8'' = Some (1, True, False, False)"
  "map_of builtinTypes ''I16'' = Some (2, False, False, False)"
  "map_of builtinTypes ''U16'' = Some (2, True, False, False)"
  "map_of builtinTypes ''I32'' = Some (4, False, False, False)"
  "map_of builtinTypes ''U32'' = Some (4, True, False, False)"
  "map_of builtinTypes ''I64'' = Some (8, False, False, False)"
  "map_of builtinTypes ''U64'' = Some (8, True, False, False)"
  by (simp_all add: builtinTypes_def)

lemma base_name:
  assumes "wf_ty (ps_classes s) (ps_store s) t" and "\<forall>u. t \<noteq> TyPtr u"
  shows "baseTypeFor s (ty_str (ps_store s) t) = Some t"
    and "isTypeName s (idt l (ty_str (ps_store s) t))"
proof -
  consider "t = TyVoid" | "t = TyF64" | n u where "t = TyInt n u" "n \<in> {1, 2, 4, 8}"
    | c where "t = TyClass c" "c < length (ps_store s)"
      "map_of (ps_classes s) (ci_name (ps_store s ! c)) = Some c"
      "\<not> has_key builtinTypes (ci_name (ps_store s ! c))"
    using assms by (cases t) auto
  then have "baseTypeFor s (ty_str (ps_store s) t) = Some t
     \<and> isTypeName s (idt l (ty_str (ps_store s) t))"
  proof cases
    case 4
    then show ?thesis
      by (simp add: baseTypeFor_def isTypeName_def class_at_def has_key_map_of split: option.split)
  next
    case 3
    then show ?thesis
      by (cases u) (auto simp: baseTypeFor_def isTypeName_def has_key_map_of builtin_lookup
          dec_of_nat_small tyInt_def)
  qed (simp_all add: baseTypeFor_def isTypeName_def has_key_map_of builtin_lookup tyVoid_def tyF64_def)
  then show "baseTypeFor s (ty_str (ps_store s) t) = Some t"
    and "isTypeName s (idt l (ty_str (ps_store s) t))" by auto
qed

text \<open>A printed type is read back, and is recognised as a cast between parentheses.\<close>

lemma parseBaseType_toks:
  assumes "wf_ty (ps_classes s) (ps_store s) t" and "r = [] \<or> \<not> tok_is (hd r) PStar"
  shows "parseBaseType (with_toks s (ty_toks (ps_store s) t @ r)) = (t, with_toks s r)"
proof -
  from assms(2) have "star_loop t r = (t, r)" by (cases r) auto
  moreover from ty_base_wf [OF assms(1)] base_name(1) [of s "ty_base t"]
  have "baseTypeFor s (ty_str (ps_store s) (ty_base t)) = Some (ty_base t)" by simp
  ultimately show ?thesis
    by (simp add: parseBaseType_def parseBaseTypeNoStars_def Let_def ty_toks_eq p_stars_def
        star_loop_replicate)
qed

lemma looksLikeCast_type:
  assumes "wf_ty (ps_classes s) (ps_store s) t"
  shows "looksLikeCast (with_toks s (pt l PLParen # ty_toks (ps_store s) t @ pt l' PRParen # r))"
proof -
  have "takeWhile (\<lambda>t. tok_is t PStar) (replicate n (pt no_loc PStar) @ pt l' PRParen # r)
      = replicate n (pt no_loc PStar)" for n
    by (induction n) simp_all
  moreover from ty_base_wf [OF assms] base_name(2) [of s "ty_base t"]
  have "isTypeName s (idt no_loc (ty_str (ps_store s) (ty_base t)))" by simp
  ultimately show ?thesis
    by (simp add: looksLikeCast_def skip_stars_def ty_toks_eq eval_nat_numeral p_is_def p_tok_def nth_append)
qed

end
