(* ===== verification/HC_RoundTrip.thy ===== *)
theory HC_RoundTrip
  imports HC_Levels
begin

text \<open>
  The expression parser inverts the printer of \<open>HC_Unparse\<close>: on the tokens of a well-formed
  expression, followed by anything that does not continue it, it returns exactly that
  expression, source locations included, and stops in front of what follows.
\<close>

subsection \<open>Where expressions start\<close>

definition starts :: "pst \<Rightarrow> token \<Rightarrow> bool" where
  "starts s t \<longleftrightarrow> tk_kind t \<in> {TkIntLit, TkFloatLit, TkStrLit, TkCharLit}
     \<or> (tk_kind t = TkIdent \<and> \<not> isTypeName s t)
     \<or> (tk_kind t = TkPunct \<and> tk_punct t \<in> set (PLParen # PLBrace # unary_ops))"

definition unary_tok :: "token \<Rightarrow> bool" where
  "unary_tok t \<longleftrightarrow> tk_kind t = TkPunct \<and> tk_punct t \<in> set unary_ops"

lemma up_shape:
  "k \<le> 14 \<Longrightarrow> up st k e = (if elevel e < k then pt no_loc PLParen # up st 0 e @ [pt no_loc PRParen] else up st 0 e)"
  by (cases e) (auto simp: paren_def)

lemma bin_level_le: "bin_level p \<le> 11"
  by (auto simp: bin_level_def split: option.splits dest!: find_Some_iff [THEN iffD1])

text \<open>\<open>begins s k ts\<close>: \<open>ts\<close> starts an expression, and no unary operator where \<open>k > 12\<close>.\<close>

definition begins :: "pst \<Rightarrow> nat \<Rightarrow> token list \<Rightarrow> bool" where
  "begins s k ts \<longleftrightarrow> (\<exists>t r. ts = t # r \<and> starts s t \<and> (12 < k \<longrightarrow> \<not> unary_tok t))"

lemma begins_Cons: "begins s k (t # r) \<longleftrightarrow> starts s t \<and> (12 < k \<longrightarrow> \<not> unary_tok t)"
  by (simp add: begins_def)

lemma begins_append: "begins s k ts \<Longrightarrow> begins s k (ts @ r)"
  by (auto simp: begins_def)

lemma begins_13: "begins s 13 ts \<Longrightarrow> begins s k ts"
  by (auto simp: begins_def)

lemma begins_low: "begins s j ts \<Longrightarrow> k \<le> 12 \<Longrightarrow> begins s k ts"
  by (auto simp: begins_def)

lemma begins_tokens:
  "tk_kind t \<in> {TkIntLit, TkFloatLit, TkStrLit, TkCharLit} \<Longrightarrow> begins s k (t # r)"
  "wf_ident (ps_classes s) x \<Longrightarrow> begins s k (idt l x # r)"
  "begins s k (pt l PLParen # r)" "begins s k (pt l PLBrace # r)"
  "p \<in> set unary_ops \<Longrightarrow> k \<le> 12 \<Longrightarrow> begins s k (pt l p # r)"
  by (auto simp: begins_Cons starts_def unary_tok_def wf_ident_def isTypeName_def unary_ops_def)

lemma begins_paren: "(\<not> b \<Longrightarrow> begins s k ts) \<Longrightarrow> begins s k (paren b ts)"
  by (auto simp: paren_def begins_tokens)

lemma up_begins: "wf_expr (ps_classes s) st e \<Longrightarrow> begins s k (up st k e)"
proof (induction st k e rule: up.induct)
  case (11 st k l p pre e)
  then show ?case
    by (cases pre) (auto simp: not_less intro!: begins_paren begins_append begins_tokens(5)
        intro: begins_13)
next
  case (12 st k l p a b)
  then show ?case
    using bin_level_le [of p] by (auto intro!: begins_paren begins_append intro: begins_low)
qed (auto simp: not_less intro!: begins_paren begins_append begins_tokens intro: begins_low begins_13)

subsection \<open>Reading one expression\<close>

text \<open>
  \<open>reads_at s e k\<close>: with enough fuel, level \<open>k\<close> of the parser reads the tokens of \<open>e\<close>.
  \<open>spine_bin\<close> and \<open>spine_post\<close> say the same of an expression that is the left operand of a
  loop: the loop goes on with it as its accumulator.
\<close>

definition reads_at :: "pst \<Rightarrow> expr \<Rightarrow> nat \<Rightarrow> bool" where
  "reads_at s e k \<longleftrightarrow> (\<forall>f n t. ends k t \<longrightarrow> length (up (ps_store s) k e @ t) < n
      \<longrightarrow> length (up (ps_store s) k e @ t) \<le> f
      \<longrightarrow> parse_level (parseAssign f) n k (with_toks s (up (ps_store s) k e @ t)) = Some (e, with_toks s t))"

definition spine_bin :: "pst \<Rightarrow> expr \<Rightarrow> nat \<Rightarrow> bool" where
  "spine_bin s e j \<longleftrightarrow> (\<forall>f n t. ends (Suc j) t \<longrightarrow> length (up (ps_store s) j e @ t) < n
      \<longrightarrow> length (up (ps_store s) j e @ t) \<le> f
      \<longrightarrow> (\<exists>m. length t < m \<and>
             parse_level (parseAssign f) n j (with_toks s (up (ps_store s) j e @ t))
             = bin_loop m (parse_level (parseAssign f) n (Suc j)) (bin_ops j) e (with_toks s t)))"

definition spine_post :: "pst \<Rightarrow> expr \<Rightarrow> bool" where
  "spine_post s e \<longleftrightarrow> (\<forall>f n t. ends 14 t \<longrightarrow> length (up (ps_store s) 13 e @ t) < n
      \<longrightarrow> length (up (ps_store s) 13 e @ t) \<le> f
      \<longrightarrow> (\<exists>m. length t < m \<and> m \<le> n \<and>
             parsePostfix (parseAssign f) n (with_toks s (up (ps_store s) 13 e @ t))
             = postfix_loop (parseAssign f) m e (with_toks s t)))"

lemma reads_atD:
  "reads_at s e k \<Longrightarrow> ends k t \<Longrightarrow> length (up (ps_store s) k e) + length t < n
    \<Longrightarrow> length (up (ps_store s) k e) + length t \<le> f
    \<Longrightarrow> parse_level (parseAssign f) n k (with_toks s (up (ps_store s) k e @ t)) = Some (e, with_toks s t)"
  by (simp add: reads_at_def)

lemma spine_postD:
  assumes "spine_post s e" and "ends 14 t" and "length (up (ps_store s) 13 e) + length t < n"
    and "length (up (ps_store s) 13 e) + length t \<le> f"
  obtains m where "length t < m" "m \<le> n"
    "parsePostfix (parseAssign f) n (with_toks s (up (ps_store s) 13 e @ t))
      = postfix_loop (parseAssign f) m e (with_toks s t)"
  using assms(1) [unfolded spine_post_def, rule_format, OF assms(2), of n f] assms(3,4) by auto

text \<open>The recursive call.\<close>

lemma pe_reads:
  assumes "reads_at s e 0" and "ends 0 t" and "length (up (ps_store s) 0 e) + length t < f"
  shows "parseAssign f (with_toks s (up (ps_store s) 0 e @ t)) = Some (e, with_toks s t)"
proof -
  obtain f' where f: "f = Suc f'" using assms(3) by (cases f) auto
  show ?thesis
    using reads_atD [OF assms(1,2), of f f'] assms(3) by (simp add: f parse_level_def)
qed

text \<open>Nothing that ends level 13 continues a postfix expression.\<close>

lemma postfix_loop_ends:
  assumes "ends 13 t" and "0 < m"
  shows "postfix_loop pe m e (with_toks s t) = Some (e, with_toks s t)"
proof -
  have "\<not> p_at_any (with_toks s t) (level_ops 13)" using ends_not_at [OF assms(1)] by simp
  then have "\<not> p_is (with_toks s t) p 0" if "p \<in> set (level_ops 13)" for p
    using that by (auto simp: p_at_any_def p_is_def tok_is_def)
  then show ?thesis using assms(2)
    by (cases m) (auto simp: level_ops_def looksLikeCast_def Let_def)
qed

lemma spine_post_13: "spine_post s e \<Longrightarrow> reads_at s e 13"
  unfolding reads_at_def
  by (auto simp: parse_level_def postfix_loop_ends elim!: spine_postD intro: ends_mono)

text \<open>From level 13 to all levels where the tokens are the same.\<close>

lemma reads_climb:
  assumes "reads_at s e j" and "k \<le> j" and "j \<le> 13" and "up (ps_store s) k e = up (ps_store s) j e"
    and "j = 13 \<Longrightarrow> begins s 13 (up (ps_store s) 13 e)"
  shows "reads_at s e k"
  unfolding reads_at_def
proof (intro allI impI)
  fix f n t
  let ?ts = "up (ps_store s) k e @ t"
  assume t: "ends k t" "length ?ts < n" "length ?ts \<le> f"
  show "parse_level (parseAssign f) n k (with_toks s ?ts) = Some (e, with_toks s t)"
  proof (rule climb [OF _ assms(2,3)])
    show "parse_level (parseAssign f) n j (with_toks s ?ts) = Some (e, with_toks s t)"
      using reads_atD [OF assms(1) ends_mono [OF t(1) assms(2)]] t(2,3) assms(4) by simp
    show "ends k t" "0 < n" using t by auto
    show "\<not> p_at_any (with_toks s ?ts) unary_ops" if "j = 13"
      using assms(4) assms(5) [OF that] that
      by (auto simp: begins_def unary_tok_def)
  qed
qed

subsection \<open>Primary expressions\<close>

text \<open>\<open>reads_primary s e\<close>: \<open>parsePrimary\<close> reads the tokens of \<open>e\<close> at level 13.\<close>

definition reads_primary :: "pst \<Rightarrow> expr \<Rightarrow> bool" where
  "reads_primary s e \<longleftrightarrow> (\<forall>f n t. ends 14 t \<longrightarrow> length (up (ps_store s) 13 e @ t) < n
      \<longrightarrow> length (up (ps_store s) 13 e @ t) \<le> f
      \<longrightarrow> parsePrimary (parseAssign f) n (with_toks s (up (ps_store s) 13 e @ t)) = Some (e, with_toks s t))"

lemma reads_primary_post: "reads_primary s e \<Longrightarrow> spine_post s e"
  unfolding reads_primary_def spine_post_def parsePostfix_def
  by (intro allI impI, rule_tac x = n in exI) simp

text \<open>An expression of a loose level is read inside parentheses.\<close>

lemma reads_paren:
  assumes "reads_at s e 0" and "elevel e < 13"
  shows "reads_primary s e"
  unfolding reads_primary_def
proof (intro allI impI)
  fix f n t
  let ?b = "up (ps_store s) 0 e" and ?r = "pt no_loc PRParen # t"
  assume t: "length (up (ps_store s) 13 e @ t) \<le> f"
  have shape: "up (ps_store s) 13 e @ t = pt no_loc PLParen # ?b @ ?r"
    using assms(2) up_shape [of 13 "ps_store s" e] by simp
  have "parseAssign f (with_toks s (?b @ ?r)) = Some (e, with_toks s ?r)"
    by (rule pe_reads [OF assms(1)]) (use t shape in \<open>auto intro!: ends_close\<close>)
  then show "parsePrimary (parseAssign f) n (with_toks s (up (ps_store s) 13 e @ t)) = Some (e, with_toks s t)"
    unfolding shape by (simp add: parsePrimary_def)
qed

text \<open>All readings of an expression.\<close>

definition readable :: "pst \<Rightarrow> expr \<Rightarrow> bool" where
  "readable s e \<longleftrightarrow> (\<forall>k \<le> 13. reads_at s e k) \<and> spine_post s e
     \<and> (\<forall>j. bin_ops j \<noteq> [] \<longrightarrow> spine_bin s e j)"

text \<open>At a level that is not its own, the expression is the whole left operand.\<close>

lemma spine_bin_other:
  assumes "reads_at s e (Suc j)" and "j \<noteq> elevel e" and "bin_ops j \<noteq> []"
  shows "spine_bin s e j"
  unfolding spine_bin_def
proof (intro allI impI exI conjI)
  fix f n t
  assume t: "ends (Suc j) t" "length (up (ps_store s) j e @ t) < n" "length (up (ps_store s) j e @ t) \<le> f"
  have "j \<le> 11" using assms(3) by (auto simp: bin_ops_ne)
  then have same: "up (ps_store s) j e = up (ps_store s) (Suc j) e"
    using assms(2) up_shape [of j "ps_store s" e] up_shape [of "Suc j" "ps_store s" e] by auto
  show "length t < n" using t by simp
  show "parse_level (parseAssign f) n j (with_toks s (up (ps_store s) j e @ t))
      = bin_loop n (parse_level (parseAssign f) n (Suc j)) (bin_ops j) e (with_toks s t)"
    using reads_atD [OF assms(1) t(1), of n f] t(2,3) same assms(3)
    by (simp add: parse_level_bin binaryLoop_def)
qed

lemma readable_tight:
  assumes "spine_post s e" and "13 \<le> elevel e" and "wf_expr (ps_classes s) (ps_store s) e"
  shows "readable s e"
proof -
  have reads: "reads_at s e k" if "k \<le> 13" for k
    using reads_climb [OF spine_post_13 [OF assms(1)] that] that assms(2) up_begins [OF assms(3), of 13]
      up_shape [of k "ps_store s" e] up_shape [of 13 "ps_store s" e] by simp
  have "spine_bin s e j" if "bin_ops j \<noteq> []" for j
    using that assms(2) by (intro spine_bin_other reads) (auto simp: bin_ops_ne)
  with reads assms(1) show ?thesis by (simp add: readable_def)
qed

lemma readable_loose:
  assumes own: "reads_at s e (elevel e)" and "elevel e \<le> 12"
    and spine: "bin_ops (elevel e) \<noteq> [] \<Longrightarrow> spine_bin s e (elevel e)"
  shows "readable s e"
proof -
  have low: "reads_at s e k" if "k \<le> elevel e" for k
    using reads_climb [OF own that] assms(2) that
      up_shape [of k "ps_store s" e] up_shape [of "elevel e" "ps_store s" e] by simp
  have prim: "reads_primary s e" using assms(2) by (intro reads_paren low) simp_all
  have b: "begins s 13 (up (ps_store s) 13 e)"
    using assms(2) up_shape [of 13 "ps_store s" e] by (simp add: begins_tokens)
  have high: "reads_at s e k" if "elevel e < k" "k \<le> 13" for k
    using reads_climb [OF spine_post_13 [OF reads_primary_post [OF prim]] that(2)] that b
      up_shape [of k "ps_store s" e] up_shape [of 13 "ps_store s" e] by simp
  have reads: "reads_at s e k" if "k \<le> 13" for k
    using low high that by (cases "k \<le> elevel e") auto
  have "spine_bin s e j" if "bin_ops j \<noteq> []" for j
  proof (cases "j = elevel e")
    case False
    with that show ?thesis by (intro spine_bin_other reads) (auto simp: bin_ops_ne)
  qed (use that spine in simp)
  with reads reads_primary_post [OF prim] show ?thesis by (simp add: readable_def)
qed

subsection \<open>Lists of expressions\<close>

abbreviation arg_toks :: "store \<Rightarrow> expr option \<Rightarrow> token list" where
  "arg_toks st \<equiv> \<lambda>a. case a of None \<Rightarrow> [] | Some e \<Rightarrow> up st 0 e"

text \<open>The first token of an expression closes nothing and separates nothing.\<close>

lemma begins_not_sep:
  "begins s k ts \<Longrightarrow> p \<in> {PComma, PRParen, PRBrace, PSemi, PColon} \<Longrightarrow> \<not> p_is (with_toks s (ts @ r)) p 0"
  by (auto simp: begins_def starts_def tok_is_def unary_ops_def)

lemma begins_not_type: "begins s k ts \<Longrightarrow> \<not> isTypeName s (p_tok (with_toks s (ts @ r)) 0)"
  by (auto simp: begins_def starts_def isTypeName_def)

definition good_arg :: "pst \<Rightarrow> expr option \<Rightarrow> bool" where
  "good_arg s a \<longleftrightarrow> (\<forall>e. a = Some e \<longrightarrow> reads_at s e 0 \<and> begins s 0 (up (ps_store s) 0 e))"

lemma arg_reads:
  assumes "good_arg s a" and "p \<in> {PComma, PRParen}"
    and "length (arg_toks (ps_store s) a) + Suc (length t) < f"
  shows "opt_arg (parseAssign f) (with_toks s (arg_toks (ps_store s) a @ pt l p # t))
     = Some (a, with_toks s (pt l p # t))"
proof (cases a)
  case None
  with assms(2) show ?thesis by (auto simp: opt_arg_def)
next
  case (Some e)
  then have e: "reads_at s e 0" "begins s 0 (up (ps_store s) 0 e)" using assms(1) by (auto simp: good_arg_def)
  have "ends 0 (pt l p # t)" using assms(2) by (auto intro: ends_close)
  from pe_reads [OF e(1) this, of f] assms(3) Some
  show ?thesis using begins_not_sep [OF e(2)] by (simp add: opt_arg_def)
qed

lemma arg_loop_reads:
  assumes "as \<noteq> []" and "list_all (good_arg s) as"
    and "length (comma_join (map (arg_toks (ps_store s)) as)) + Suc (length t) < f"
    and "length (comma_join (map (arg_toks (ps_store s)) as)) + Suc (length t) < m"
  shows "arg_loop (parseAssign f) m
     (with_toks s (comma_join (map (arg_toks (ps_store s)) as) @ pt no_loc PRParen # t)) = Some (as, with_toks s t)"
  using assms
proof (induction as arbitrary: m)
  case (Cons a as)
  obtain m' where m: "m = Suc m'" using Cons.prems(4) by (cases m) auto
  show ?case
  proof (cases as)
    case Nil
    with Cons.prems arg_reads [of s a PRParen t f no_loc] show ?thesis
      by (simp add: m)
  next
    case (Cons b bs)
    define r where "r = comma_join (map (arg_toks (ps_store s)) as) @ pt no_loc PRParen # t"
    have IH: "arg_loop (parseAssign f) m' (with_toks s r) = Some (as, with_toks s t)"
      unfolding r_def using Cons.prems Cons by (intro Cons.IH) (auto simp: m)
    have toks: "comma_join (map (arg_toks (ps_store s)) (a # as)) @ pt no_loc PRParen # t
        = arg_toks (ps_store s) a @ pt no_loc PComma # r"
      using Cons by (simp add: r_def)
    have "length (arg_toks (ps_store s) a) + Suc (length r) < f"
      using Cons.prems(3) Cons by (simp add: r_def)
    with Cons.prems(2) have "opt_arg (parseAssign f) (with_toks s (arg_toks (ps_store s) a @ pt no_loc PComma # r))
        = Some (a, with_toks s (pt no_loc PComma # r))"
      by (intro arg_reads) simp_all
    then show ?thesis
      unfolding toks m by (simp only: arg_loop.simps) (simp add: IH)
  qed
qed simp

lemma init_loop_reads:
  assumes "es \<noteq> []" and "list_all (\<lambda>e. reads_at s e 0 \<and> begins s 0 (up (ps_store s) 0 e)) es"
    and "length (comma_join (map (up (ps_store s) 0) es)) + Suc (length t) < f"
    and "length (comma_join (map (up (ps_store s) 0) es)) + Suc (length t) < m"
  shows "init_loop (parseAssign f) m (with_toks s (comma_join (map (up (ps_store s) 0) es) @ pt no_loc PRBrace # t))
     = Some (es, with_toks s (pt no_loc PRBrace # t))"
  using assms
proof (induction es arbitrary: m)
  case (Cons e es)
  obtain m' where m: "m = Suc m'" using Cons.prems(4) by (cases m) auto
  show ?case
  proof (cases es)
    case Nil
    with Cons.prems pe_reads [of s e "pt no_loc PRBrace # t" f] show ?thesis
      by (simp add: m ends_close)
  next
    case es: (Cons b bs)
    define r where "r = comma_join (map (up (ps_store s) 0) es) @ pt no_loc PRBrace # t"
    have IH: "init_loop (parseAssign f) m' (with_toks s r) = Some (es, with_toks s (pt no_loc PRBrace # t))"
      unfolding r_def using Cons.prems es by (intro Cons.IH) (auto simp: m)
    have toks: "comma_join (map (up (ps_store s) 0) (e # es)) @ pt no_loc PRBrace # t
        = up (ps_store s) 0 e @ pt no_loc PComma # r"
      using es by (simp add: r_def)
    have "length (up (ps_store s) 0 e) + Suc (length r) < f"
      using Cons.prems(3) es by (simp add: r_def)
    with Cons.prems(2) have e: "parseAssign f (with_toks s (up (ps_store s) 0 e @ pt no_loc PComma # r))
        = Some (e, with_toks s (pt no_loc PComma # r))"
      by (intro pe_reads) (simp_all add: ends_close)
    have "begins s 0 (up (ps_store s) 0 b)" using Cons.prems(2) es by simp
    then have "\<not> p_is (with_toks s r) PRBrace 0"
      unfolding r_def es by (cases bs) (simp_all add: begins_not_sep)
    with e IH show ?thesis unfolding toks m by simp
  qed
qed simp

text \<open>The chain of comparisons.\<close>

lemma chain_loop_reads:
  assumes "list_all (\<lambda>(p, e). p \<in> set rel_ops \<and> reads_at s e 6) ks" and "ends 5 t"
    and "length (concat (map (\<lambda>(p, e). pt l p # up (ps_store s) 6 e) ks)) + length t < m"
    and "length (concat (map (\<lambda>(p, e). pt l p # up (ps_store s) 6 e) ks)) + length t \<le> f"
    and "length (concat (map (\<lambda>(p, e). pt l p # up (ps_store s) 6 e) ks)) + length t < n"
  shows "chain_loop m (parse_level (parseAssign f) n 6)
      (with_toks s (concat (map (\<lambda>(p, e). pt l p # up (ps_store s) 6 e) ks) @ t)) = Some (ks, with_toks s t)"
  using assms
proof (induction ks arbitrary: m)
  case Nil
  then obtain m' where "m = Suc m'" by (cases m) auto
  with Nil ends_not_at [of 5 t 5 s] show ?case by (simp add: level_ops_def)
next
  case (Cons k ks)
  obtain m' where m: "m = Suc m'" using Cons.prems(3) by (cases m) auto
  obtain p e where k: "k = (p, e)" by (cases k)
  define r where "r = concat (map (\<lambda>(p, e). pt l p # up (ps_store s) 6 e) ks) @ t"
  have IH: "chain_loop m' (parse_level (parseAssign f) n 6) (with_toks s r) = Some (ks, with_toks s t)"
    unfolding r_def using Cons.prems k by (intro Cons.IH) (auto simp: m)
  have "ends 6 r"
  proof (cases ks)
    case Nil
    with Cons.prems(2) show ?thesis by (auto simp: r_def intro: ends_mono)
  next
    case (Cons k2 ks2)
    with \<open>list_all _ (k # ks)\<close> show ?thesis
      by (cases k2) (auto simp: r_def level_ops_def intro!: ends_op [of _ 5])
  qed
  then have "parse_level (parseAssign f) n 6 (with_toks s (up (ps_store s) 6 e @ r)) = Some (e, with_toks s r)"
    using Cons.prems k by (intro reads_atD) (auto simp: r_def)
  with IH Cons.prems(1) show ?case by (simp add: m k r_def [symmetric])
qed

subsection \<open>The expressions one by one\<close>

text \<open>Primary expressions.\<close>

lemma str_run_ends: "ends 14 t \<Longrightarrow> str_run t = ([], t)"
  by (cases t) (simp_all add: ends_def)

lemma reads_leaf:
  "reads_primary s (EIntLit l v)" "reads_primary s (EFloatLit l d)" "reads_primary s (EStrLit l x)"
  "reads_primary s (ECharLit l v n)"
  "x \<notin> set expr_words \<Longrightarrow> reads_primary s (EIdent l x)" "reads_primary s (ELastClass l)"
  by (auto simp: reads_primary_def parsePrimary_def Let_def token0_def parseStrRun_def str_run_ends expr_words_def)

lemma reads_sizeof_type:
  assumes "wf_ty (ps_classes s) (ps_store s) t"
  shows "reads_primary s (ESizeofType l t)"
proof -
  let ?name = "ty_str (ps_store s) (ty_base t)"
  have ty: "isTypeName s (idt no_loc ?name)"
    using ty_base_wf [OF assms] base_name(2) [of s "ty_base t"] by simp
  have base: "parseBaseType (with_toks s (ty_toks (ps_store s) t @ pt no_loc PRParen # r))
      = (t, with_toks s (pt no_loc PRParen # r))" for r
    by (rule parseBaseType_toks [OF assms]) simp
  have dot: "\<not> p_is (with_toks s (ty_toks (ps_store s) t @ pt no_loc PRParen # r)) PDot (Suc 0)" for r
    by (cases "ty_depth t") (simp_all add: ty_toks_eq)
  have tok: "p_tok (with_toks s (ty_toks (ps_store s) t @ pt no_loc PRParen # r)) 0 = idt no_loc ?name" for r
    by (simp add: ty_toks_eq)
  show ?thesis
    by (simp add: reads_primary_def parsePrimary_def parseSizeof_def Let_def base dot tok ty)
qed

lemma reads_sizeof_expr:
  assumes "reads_at s e 0" and "begins s 0 (up (ps_store s) 0 e)"
    and "\<not> has_key (ps_classes s) (tk_text (hd (up (ps_store s) 0 e)))"
  shows "reads_primary s (ESizeofExpr l e)"
proof -
  have tok: "p_tok (with_toks s (up (ps_store s) 0 e @ r)) 0 = hd (up (ps_store s) 0 e)" for r
    using assms(2) by (auto simp: begins_def)
  have ty: "\<not> isTypeName s (hd (up (ps_store s) 0 e))"
    using begins_not_type [OF assms(2)] by (simp add: tok)
  show ?thesis
    using pe_reads [OF assms(1) ends_close [of PRParen]] assms(3)
    by (simp add: reads_primary_def parsePrimary_def parseSizeof_def Let_def tok ty)
qed

lemma reads_offset: "reads_primary s (EOffsetOf l c (map_of (ps_classes s) c) m)"
  by (simp add: reads_primary_def parsePrimary_def parseOffset_def Let_def)

lemma reads_init:
  assumes "list_all (\<lambda>e. reads_at s e 0 \<and> begins s 0 (up (ps_store s) 0 e)) es"
  shows "reads_primary s (EInitList l es)"
proof (cases es)
  case Nil
  then show ?thesis by (simp add: reads_primary_def parsePrimary_def parseInitList_def Let_def)
next
  case (Cons e r)
  then have "begins s 0 (comma_join (map (up (ps_store s) 0) es) @ x)" for x
    using assms by (cases r) (auto intro!: begins_append)
  then have "\<not> p_is (with_toks s (comma_join (map (up (ps_store s) 0) es) @ x)) PRBrace 0" for x
    using begins_not_sep [of s 0 "comma_join (map (up (ps_store s) 0) es) @ x" PRBrace "[]"] by simp
  then show ?thesis
    using init_loop_reads [OF _ assms] Cons
    by (simp add: reads_primary_def parsePrimary_def parseInitList_def Let_def)
qed

text \<open>Postfix expressions: one more turn of the loop.\<close>

lemma spine_post_step:
  assumes "spine_post s a" and "up (ps_store s) 13 e = up (ps_store s) 13 a @ ts"
    and "ends 14 ts" and "ts \<noteq> []"
    and "\<And>f m t. ends 14 t \<Longrightarrow> length (ts @ t) \<le> f \<Longrightarrow> length (ts @ t) \<le> m
           \<Longrightarrow> postfix_loop (parseAssign f) (Suc m) a (with_toks s (ts @ t))
             = postfix_loop (parseAssign f) m e (with_toks s t)"
  shows "spine_post s e"
  unfolding spine_post_def
proof (intro allI impI)
  fix f n t
  assume t: "ends 14 t" "length (up (ps_store s) 13 e @ t) < n" "length (up (ps_store s) 13 e @ t) \<le> f"
  have "ends 14 (ts @ t)" using assms(3,4) by (cases ts) (auto simp: ends_def)
  then obtain m where m: "length (ts @ t) < m" "m \<le> n"
    "parsePostfix (parseAssign f) n (with_toks s (up (ps_store s) 13 a @ ts @ t))
      = postfix_loop (parseAssign f) m a (with_toks s (ts @ t))"
    using spine_postD [OF assms(1), of "ts @ t" n f] t assms(2) by auto
  then obtain m' where m': "m = Suc m'" by (cases m) auto
  have "postfix_loop (parseAssign f) (Suc m') a (with_toks s (ts @ t))
      = postfix_loop (parseAssign f) m' e (with_toks s t)"
    using m m' t assms(2) by (intro assms(5)) auto
  with m m' assms(2,4) show "\<exists>m. length t < m \<and> m \<le> n \<and>
     parsePostfix (parseAssign f) n (with_toks s (up (ps_store s) 13 e @ t))
     = postfix_loop (parseAssign f) m e (with_toks s t)"
    by (intro exI [of _ m']) (cases ts, auto)
qed

lemma not_cast: "\<not> p_is s PLParen 0 \<Longrightarrow> \<not> looksLikeCast s"
  by (simp add: looksLikeCast_def)

lemma post_unary:
  "spine_post s a \<Longrightarrow> p \<in> {PPlusPlus, PMinusMinus} \<Longrightarrow> spine_post s (EUnary l p False a)"
  by (rule spine_post_step [of s a _ "[pt l p]"])
    (auto simp: paren_def ends_def level_ops_def bin_ops_def not_cast Let_def)

lemma post_member: "spine_post s a \<Longrightarrow> spine_post s (EMember l arrow a x)"
  by (rule spine_post_step [of s a _ "[pt l (if arrow then PArrow else PDot), idt no_loc x]"])
    (auto simp: paren_def ends_def level_ops_def bin_ops_def not_cast Let_def)

lemma ends_14: "ts \<noteq> [] \<Longrightarrow> tk_kind (hd ts) \<noteq> TkStrLit \<Longrightarrow> ends 14 ts"
  by (cases ts) (auto simp: ends_def level_ops_def bin_ops_def split: if_splits)

lemma post_index:
  assumes "spine_post s a" and "reads_at s i 0"
  shows "spine_post s (EIndex l a i)"
proof (rule spine_post_step [OF assms(1), of _ "pt l PLBracket # up (ps_store s) 0 i @ [pt no_loc PRBracket]"])
  fix f m t
  let ?r = "up (ps_store s) 0 i @ pt no_loc PRBracket # t"
  assume "length ((pt l PLBracket # up (ps_store s) 0 i @ [pt no_loc PRBracket]) @ t) \<le> f"
  then have "parseAssign f (with_toks s ?r) = Some (i, with_toks s (pt no_loc PRBracket # t))"
    by (intro pe_reads [OF assms(2)]) (simp_all add: ends_close)
  then show "postfix_loop (parseAssign f) (Suc m) a
        (with_toks s ((pt l PLBracket # up (ps_store s) 0 i @ [pt no_loc PRBracket]) @ t))
      = postfix_loop (parseAssign f) m (EIndex l a i) (with_toks s t)"
    by (simp add: not_cast Let_def)
qed (simp_all add: paren_def ends_14)

lemma post_cast:
  assumes "spine_post s a" and "wf_ty (ps_classes s) (ps_store s) t"
  shows "spine_post s (ECast l t a)"
  by (rule spine_post_step [OF assms(1), of _ "pt l PLParen # ty_toks (ps_store s) t @ [pt no_loc PRParen]"])
    (simp_all add: paren_def ends_14 looksLikeCast_type [OF assms(2)] parseBaseType_toks [OF assms(2)] Let_def)

lemma post_call:
  assumes "spine_post s a" and "as \<noteq> [None]" and "list_all (good_arg s) as"
  shows "spine_post s (ECall l a as)"
proof (rule spine_post_step [OF assms(1), of _
      "pt l PLParen # comma_join (map (arg_toks (ps_store s)) as) @ [pt no_loc PRParen]"])
  fix f m t
  let ?as = "comma_join (map (arg_toks (ps_store s)) as)"
  let ?r = "?as @ pt no_loc PRParen # t"
  assume len: "length ((pt l PLParen # ?as @ [pt no_loc PRParen]) @ t) \<le> f"
    "length ((pt l PLParen # ?as @ [pt no_loc PRParen]) @ t) \<le> m"
  have first: "\<not> isTypeName s (p_tok (with_toks s ?r) 0) \<and> (as \<noteq> [] \<longrightarrow> \<not> p_is (with_toks s ?r) PRParen 0)"
  proof (cases as)
    case (Cons b bs)
    show ?thesis
    proof (cases b)
      case None
      then obtain c cs where "bs = c # cs" using Cons assms(2) by (cases bs) auto
      with None Cons show ?thesis by simp
    next
      case (Some e)
      then have e: "begins s 0 (up (ps_store s) 0 e)"
        using Cons assms(3) by (auto simp: good_arg_def)
      obtain q where "?r = up (ps_store s) 0 e @ q" using Cons Some by (cases bs) auto
      then show ?thesis using begins_not_sep [OF e] begins_not_type [OF e] by simp
    qed
  qed simp
  then have "parseCallArgs (parseAssign f) m (with_toks s ?r) = Some (as, with_toks s t)"
    using arg_loop_reads [OF _ assms(3), of t f m] len
    by (cases "as = []") (auto simp: parseCallArgs_def)
  with first show "postfix_loop (parseAssign f) (Suc m) a (with_toks s ((pt l PLParen # ?as @ [pt no_loc PRParen]) @ t))
      = postfix_loop (parseAssign f) m (ECall l a as) (with_toks s t)"
    by (simp add: looksLikeCast_def Let_def)
qed (simp_all add: paren_def ends_14)

text \<open>The looser levels.\<close>

lemma reads_unary:
  assumes "reads_at s a 12" and "p \<in> set unary_ops"
  shows "reads_at s (EUnary l p True a) 12"
  unfolding reads_at_def
proof (intro allI impI)
  fix f n t
  assume t: "ends 12 t" "length (up (ps_store s) 12 (EUnary l p True a) @ t) < n"
    "length (up (ps_store s) 12 (EUnary l p True a) @ t) \<le> f"
  then obtain m where m: "n = Suc m" by (cases n) auto
  have "parse_level (parseAssign f) m 12 (with_toks s (up (ps_store s) 12 a @ t)) = Some (a, with_toks s t)"
    using t m by (intro reads_atD [OF assms(1)]) (auto simp: paren_def)
  then show "parse_level (parseAssign f) n 12 (with_toks s (up (ps_store s) 12 (EUnary l p True a) @ t))
      = Some (EUnary l p True a, with_toks s t)"
    using assms(2) by (simp add: parse_level_def m paren_def)
qed

lemma reads_chain:
  assumes "reads_at s a 6" and "ks \<noteq> []"
    and "list_all (\<lambda>(p, e). p \<in> set rel_ops \<and> reads_at s e 6) ks"
  shows "reads_at s (EChainCmp l a ks) 5"
  unfolding reads_at_def
proof (intro allI impI)
  fix f n t
  let ?c = "concat (map (\<lambda>(p, e). pt l p # up (ps_store s) 6 e) ks)"
  assume t: "ends 5 t" "length (up (ps_store s) 5 (EChainCmp l a ks) @ t) < n"
    "length (up (ps_store s) 5 (EChainCmp l a ks) @ t) \<le> f"
  obtain p e ks' where ks: "ks = (p, e) # ks'" using assms(2) by (cases ks) auto
  then have p: "p \<in> set rel_ops" using assms(3) by simp
  have "ends 6 (?c @ t)" using p by (auto simp: ks level_ops_def intro!: ends_op [of _ 5])
  then have "parse_level (parseAssign f) n 6 (with_toks s (up (ps_store s) 6 a @ ?c @ t)) = Some (a, with_toks s (?c @ t))"
    using t by (intro reads_atD [OF assms(1)]) (auto simp: paren_def)
  moreover have "chain_loop n (parse_level (parseAssign f) n 6) (with_toks s (?c @ t)) = Some (ks, with_toks s t)"
    using t by (intro chain_loop_reads [OF assms(3)]) (auto simp: paren_def)
  moreover have "p_at_any (with_toks s (?c @ t)) rel_ops" "tk_loc (p_tok (with_toks s (?c @ t)) 0) = l"
    using p by (simp_all add: ks)
  ultimately show "parse_level (parseAssign f) n 5 (with_toks s (up (ps_store s) 5 (EChainCmp l a ks) @ t))
      = Some (EChainCmp l a ks, with_toks s t)"
    by (simp add: parse_level_def parseRel_def paren_def)
qed

lemma reads_assign:
  assumes "reads_at s a 1" and "reads_at s b 0" and "p \<in> set assign_ops"
  shows "reads_at s (EAssign l p a b) 0"
  unfolding reads_at_def
proof (intro allI impI)
  fix f n t
  let ?r = "pt l p # up (ps_store s) 0 b @ t"
  assume t: "ends 0 t" "length (up (ps_store s) 0 (EAssign l p a b) @ t) < n"
    "length (up (ps_store s) 0 (EAssign l p a b) @ t) \<le> f"
  have "ends 1 ?r" using assms(3) by (intro ends_op [of _ 0]) (auto simp: level_ops_def)
  then have "parse_level (parseAssign f) n 1 (with_toks s (up (ps_store s) 1 a @ ?r)) = Some (a, with_toks s ?r)"
    using t by (intro reads_atD [OF assms(1)]) (auto simp: paren_def)
  moreover have "parseAssign f (with_toks s (up (ps_store s) 0 b @ t)) = Some (b, with_toks s t)"
    using t by (intro pe_reads [OF assms(2)]) (auto simp: paren_def)
  ultimately show "parse_level (parseAssign f) n 0 (with_toks s (up (ps_store s) 0 (EAssign l p a b) @ t))
      = Some (EAssign l p a b, with_toks s t)"
    using assms(3) by (simp add: parse_level_def assign_step_def paren_def Let_def)
qed

text \<open>Binary operators: the left operand is the accumulator of the same loop.\<close>

lemma spine_binary:
  assumes "spine_bin s a j" and "reads_at s b (Suc j)" and p: "p \<in> set (bin_ops j)" and j: "j = bin_level p"
  shows "spine_bin s (EBinary l p a b) j"
  unfolding spine_bin_def
proof (intro allI impI)
  fix f n t
  let ?r = "up (ps_store s) (Suc j) b @ t" and ?sub = "parse_level (parseAssign f) n (Suc j)"
  assume t: "ends (Suc j) t" "length (up (ps_store s) j (EBinary l p a b) @ t) < n"
    "length (up (ps_store s) j (EBinary l p a b) @ t) \<le> f"
  have toks: "up (ps_store s) j (EBinary l p a b) @ t = up (ps_store s) j a @ pt l p # ?r"
    by (simp add: paren_def j)
  have "p \<in> set (level_ops j)" using p level_ops_bin [of j] by (cases "bin_ops j") auto
  then have "ends (Suc j) (pt l p # ?r)" by (rule ends_op) simp
  then obtain m where m: "length (pt l p # ?r) < m"
    "parse_level (parseAssign f) n j (with_toks s (up (ps_store s) j a @ pt l p # ?r))
       = bin_loop m ?sub (bin_ops j) a (with_toks s (pt l p # ?r))"
    using assms(1) t unfolding spine_bin_def toks by blast
  obtain m' where m': "m = Suc m'" using m(1) by (cases m) auto
  have "?sub (with_toks s ?r) = Some (b, with_toks s t)"
    using t toks by (intro reads_atD [OF assms(2)]) auto
  with m m' p show "\<exists>m. length t < m \<and>
      parse_level (parseAssign f) n j (with_toks s (up (ps_store s) j (EBinary l p a b) @ t))
      = bin_loop m ?sub (bin_ops j) (EBinary l p a b) (with_toks s t)"
    unfolding toks by (intro exI [of _ m']) auto
qed

lemma spine_bin_reads:
  assumes "spine_bin s e j" and "bin_ops j \<noteq> []"
  shows "reads_at s e j"
  unfolding reads_at_def
proof (intro allI impI)
  fix f n t
  assume t: "ends j t" "length (up (ps_store s) j e @ t) < n" "length (up (ps_store s) j e @ t) \<le> f"
  then obtain m where m: "length t < m"
    "parse_level (parseAssign f) n j (with_toks s (up (ps_store s) j e @ t))
       = bin_loop m (parse_level (parseAssign f) n (Suc j)) (bin_ops j) e (with_toks s t)"
    using assms(1) [unfolded spine_bin_def, rule_format, of t n f] ends_mono [OF t(1), of "Suc j"] t(2,3) by auto
  then obtain m' where "m = Suc m'" by (cases m) auto
  with m ends_not_at [OF t(1), of j s] level_ops_bin [OF assms(2)]
  show "parse_level (parseAssign f) n j (with_toks s (up (ps_store s) j e @ t)) = Some (e, with_toks s t)"
    by simp
qed

lemma readable_binary:
  assumes "readable s a" and "readable s b" and p: "p \<in> set (bin_ops (bin_level p))"
  shows "readable s (EBinary l p a b)"
proof -
  have ne: "bin_ops (bin_level p) \<noteq> []" using p by auto
  have "spine_bin s (EBinary l p a b) (bin_level p)"
    using assms ne bin_level_le [of p] by (intro spine_binary) (auto simp: readable_def)
  then show ?thesis
    using ne bin_level_le [of p] by (intro readable_loose) (auto intro: spine_bin_reads)
qed

lemma readableD:
  "readable s e \<Longrightarrow> k \<le> 13 \<Longrightarrow> reads_at s e k" "readable s e \<Longrightarrow> spine_post s e"
  by (auto simp: readable_def)

subsection \<open>All expressions\<close>

lemma wf_readable:
  fixes k :: nat
  shows "wf_expr (ps_classes s) (ps_store s) e \<Longrightarrow> readable s e"
proof (induction "ps_store s" k e rule: up.induct)
  case (7 k l t)
  then show ?case by (intro readable_tight reads_primary_post reads_sizeof_type) auto
next
  case (8 k l e)
  then show ?case
    by (intro readable_tight reads_primary_post reads_sizeof_expr) (auto intro: readableD up_begins)
next
  case (9 k l c ref m)
  then show ?case
    using reads_primary_post [OF reads_offset] by (intro readable_tight) auto
next
  case (10 k l es)
  then show ?case
    by (intro readable_tight reads_primary_post reads_init)
      (auto simp: list_all_iff intro: readableD up_begins)
next
  case (11 k l p pre e)
  show ?case
  proof (cases pre)
    case True
    with 11 have "reads_at s (EUnary l p True e) 12" by (intro reads_unary) (auto intro: readableD)
    with True show ?thesis by (intro readable_loose) (auto simp: bin_ops_ne)
  next
    case False
    with 11 show ?thesis by (auto intro!: readable_tight post_unary intro: readableD)
  qed
next
  case (12 k l p a b)
  then show ?case by (intro readable_binary) auto
next
  case (13 k l a ks)
  then have "reads_at s (EChainCmp l a ks) 5"
    by (intro reads_chain) (fastforce simp: list_all_iff intro: readableD)+
  then show ?case by (intro readable_loose) (auto simp: bin_ops_ne)
next
  case (14 k l p a b)
  then have "reads_at s (EAssign l p a b) 0" by (intro reads_assign) (auto intro: readableD)
  then show ?case by (intro readable_loose) (auto simp: bin_ops_ne)
next
  case (15 k l f as)
  then have "list_all (good_arg s) as"
    by (fastforce simp: list_all_iff good_arg_def intro: readableD up_begins)
  with 15 show ?case by (intro readable_tight post_call) (auto intro: readableD)
next
  case (16 k l a i)
  then show ?case by (intro readable_tight post_index) (auto intro: readableD)
next
  case (17 k l arrow a m)
  then show ?case by (intro readable_tight post_member) (auto intro: readableD)
next
  case (18 k l t e)
  then show ?case by (intro readable_tight post_cast) (auto intro: readableD)
qed (auto intro!: readable_tight reads_primary_post reads_leaf)

lemma parse_up:
  assumes "wf_expr (ps_classes s) (ps_store s) e" and "ends 0 t"
    and "ps_toks s = up (ps_store s) 0 e @ t" and "length (ps_toks s) < n"
  shows "parseExpr n s = Some (e, s\<lparr>ps_toks := t\<rparr>)"
proof -
  have "with_toks s (up (ps_store s) 0 e @ t) = s" using assms(3) [symmetric] by simp
  with pe_reads [OF readableD(1) [OF wf_readable [OF assms(1)]] assms(2), of n] assms(3,4)
  show ?thesis by simp
qed

end
