(* ===== verification/HC_Dump.thy ===== *)
theory HC_Dump
  imports HC_ParserTop
begin

text \<open>
  The s-expression dump of a program (\<open>struct Dumper\<close>, \<open>dumpProgram\<close>), the output format of
  \<open>--dump-ast\<close>.
\<close>

definition dump_line :: "nat \<Rightarrow> string \<Rightarrow> string" where
  "dump_line d t = replicate (2 * d) CHR 0x20 @ t @ [CHR 0x0A]"

text \<open>An expression with its children: \<open>head\<close>, the children one level deeper, and \<open>)\<close>.\<close>

definition dump_node :: "nat \<Rightarrow> string \<Rightarrow> string \<Rightarrow> string" where
  "dump_node d hdr kids = dump_line d (CHR 0x28 # hdr) @ kids @ dump_line d '')''"

definition dump_leaf :: "nat \<Rightarrow> string \<Rightarrow> string" where
  "dump_leaf d t = dump_line d (CHR 0x28 # t @ '')'')"

fun dump_expr :: "store \<Rightarrow> nat \<Rightarrow> expr \<Rightarrow> string" where
  "dump_expr st d (EIntLit _ v) = dump_leaf d (''int '' @ to_string_i64 v)"
| "dump_expr st d (EFloatLit _ f) = dump_leaf d (''float '' @ to_string_f64 f)"
| "dump_expr st d (EStrLit _ x) = dump_leaf d (''str '' @ [CHR 0x22] @ x @ [CHR 0x22])"
| "dump_expr st d (ECharLit _ v _) = dump_leaf d (''char '' @ to_string_i64 v)"
| "dump_expr st d (EIdent _ x) = dump_leaf d (''ident '' @ x)"
| "dump_expr st d (ELastClass _) = dump_leaf d ''lastclass''"
| "dump_expr st d (ESizeofType _ t) = dump_leaf d (''sizeof-type '' @ ty_str st t)"
| "dump_expr st d (EOffsetOf _ c _ m) = dump_leaf d (''offset '' @ c @ ''.'' @ m)"
| "dump_expr st d (EUnary _ p pre k) =
     dump_node d (''unary'' @ (if pre then ''-pre '' else ''-post '') @ punctStr p) (dump_expr st (Suc d) k)"
| "dump_expr st d (EBinary _ p a b) =
     dump_node d (''binary '' @ punctStr p) (dump_expr st (Suc d) a @ dump_expr st (Suc d) b)"
| "dump_expr st d (EAssign _ p a b) =
     dump_node d (''assign '' @ punctStr p) (dump_expr st (Suc d) a @ dump_expr st (Suc d) b)"
| "dump_expr st d (EChainCmp _ a ks) =
     dump_node d (''chain-cmp'' @ concat (map (\<lambda>(p, _). CHR 0x20 # punctStr p) ks))
       (dump_expr st (Suc d) a @ concat (map (\<lambda>(_, k). dump_expr st (Suc d) k) ks))"
| "dump_expr st d (ECall _ f as) =
     dump_node d ''call''
       (dump_expr st (Suc d) f
        @ concat (map (\<lambda>a. case a of None \<Rightarrow> dump_line (Suc d) ''(missing)''
                                    | Some e \<Rightarrow> dump_expr st (Suc d) e) as))"
| "dump_expr st d (EIndex _ a i) =
     dump_node d ''index'' (dump_expr st (Suc d) a @ dump_expr st (Suc d) i)"
| "dump_expr st d (EMember _ arrow k m) =
     dump_node d ((if arrow then ''arrow '' else ''member '') @ m) (dump_expr st (Suc d) k)"
| "dump_expr st d (ECast _ t k) = dump_node d (''cast '' @ ty_str st t) (dump_expr st (Suc d) k)"
| "dump_expr st d (ESizeofExpr _ k) = dump_node d ''sizeof-expr'' (dump_expr st (Suc d) k)"
| "dump_expr st d (EInitList _ ks) = dump_node d ''init-list'' (concat (map (dump_expr st (Suc d)) ks))"

definition dump_opt :: "store \<Rightarrow> nat \<Rightarrow> expr option \<Rightarrow> string" where
  "dump_opt st d e = (case e of None \<Rightarrow> [] | Some k \<Rightarrow> dump_expr st d k)"

text \<open>One declarator of a variable declaration, and its initialiser.\<close>

definition dump_decl :: "store \<Rightarrow> nat \<Rightarrow> vdecl \<Rightarrow> string" where
  "dump_decl st d v =
     dump_leaf d (''decl '' @ vd_name v @ '' : '' @ ty_str st (vd_type v)) @ dump_opt st (Suc d) (vd_init v)"

text \<open>The second body (\<open>body2\<close>) of a statement, printed only when there is one.\<close>

definition dump_second :: "nat \<Rightarrow> string list \<Rightarrow> string" where
  "dump_second d xs = (if xs = [] then [] else dump_node d ''else/catch/post'' (concat xs))"

fun dump_stmt :: "store \<Rightarrow> nat \<Rightarrow> stmt \<Rightarrow> string" where
  "dump_stmt st d (SDefault _) = dump_leaf d ''default''"
| "dump_stmt st d (SSubStart _) = dump_leaf d ''sub-start''"
| "dump_stmt st d (SSubEnd _) = dump_leaf d ''sub-end''"
| "dump_stmt st d (SBreak _) = dump_leaf d ''break''"
| "dump_stmt st d (SGoto _ x) = dump_leaf d (''goto '' @ x)"
| "dump_stmt st d (SLabel _ x) = dump_leaf d (''label '' @ x)"
| "dump_stmt st d (SNoWarn _) = dump_leaf d ''no_warn''"
| "dump_stmt st d (SEmpty _) = dump_leaf d ''empty''"
| "dump_stmt st d (SBlock _ b) = dump_node d ''block'' (concat (map (dump_stmt st (Suc d)) b))"
| "dump_stmt st d (SExpr _ e) = dump_node d ''expr-stmt'' (dump_expr st (Suc d) e)"
| "dump_stmt st d (SIf _ c a b) =
     dump_node d ''if''
       (dump_expr st (Suc d) c @ dump_stmt st (Suc d) a
        @ (case b of None \<Rightarrow> [] | Some z \<Rightarrow> dump_node (Suc d) ''else/catch/post'' (dump_stmt st (Suc (Suc d)) z)))"
| "dump_stmt st d (SWhile _ c b) =
     dump_node d ''while'' (dump_expr st (Suc d) c @ dump_stmt st (Suc d) b)"
| "dump_stmt st d (SDoWhile _ b c) =
     dump_node d ''do-while'' (dump_opt st (Suc d) c @ dump_stmt st (Suc d) b)"
| "dump_stmt st d (SFor _ ini c post b) =
     dump_node d ''for''
       (dump_opt st (Suc d) c @ concat (map (dump_expr st (Suc d)) ini) @ dump_stmt st (Suc d) b
        @ dump_second (Suc d) (map (dump_stmt st (Suc (Suc d))) post))"
| "dump_stmt st d (SSwitch _ uc c b) =
     dump_node d (if uc then ''switch-unchecked'' else ''switch'')
       (dump_expr st (Suc d) c @ dump_stmt st (Suc d) b)"
| "dump_stmt st d (SCase _ v) =
     (case v of None \<Rightarrow> dump_node d ''case-null'' []
      | Some (lo, hi) \<Rightarrow> dump_node d ''case'' (dump_expr st (Suc d) lo @ dump_opt st (Suc d) hi))"
| "dump_stmt st d (SReturn _ e) = dump_node d ''return'' (dump_opt st (Suc d) e)"
| "dump_stmt st d (SVarDecl _ _ ds) = dump_node d ''var-decl'' (concat (map (dump_decl st (Suc d)) ds))"
| "dump_stmt st d (STry _ b c) =
     dump_node d ''try''
       (concat (map (dump_stmt st (Suc d)) b) @ dump_second (Suc d) (map (dump_stmt st (Suc (Suc d))) c))"
| "dump_stmt st d (SLock _ b) = dump_node d ''lock'' (dump_stmt st (Suc d) b)"

definition dump_class :: "store \<Rightarrow> nat \<Rightarrow> string" where
  "dump_class st c =
     (let ci = st ! c
      in dump_node 0 (''class '' @ ci_name ci @ (if ci_isUnion ci then '' union'' else [])
                      @ '' size='' @ to_string_i64 (ci_size ci))
           (concat (map (\<lambda>m. dump_leaf 1 (''member '' @ cm_name m @ '' : '' @ ty_str st (cm_type m)
                                          @ '' @'' @ to_string_i64 (cm_offset m))) (ci_members ci))))"

definition dump_param :: "store \<Rightarrow> fparam \<Rightarrow> string" where
  "dump_param st p = (case p of FParam n t dflt lastc _ \<Rightarrow>
     ty_str st t @ '' '' @ n @ (if dflt \<noteq> None then ''=<dflt>'' else []) @ (if lastc then ''=lastclass'' else []))"

fun comma_sep :: "string list \<Rightarrow> string" where
  "comma_sep [] = []"
| "comma_sep [x] = x"
| "comma_sep (x # xs) = x @ '', '' @ comma_sep xs"

definition dump_func :: "store \<Rightarrow> funcdecl \<Rightarrow> string" where
  "dump_func st f = (case fd_type f of
       TyFunc ret ps va \<Rightarrow>
         dump_node 0 (''func '' @ fd_name f @ '' : '' @ ty_str st ret @ '' ('' @ comma_sep (map (dump_param st) ps)
                      @ (if va then '', ...'' else []) @ '')'' @ (if fd_hasBody f then [] else '' proto''))
           (concat (map (dump_stmt st 1) (fd_body f)))
     | _ \<Rightarrow> [])"

definition dump_item :: "store \<Rightarrow> topitem \<Rightarrow> string" where
  "dump_item st i = (case i of
       IClass c \<Rightarrow> dump_class st c
     | IFunc f \<Rightarrow> dump_func st f
     | IGlobal g \<Rightarrow> dump_leaf 0 (''global '' @ gv_name g @ '' : '' @ ty_str st (gv_type g))
                     @ dump_opt st 1 (gv_init g)
     | IStmt s \<Rightarrow> dump_stmt st 0 s)"

definition dumpProgram :: "pst \<Rightarrow> string" where
  "dumpProgram s = concat (map (dump_item (ps_store s)) (ps_items s))"

end
