(* ===== verification/HC_RtMath.thy ===== *)
theory HC_RtMath
  imports HC_Arith
begin

text \<open>
  The integer part of the runtime library \<open>hcrt.c\<close>: \<open>HC_PowI64\<close> and the small \<open>I64\<close> functions,
  the xorshift random numbers, and the bit-field operations on bytes of memory. Signed overflow
  wraps, as it does on the target.
\<close>

subsection \<open>Integer functions\<close>

text \<open>The loop of \<open>HC_PowI64\<close>, square and multiply; its exponent is not negative there.\<close>

fun pow_bits :: "i64 \<Rightarrow> i64 \<Rightarrow> nat \<Rightarrow> i64" where
  "pow_bits r b e =
     (if e = 0 then r else pow_bits (if odd e then r * b else r) (b * b) (e div 2))"

declare pow_bits.simps [simp del]

definition HC_PowI64 :: "i64 \<Rightarrow> i64 \<Rightarrow> i64" where
  "HC_PowI64 b e = (if slt e 0 then 0 else pow_bits 1 b (nat (sint e)))"

definition HC_AbsI64 :: "i64 \<Rightarrow> i64" where
  "HC_AbsI64 x = (if slt x 0 then - x else x)"

definition HC_MinI64 :: "i64 \<Rightarrow> i64 \<Rightarrow> i64" where
  "HC_MinI64 a b = (if slt a b then a else b)"

definition HC_MaxI64 :: "i64 \<Rightarrow> i64 \<Rightarrow> i64" where
  "HC_MaxI64 a b = (if slt b a then a else b)"

definition HC_SignI64 :: "i64 \<Rightarrow> i64" where
  "HC_SignI64 x = (if slt x 0 then - 1 else if slt 0 x then 1 else 0)"

definition HC_SqrI64 :: "i64 \<Rightarrow> i64" where
  "HC_SqrI64 x = x * x"

lemma pow_bits_eq: "pow_bits r b e = r * b ^ e"
proof (induction r b e rule: pow_bits.induct)
  case (1 r b e)
  show ?case
  proof (cases "e = 0")
    case True
    then show ?thesis by (subst pow_bits.simps) simp
  next
    case False
    have "b ^ e = (if odd e then b else 1) * (b * b) ^ (e div 2)"
      by (cases "odd e") (auto simp: power2_eq_square [symmetric] power_mult [symmetric] elim!: oddE evenE)
    with False "1.IH" show ?thesis by (subst pow_bits.simps) (simp add: mult.assoc)
  qed
qed

lemma HC_PowI64_eq: "\<not> slt e 0 \<Longrightarrow> HC_PowI64 b e = b ^ nat (sint e)"
  by (simp add: HC_PowI64_def pow_bits_eq)

text \<open>
  The constant evaluators of the compiler and the runtime compute the same power wherever the
  exponent is not negative; below zero they differ, 1 against 0.
\<close>

lemma pow_loop_runtime: "\<not> slt e 0 \<Longrightarrow> pow_loop 1 b e = HC_PowI64 b e"
  by (simp add: pow_loop_eq HC_PowI64_eq)

lemma pow_loop_negative: "slt e 0 \<Longrightarrow> pow_loop 1 b e = 1 \<and> HC_PowI64 b e = 0"
  by (simp add: pow_loop_eq HC_PowI64_def slt_def)

subsection \<open>Random numbers\<close>

text \<open>The state \<open>hc_rand_state\<close> before the first \<open>HC_Seed\<close>.\<close>

definition rand_init :: i64 where
  "rand_init = 0x5EED5EED5EED5EED"

text \<open>\<open>HC_Seed\<close>; \<open>now\<close> is the seed taken from the clocks when the argument is 0.\<close>

definition HC_Seed :: "i64 \<Rightarrow> i64 \<Rightarrow> i64" where
  "HC_Seed now seed =
     (let s = (if seed = 0 then now else seed) in if s \<noteq> 0 then s else 1)"

definition xorshift :: "i64 \<Rightarrow> i64" where
  "xorshift x0 =
     (let x1 = x0 XOR drop_bit 12 x0;
          x2 = x1 XOR push_bit 25 x1
      in x2 XOR drop_bit 27 x2)"

text \<open>The random functions return the value and the new state.\<close>

definition HC_RandU64 :: "i64 \<Rightarrow> i64 \<times> i64" where
  "HC_RandU64 st = (let x = xorshift st in (x * 0x2545F4914F6CDD1D, x))"

definition HC_RandI64 :: "i64 \<Rightarrow> i64 \<times> i64" where
  "HC_RandI64 st = HC_RandU64 st"

definition HC_RandU32 :: "i64 \<Rightarrow> i64 \<times> i64" where
  "HC_RandU32 st = (case HC_RandU64 st of (v, st') \<Rightarrow> (drop_bit 32 v, st'))"

definition HC_RandU16 :: "i64 \<Rightarrow> i64 \<times> i64" where
  "HC_RandU16 st = (case HC_RandU64 st of (v, st') \<Rightarrow> (drop_bit 48 v, st'))"

lemma xor_drop_inj:
  assumes "0 < k" and "(x :: i64) XOR drop_bit k x = y XOR drop_bit k y"
  shows "x = y"
proof (rule bit_word_eqI)
  fix n assume "n < LENGTH(64)"
  have bits: "bit x n \<noteq> bit x (n + k) \<longleftrightarrow> bit y n \<noteq> bit y (n + k)" for n
    using arg_cong [OF assms(2), of "\<lambda>w. bit w n"]
    by (simp add: bit_xor_iff bit_drop_bit_eq add.commute)
  show "bit x n = bit y n"
  proof (induction "64 - n" arbitrary: n rule: less_induct)
    case less
    show ?case
    proof (cases "n + k < 64")
      case True
      with less [of "n + k"] assms(1) bits [of n] show ?thesis by auto
    next
      case False
      then have "\<not> bit x (n + k)" "\<not> bit y (n + k)" by (auto dest: bit_imp_le_length)
      with bits [of n] show ?thesis by auto
    qed
  qed
qed

lemma xor_push_inj:
  assumes "0 < k" and "(x :: i64) XOR push_bit k x = y XOR push_bit k y"
  shows "x = y"
proof (rule bit_word_eqI)
  fix n assume "n < LENGTH(64)"
  have bits: "bit x n \<noteq> (k \<le> n \<and> bit x (n - k)) \<longleftrightarrow> bit y n \<noteq> (k \<le> n \<and> bit y (n - k))" if "n < 64" for n
    using arg_cong [OF assms(2), of "\<lambda>w. bit w n"] that
    by (simp add: bit_xor_iff bit_push_bit_iff)
  then show "bit x n = bit y n" using \<open>n < LENGTH(64)\<close>
  proof (induction n rule: less_induct)
    case (less n)
    show ?case
    proof (cases "k \<le> n")
      case True
      with less.IH [of "n - k"] assms(1) less.prems bits [of n] show ?thesis by auto
    next
      case False
      with less.prems bits [of n] show ?thesis by auto
    qed
  qed
qed

text \<open>The generator's step is injective, so no two states merge and 0 is reached from 0 only.\<close>

lemma xorshift_inj: "inj xorshift"
proof -
  have eq: "xorshift = (\<lambda>x. x XOR drop_bit 27 x) \<circ> ((\<lambda>x. x XOR push_bit 25 x) \<circ> (\<lambda>x. x XOR drop_bit 12 x))"
    by (simp add: xorshift_def Let_def fun_eq_iff)
  show ?thesis unfolding eq
    by (intro inj_compose; rule injI, erule xor_drop_inj [rotated] xor_push_inj [rotated], simp)
qed

lemma xorshift_0: "xorshift 0 = 0"
  by (simp add: xorshift_def)

lemma xorshift_nonzero: "x \<noteq> 0 \<Longrightarrow> xorshift x \<noteq> 0"
  using xorshift_inj xorshift_0 by (metis injD)

subsection \<open>Memory and bit fields\<close>

text \<open>Bytes by address. An address that is not mapped is outside the model: the reads and writes
  here stand for those of a program that stays inside its objects.\<close>

type_synonym mem = "i64 \<Rightarrow> 8 word"

definition bit_addr :: "i64 \<Rightarrow> i64 \<Rightarrow> i64" where
  "bit_addr p n = p + signed_drop_bit 3 n"

definition bit_mask :: "i64 \<Rightarrow> 8 word" where
  "bit_mask n = push_bit (unat (n AND 7)) 1"

definition HC_Bt :: "mem \<Rightarrow> i64 \<Rightarrow> i64 \<Rightarrow> i64" where
  "HC_Bt m p n = ucast (drop_bit (unat (n AND 7)) (m (bit_addr p n)) AND 1)"

definition HC_Bts :: "mem \<Rightarrow> i64 \<Rightarrow> i64 \<Rightarrow> i64 \<times> mem" where
  "HC_Bts m p n = (HC_Bt m p n, m(bit_addr p n := m (bit_addr p n) OR bit_mask n))"

definition HC_Btr :: "mem \<Rightarrow> i64 \<Rightarrow> i64 \<Rightarrow> i64 \<times> mem" where
  "HC_Btr m p n = (HC_Bt m p n, m(bit_addr p n := m (bit_addr p n) AND NOT (bit_mask n)))"

definition HC_Btc :: "mem \<Rightarrow> i64 \<Rightarrow> i64 \<Rightarrow> i64 \<times> mem" where
  "HC_Btc m p n = (HC_Bt m p n, m(bit_addr p n := m (bit_addr p n) XOR bit_mask n))"

definition HC_BCnt :: "i64 \<Rightarrow> i64" where
  "HC_BCnt v = of_nat (length (filter (bit v) [0..<64]))"

text \<open>The bit that number \<open>n\<close> from \<open>p\<close> denotes.\<close>

definition the_bit :: "mem \<Rightarrow> i64 \<Rightarrow> i64 \<Rightarrow> bool" where
  "the_bit m p n = bit (m (bit_addr p n)) (unat (n AND 7))"

lemma Bt_the_bit: "HC_Bt m p n = b2i (the_bit m p n)"
  by (rule bit_word_eqI)
    (auto simp: HC_Bt_def the_bit_def b2i_def bit_simps bit_1_iff intro: gr0I)

lemma unat_and_7: "unat (n AND 7 :: i64) < 8"
proof -
  have "n AND 7 = take_bit 3 n" by (simp add: take_bit_eq_mask mask_eq_exp_minus_1)
  then have "unat (n AND 7) = take_bit 3 (unat n)" by (simp only: unsigned_take_bit_eq)
  also have "\<dots> < 2 ^ 3" by (rule take_bit_nat_less_exp)
  finally show ?thesis by simp
qed

text \<open>Setting, resetting and complementing a bit change that bit and no other.\<close>

lemma bit_mask_bit: "bit (bit_mask n) k \<longleftrightarrow> k = unat (n AND 7)"
  using unat_and_7 [of n] by (auto simp: bit_mask_def bit_simps bit_1_iff)

lemma same_bit_iff:
  "bit_addr p a = bit_addr p b \<and> unat (a AND 7) = unat (b AND 7) \<longleftrightarrow> a = b"
proof
  assume "bit_addr p a = bit_addr p b \<and> unat (a AND 7) = unat (b AND 7)"
  then have hi: "signed_drop_bit 3 a = signed_drop_bit 3 b" and "unat (a AND 7) = unat (b AND 7)"
    by (simp_all add: bit_addr_def)
  from this(2) have lo: "a AND 7 = b AND 7" by (simp only: word_unat_eq_iff)
  show "a = b"
  proof (rule bit_word_eqI)
    fix k assume k: "k < LENGTH(64)"
    show "bit a k = bit b k"
    proof (cases "k < 3")
      case True
      have "bit (7 :: i64) k" using True by (auto simp: less_Suc_eq numeral_3_eq_3 bit_simps)
      then show ?thesis using arg_cong [OF lo, of "\<lambda>w. bit w k"] by (simp add: bit_and_iff)
    next
      case False
      then have "\<not> 61 \<le> k - 3" "3 + (k - 3) = k" using k by simp_all
      then show ?thesis using arg_cong [OF hi, of "\<lambda>w. bit w (k - 3)"] k
        by (simp add: bit_signed_drop_bit_iff)
    qed
  qed
qed simp

lemma the_bit_ops:
  "the_bit (snd (HC_Bts m p n)) p k \<longleftrightarrow> k = n \<or> the_bit m p k"
  "the_bit (snd (HC_Btr m p n)) p k \<longleftrightarrow> k \<noteq> n \<and> the_bit m p k"
  "the_bit (snd (HC_Btc m p n)) p k \<longleftrightarrow> (if k = n then \<not> the_bit m p k else the_bit m p k)"
  using same_bit_iff [of p k n] unat_and_7 [of k]
  by (auto simp: the_bit_def HC_Bts_def HC_Btr_def HC_Btc_def bit_simps bit_mask_bit)

end
