(* ===== verification/HC_RtFormat.thy ===== *)
theory HC_RtFormat
  imports HC_RtMath
begin

text \<open>
  \<open>hc_format\<close> of \<open>hcrt.c\<close>, the formatter behind \<open>Print\<close>, \<open>StrPrint\<close> and \<open>StreamPrint\<close>: the growing
  output buffer, integers with grouping, fields, packed characters, dates, and the directives.
  C's \<open>int\<close> is 32 bits and wraps. The flag \<open>f_fault\<close> records a read outside an object, after
  which nothing is defined.
\<close>

subsection \<open>The output\<close>

record hcout =
  o_buf :: string
  o_cap :: nat
  o_stdout :: bool
  o_sent :: string

definition out0 :: hcout where
  "out0 = \<lparr>o_buf = [], o_cap = 0, o_stdout = False, o_sent = []\<rparr>"

definition out_std :: hcout where
  "out_std = out0\<lparr>o_stdout := True\<rparr>"

text \<open>\<open>while (o->len + n + 1 > nc) nc *= 2;\<close>\<close>

function grow :: "nat \<Rightarrow> nat \<Rightarrow> nat" where
  "grow need nc = (if nc = 0 \<or> need \<le> nc then nc else grow need (nc * 2))"
  by pat_completeness auto
termination
  by (relation "measure (\<lambda>(need, nc). need - nc)") auto

declare grow.simps [simp del]

definition out_emit :: "string \<Rightarrow> hcout \<Rightarrow> hcout" where
  "out_emit s o' =
     (if o_stdout o' then o'\<lparr>o_sent := o_sent o' @ s\<rparr>
      else let need = length (o_buf o') + length s + 1;
               cap = (if o_cap o' < need then grow need (if o_cap o' \<noteq> 0 then o_cap o' else 64) else o_cap o')
           in o'\<lparr>o_buf := o_buf o' @ s, o_cap := cap\<rparr>)"

definition out_pad :: "char \<Rightarrow> int \<Rightarrow> hcout \<Rightarrow> hcout" where
  "out_pad c n o' = (out_emit [c] ^^ nat n) o'"

subsection \<open>Integers\<close>

definition digit_of :: "bool \<Rightarrow> nat \<Rightarrow> char" where
  "digit_of upper d = (if d < 10 then digit_char d else char_of ((if upper then 55 else 87) + d))"

text \<open>The digits of a positive number, the least significant first.\<close>

function low_digits :: "nat \<Rightarrow> bool \<Rightarrow> nat \<Rightarrow> string" where
  "low_digits base upper v =
     (if v = 0 \<or> base < 2 then [] else digit_of upper (v mod base) # low_digits base upper (v div base))"
  by pat_completeness auto
termination
  by (relation "measure (\<lambda>(base, upper, v). v)") auto

declare low_digits.simps [simp del]

text \<open>The second loop of \<open>int_body\<close>, from the most significant digit on.\<close>

fun group_digits :: "bool \<Rightarrow> string \<Rightarrow> string" where
  "group_digits commas [] = []"
| "group_digits commas (d # ds) =
     d # (if commas \<and> ds \<noteq> [] \<and> length ds mod 3 = 0 then [CHR '',''] else []) @ group_digits commas ds"

definition int_body :: "i64 \<Rightarrow> nat \<Rightarrow> bool \<Rightarrow> bool \<Rightarrow> bool \<Rightarrow> string" where
  "int_body v base upper commas neg =
     (let ds = (if v = 0 then ''0'' else rev (low_digits base upper (unat v)))
      in (if neg then ''-'' else []) @ group_digits (commas \<and> base = 10) ds)"

subsection \<open>Fields and packed characters\<close>

definition fmt_field :: "string \<Rightarrow> int \<Rightarrow> bool \<Rightarrow> bool \<Rightarrow> hcout \<Rightarrow> hcout" where
  "fmt_field body width left zero o' =
     (let len = int (length body)
      in if width \<le> len then out_emit body o'
         else if left then out_pad (CHR '' '') (width - len) (out_emit body o')
         else if zero
         then (if body \<noteq> [] \<and> (hd body = CHR ''-'' \<or> hd body = CHR ''+'')
               then out_emit (tl body) (out_pad (CHR ''0'') (width - len) (out_emit [hd body] o'))
               else out_emit body (out_pad (CHR ''0'') (width - len) o'))
         else out_emit body (out_pad (CHR '' '') (width - len) o'))"

definition packed_byte :: "i64 \<Rightarrow> nat \<Rightarrow> nat" where
  "packed_byte v i = unat (drop_bit (8 * i) v) mod 256"

definition emit_packed_chars :: "i64 \<Rightarrow> hcout \<Rightarrow> hcout" where
  "emit_packed_chars v o' =
     fold (\<lambda>i o'. if packed_byte v i \<noteq> 0 then out_emit [char_of (packed_byte v i)] o' else o') [0..<8] o'"

subsection \<open>Dates\<close>

text \<open>
  \<open>fmt_date\<close>. The fraction of the day times 86400 is below \<open>2 ^ 49\<close>, so the double arithmetic
  of the code is exact and truncates to the quotient below. Nothing overflows: \<open>days\<close> has 32 bits.
\<close>

definition cdate_days :: "i64 \<Rightarrow> int" where
  "cdate_days v = sint (signed_drop_bit 32 v)"

definition cdate_secs :: "i64 \<Rightarrow> nat" where
  "cdate_secs v = unat (take_bit 32 v) * 86400 div 4294967296"

definition civil :: "int \<Rightarrow> int \<times> int \<times> int" where
  "civil days =
     (let z = days - 719528 + 719468;
          era = (if 0 \<le> z then z else z - 146096) sdiv 146097;
          doe = z - era * 146097;
          yoe = (doe - doe div 1460 + doe div 36524 - doe div 146096) div 365;
          y = yoe + era * 400;
          doy = doe - (365 * yoe + yoe div 4 - yoe div 100);
          mp = (5 * doy + 2) div 153;
          d = doy - (153 * mp + 2) div 5 + 1;
          m = (if mp < 10 then mp + 3 else mp - 9)
      in (if m \<le> 2 then y + 1 else y, m, d))"

text \<open>\<open>%0<w>lld\<close> of \<open>printf\<close>.\<close>

definition pad_int :: "nat \<Rightarrow> int \<Rightarrow> string" where
  "pad_int w i = (if i < 0 then CHR ''-'' # pad_left (w - 1) CHR ''0'' (dec_of_nat (nat (- i)))
                  else pad_left w CHR ''0'' (dec_of_nat (nat i)))"

definition fmt_date :: "i64 \<Rightarrow> bool \<Rightarrow> string" where
  "fmt_date v time_part =
     (if time_part
      then (let secs = int (cdate_secs v)
            in pad_int 2 (secs div 3600) @ '':'' @ pad_int 2 (secs div 60 mod 60) @ '':'' @ pad_int 2 (secs mod 60))
      else (case civil (cdate_days v) of
              (y, m, d) \<Rightarrow> pad_int 2 m @ ''/'' @ pad_int 2 d @ ''/'' @ pad_int 4 y))"

subsection \<open>Floating point numbers\<close>

text \<open>
  \<open>printf\<close> of a double with \<open>%f\<close>, \<open>%e\<close> and \<open>%g\<close> and a precision. A finite double is the exact
  fraction \<open>f64_num / f64_den\<close>, which is rounded once, to nearest with ties to even.
\<close>

definition f64_num :: "f64 \<Rightarrow> nat" where
  "f64_num x = (let m = (if f64_exp x = 0 then f64_frac x else 2 ^ 52 + f64_frac x);
                    k = int (max 1 (f64_exp x)) - 1075 in m * 2 ^ nat k)"

definition f64_den :: "f64 \<Rightarrow> nat" where
  "f64_den x = 2 ^ nat (1075 - int (max 1 (f64_exp x)))"

definition point :: "string \<Rightarrow> nat \<Rightarrow> nat \<Rightarrow> string" where
  "point ip prec fr = ip @ (if prec = 0 then [] else ''.'' @ pad_left prec CHR ''0'' (dec_of_nat fr))"

definition dec_fixed :: "nat \<Rightarrow> nat \<Rightarrow> nat \<Rightarrow> string" where
  "dec_fixed prec n d =
     (let t = round_half_even (n * 10 ^ prec) d
      in point (dec_of_nat (t div 10 ^ prec)) prec (t mod 10 ^ prec))"

text \<open>The decimal exponent of \<open>n / d > 0\<close> below 1: the least \<open>k\<close> with \<open>n * 10 ^ k \<ge> d\<close>.\<close>

function neg_exp :: "nat \<Rightarrow> nat \<Rightarrow> nat" where
  "neg_exp n d = (if n = 0 \<or> d \<le> n then 0 else Suc (neg_exp (10 * n) d))"
  by pat_completeness auto
termination
  by (relation "measure (\<lambda>(n, d). d - n)") auto

declare neg_exp.simps [simp del]

definition dec_exp :: "nat \<Rightarrow> nat \<Rightarrow> int" where
  "dec_exp n d = (if n = 0 then 0 else if d \<le> n then int (length (dec_of_nat (n div d))) - 1
                  else - int (neg_exp n d))"

text \<open>The \<open>prec + 1\<close> significant digits and the exponent of \<open>%e\<close>, after rounding.\<close>

definition dec_sci :: "nat \<Rightarrow> nat \<Rightarrow> nat \<Rightarrow> nat \<times> int" where
  "dec_sci prec n d =
     (let x = dec_exp n d; s = int prec - x;
          t = (if 0 \<le> s then round_half_even (n * 10 ^ nat s) d else round_half_even n (d * 10 ^ nat (- s)))
      in if t = 10 ^ (prec + 1) then (t div 10, x + 1) else (t, x))"

definition exp_text :: "int \<Rightarrow> string" where
  "exp_text x = ''e'' @ (if x < 0 then ''-'' else ''+'') @ pad_left 2 CHR ''0'' (dec_of_nat (nat \<bar>x\<bar>))"

definition dec_e :: "nat \<Rightarrow> nat \<Rightarrow> nat \<Rightarrow> string" where
  "dec_e prec n d = (case dec_sci prec n d of (t, x) \<Rightarrow>
     point (dec_of_nat (t div 10 ^ prec)) prec (t mod 10 ^ prec) @ exp_text x)"

text \<open>\<open>%g\<close> drops trailing zeros of the fraction, and the point with them.\<close>

definition drop_zeros :: "string \<Rightarrow> string" where
  "drop_zeros s = (if CHR ''.'' \<in> set s
     then (let r = dropWhile (\<lambda>c. c = CHR ''0'') (rev s)
           in rev (if r \<noteq> [] \<and> hd r = CHR ''.'' then tl r else r))
     else s)"

definition dec_g :: "nat \<Rightarrow> nat \<Rightarrow> nat \<Rightarrow> string" where
  "dec_g prec n d =
     (let p = (if prec = 0 then 1 else prec); (t, x) = dec_sci (p - 1) n d
      in if - 4 \<le> x \<and> x < int p
         then drop_zeros (dec_fixed (nat (int p - 1 - x)) n d)
         else drop_zeros (point (dec_of_nat (t div 10 ^ (p - 1))) (p - 1) (t mod 10 ^ (p - 1))) @ exp_text x)"

definition printf_f64 :: "char \<Rightarrow> bool \<Rightarrow> nat \<Rightarrow> f64 \<Rightarrow> string" where
  "printf_f64 c pl prec x =
     (let sg = (if f64_sign x then ''-'' else if pl then ''+'' else [])
      in sg @ (if f64_exp x = 2047 then (if f64_frac x = 0 then ''inf'' else ''nan'')
               else if c = CHR ''f'' then dec_fixed prec (f64_num x) (f64_den x)
               else if c = CHR ''e'' then dec_e prec (f64_num x) (f64_den x)
               else dec_g prec (f64_num x) (f64_den x)))"

subsection \<open>Strings in memory\<close>

text \<open>The bytes from \<open>p\<close> up to the first NUL; \<^const>\<open>None\<close> when there is none.\<close>

partial_function (option) cstr :: "mem \<Rightarrow> i64 \<Rightarrow> string option" where
  "cstr m p = (if m p = 0 then Some [] else do { t \<leftarrow> cstr m (p + 1); Some (char_of (unat (m p)) # t) })"

text \<open>\<open>while (idx-- > 0 && *lst) lst += strlen(lst) + 1;\<close>\<close>

fun zlist_at :: "mem \<Rightarrow> nat \<Rightarrow> i64 \<Rightarrow> i64 option" where
  "zlist_at m 0 p = Some p"
| "zlist_at m (Suc k) p =
     (if m p = 0 then Some p else do { s \<leftarrow> cstr m p; zlist_at m k (p + of_nat (length s) + 1) })"

definition quote_char :: "char \<Rightarrow> string" where
  "quote_char c =
     (if c = CHR 0x22 \<or> c = CHR 0x5C then [CHR 0x5C, c] else if c = CHR 0x0A then [CHR 0x5C, CHR ''n''] else [c])"

definition quote :: "string \<Rightarrow> string" where
  "quote s = concat (map quote_char s)"

subsection \<open>The directives\<close>

text \<open>The flags, width and precision of a directive; a negative precision is an absent one.\<close>

record fspec =
  fs_left :: bool
  fs_zero :: bool
  fs_commas :: bool
  fs_plus :: bool
  fs_width :: int
  fs_prec :: int

definition fspec0 :: fspec where
  "fspec0 = \<lparr>fs_left = False, fs_zero = False, fs_commas = False, fs_plus = False, fs_width = 0, fs_prec = - 1\<rparr>"

fun read_flags :: "fspec \<Rightarrow> string \<Rightarrow> fspec \<times> string" where
  "read_flags f [] = (f, [])"
| "read_flags f (c # cs) =
     (if c = CHR ''-'' then read_flags (f\<lparr>fs_left := True\<rparr>) cs
      else if c = CHR ''0'' then read_flags (f\<lparr>fs_zero := True\<rparr>) cs
      else if c = CHR '','' then read_flags (f\<lparr>fs_commas := True\<rparr>) cs
      else if c = CHR ''+'' then read_flags (f\<lparr>fs_plus := True\<rparr>) cs
      else (f, c # cs))"

definition wrap32 :: "int \<Rightarrow> int" where
  "wrap32 i = sint (word_of_int i :: 32 word)"

fun read_int :: "int \<Rightarrow> string \<Rightarrow> int \<times> string" where
  "read_int v [] = (v, [])"
| "read_int v (c # cs) =
     (if isdigit c then read_int (wrap32 (v * 10 + int (byte c - 48))) cs else (v, c # cs))"

definition read_spec :: "string \<Rightarrow> fspec \<times> string" where
  "read_spec s0 =
     (let (f, s1) = read_flags fspec0 s0; (w, s2) = read_int 0 s1
      in case s2 of
           c # cs \<Rightarrow>
             if c = CHR ''.''
             then (let (pr, s3) = read_int 0 cs in (f\<lparr>fs_width := w, fs_prec := pr\<rparr>, s3))
             else (f\<lparr>fs_width := w\<rparr>, s2)
         | [] \<Rightarrow> (f\<lparr>fs_width := w\<rparr>, s2))"

text \<open>The arguments left; \<open>NEXT_ARG\<close> reads 0 when there are none.\<close>

definition next_arg :: "i64 list \<Rightarrow> i64 \<times> i64 list" where
  "next_arg as = (case as of [] \<Rightarrow> (0, []) | a # as' \<Rightarrow> (a, as'))"

text \<open>The state of the formatter, and the text a body prints as in a field.\<close>

record fst =
  f_out :: hcout
  f_args :: "i64 list"
  f_fault :: bool

definition put_field :: "string \<Rightarrow> fspec \<Rightarrow> bool \<Rightarrow> fst \<Rightarrow> fst" where
  "put_field body f zero st = st\<lparr>f_out := fmt_field body (fs_width f) (fs_left f) zero (f_out st)\<rparr>"

text \<open>
  What \<open>snprintf\<close> leaves in the 512 bytes of \<open>tmp\<close> and \<open>fmt_field\<close> then reads: it is told the
  full length, so a longer text ends in the NUL and the read goes on behind the buffer.
\<close>

definition put_tmp :: "string \<Rightarrow> fspec \<Rightarrow> fst \<Rightarrow> fst" where
  "put_tmp body f st =
     (if length body < 512 then put_field body f (fs_zero f) st
      else (put_field (take 511 body @ [CHR 0x00]) f (fs_zero f) st)\<lparr>f_fault := f_fault st \<or> 512 < length body\<rparr>)"

definition int_text :: "fspec \<Rightarrow> i64 \<Rightarrow> string" where
  "int_text f v =
     (let neg = slt v 0; uv = (if neg then - (v + 1) + 1 else v)
      in (if fs_plus f \<and> \<not> neg then ''+'' else []) @ int_body uv 10 False (fs_commas f) neg)"

definition convert_arg :: "mem \<Rightarrow> fspec \<Rightarrow> char \<Rightarrow> fst \<Rightarrow> fst option" where
  "convert_arg m f c st =
     (let (v, as) = next_arg (f_args st); st1 = st\<lparr>f_args := as\<rparr>
      in if c = CHR ''d'' \<or> c = CHR ''i'' then Some (put_field (int_text f v) f (fs_zero f) st1)
         else if c = CHR ''u'' then Some (put_field (int_body v 10 False (fs_commas f) False) f (fs_zero f) st1)
         else if c = CHR ''x'' \<or> c = CHR ''X''
         then Some (put_field (int_body v 16 (c = CHR ''X'') False False) f (fs_zero f) st1)
         else if c = CHR ''p'' \<or> c = CHR ''P''
         then Some (put_field (pad_left 16 CHR ''0'' (int_body v 16 True False False)) f (fs_zero f) st1)
         else if c = CHR ''c''
         then Some (put_field (o_buf (emit_packed_chars v out0)) f False st1)
         else if c = CHR ''s''
         then do {
           s \<leftarrow> if v = 0 then Some ''(null)'' else cstr m v;
           Some (put_field (if 0 \<le> fs_prec f then take (nat (fs_prec f)) s else s) f False st1)
         }
         else if c = CHR ''q'' \<or> c = CHR ''Q''
         then do { s \<leftarrow> if v = 0 then Some [] else cstr m v; Some (put_field (quote s) f False st1) }
         else if c = CHR ''f'' \<or> c = CHR ''e'' \<or> c = CHR ''g''
         then Some (put_tmp (printf_f64 c (fs_plus f) (if fs_prec f < 0 then 6 else nat (fs_prec f)) v) f st1)
         else if c = CHR ''z''
         then (let (lst, as2) = next_arg as; st2 = st\<lparr>f_args := as2\<rparr>
               in if lst = 0 then Some st2
                  else do {
                    p \<leftarrow> zlist_at m (nat (sint v)) lst;
                    s \<leftarrow> cstr m p;
                    Some (put_field s f False st2)
                  })
         else if c = CHR ''D'' \<or> c = CHR ''T''
         then Some (st1\<lparr>f_out := out_emit (fmt_date v (c = CHR ''T'')) (f_out st1)\<rparr>)
         else Some (st\<lparr>f_out := out_emit [c] (out_emit ''%'' (f_out st))\<rparr>))"

lemma read_flags_length: "length (snd (read_flags f s)) \<le> length s"
  by (induction f s rule: read_flags.induct) auto

lemma read_int_length: "length (snd (read_int v s)) \<le> length s"
  by (induction v s rule: read_int.induct) auto

lemma read_spec_length: "length (snd (read_spec s)) \<le> length s"
proof -
  obtain f s1 where s1: "read_flags fspec0 s = (f, s1)" by fastforce
  obtain w s2 where s2: "read_int 0 s1 = (w, s2)" by fastforce
  have "length s1 \<le> length s" using read_flags_length [of fspec0 s] s1 by simp
  moreover have "length s2 \<le> length s1" using read_int_length [of 0 s1] s2 by simp
  moreover have "length (snd (read_spec s)) \<le> length s2"
  proof (cases s2)
    case Nil
    then show ?thesis by (simp add: read_spec_def s1 s2)
  next
    case (Cons c cs)
    then show ?thesis using read_int_length [of 0 cs]
      by (cases "read_int 0 cs") (simp add: read_spec_def s1 s2)
  qed
  ultimately show ?thesis by simp
qed

lemma spec_shorter: "(f, k # ks) = read_spec s \<Longrightarrow> length ks < length s"
  using read_spec_length [of s] by (metis Suc_le_lessD length_Cons snd_conv)

text \<open>
  The loop over the format. A format that ends inside a directive, after its flags or width,
  takes the \<open>default\<close> branch on the terminator, prints it, and goes on reading behind the string.
\<close>

function hc_format :: "mem \<Rightarrow> string \<Rightarrow> fst \<Rightarrow> fst option" where
  "hc_format m [] st = Some st"
| "hc_format m (c # cs) st =
     (if c \<noteq> CHR ''%'' then hc_format m cs (st\<lparr>f_out := out_emit [c] (f_out st)\<rparr>)
      else case cs of
             [] \<Rightarrow> Some st
           | d # ds \<Rightarrow>
               if d = CHR ''%'' then hc_format m ds (st\<lparr>f_out := out_emit ''%'' (f_out st)\<rparr>)
               else (case read_spec cs of
                       (f, []) \<Rightarrow> Some (st\<lparr>f_out := out_emit [CHR 0x00] (out_emit ''%'' (f_out st)), f_fault := True\<rparr>)
                     | (f, k # ks) \<Rightarrow> do { st1 \<leftarrow> convert_arg m f k st; hc_format m ks st1 }))"
  by pat_completeness auto
termination
proof (relation "measure (\<lambda>(m, s, st). length s)", goal_cases)
  case prems: 4
  then show ?case using read_spec_length [of "_ # _"] by (auto dest!: spec_shorter)
qed auto

definition format :: "mem \<Rightarrow> string \<Rightarrow> i64 list \<Rightarrow> hcout \<Rightarrow> fst option" where
  "format m s as o' = hc_format m s \<lparr>f_out = o', f_args = as, f_fault = False\<rparr>"

end
