(* ===== verification/HC_RtFormatOk.thy ===== *)
theory HC_RtFormatOk
  imports HC_RtFormat
begin

text \<open>
  Correctness of the formatter: what each operation appends to the text, the bounds of the
  growing buffer, and the value of a printed number.
\<close>

named_theorems out_simps

subsection \<open>The text printed so far\<close>

definition out_text :: "hcout \<Rightarrow> string" where
  "out_text o' = (if o_stdout o' then o_sent o' else o_buf o')"

text \<open>The buffer has room for its text and the terminating NUL.\<close>

definition out_ok :: "hcout \<Rightarrow> bool" where
  "out_ok o' \<longleftrightarrow> (if o_stdout o' then o_buf o' = [] else o_buf o' = [] \<and> o_cap o' = 0 \<or> length (o_buf o') < o_cap o')"

lemma grow_enough: "0 < nc \<Longrightarrow> need \<le> grow need nc"
proof (induction need nc rule: grow.induct)
  case (1 need nc)
  then show ?case by (subst grow.simps) auto
qed

lemma out_emit_text [out_simps]: "out_text (out_emit s o') = out_text o' @ s"
  by (simp add: out_emit_def out_text_def Let_def)

lemma out_emit_mode [out_simps]: "o_stdout (out_emit s o') = o_stdout o'"
  by (simp add: out_emit_def Let_def)

lemma out_emit_ok [out_simps]: "out_ok o' \<Longrightarrow> out_ok (out_emit s o')"
  using grow_enough [of "if o_cap o' \<noteq> 0 then o_cap o' else 64" "length (o_buf o') + length s + 1"]
  by (auto simp: out_ok_def out_emit_def Let_def split: if_splits)

text \<open>
  An operation on the output that prints the text \<open>t\<close>: it appends \<open>t\<close>, whether to the stream or to
  a buffer, and keeps the buffer's bound. What the formatter needs of its parts is this contract.
\<close>

locale printer =
  fixes put :: "hcout \<Rightarrow> hcout" and tx :: string
  assumes put_text: "out_text (put o') = out_text o' @ tx"
    and put_mode: "o_stdout (put o') = o_stdout o'"
    and put_ok: "out_ok o' \<Longrightarrow> out_ok (put o')"
begin

lemma repeat_text: "out_text ((put ^^ n) o') = out_text o' @ concat (replicate n tx)"
proof (induction n)
  case (Suc n)
  have "concat (replicate n tx) @ tx = tx @ concat (replicate n tx)" by (induction n) auto
  with Suc show ?case by (simp add: put_text)
qed simp

lemma repeat_mode: "o_stdout ((put ^^ n) o') = o_stdout o'"
  by (induction n) (simp_all add: put_mode)

lemma repeat_ok: "out_ok o' \<Longrightarrow> out_ok ((put ^^ n) o')"
  by (induction n) (simp_all add: put_ok)

end

interpretation emit: printer "out_emit s" s for s
  by unfold_locales (simp_all add: out_simps)

lemma out_pad_text [out_simps]: "out_text (out_pad c n o') = out_text o' @ replicate (nat n) c"
proof -
  have "concat (replicate k [c]) = replicate k c" for k by (induction k) auto
  then show ?thesis by (simp add: out_pad_def emit.repeat_text)
qed

lemma out_pad_mode [out_simps]: "o_stdout (out_pad c n o') = o_stdout o'"
  by (simp add: out_pad_def emit.repeat_mode)

lemma out_pad_ok [out_simps]: "out_ok o' \<Longrightarrow> out_ok (out_pad c n o')"
  by (simp add: out_pad_def emit.repeat_ok)

interpretation pad: printer "out_pad c n" "replicate (nat n) c" for c n
  by unfold_locales (simp_all add: out_simps)

text \<open>The text of a body in a field.\<close>

definition in_field :: "string \<Rightarrow> int \<Rightarrow> bool \<Rightarrow> bool \<Rightarrow> string" where
  "in_field body width left zero =
     (let n = nat (width - int (length body))
      in if left then body @ replicate n CHR '' ''
         else if zero
         then (case body of c # cs \<Rightarrow> if c = CHR ''-'' \<or> c = CHR ''+'' then c # replicate n CHR ''0'' @ cs
                                   else replicate n CHR ''0'' @ body
               | [] \<Rightarrow> replicate n CHR ''0'')
         else replicate n CHR '' '' @ body)"

lemma length_in_field: "int (length (in_field body width left zero)) = max width (int (length body))"
  by (auto simp: in_field_def Let_def split: list.split)

lemma fmt_field_text [out_simps]:
  "out_text (fmt_field body width left zero o') = out_text o' @ in_field body width left zero"
  by (cases body) (auto simp: fmt_field_def in_field_def Let_def out_simps)

lemma fmt_field_mode [out_simps]: "o_stdout (fmt_field body width left zero o') = o_stdout o'"
  by (simp add: fmt_field_def Let_def out_simps)

lemma fmt_field_ok [out_simps]: "out_ok o' \<Longrightarrow> out_ok (fmt_field body width left zero o')"
  by (simp add: fmt_field_def Let_def out_simps)

interpretation field: printer "fmt_field body width left zero" "in_field body width left zero"
  for body width left zero
  by unfold_locales (simp_all add: out_simps)

definition packed_text :: "i64 \<Rightarrow> string" where
  "packed_text v = map char_of (filter (\<lambda>b. b \<noteq> 0) (map (packed_byte v) [0..<8]))"

lemma packed_fold:
  "out_text (fold (\<lambda>i o'. if packed_byte v i \<noteq> 0 then out_emit [char_of (packed_byte v i)] o' else o') is o')
     = out_text o' @ map char_of (filter (\<lambda>b. b \<noteq> 0) (map (packed_byte v) is))
   \<and> o_stdout (fold (\<lambda>i o'. if packed_byte v i \<noteq> 0 then out_emit [char_of (packed_byte v i)] o' else o') is o') = o_stdout o'
   \<and> (out_ok o' \<longrightarrow> out_ok (fold (\<lambda>i o'. if packed_byte v i \<noteq> 0 then out_emit [char_of (packed_byte v i)] o' else o') is o'))"
  by (induction "is" arbitrary: o') (simp_all add: out_simps)

interpretation packed: printer "emit_packed_chars v" "packed_text v" for v
  by unfold_locales (simp_all only: emit_packed_chars_def packed_text_def packed_fold)

lemma packed_out0: "o_buf (emit_packed_chars v out0) = packed_text v"
  using packed.put_text [of v out0] packed.put_mode [of v out0]
  by (simp add: out_text_def out0_def)

subsection \<open>The formatter as a function on texts\<close>

text \<open>One directive: the text it prints, the arguments left, and whether it reads out of bounds.\<close>

definition arg_text :: "mem \<Rightarrow> fspec \<Rightarrow> char \<Rightarrow> i64 list \<Rightarrow> (string \<times> i64 list \<times> bool) option" where
  "arg_text m f c as =
     (let (v, as1) = next_arg as; fld = (\<lambda>body zero. in_field body (fs_width f) (fs_left f) zero)
      in if c = CHR ''d'' \<or> c = CHR ''i'' then Some (fld (int_text f v) (fs_zero f), as1, False)
         else if c = CHR ''u'' then Some (fld (int_body v 10 False (fs_commas f) False) (fs_zero f), as1, False)
         else if c = CHR ''x'' \<or> c = CHR ''X''
         then Some (fld (int_body v 16 (c = CHR ''X'') False False) (fs_zero f), as1, False)
         else if c = CHR ''p'' \<or> c = CHR ''P''
         then Some (fld (pad_left 16 CHR ''0'' (int_body v 16 True False False)) (fs_zero f), as1, False)
         else if c = CHR ''c'' then Some (fld (packed_text v) False, as1, False)
         else if c = CHR ''s''
         then do {
           s \<leftarrow> if v = 0 then Some ''(null)'' else cstr m v;
           Some (fld (if 0 \<le> fs_prec f then take (nat (fs_prec f)) s else s) False, as1, False)
         }
         else if c = CHR ''q'' \<or> c = CHR ''Q''
         then do { s \<leftarrow> if v = 0 then Some [] else cstr m v; Some (fld (quote s) False, as1, False) }
         else if c = CHR ''f'' \<or> c = CHR ''e'' \<or> c = CHR ''g''
         then (let t = printf_f64 c (fs_plus f) (if fs_prec f < 0 then 6 else nat (fs_prec f)) v
               in Some (fld (if length t < 512 then t else take 511 t @ [CHR 0x00]) (fs_zero f), as1, 512 < length t))
         else if c = CHR ''z''
         then (let (lst, as2) = next_arg as1
               in if lst = 0 then Some ([], as2, False)
                  else do {
                    p \<leftarrow> zlist_at m (nat (sint v)) lst; s \<leftarrow> cstr m p;
                    Some (fld s False, as2, False)
                  })
         else if c = CHR ''D'' \<or> c = CHR ''T'' then Some (fmt_date v (c = CHR ''T''), as1, False)
         else Some (''%'' @ [c], as, False))"

text \<open>A directive of the code does what \<open>arg_text\<close> says, on either kind of output.\<close>

definition prints :: "fst \<Rightarrow> string \<Rightarrow> i64 list \<Rightarrow> bool \<Rightarrow> fst \<Rightarrow> bool" where
  "prints st t as flt st' \<longleftrightarrow> out_text (f_out st') = out_text (f_out st) @ t
     \<and> o_stdout (f_out st') = o_stdout (f_out st) \<and> (out_ok (f_out st) \<longrightarrow> out_ok (f_out st'))
     \<and> f_args st' = as \<and> f_fault st' = (f_fault st \<or> flt)"

lemma prints_field:
  "prints (st\<lparr>f_args := as\<rparr>) (in_field body (fs_width f) (fs_left f) zero) as False
     (put_field body f zero (st\<lparr>f_args := as\<rparr>))"
  by (simp add: prints_def put_field_def out_simps)

lemma prints_args: "prints (st\<lparr>f_args := as\<rparr>) t bs flt st' \<longleftrightarrow> prints st t bs flt st'"
  by (simp add: prints_def)

lemmas prints_fields = prints_field [unfolded prints_args]

lemma rel_if:
  "(b \<Longrightarrow> rel_option R x x') \<Longrightarrow> (\<not> b \<Longrightarrow> rel_option R y y')
    \<Longrightarrow> rel_option R (if b then x else y) (if b then x' else y')"
  by simp

lemma rel_bind:
  "(\<And>x. y = Some x \<Longrightarrow> rel_option R (g x) (h x)) \<Longrightarrow> rel_option R (Option.bind y g) (Option.bind y h)"
  by (cases y) auto

lemma convert_arg_text:
  "rel_option (\<lambda>st' (t, as, flt). prints st t as flt st') (convert_arg m f c st) (arg_text m f c (f_args st))"
  unfolding convert_arg_def arg_text_def Let_def case_prod_beta
  by (intro rel_if rel_bind)
    (simp_all add: prints_fields packed_out0 put_tmp_def, simp_all add: prints_def put_field_def out_simps next_arg_def)

text \<open>The whole format: what it prints, without any buffer.\<close>

definition fmt_cons :: "string \<Rightarrow> bool \<Rightarrow> string \<times> i64 list \<times> bool \<Rightarrow> string \<times> i64 list \<times> bool" where
  "fmt_cons t flt r = (case r of (u, as, g) \<Rightarrow> (t @ u, as, flt \<or> g))"

function fmt_text :: "mem \<Rightarrow> string \<Rightarrow> i64 list \<Rightarrow> (string \<times> i64 list \<times> bool) option" where
  "fmt_text m [] as = Some ([], as, False)"
| "fmt_text m (c # cs) as =
     (if c \<noteq> CHR ''%'' then map_option (fmt_cons [c] False) (fmt_text m cs as)
      else case cs of
             [] \<Rightarrow> Some ([], as, False)
           | d # ds \<Rightarrow>
               if d = CHR ''%'' then map_option (fmt_cons ''%'' False) (fmt_text m ds as)
               else (case read_spec cs of
                       (f, []) \<Rightarrow> Some ([CHR ''%'', CHR 0x00], as, True)
                     | (f, k # ks) \<Rightarrow> do {
                         (t, as1, flt) \<leftarrow> arg_text m f k as;
                         map_option (fmt_cons t flt) (fmt_text m ks as1)
                       }))"
  by pat_completeness auto
termination
proof (relation "measure (\<lambda>(m, s, as). length s)", goal_cases)
  case prems: 4
  then show ?case using read_spec_length [of "_ # _"] by (auto dest!: spec_shorter)
qed auto

lemma prints_trans:
  "prints st t as flt st1 \<Longrightarrow> prints st1 u bs g st2 \<Longrightarrow> prints st (t @ u) bs (flt \<or> g) st2"
  by (auto simp: prints_def)

lemma rel_map_cons:
  assumes "prints st t as flt st1"
    and "rel_option (\<lambda>st' (u, bs, g). prints st1 u bs g st') x y"
  shows "rel_option (\<lambda>st' (u, bs, g). prints st u bs g st') x (map_option (fmt_cons t flt) y)"
  using assms(2)
  by (cases x; cases y) (auto simp: fmt_cons_def intro: prints_trans [OF assms(1)])

lemma hc_format_text:
  "rel_option (\<lambda>st' (t, as, flt). prints st t as flt st') (hc_format m s st) (fmt_text m s (f_args st))"
proof (induction m s st rule: hc_format.induct)
  case (1 m st)
  show ?case by (simp add: prints_def)
next
  case (2 m c cs st)
  have emit: "prints st t (f_args st) False (st\<lparr>f_out := out_emit t (f_out st)\<rparr>)" for t
    by (simp add: prints_def out_simps)
  show ?case
  proof (cases "c = CHR ''%''")
    case False
    with "2.IH"(1) show ?thesis by (simp add: rel_map_cons [OF emit])
  next
    case pc: True
    show ?thesis
    proof (cases cs)
      case Nil
      with pc show ?thesis by (simp add: prints_def)
    next
      case (Cons d ds)
      show ?thesis
      proof (cases "d = CHR ''%''")
        case True
        with pc Cons "2.IH"(2) show ?thesis by (simp add: rel_map_cons [OF emit])
      next
        case False
        obtain f r where r: "read_spec cs = (f, r)" by fastforce
        show ?thesis
        proof (cases r)
          case Nil
          with pc Cons False r show ?thesis by (simp add: prints_def out_simps)
        next
          case (Cons k ks)
          have IH: "rel_option (\<lambda>st' (t, as, flt). prints st1 t as flt st') (hc_format m ks st1) (fmt_text m ks (f_args st1))"
            if "convert_arg m f k st = Some st1" for st1
            by (rule "2.IH"(3) [of d ds f r k ks]) (use pc \<open>cs = d # ds\<close> False r Cons that in simp_all)
          have eqs: "hc_format m (c # cs) st = Option.bind (convert_arg m f k st) (hc_format m ks)"
            "fmt_text m (c # cs) (f_args st) = Option.bind (arg_text m f k (f_args st))
               (\<lambda>(t, as1, flt). map_option (fmt_cons t flt) (fmt_text m ks as1))"
            using pc \<open>cs = d # ds\<close> False r Cons by simp_all
          show ?thesis
          proof (cases "convert_arg m f k st")
            case None
            then have "arg_text m f k (f_args st) = None" using convert_arg_text [of st m f k] by simp
            with None show ?thesis unfolding eqs by simp
          next
            case (Some st1)
            then obtain t as1 flt where a: "arg_text m f k (f_args st) = Some (t, as1, flt)"
                and p: "prints st t as1 flt st1"
              using convert_arg_text [of st m f k] by (cases "arg_text m f k (f_args st)") auto
            then have "f_args st1 = as1" by (simp add: prints_def)
            with Some a show ?thesis unfolding eqs using rel_map_cons [OF p IH [OF Some]] by simp
          qed
        qed
      qed
    qed
  qed
qed

lemma format_text:
  "rel_option (\<lambda>st (t, as', flt). out_text (f_out st) = out_text o' @ t \<and> f_fault st = flt
       \<and> (out_ok o' \<longrightarrow> out_ok (f_out st)))
     (format m s as o') (fmt_text m s as)"
  using hc_format_text [of "\<lparr>f_out = o', f_args = as, f_fault = False\<rparr>" m s]
  by (auto simp: format_def prints_def elim!: option.rel_mono_strong)

subsection \<open>The value of a printed number\<close>

lemma rev_low_digits: "0 < n \<Longrightarrow> rev (low_digits 10 False n) = dec_of_nat n"
proof (induction n rule: dec_of_nat.induct)
  case (1 n)
  show ?case
  proof (cases "n < 10")
    case True
    with "1.prems" have "low_digits 10 False n = [digit_char n]"
      by (subst low_digits.simps, subst low_digits.simps) (simp add: digit_of_def)
    with True show ?thesis by (subst dec_of_nat.simps) simp
  next
    case False
    with "1.IH" have "rev (low_digits 10 False (n div 10)) = dec_of_nat (n div 10)" by simp
    with False show ?thesis
      by (subst low_digits.simps, subst dec_of_nat.simps) (simp add: digit_of_def)
  qed
qed

lemma dec_of_nat_0: "dec_of_nat 0 = ''0''"
  by (subst dec_of_nat.simps) (simp add: digit_char_def char_of_def bit_0 bit_Suc)

text \<open>The digits of \<open>int_body\<close> in base ten.\<close>

lemma int_body_dec: "int_body v 10 False commas neg = (if neg then ''-'' else []) @ group_digits commas (dec_of_nat (unat v))"
  by (cases "v = 0") (simp_all add: int_body_def dec_of_nat_0 rev_low_digits unat_gt_0)

text \<open>Grouping by thousands, as a function on numbers.\<close>

fun thousands :: "nat \<Rightarrow> string" where
  "thousands n = (if n < 1000 then dec_of_nat n
     else thousands (n div 1000) @ CHR '','' # pad_left 3 CHR ''0'' (dec_of_nat (n mod 1000)))"

declare thousands.simps [simp del]

lemma group_digits_snoc:
  "group_digits True (xs @ [a, b, c])
     = (if xs = [] then [a, b, c] else group_digits True xs @ [CHR '','', a, b, c])"
proof (induction xs)
  case (Cons x xs)
  have "length (xs @ [a, b, c]) mod 3 = length xs mod 3" by simp
  with Cons show ?case by (cases "xs = []") simp_all
qed simp

lemma dec_three:
  assumes "k < 1000"
  shows "pad_left 3 CHR ''0'' (dec_of_nat k)
      = [digit_char (k div 100), digit_char (k div 10 mod 10), digit_char (k mod 10)]"
proof -
  have z: "CHR ''0'' = digit_char 0" by (simp add: digit_char_def char_of_def bit_0 bit_Suc)
  consider "k < 10" | "10 \<le> k" "k < 100" | "100 \<le> k" by linarith
  then show ?thesis
  proof cases
    case 1
    then have "dec_of_nat k = [digit_char k]" by (subst dec_of_nat.simps) simp
    with 1 show ?thesis by (simp add: z numeral_2_eq_2)
  next
    case 2
    then have "dec_of_nat (k div 10) = [digit_char (k div 10)]" by (subst dec_of_nat.simps) simp
    with 2 have "dec_of_nat k = [digit_char (k div 10), digit_char (k mod 10)]" by (subst dec_of_nat.simps) simp
    with 2 show ?thesis by (simp add: z)
  next
    case 3
    then have "dec_of_nat (k div 10 div 10) = [digit_char (k div 10 div 10)]"
      using assms by (subst dec_of_nat.simps) auto
    with 3 have "dec_of_nat (k div 10) = [digit_char (k div 10 div 10), digit_char (k div 10 mod 10)]"
      by (subst dec_of_nat.simps) auto
    with 3 have "dec_of_nat k = [digit_char (k div 10 div 10), digit_char (k div 10 mod 10), digit_char (k mod 10)]"
      by (subst dec_of_nat.simps) simp
    then show ?thesis by (simp add: div_mult2_eq [symmetric])
  qed
qed

lemma dec_of_nat_thousand:
  assumes "1000 \<le> n"
  shows "dec_of_nat n = dec_of_nat (n div 1000) @ pad_left 3 CHR ''0'' (dec_of_nat (n mod 1000))"
proof -
  have step: "dec_of_nat k = dec_of_nat (k div 10) @ [digit_char (k mod 10)]" if "10 \<le> k" for k
    using that by (subst dec_of_nat.simps) simp
  have q: "n div 10 div 10 = n div 100" "n div 100 div 10 = n div 1000" by (simp_all add: div_mult2_eq [symmetric])
  have le: "10 \<le> n" "10 \<le> n div 10" "10 \<le> n div 100" using assms by linarith+
  have "dec_of_nat n = dec_of_nat (n div 1000) @ [digit_char (n div 100 mod 10), digit_char (n div 10 mod 10), digit_char (n mod 10)]"
    by (simp only: step [OF le(1)] step [OF le(2), unfolded q] step [OF le(3), unfolded q] append_assoc append.simps)
  moreover have "n mod 1000 div 100 = n div 100 mod 10" using mod_mult2_eq [of n 100 10] by simp
  moreover have "n mod 1000 div 10 mod 10 = n div 10 mod 10"
    using mod_mult2_eq [of n 10 100] by (simp add: mod_mod_cancel)
  moreover have "n mod 1000 mod 10 = n mod 10" by (simp add: mod_mod_cancel)
  moreover have "n mod 1000 < 1000" by simp
  ultimately show ?thesis by (simp only: dec_three)
qed

lemma group_short: "length xs \<le> 3 \<Longrightarrow> group_digits True xs = xs"
proof (induction xs)
  case (Cons x xs)
  then have "xs = [] \<or> length xs mod 3 \<noteq> 0" by (cases xs) auto
  with Cons show ?case by auto
qed simp

lemma group_thousands: "group_digits True (dec_of_nat n) = thousands n"
proof (induction n rule: thousands.induct)
  case (1 n)
  show ?case
  proof (cases "n < 1000")
    case True
    have "length (dec_of_nat n) \<le> length (pad_left 3 CHR ''0'' (dec_of_nat n))" by simp
    also have "\<dots> = 3" unfolding dec_three [OF True] by simp
    finally have "length (dec_of_nat n) \<le> 3" .
    with True show ?thesis by (subst thousands.simps) (simp add: group_short)
  next
    case False
    then have n: "dec_of_nat n = dec_of_nat (n div 1000) @ pad_left 3 CHR ''0'' (dec_of_nat (n mod 1000))"
      by (intro dec_of_nat_thousand) simp
    have "n mod 1000 < 1000" by simp
    note three = dec_three [OF this]
    have "group_digits True (dec_of_nat n)
        = group_digits True (dec_of_nat (n div 1000)) @ CHR '','' # pad_left 3 CHR ''0'' (dec_of_nat (n mod 1000))"
      unfolding n three by (simp only: group_digits_snoc dec_of_nat_nonempty if_False)
    with False "1.IH" show ?thesis by (subst thousands.simps) (simp del: pad_left.simps)
  qed
qed

lemma group_off: "group_digits False xs = xs"
  by (induction xs) simp_all

lemma unat_of_int_64: "0 \<le> i \<Longrightarrow> i < 2 ^ 64 \<Longrightarrow> unat (word_of_int i :: i64) = nat i"
  by (simp add: unsigned_of_int take_bit_int_eq_self)

text \<open>What \<open>%d\<close> prints: the sign, then the magnitude, grouped or not. The most negative integer is
  printed in full.\<close>

lemma int_text_eq:
  "int_text f v = (if sint v < 0 then ''-'' else if fs_plus f then ''+'' else [])
     @ (if fs_commas f then thousands else dec_of_nat) (nat \<bar>sint v\<bar>)"
proof -
  have neg: "slt v 0 \<longleftrightarrow> sint v < 0" by (simp add: slt_def)
  have "unat (if slt v 0 then - (v + 1) + 1 else v) = nat \<bar>sint v\<bar>"
  proof -
    have "(if slt v 0 then - (v + 1) + 1 else v) = word_of_int \<bar>sint v\<bar>"
      by (simp add: neg)
    moreover have "\<bar>sint v\<bar> < 2 ^ 64" using sint_range_64 [of v] by auto
    ultimately show ?thesis by (simp add: unat_of_int_64)
  qed
  then show ?thesis
    by (simp add: int_text_def Let_def int_body_dec neg group_thousands group_off)
qed

end
