(* ===== verification/HC_RtDate.thy ===== *)
theory HC_RtDate
  imports HC_RtFormat
begin

text \<open>
  The date printed by \<open>%D\<close> is right: \<open>civil\<close>, the days-to-date computation of \<open>fmt_date\<close>, follows
  the proleptic Gregorian calendar, given by the rule for the next day, on all integers.
\<close>

subsection \<open>The calendar\<close>

definition leap :: "int \<Rightarrow> bool" where
  "leap y \<longleftrightarrow> y mod 4 = 0 \<and> (y mod 100 \<noteq> 0 \<or> y mod 400 = 0)"

definition month_length :: "int \<Rightarrow> int \<Rightarrow> int" where
  "month_length y m = (if m = 2 then (if leap y then 29 else 28) else if m \<in> {4, 6, 9, 11} then 30 else 31)"

fun next_day :: "int \<times> int \<times> int \<Rightarrow> int \<times> int \<times> int" where
  "next_day (y, m, d) =
     (if d < month_length y m then (y, m, d + 1) else if m < 12 then (y, m + 1, 1) else (y + 1, 1, 1))"

subsection \<open>Days of an era\<close>

text \<open>
  A day of the 400-year era that starts on the first of March: the century, the quadrennium, the
  year in it, and the day of that year, which has 366 days when its February is the leap one.
\<close>

definition year_end :: "int \<Rightarrow> int \<Rightarrow> int \<Rightarrow> int" where
  "year_end c q r = (if r = 3 \<and> (q < 24 \<or> c = 3) then 365 else 364)"

definition era_day :: "int \<Rightarrow> int \<Rightarrow> int \<Rightarrow> int \<Rightarrow> bool" where
  "era_day c q r doy \<longleftrightarrow> 0 \<le> c \<and> c \<le> 3 \<and> 0 \<le> q \<and> q \<le> 24 \<and> 0 \<le> r \<and> r \<le> 3 \<and> 0 \<le> doy \<and> doy \<le> year_end c q r"

definition day_of :: "int \<Rightarrow> int \<Rightarrow> int \<Rightarrow> int \<Rightarrow> int" where
  "day_of c q r doy = 36524 * c + 1461 * q + 365 * r + doy"

lemma div_unique: "b * k \<le> a \<Longrightarrow> a < b * k + b \<Longrightarrow> a div b = (k :: int)"
proof -
  assume "b * k \<le> a" "a < b * k + b"
  moreover from this have "0 < b" by linarith
  ultimately show ?thesis using div_pos_pos_trivial [of "a - b * k" b] div_mult_self2 [of b "a - b * k" k]
    by simp
qed

lemma day_of_range: "era_day c q r doy \<Longrightarrow> 0 \<le> day_of c q r doy \<and> day_of c q r doy < 146097"
  by (auto simp: era_day_def day_of_def year_end_def split: if_splits)

text \<open>The year of the era, as the code computes it from the day.\<close>

lemma yoe_of_day:
  assumes d: "era_day c q r doy" and "doe = day_of c q r doy"
  shows "(doe - doe div 1460 + doe div 36524 - doe div 146096) div 365 = 100 * c + 4 * q + r"
proof -
  have b: "0 \<le> c" "c \<le> 3" "0 \<le> q" "q \<le> 24" "0 \<le> r" "r \<le> 3" "0 \<le> doy" "doy \<le> year_end c q r"
    using d by (simp_all add: era_day_def)
  have doe: "doe = 36524 * c + 1461 * q + 365 * r + doy" using assms(2) by (simp add: day_of_def)
  have century: "doe div 36524 - doe div 146096 = c"
  proof (cases "doe = 146096")
    case True
    then have "c = 3" using b doe by (auto simp: year_end_def split: if_splits)
    with True show ?thesis by simp
  next
    case False
    have "doe div 36524 = c"
      by (rule div_unique) (use b doe False in \<open>auto simp: year_end_def split: if_splits\<close>)
    moreover have "doe div 146096 = 0"
      by (rule div_unique) (use day_of_range [OF d] assms(2) False in auto)
    ultimately show ?thesis by simp
  qed
  define carry :: int where "carry = (if 1460 \<le> 24 * c + q + 365 * r + doy then 1 else 0)"
  have quad: "doe div 1460 = 25 * c + q + carry"
    by (rule div_unique) (use b doe in \<open>auto simp: carry_def year_end_def split: if_splits\<close>)
  have "0 \<le> doy - carry" "doy - carry \<le> 364"
    using b by (auto simp: carry_def year_end_def split: if_splits)
  moreover have "doe - doe div 1460 + doe div 36524 - doe div 146096 = 365 * (100 * c + 4 * q + r) + (doy - carry)"
    using century quad doe by simp
  ultimately show ?thesis by (intro div_unique) auto
qed

text \<open>The date of a day, from its decomposition.\<close>

definition md :: "int \<Rightarrow> int \<times> int" where
  "md doy = (let mp = (5 * doy + 2) div 153 in (mp, doy - (153 * mp + 2) div 5 + 1))"

definition era_date :: "int \<Rightarrow> int \<Rightarrow> int \<Rightarrow> int \<Rightarrow> int \<Rightarrow> int \<times> int \<times> int" where
  "era_date era c q r doy =
     (case md doy of (mp, d) \<Rightarrow>
        let m = (if mp < 10 then mp + 3 else mp - 9); y = 400 * era + 100 * c + 4 * q + r
        in (if m \<le> 2 then y + 1 else y, m, d))"

lemma floor_era: "(if 0 \<le> z then z else z - 146096) sdiv 146097 = z div (146097 :: int)"
proof (cases "0 \<le> z")
  case True
  then show ?thesis by (cases "z = 0") (simp_all add: signed_divide_int_def)
next
  case False
  have "- ((146096 - z) div 146097) = z div 146097"
  proof -
    have "z = 146097 * (z div 146097) + z mod 146097" by simp
    moreover have "0 \<le> z mod 146097" "z mod 146097 < 146097" by simp_all
    ultimately have "(146096 - z) div 146097 = - (z div 146097)" by (intro div_unique) linarith+
    then show ?thesis by simp
  qed
  with False show ?thesis by (simp add: signed_divide_int_def)
qed

lemma civil_era:
  assumes d: "era_day c q r doy"
  shows "civil (146097 * era + day_of c q r doy + 60) = era_date era c q r doy"
proof -
  let ?doe = "day_of c q r doy" and ?z = "146097 * era + day_of c q r doy"
  have "?z div 146097 = era" by (rule div_unique) (use day_of_range [OF d] in auto)
  then have era: "(if 0 \<le> ?z then ?z else ?z - 146096) sdiv 146097 = era" by (simp only: floor_era)
  have yoe: "(?doe - ?doe div 1460 + ?doe div 36524 - ?doe div 146096) div 365 = 100 * c + 4 * q + r"
    by (rule yoe_of_day [OF d refl])
  have b: "0 \<le> c" "c \<le> 3" "0 \<le> q" "q \<le> 24" "0 \<le> r" "r \<le> 3"
    using d by (simp_all add: era_day_def)
  have "(100 * c + 4 * q + r) div 4 = 25 * c + q" by (rule div_unique) (use b in simp_all)
  moreover have "(100 * c + 4 * q + r) div 100 = c" by (rule div_unique) (use b in simp_all)
  ultimately have doy: "?doe - (365 * (100 * c + 4 * q + r) + (100 * c + 4 * q + r) div 4 - (100 * c + 4 * q + r) div 100) = doy"
    by (simp add: day_of_def)
  have z: "146097 * era + day_of c q r doy + 60 - 719528 + 719468 = ?z" by simp
  have sub: "?z - era * 146097 = ?doe" by simp
  have year: "100 * c + 4 * q + r + era * 400 = 400 * era + 100 * c + 4 * q + r" by simp
  show ?thesis
    by (simp only: civil_def era_date_def md_def Let_def prod.case z era sub yoe doy year)
qed

text \<open>The months from March on.\<close>

lemma fifth: "5 * (n div 5) \<le> n \<and> n < 5 * (n div 5) + (5 :: int)"
  by (simp add: minus_mod_eq_mult_div [symmetric])

lemma le_fifth: "n div 5 \<le> k \<longleftrightarrow> n < 5 * k + (5 :: int)"
  and less_fifth: "k < n div 5 \<longleftrightarrow> 5 * k + 5 \<le> (n :: int)"
  using fifth [of n] by (auto simp: not_less [symmetric]; linarith)+

lemma month_bounds:
  assumes "0 \<le> k" and "k \<le> 11" and "(153 * k + 2) div 5 \<le> doy" and "doy < (153 * (k + 1) + 2) div 5"
  shows "md doy = (k, doy - (153 * k + 2) div 5 + 1)"
proof -
  define u w where "u = (153 * k + 2) div 5" and "w = (153 * (k + 1) + 2) div 5"
  have "5 * u \<le> 153 * k + 2 \<and> 153 * k + 2 < 5 * u + 5" "5 * w \<le> 153 * (k + 1) + 2"
    using fifth [of "153 * k + 2"] fifth [of "153 * (k + 1) + 2"] unfolding u_def w_def by blast+
  moreover have "153 * (k + 1) + 2 = 153 * k + 155" by simp
  moreover have "u \<le> doy" "doy < w" using assms by (simp_all only: u_def w_def)
  ultimately have "153 * k \<le> 5 * doy + 2" "5 * doy + 2 < 153 * k + 153" by linarith+
  then have "(5 * doy + 2) div 153 = k" by (rule div_unique)
  then show ?thesis by (simp add: md_def)
qed

lemma month_exists:
  fixes doy :: int
  assumes "0 \<le> doy" and "doy \<le> 365"
  obtains k where "0 \<le> k" and "k \<le> 11" and "(153 * k + 2) div 5 \<le> doy" and "doy < (153 * (k + 1) + 2) div 5"
proof (rule that)
  let ?k = "(5 * doy + 2) div 153"
  define m where "m = (5 * doy + 2) mod 153"
  have k: "5 * doy + 2 = 153 * ?k + m" "0 \<le> m" "m < 153" by (simp_all add: m_def)
  show "0 \<le> ?k" "?k \<le> 11" using assms k by linarith+
  show "(153 * ?k + 2) div 5 \<le> doy" "doy < (153 * (?k + 1) + 2) div 5"
    using k by (simp_all add: le_fifth less_fifth)
qed

text \<open>Inside a year that starts in March, the next day follows the calendar.\<close>

lemma mod_top: "1 \<le> x \<Longrightarrow> x \<le> n \<Longrightarrow> x mod n = 0 \<longleftrightarrow> x = (n :: int)"
  by (cases "x = n") auto

lemma march_leap:
  assumes "0 \<le> c" "c \<le> 3" "0 \<le> q" "q \<le> 24" "0 \<le> r" "r \<le> (3 :: int)"
  shows "leap (400 * era + 100 * c + 4 * q + r + 1) \<longleftrightarrow> r = 3 \<and> (q < 24 \<or> c = 3)"
proof -
  define y where "y = 400 * era + 100 * c + 4 * q + r + 1"
  have m4: "y mod 4 = 0 \<longleftrightarrow> r = 3"
  proof -
    have "y = 4 * (100 * era + 25 * c + q) + (r + 1)" by (simp add: y_def)
    then have "y mod 4 = (r + 1) mod 4" by (metis mod_mult_self4 add.commute)
    then show ?thesis using assms by presburger
  qed
  have m100: "y mod 100 = 0 \<longleftrightarrow> r = 3 \<and> q = 24"
  proof -
    have "y = 100 * (4 * era + c) + (4 * q + r + 1)" by (simp add: y_def)
    then have "y mod 100 = (4 * q + r + 1) mod 100" by (metis mod_mult_self4 add.commute)
    moreover have "(4 * q + r + 1) mod 100 = 0 \<longleftrightarrow> 4 * q + r + 1 = 100"
      by (rule mod_top) (use assms in linarith)+
    moreover have "4 * q + r + 1 = 100 \<longleftrightarrow> r = 3 \<and> q = 24" using assms by presburger
    ultimately show ?thesis by simp
  qed
  have m400: "y mod 400 = 0 \<longleftrightarrow> r = 3 \<and> q = 24 \<and> c = 3"
  proof -
    have "y = 400 * era + (100 * c + 4 * q + r + 1)" by (simp add: y_def)
    then have "y mod 400 = (100 * c + 4 * q + r + 1) mod 400" by (metis mod_mult_self4 add.commute)
    moreover have "(100 * c + 4 * q + r + 1) mod 400 = 0 \<longleftrightarrow> 100 * c + 4 * q + r + 1 = 400"
      by (rule mod_top) (use assms in linarith)+
    moreover have "100 * c + 4 * q + r + 1 = 400 \<longleftrightarrow> r = 3 \<and> q = 24 \<and> c = 3" using assms by presburger
    ultimately show ?thesis by simp
  qed
  show ?thesis using m4 m100 m400 assms by (auto simp: leap_def y_def)
qed

lemma twelve:
  "0 \<le> k \<Longrightarrow> k \<le> 11 \<Longrightarrow> k = 0 \<or> k = 1 \<or> k = 2 \<or> k = 3 \<or> k = 4 \<or> k = 5 \<or> k = 6 \<or> k = 7 \<or> k = 8 \<or> k = 9
     \<or> k = 10 \<or> k = (11 :: int)"
  by presburger

lemma next_in_year:
  assumes "era_day c q r doy" and "doy < year_end c q r"
  shows "era_date era c q r (doy + 1) = next_day (era_date era c q r doy)"
proof -
  have b: "0 \<le> c" "c \<le> 3" "0 \<le> q" "q \<le> 24" "0 \<le> r" "r \<le> 3" "0 \<le> doy" "doy + 1 \<le> 365"
    using assms by (auto simp: era_day_def year_end_def split: if_splits)
  note lp = march_leap [OF b(1-6), of era]
  obtain k where k: "0 \<le> k" "k \<le> 11" "(153 * k + 2) div 5 \<le> doy" "doy < (153 * (k + 1) + 2) div 5"
    using b by (auto elim: month_exists [of doy])
  have now: "md doy = (k, doy - (153 * k + 2) div 5 + 1)" using k by (rule month_bounds)
  show ?thesis
  proof (cases "doy + 1 < (153 * (k + 1) + 2) div 5")
    case True
    then have "md (doy + 1) = (k, doy + 1 - (153 * k + 2) div 5 + 1)" using k by (intro month_bounds) auto
    with now True lp assms(2) b show ?thesis
      using twelve [OF k(1,2)] by (elim disjE) (auto simp: era_date_def month_length_def year_end_def split: if_splits)
  next
    case False
    then have last: "doy + 1 = (153 * (k + 1) + 2) div 5" using k by simp
    have "k \<noteq> 11" using last b by auto
    have "(153 * (k + 1) + 2) div 5 < (153 * (k + 1 + 1) + 2) div 5"
      using fifth [of "153 * (k + 1) + 2"] unfolding less_fifth by (simp add: distrib_left)
    then have "md (doy + 1) = (k + 1, doy + 1 - (153 * (k + 1) + 2) div 5 + 1)"
      by (intro month_bounds) (use k last \<open>k \<noteq> 11\<close> in linarith)+
    with now last \<open>k \<noteq> 11\<close> show ?thesis
      using twelve [OF k(1,2)] by (elim disjE) (simp_all add: era_date_def month_length_def)
  qed
qed

text \<open>The last day of such a year, the last of February, is followed by the first of March.\<close>

lemma last_of_year:
  assumes "era_day c q r doy" and "doy = year_end c q r"
  shows "next_day (era_date era c q r doy) = (400 * era + 100 * c + 4 * q + r + 1, 3, 1)"
proof -
  have b: "0 \<le> c" "c \<le> 3" "0 \<le> q" "q \<le> 24" "0 \<le> r" "r \<le> 3" using assms(1) by (simp_all add: era_day_def)
  note lp = march_leap [OF b, of era]
  have "md doy = (11, doy - 337 + 1)"
    using month_bounds [of 11 doy] assms(2) by (auto simp: year_end_def split: if_splits)
  with lp assms(2) show ?thesis
    by (auto simp: era_date_def month_length_def year_end_def)
qed

lemma first_of_year: "era_date era c q r 0 = (400 * era + 100 * c + 4 * q + r, 3, 1)"
  by (simp add: era_date_def md_def)

text \<open>Every day has a decomposition, and \<open>civil\<close> of the next day is the next day of \<open>civil\<close>.\<close>

definition decomposes :: "int \<Rightarrow> int \<Rightarrow> int \<Rightarrow> int \<Rightarrow> int \<Rightarrow> int \<Rightarrow> bool" where
  "decomposes n era c q r doy \<longleftrightarrow> era_day c q r doy \<and> n = 146097 * era + day_of c q r doy + 60"

lemma decomposes_next:
  assumes "decomposes n era c q r doy"
  shows "\<exists>era' c' q' r' doy'. decomposes (n + 1) era' c' q' r' doy'
     \<and> era_date era' c' q' r' doy' = next_day (era_date era c q r doy)"
proof -
  have d: "era_day c q r doy" and n: "n = 146097 * era + day_of c q r doy + 60"
    using assms by (simp_all add: decomposes_def)
  have b: "0 \<le> c" "c \<le> 3" "0 \<le> q" "q \<le> 24" "0 \<le> r" "r \<le> 3" "0 \<le> doy" "doy \<le> year_end c q r"
    using d by (simp_all add: era_day_def)
  show ?thesis
  proof (cases "doy < year_end c q r")
    case True
    have "decomposes (n + 1) era c q r (doy + 1)"
      using b True n by (simp add: decomposes_def era_day_def day_of_def)
    with next_in_year [OF d True] show ?thesis by blast
  next
    case False
    then have e: "doy = year_end c q r" using b by simp
    note nx = last_of_year [OF d e, of era]
    consider "r < 3" | "r = 3" "q < 24" | "r = 3" "q = 24" "c < 3" | "r = 3" "q = 24" "c = 3"
      using b by linarith
    then show ?thesis
    proof cases
      case 1
      have "decomposes (n + 1) era c q (r + 1) 0"
        using b e n 1 by (simp add: decomposes_def era_day_def day_of_def year_end_def)
      with nx first_of_year [of era c q "r + 1"] show ?thesis by (metis (no_types, opaque_lifting) add.assoc)
    next
      case 2
      have "decomposes (n + 1) era c (q + 1) 0 0"
        using b e n 2 by (simp add: decomposes_def era_day_def day_of_def year_end_def)
      moreover have "era_date era c (q + 1) 0 0 = next_day (era_date era c q r doy)"
        using 2 nx by (simp add: first_of_year)
      ultimately show ?thesis by blast
    next
      case 3
      have "decomposes (n + 1) era (c + 1) 0 0 0"
        using b e n 3 by (simp add: decomposes_def era_day_def day_of_def year_end_def)
      moreover have "era_date era (c + 1) 0 0 0 = next_day (era_date era c q r doy)"
        using 3 nx by (simp add: first_of_year)
      ultimately show ?thesis by blast
    next
      case 4
      have "decomposes (n + 1) (era + 1) 0 0 0 0"
        using b e n 4 by (simp add: decomposes_def era_day_def day_of_def year_end_def)
      moreover have "era_date (era + 1) 0 0 0 0 = next_day (era_date era c q r doy)"
        using 4 nx by (simp add: first_of_year)
      ultimately show ?thesis by blast
    qed
  qed
qed

lemma decomposes_exists: "\<exists>era c q r doy. decomposes n era c q r doy"
proof -
  have up: "\<exists>era c q r doy. decomposes (60 + int k) era c q r doy" for k
  proof (induction k)
    case 0
    have "decomposes 60 0 0 0 0 0" by (simp add: decomposes_def era_day_def day_of_def year_end_def)
    then show ?case by simp blast
  next
    case (Suc k)
    then show ?case using decomposes_next by (fastforce simp: algebra_simps)
  qed
  define e where "e = (n - 60) div 146097"
  have "0 \<le> n - 60 - 146097 * e" by (simp add: e_def minus_mult_div_eq_mod)
  then obtain era c q r doy where "decomposes (n - 146097 * e) era c q r doy"
    using up [of "nat (n - 60 - 146097 * e)"] by auto
  then have "decomposes n (era + e) c q r doy" by (simp add: decomposes_def algebra_simps)
  then show ?thesis by blast
qed

lemma civil_decomposes: "decomposes n era c q r doy \<Longrightarrow> civil n = era_date era c q r doy"
  by (auto simp: decomposes_def civil_era)

lemma civil_next: "civil (n + 1) = next_day (civil n)"
proof -
  obtain era c q r doy where d: "decomposes n era c q r doy" using decomposes_exists by blast
  then obtain era' c' q' r' doy' where "decomposes (n + 1) era' c' q' r' doy'"
      "era_date era' c' q' r' doy' = next_day (era_date era c q r doy)"
    using decomposes_next by blast
  with d show ?thesis by (simp only: civil_decomposes)
qed

lemma civil_epoch: "civil 719528 = (1970, 1, 1)"
proof -
  have "decomposes 719528 4 3 17 1 306" by (simp add: decomposes_def era_day_def day_of_def year_end_def)
  then show ?thesis by (simp add: civil_decomposes era_date_def md_def)
qed

end
