(* ===== verification/HC_RtText.thy ===== *)
theory HC_RtText
  imports HC_RtFormatOk HC_RtDate HC_Scan
begin

text \<open>
  Where the front end and the runtime meet on text: a character constant packed by the lexer is
  printed back by \<open>HC_PutChars\<close>, and the strings the formatter quotes.
\<close>

subsection \<open>Packed characters\<close>

fun packed_nat :: "string \<Rightarrow> nat" where
  "packed_nat [] = 0"
| "packed_nat (c # cs) = byte c + 256 * packed_nat cs"

lemma packed_nat_less: "packed_nat cs < 256 ^ length cs"
proof (induction cs)
  case (Cons c cs)
  have "b + 256 * p < 256 * q" if "p < q" "b < 256" for b p q :: nat
    using that by linarith
  from this [OF Cons byte_less [of c]] show ?case by simp
qed simp

lemma pack_chars_nat: "pack_chars cs = of_nat (packed_nat cs)"
proof (induction cs)
  case Nil
  show ?case by (simp add: pack_chars_def)
next
  case (Cons c cs)
  have byte_bits: "\<not> bit (byte c) n" if "8 \<le> n" for n
  proof -
    have "(2 :: nat) ^ 8 \<le> 2 ^ n" using that by (rule power_increasing) simp
    then have "(256 :: nat) \<le> 2 ^ n" by simp
    with byte_less [of c] have "byte c < 2 ^ n" by (rule less_le_trans)
    then show ?thesis by (metis bit_iff_odd div_less even_zero)
  qed
  have "pack_chars (c # cs) = push_bit 8 (pack_chars cs) OR of_nat (byte c)"
    by (simp add: pack_chars_def)
  also have "\<dots> = push_bit 8 (pack_chars cs) + of_nat (byte c)"
    by (rule disjunctive_add [symmetric])
      (use byte_bits in \<open>auto simp: bit_push_bit_iff bit_of_nat_iff not_le\<close>)
  also have "\<dots> = of_nat (packed_nat (c # cs))"
    by (simp add: Cons push_bit_eq_mult)
  finally show ?case .
qed

lemma packed_nat_digit:
  "packed_nat cs div 256 ^ i mod 256 = (if i < length cs then byte (cs ! i) else 0)"
proof (induction cs arbitrary: i)
  case (Cons c cs)
  show ?case
  proof (cases i)
    case 0
    then show ?thesis using byte_less [of c] by simp
  next
    case (Suc j)
    have "(byte c + 256 * packed_nat cs) div 256 = packed_nat cs" using byte_less [of c] by simp
    then have "packed_nat (c # cs) div 256 ^ i = packed_nat cs div 256 ^ j"
      by (simp add: Suc div_mult2_eq)
    then show ?thesis using Cons Suc by simp
  qed
qed simp

lemma packed_byte_chars:
  assumes "length cs \<le> 8"
  shows "packed_byte (pack_chars cs) i = (if i < length cs then byte (cs ! i) else 0)"
proof -
  have "packed_nat cs < 256 ^ length cs" by (rule packed_nat_less)
  also have "(256 :: nat) ^ length cs \<le> 256 ^ 8" using assms by (rule power_increasing) simp
  finally have "packed_nat cs < 2 ^ 64" by simp
  then have "unat (pack_chars cs) = packed_nat cs"
    by (simp add: pack_chars_nat unsigned_of_nat take_bit_nat_eq_self)
  moreover have "(2 :: nat) ^ (8 * i) = 256 ^ i" by (simp add: power_mult)
  moreover have "unat (drop_bit (8 * i) (pack_chars cs)) = unat (pack_chars cs) div 2 ^ (8 * i)"
    by (simp only: unat_drop_bit_eq) (simp only: drop_bit_eq_div)
  ultimately have "packed_byte (pack_chars cs) i = packed_nat cs div 256 ^ i mod 256"
    by (simp only: packed_byte_def)
  then show ?thesis by (simp only: packed_nat_digit)
qed

lemma map_upt_nth: "map (\<lambda>i. if i < length xs then f (xs ! i) else z) [0..<length xs + k] = map f xs @ replicate k z"
proof (induction k)
  case 0
  show ?case by (rule nth_equalityI) auto
next
  case (Suc k)
  then show ?case by (simp add: replicate_append_same)
qed

text \<open>Printing a character constant prints its characters, as long as none is NUL.\<close>

lemma packed_text_pack:
  assumes "length cs \<le> 8" and "CHR 0x00 \<notin> set cs"
  shows "packed_text (pack_chars cs) = cs"
proof -
  have "[0..<8] = [0..<length cs + (8 - length cs)]" using assms(1) by simp
  then have "map (packed_byte (pack_chars cs)) [0..<8] = map byte cs @ replicate (8 - length cs) 0"
    using map_upt_nth [of cs byte 0 "8 - length cs"]
    by (simp only: packed_byte_chars [OF assms(1)] cong: map_cong)
  moreover have "byte c \<noteq> 0" if "c \<in> set cs" for c
  proof
    assume "byte c = 0"
    then have "c = char_of (0 :: nat)" by (metis char_of_byte)
    moreover have "char_of (0 :: nat) = CHR 0x00" by (simp add: char_of_def bit_0)
    ultimately show False using that assms(2) by simp
  qed
  then have "filter (\<lambda>b. b \<noteq> 0) (map byte cs) = map byte cs" by (auto simp: filter_id_conv)
  ultimately show ?thesis
    by (simp add: packed_text_def comp_def)
qed

end
