(* ===== verification/HC_RtHeap.thy ===== *)
theory HC_RtHeap
  imports HC_RtText
begin

text \<open>
  Memory and strings of \<open>hcrt.c\<close>: blocks with a header in front (\<open>HC_MAlloc\<close> to \<open>HC_Free\<close>), and
  the functions on NUL-terminated strings. The allocator of the C library is a parameter, of
  which only the documented behaviour is used (\<open>libc_ok\<close>).
\<close>

subsection \<open>Bytes\<close>

fun bytes_of_nat :: "nat \<Rightarrow> nat \<Rightarrow> 8 word list" where
  "bytes_of_nat 0 n = []"
| "bytes_of_nat (Suc k) n = of_nat (n mod 256) # bytes_of_nat k (n div 256)"

fun nat_of_bytes :: "8 word list \<Rightarrow> nat" where
  "nat_of_bytes [] = 0"
| "nat_of_bytes (b # bs) = unat b + 256 * nat_of_bytes bs"

text \<open>Writing and reading a run of bytes; addresses wrap around.\<close>

definition store_bytes :: "i64 \<Rightarrow> 8 word list \<Rightarrow> mem \<Rightarrow> mem" where
  "store_bytes a bs m = (\<lambda>x. let i = unat (x - a) in if i < length bs then bs ! i else m x)"

definition load_bytes :: "mem \<Rightarrow> i64 \<Rightarrow> nat \<Rightarrow> 8 word list" where
  "load_bytes m a n = map (\<lambda>i. m (a + of_nat i)) [0..<n]"

definition store64 :: "i64 \<Rightarrow> i64 \<Rightarrow> mem \<Rightarrow> mem" where
  "store64 a v m = store_bytes a (bytes_of_nat 8 (unat v)) m"

definition load64 :: "mem \<Rightarrow> i64 \<Rightarrow> i64" where
  "load64 m a = of_nat (nat_of_bytes (load_bytes m a 8))"

lemma length_bytes_of_nat [simp]: "length (bytes_of_nat k n) = k"
  by (induction k arbitrary: n) simp_all

lemma length_load_bytes [simp]: "length (load_bytes m a n) = n"
  by (simp add: load_bytes_def)

lemma nat_of_bytes_of_nat: "nat_of_bytes (bytes_of_nat k n) = n mod 256 ^ k"
proof (induction k arbitrary: n)
  case (Suc k)
  have "unat (of_nat (n mod 256) :: 8 word) = n mod 256"
    by (simp add: unsigned_of_nat take_bit_nat_eq_self)
  with Suc show ?case by (simp add: mod_mult2_eq)
qed simp

lemma offset_back: "k < 2 ^ 64 \<Longrightarrow> unat (a + of_nat k - a :: i64) = k"
  by (simp add: unsigned_of_nat take_bit_nat_eq_self)

lemma unat_of_nat_eq_64: "n < 2 ^ 64 \<Longrightarrow> unat (of_nat n :: i64) = n"
  by (simp add: unsigned_of_nat take_bit_nat_eq_self)

lemma load_store_same:
  assumes "length bs < 2 ^ 64"
  shows "load_bytes (store_bytes a bs m) a (length bs) = bs"
proof (rule nth_equalityI)
  fix i assume "i < length (load_bytes (store_bytes a bs m) a (length bs))"
  then have "i < length bs" by simp
  then show "load_bytes (store_bytes a bs m) a (length bs) ! i = bs ! i"
    using offset_back [of i a] assms by (simp add: load_bytes_def store_bytes_def)
qed simp

lemma load64_store64 [simp]: "load64 (store64 a v m) a = v"
proof -
  have "load_bytes (store64 a v m) a 8 = bytes_of_nat 8 (unat v)"
    using load_store_same [of "bytes_of_nat 8 (unat v)" a m] by (simp add: store64_def)
  moreover have "unat v < 2 ^ LENGTH(64)" by (rule unsigned_less)
  ultimately show ?thesis by (simp add: load64_def nat_of_bytes_of_nat)
qed

text \<open>Two runs of bytes that do not meet.\<close>

definition apart :: "i64 \<Rightarrow> nat \<Rightarrow> i64 \<Rightarrow> nat \<Rightarrow> bool" where
  "apart a n b k \<longleftrightarrow> (\<forall>i < n. \<forall>j < k. a + of_nat i \<noteq> b + of_nat j)"

lemma apart_sym: "apart a n b k \<longleftrightarrow> apart b k a n"
  by (auto simp: apart_def eq_commute)

lemma store_bytes_apart:
  assumes "apart a (length bs) b k" and "j < k"
  shows "store_bytes a bs m (b + of_nat j) = m (b + of_nat j)"
proof -
  have "\<not> unat (b + of_nat j - a) < length bs"
  proof
    assume l: "unat (b + of_nat j - a) < length bs"
    have "a + of_nat (unat (b + of_nat j - a)) = b + of_nat j" by simp
    with assms l show False by (metis apart_def)
  qed
  then show ?thesis by (simp add: store_bytes_def)
qed

lemma load_store_apart: "apart a (length bs) b k \<Longrightarrow> load_bytes (store_bytes a bs m) b k = load_bytes m b k"
  by (simp add: load_bytes_def store_bytes_apart)

subsection \<open>The allocator of the C library\<close>

text \<open>A heap: the bytes and the live blocks, each with its address and length.\<close>

record heap =
  h_mem :: mem
  h_blocks :: "(i64 \<times> nat) list"

record libc =
  lc_malloc :: "heap \<Rightarrow> nat \<Rightarrow> i64 option"
  lc_free :: "heap \<Rightarrow> i64 \<Rightarrow> mem"

text \<open>A call of a runtime function: it returns, or it ends the process with a status and a message.\<close>

datatype 'a outcome = Ret 'a heap | Exit int string | Crash

definition libc_alloc :: "libc \<Rightarrow> nat \<Rightarrow> heap \<Rightarrow> (i64 \<times> heap) option" where
  "libc_alloc lc n h = (case lc_malloc lc h n of None \<Rightarrow> None
     | Some a \<Rightarrow> Some (a, h\<lparr>h_blocks := (a, n) # h_blocks h\<rparr>))"

definition libc_release :: "libc \<Rightarrow> i64 \<Rightarrow> heap \<Rightarrow> heap" where
  "libc_release lc a h = \<lparr>h_mem = lc_free lc h a, h_blocks = filter (\<lambda>b. fst b \<noteq> a) (h_blocks h)\<rparr>"

text \<open>
  What is documented of \<open>malloc\<close> and \<open>free\<close>: a block is not null, does not wrap around and does
  not meet a live block; freeing a block touches no other one.
\<close>

definition libc_ok :: "libc \<Rightarrow> bool" where
  "libc_ok lc \<longleftrightarrow>
     (\<forall>h n a. lc_malloc lc h n = Some a \<longrightarrow>
        a \<noteq> 0 \<and> unat a + n < 2 ^ 64 \<and> (\<forall>(b, k) \<in> set (h_blocks h). apart a n b k \<and> a \<noteq> b)) \<and>
     (\<forall>h a n b k i. (a, n) \<in> set (h_blocks h) \<longrightarrow> (b, k) \<in> set (h_blocks h) \<longrightarrow> a \<noteq> b \<longrightarrow> i < k \<longrightarrow>
        lc_free lc h a (b + of_nat i) = h_mem h (b + of_nat i))"

lemma libc_free_other:
  "libc_ok lc \<Longrightarrow> (a, n) \<in> set (h_blocks h) \<Longrightarrow> (b, k) \<in> set (h_blocks h) \<Longrightarrow> a \<noteq> b \<Longrightarrow> i < k
    \<Longrightarrow> lc_free lc h a (b + of_nat i) = h_mem h (b + of_nat i)"
  unfolding libc_ok_def by blast

text \<open>Such an allocator exists: one that hands out memory upwards and never uses it again.\<close>

definition block_end :: "i64 \<times> nat \<Rightarrow> nat" where
  "block_end b = unat (fst b) + snd b + 1"

definition bump :: libc where
  "bump = \<lparr>lc_malloc = (\<lambda>h n. let a = foldr (\<lambda>b. max (block_end b)) (h_blocks h) 1
                             in if a + n < 2 ^ 64 then Some (of_nat a) else None),
           lc_free = (\<lambda>h a. h_mem h)\<rparr>"

lemma bump_above: "b \<in> set bs \<Longrightarrow> block_end b \<le> foldr (\<lambda>b. max (block_end b)) bs 1"
  by (induction bs) auto

lemma bump_ok: "libc_ok bump"
proof -
  have "a \<noteq> 0 \<and> unat a + n < 2 ^ 64 \<and> (\<forall>(b, k) \<in> set (h_blocks h). apart a n b k \<and> a \<noteq> b)"
    if m: "lc_malloc bump h n = Some a" for h n a
  proof -
    define e where "e = foldr (\<lambda>b. max (block_end b)) (h_blocks h) (1 :: nat)"
    have a: "a = of_nat e" and le: "e + n < 2 ^ 64"
      using m by (simp_all add: bump_def e_def Let_def split: if_splits)
    have "1 \<le> foldr (\<lambda>b. max (block_end b)) bs (1 :: nat)" for bs by (induction bs) auto
    then have "1 \<le> e" by (simp only: e_def)
    have ua: "unat a = e" unfolding a by (rule unat_of_nat_eq_64) (use le in simp)
    have "apart a n b k \<and> a \<noteq> b" if "(b, k) \<in> set (h_blocks h)" for b k
    proof
      have be: "unat b + k + 1 \<le> e" using bump_above [OF that] by (simp add: e_def block_end_def)
      then show "a \<noteq> b" using ua by auto
      show "apart a n b k" unfolding apart_def
      proof (intro allI impI notI)
        fix i j assume ij: "i < n" "j < k" "a + of_nat i = b + of_nat j"
        have "e + i < 2 ^ 64" "unat b + j < 2 ^ 64" using ij be le by linarith+
        moreover have "(of_nat (e + i) :: i64) = of_nat (unat b + j)" using ij(3) by (simp add: a)
        ultimately have "e + i = unat b + j" by (metis unat_of_nat_eq_64)
        then show False using ij be by simp
      qed
    qed
    then show ?thesis using ua \<open>1 \<le> e\<close> le by auto
  qed
  then show ?thesis by (simp add: libc_ok_def bump_def)
qed

subsection \<open>Blocks with a header\<close>

definition HC_MEM_MAGIC :: i64 where
  "HC_MEM_MAGIC = 0x686F6C79684D454D"

text \<open>The header is two 64-bit fields, the size and the magic number.\<close>

definition HC_MAlloc :: "libc \<Rightarrow> i64 \<Rightarrow> heap \<Rightarrow> i64 outcome" where
  "HC_MAlloc lc size0 h =
     (let sz = (if slt size0 0 then 0 else size0)
      in case libc_alloc lc (16 + unat sz) h of
           None \<Rightarrow> Exit 1 (''hcrt: out of memory (MAlloc '' @ to_string_i64 sz @ '')'' @ [CHR 0x0A])
         | Some (a, h1) \<Rightarrow>
             Ret (a + 16) (h1\<lparr>h_mem := store64 (a + 8) HC_MEM_MAGIC (store64 a sz (h_mem h1))\<rparr>))"

text \<open>\<open>HC_CAlloc\<close> clears with the size it was given: a negative one, which \<open>HC_MAlloc\<close> takes for 0,
  becomes a huge \<open>size_t\<close> and the clearing runs off the block.\<close>

definition HC_CAlloc :: "libc \<Rightarrow> i64 \<Rightarrow> heap \<Rightarrow> i64 outcome" where
  "HC_CAlloc lc sz h =
     (case HC_MAlloc lc sz h of
        Ret p h1 \<Rightarrow> if slt sz 0 then Crash
                    else Ret p (h1\<lparr>h_mem := store_bytes p (replicate (unat sz) 0) (h_mem h1)\<rparr>)
      | r \<Rightarrow> r)"

definition HC_MSize :: "i64 \<Rightarrow> heap \<Rightarrow> i64" where
  "HC_MSize p h =
     (if p = 0 then 0
      else if load64 (h_mem h) (p - 8) = HC_MEM_MAGIC then load64 (h_mem h) (p - 16) else 0)"

definition HC_MAllocIdent :: "libc \<Rightarrow> i64 \<Rightarrow> heap \<Rightarrow> i64 outcome" where
  "HC_MAllocIdent lc src h =
     (if src = 0 then Ret 0 h
      else (case HC_MAlloc lc (HC_MSize src h) h of
              Ret p h1 \<Rightarrow>
                Ret p (h1\<lparr>h_mem := store_bytes p (load_bytes (h_mem h1) src (unat (HC_MSize src h))) (h_mem h1)\<rparr>)
            | r \<Rightarrow> r))"

definition HC_Free :: "libc \<Rightarrow> i64 \<Rightarrow> heap \<Rightarrow> unit outcome" where
  "HC_Free lc p h =
     (if p = 0 then Ret () h
      else if load64 (h_mem h) (p - 8) \<noteq> HC_MEM_MAGIC
      then Exit 1 (''hcrt: Free() of ptr not from MAlloc()'' @ [CHR 0x0A])
      else if p - 16 \<notin> fst ` set (h_blocks h) then Crash
      else Ret () (libc_release lc (p - 16) (h\<lparr>h_mem := store64 (p - 8) 0 (h_mem h)\<rparr>)))"

subsection \<open>The heap invariant\<close>

text \<open>A live block is not null and does not wrap, its header holds its size, and blocks do not meet.\<close>

definition block_ok :: "mem \<Rightarrow> i64 \<Rightarrow> nat \<Rightarrow> bool" where
  "block_ok m a k \<longleftrightarrow> a \<noteq> 0 \<and> 16 \<le> k \<and> unat a + k < 2 ^ 64
     \<and> load64 m (a + 8) = HC_MEM_MAGIC \<and> unat (load64 m a) = k - 16"

definition heap_ok :: "heap \<Rightarrow> bool" where
  "heap_ok h \<longleftrightarrow> distinct (map fst (h_blocks h)) \<and>
     (\<forall>(a, k) \<in> set (h_blocks h). block_ok (h_mem h) a k \<and>
        (\<forall>(b, j) \<in> set (h_blocks h). a \<noteq> b \<longrightarrow> apart a k b j))"

lemma apart_sub: "apart a n b k \<Longrightarrow> i + n' \<le> n \<Longrightarrow> j + k' \<le> k \<Longrightarrow> apart (a + of_nat i) n' (b + of_nat j) k'"
  unfolding apart_def
proof (intro allI impI)
  fix x y
  assume *: "\<forall>i<n. \<forall>j<k. a + of_nat i \<noteq> b + of_nat j" and "i + n' \<le> n" "j + k' \<le> k" "x < n'" "y < k'"
  then have "i + x < n" "j + y < k" by linarith+
  with * have "a + of_nat (i + x) \<noteq> b + of_nat (j + y)" by blast
  then show "a + of_nat i + of_nat x \<noteq> b + of_nat j + of_nat y" by (simp add: add.assoc)
qed

text \<open>Reading a run depends only on its bytes.\<close>

lemma load_bytes_cong: "(\<And>i. i < n \<Longrightarrow> m (a + of_nat i) = m' (a + of_nat i)) \<Longrightarrow> load_bytes m a n = load_bytes m' a n"
  by (simp add: load_bytes_def)

lemma load64_cong: "(\<And>i. i < 8 \<Longrightarrow> m (a + of_nat i) = m' (a + of_nat i)) \<Longrightarrow> load64 m a = load64 m' a"
  unfolding load64_def by (metis load_bytes_cong)

lemma block_ok_cong:
  assumes "\<And>i. i < 16 \<Longrightarrow> m (a + of_nat i) = m' (a + of_nat i)"
  shows "block_ok m a k \<longleftrightarrow> block_ok m' a k"
proof -
  have "load64 m a = load64 m' a" by (rule load64_cong) (use assms in simp)
  moreover have "load64 m (a + 8) = load64 m' (a + 8)"
  proof (rule load64_cong)
    fix i :: nat assume "i < 8"
    then have "m (a + of_nat (8 + i)) = m' (a + of_nat (8 + i))" by (intro assms) simp
    then show "m (a + 8 + of_nat i) = m' (a + 8 + of_nat i)" by (simp add: add.assoc)
  qed
  ultimately show ?thesis by (simp add: block_ok_def)
qed

text \<open>A change of memory that spares the headers of the live blocks keeps the invariant.\<close>

lemma heap_ok_cong:
  assumes "heap_ok h" and "\<And>a k i. (a, k) \<in> set bs \<Longrightarrow> i < 16 \<Longrightarrow> m (a + of_nat i) = h_mem h (a + of_nat i)"
    and "set bs \<subseteq> set (h_blocks h)" and "distinct (map fst bs)"
  shows "heap_ok \<lparr>h_mem = m, h_blocks = bs\<rparr>"
  using assms block_ok_cong [of m _ "h_mem h"]
  by (fastforce simp: heap_ok_def)

text \<open>Writing inside the payload of a block touches no header and no other block.\<close>

lemma payload_write:
  assumes "heap_ok h" and "(a, k) \<in> set (h_blocks h)" and "16 + off + length bs \<le> k"
  shows "heap_ok (h\<lparr>h_mem := store_bytes (a + 16 + of_nat off) bs (h_mem h)\<rparr>)"
    and "(b, j) \<in> set (h_blocks h) \<Longrightarrow> b \<noteq> a
      \<Longrightarrow> load_bytes (store_bytes (a + 16 + of_nat off) bs (h_mem h)) b j = load_bytes (h_mem h) b j"
proof -
  have blk: "unat a + k < 2 ^ 64" and sep: "(b, j) \<in> set (h_blocks h) \<Longrightarrow> b \<noteq> a \<Longrightarrow> apart a k b j" for b j
    using assms(1,2) by (force simp: heap_ok_def block_ok_def)+
  have pos: "a + 16 + of_nat off = a + of_nat (16 + off)" by simp
  have other: "apart (a + 16 + of_nat off) (length bs) b j" if "(b, j) \<in> set (h_blocks h)" "b \<noteq> a" for b j
    unfolding pos using apart_sub [OF sep [OF that], of "16 + off" "length bs" 0 j] assms(3) by simp
  have self: "apart (a + 16 + of_nat off) (length bs) a 16"
    unfolding pos apart_def
  proof (intro allI impI notI)
    fix x y :: nat assume "x < length bs" "y < 16" "a + of_nat (16 + off) + of_nat x = a + of_nat y"
    then have "(of_nat (16 + off + x) :: i64) = of_nat y" by (simp add: add.assoc)
    moreover have "16 + off + x < 2 ^ 64" "y < 2 ^ 64" using blk assms(3) \<open>x < length bs\<close> \<open>y < 16\<close> by simp_all
    ultimately have "16 + off + x = y"
      by (metis unat_of_nat_eq_64)
    with \<open>y < 16\<close> show False by simp
  qed
  show "load_bytes (store_bytes (a + 16 + of_nat off) bs (h_mem h)) b j = load_bytes (h_mem h) b j"
    if "(b, j) \<in> set (h_blocks h)" "b \<noteq> a" by (rule load_store_apart) (rule other [OF that])
  have "store_bytes (a + 16 + of_nat off) bs (h_mem h) (b + of_nat i) = h_mem h (b + of_nat i)"
    if "(b, j) \<in> set (h_blocks h)" "i < 16" for b j i
  proof (cases "b = a")
    case True
    then show ?thesis using store_bytes_apart [OF self that(2)] by simp
  next
    case False
    have "16 \<le> j" using assms(1) that(1) by (force simp: heap_ok_def block_ok_def)
    then show ?thesis using store_bytes_apart [OF other [OF that(1) False], of i] that(2) by simp
  qed
  then have "heap_ok \<lparr>h_mem = store_bytes (a + 16 + of_nat off) bs (h_mem h), h_blocks = h_blocks h\<rparr>"
    by (intro heap_ok_cong [OF assms(1)]) (use assms(1) in \<open>auto simp: heap_ok_def\<close>)
  then show "heap_ok (h\<lparr>h_mem := store_bytes (a + 16 + of_nat off) bs (h_mem h)\<rparr>)"
    by (cases h) simp
qed

subsection \<open>The operations keep the invariant\<close>

lemma malloc_heap_ok:
  assumes lc: "libc_ok lc" and h: "heap_ok h" and r: "HC_MAlloc lc sz h = Ret p h'"
  shows "heap_ok h'" and "HC_MSize p h' = (if slt sz 0 then 0 else sz)" and "p \<noteq> 0"
    and "h_blocks h' = (p - 16, 16 + unat (if slt sz 0 then 0 else sz)) # h_blocks h"
    and "(b, j) \<in> set (h_blocks h) \<Longrightarrow> load_bytes (h_mem h') b j = load_bytes (h_mem h) b j"
proof -
  define n where "n = (if slt sz 0 then 0 else sz)"
  obtain a where a: "lc_malloc lc h (16 + unat n) = Some a" and p: "p = a + 16"
    and h': "h' = \<lparr>h_mem = store64 (a + 8) HC_MEM_MAGIC (store64 a n (h_mem h)), h_blocks = (a, 16 + unat n) # h_blocks h\<rparr>"
    using r by (cases h) (auto simp: HC_MAlloc_def libc_alloc_def n_def Let_def split: option.splits)
  have fresh: "a \<noteq> 0" "unat a + (16 + unat n) < 2 ^ 64"
      "\<And>b k. (b, k) \<in> set (h_blocks h) \<Longrightarrow> apart a (16 + unat n) b k \<and> a \<noteq> b"
    using lc a by (fastforce simp: libc_ok_def)+
  let ?m = "store64 (a + 8) HC_MEM_MAGIC (store64 a n (h_mem h))"
  have other: "?m (b + of_nat i) = h_mem h (b + of_nat i)" if "(b, k) \<in> set (h_blocks h)" "i < k" for b k i
  proof -
    have ap: "apart a (16 + unat n) b k" using fresh(3) [OF that(1)] by blast
    have "apart (a + 8) 8 b k" "apart a 8 b k"
      using apart_sub [OF ap, of 8 8 0 k] apart_sub [OF ap, of 0 8 0 k] by simp_all
    then show ?thesis using that(2) by (simp add: store64_def store_bytes_apart)
  qed
  have two: "apart (a + 8) 8 a 8" unfolding apart_def
  proof (intro allI impI notI)
    fix i j :: nat assume "i < 8" "j < 8" "a + 8 + of_nat i = a + of_nat j"
    then have "(of_nat (8 + i) :: i64) = of_nat j" by (simp add: add.assoc)
    moreover have "8 + i < 2 ^ 64" "j < 2 ^ 64" using \<open>i < 8\<close> \<open>j < 8\<close> by simp_all
    ultimately have "8 + i = j" by (metis unat_of_nat_eq_64)
    with \<open>j < 8\<close> show False by simp
  qed
  then have size: "load64 ?m a = n"
    by (metis length_bytes_of_nat load64_def load64_store64 load_store_apart store64_def)
  then have new: "block_ok ?m a (16 + unat n)"
    using fresh by (simp add: block_ok_def)
  have "heap_ok \<lparr>h_mem = ?m, h_blocks = h_blocks h\<rparr>"
    by (rule heap_ok_cong [OF h]) (use h other in \<open>fastforce simp: heap_ok_def block_ok_def\<close>)+
  then show "heap_ok h'"
    using new fresh(3) by (fastforce simp: h' heap_ok_def apart_sym)
  have "unat (of_nat (unat a + 16) :: i64) = unat a + 16" by (rule unat_of_nat_eq_64) (use fresh(2) in simp)
  then have "unat p = unat a + 16" by (simp add: p)
  then show "p \<noteq> 0" by auto
  then have "p = 0 \<longleftrightarrow> False" by simp
  moreover have "p - 8 = a + 8" "p - 16 = a" by (simp_all add: p)
  ultimately show "HC_MSize p h' = (if slt sz 0 then 0 else sz)"
    by (simp only: HC_MSize_def h' heap.select_convs load64_store64 size n_def [symmetric] if_True if_False simp_thms)
  show "h_blocks h' = (p - 16, 16 + unat (if slt sz 0 then 0 else sz)) # h_blocks h"
    by (simp add: h' p n_def)
  show "load_bytes (h_mem h') b j = load_bytes (h_mem h) b j" if "(b, j) \<in> set (h_blocks h)"
    by (rule load_bytes_cong) (use other [OF that] in \<open>simp add: h'\<close>)
qed

lemma free_heap_ok:
  assumes lc: "libc_ok lc" and h: "heap_ok h" and live: "(p - 16, k) \<in> set (h_blocks h)" and "p \<noteq> 0"
  shows "\<exists>h'. HC_Free lc p h = Ret () h' \<and> heap_ok h'
     \<and> h_blocks h' = filter (\<lambda>b. fst b \<noteq> p - 16) (h_blocks h)
     \<and> (\<forall>(b, j) \<in> set (h_blocks h). b \<noteq> p - 16 \<longrightarrow> load_bytes (h_mem h') b j = load_bytes (h_mem h) b j)"
proof -
  define a where "a = p - 16"
  have p: "p = a + 16" by (simp add: a_def)
  have blk: "block_ok (h_mem h) a k" and live': "(a, k) \<in> set (h_blocks h)"
    using h live by (auto simp: heap_ok_def a_def)
  have sep: "apart a k b j" if "(b, j) \<in> set (h_blocks h)" "b \<noteq> a" for b j
    using h live' that by (fastforce simp: heap_ok_def)
  define h1 where "h1 = h\<lparr>h_mem := store64 (p - 8) 0 (h_mem h)\<rparr>"
  have "p = 0 \<longleftrightarrow> False" "p - 8 = a + 8" "p - 16 = a" "load64 (h_mem h) (a + 8) = HC_MEM_MAGIC"
    using blk \<open>p \<noteq> 0\<close> by (simp_all add: p block_ok_def)
  note at = this
  moreover have "a \<in> fst ` set (h_blocks h)" using live' by force
  ultimately have "HC_Free lc p h = Ret () (libc_release lc a h1)"
    by (simp only: HC_Free_def h1_def if_True if_False simp_thms)
  moreover have other: "lc_free lc h1 a (b + of_nat i) = h_mem h (b + of_nat i)"
    if "(b, j) \<in> set (h_blocks h)" "b \<noteq> a" "i < j" for b j i
  proof -
    have "lc_free lc h1 a (b + of_nat i) = h_mem h1 (b + of_nat i)"
      by (rule libc_free_other [OF lc, of a k]) (use live' that in \<open>simp_all add: h1_def\<close>)
    moreover have "apart (a + 8) 8 b j"
      using apart_sub [OF sep [OF that(1,2)], of 8 8 0 j] blk by (simp add: block_ok_def)
    then have "store_bytes (a + 8) (bytes_of_nat 8 0) (h_mem h) (b + of_nat i) = h_mem h (b + of_nat i)"
      using that(3) by (intro store_bytes_apart [of _ _ _ j]) (simp_all only: length_bytes_of_nat)
    then have "h_mem h1 (b + of_nat i) = h_mem h (b + of_nat i)"
      using at(2)
      by (cases h) (simp only: h1_def heap.update_convs heap.select_convs store64_def unsigned_0)
    ultimately show ?thesis by simp
  qed
  moreover have "heap_ok (libc_release lc a h1)"
    unfolding libc_release_def
    by (rule heap_ok_cong [OF h])
      (use h other in \<open>auto simp: h1_def heap_ok_def block_ok_def distinct_map_filter split: prod.splits\<close>)
  moreover have "h_blocks (libc_release lc a h1) = filter (\<lambda>b. fst b \<noteq> a) (h_blocks h)"
    by (simp add: libc_release_def h1_def)
  moreover have "load_bytes (h_mem (libc_release lc a h1)) b j = load_bytes (h_mem h) b j"
    if "(b, j) \<in> set (h_blocks h)" "b \<noteq> a" for b j
    by (rule load_bytes_cong) (use other [OF that] in \<open>simp add: libc_release_def\<close>)
  ultimately show ?thesis unfolding a_def [symmetric] by blast
qed

end
