(* ===== verification/HC_RtStr.thy ===== *)
theory HC_RtStr
  imports HC_RtHeap HC_RtDate
begin

text \<open>
  The string functions of \<open>hcrt.c\<close> on the memory of \<open>HC_RtHeap\<close>, and the functions of the \<open>Print\<close>
  family: the formatter followed by the copy to where its result belongs. Reading a string that is
  never terminated, and a format that makes the formatter read out of bounds, is \<open>Crash\<close>. What the
  C library says only up to its sign is given as -1, 0 or 1.
\<close>

subsection \<open>Strings in memory\<close>

definition bytes_of :: "string \<Rightarrow> 8 word list" where
  "bytes_of s = map (\<lambda>c. of_nat (byte c)) s @ [0]"

text \<open>A pointer argument: a string of its own, or nothing for the null pointer.\<close>

definition str_arg :: "mem \<Rightarrow> i64 \<Rightarrow> string option" where
  "str_arg m p = (if p = 0 then Some [] else cstr m p)"

definition HC_StrLen :: "mem \<Rightarrow> i64 \<Rightarrow> i64 option" where
  "HC_StrLen m s = (if s = 0 then Some 0 else do { t \<leftarrow> cstr m s; Some (of_nat (length t)) })"

definition HC_StrCpy :: "mem \<Rightarrow> i64 \<Rightarrow> i64 \<Rightarrow> (i64 \<times> mem) option" where
  "HC_StrCpy m dst src = do { t \<leftarrow> str_arg m src; Some (dst, store_bytes dst (bytes_of t) m) }"

fun strcmp :: "string \<Rightarrow> string \<Rightarrow> int" where
  "strcmp [] [] = 0"
| "strcmp [] (b # bs) = - 1"
| "strcmp (a # as) [] = 1"
| "strcmp (a # as) (b # bs) =
     (if a = b then strcmp as bs else if byte a < byte b then - 1 else 1)"

definition HC_StrCmp :: "mem \<Rightarrow> i64 \<Rightarrow> i64 \<Rightarrow> int option" where
  "HC_StrCmp m a b = do { s \<leftarrow> str_arg m a; t \<leftarrow> str_arg m b; Some (strcmp s t) }"

definition HC_StrNCmp :: "mem \<Rightarrow> i64 \<Rightarrow> i64 \<Rightarrow> i64 \<Rightarrow> int option" where
  "HC_StrNCmp m a b n =
     do { s \<leftarrow> str_arg m a; t \<leftarrow> str_arg m b; Some (strcmp (take (unat n) s) (take (unat n) t)) }"

definition tolower :: "char \<Rightarrow> char" where
  "tolower c = (if isupper c then char_of (byte c + 32) else c)"

definition HC_StrICmp :: "mem \<Rightarrow> i64 \<Rightarrow> i64 \<Rightarrow> int option" where
  "HC_StrICmp m a b =
     do { s \<leftarrow> str_arg m a; t \<leftarrow> str_arg m b; Some (strcmp (map tolower s) (map tolower t)) }"

text \<open>\<open>strstr\<close>: where the needle first occurs.\<close>

fun strstr :: "string \<Rightarrow> string \<Rightarrow> nat option" where
  "strstr n h =
     (if take (length n) h = n then Some 0 else (case h of [] \<Rightarrow> None | _ # t \<Rightarrow> map_option Suc (strstr n t)))"

declare strstr.simps [simp del]

definition HC_StrFind :: "mem \<Rightarrow> i64 \<Rightarrow> i64 \<Rightarrow> i64 option" where
  "HC_StrFind m needle haystack =
     (if needle = 0 \<or> haystack = 0 then Some 0
      else do {
        n \<leftarrow> cstr m needle; h \<leftarrow> cstr m haystack;
        Some (case strstr n h of None \<Rightarrow> 0 | Some k \<Rightarrow> haystack + of_nat k)
      })"

definition HC_MemCpy :: "mem \<Rightarrow> i64 \<Rightarrow> i64 \<Rightarrow> i64 \<Rightarrow> i64 \<times> mem" where
  "HC_MemCpy m dst src n = (dst, store_bytes dst (load_bytes m src (unat n)) m)"

definition HC_MemSet :: "mem \<Rightarrow> i64 \<Rightarrow> i64 \<Rightarrow> i64 \<Rightarrow> i64 \<times> mem" where
  "HC_MemSet m dst val n = (dst, store_bytes dst (replicate (unat n) (ucast val)) m)"

fun memcmp :: "8 word list \<Rightarrow> 8 word list \<Rightarrow> int" where
  "memcmp (a # as) (b # bs) = (if a = b then memcmp as bs else if a < b then - 1 else 1)"
| "memcmp _ _ = 0"

definition HC_MemCmp :: "mem \<Rightarrow> i64 \<Rightarrow> i64 \<Rightarrow> i64 \<Rightarrow> int" where
  "HC_MemCmp m a b n = memcmp (load_bytes m a (unat n)) (load_bytes m b (unat n))"

subsection \<open>New strings\<close>

text \<open>\<open>HC_StrNew\<close> of a text the runtime holds in a buffer of its own, and of a string of the program.\<close>

definition str_new :: "libc \<Rightarrow> string \<Rightarrow> heap \<Rightarrow> i64 outcome" where
  "str_new lc t h =
     (case HC_MAlloc lc (of_nat (length t) + 1) h of
        Ret p h1 \<Rightarrow> Ret p (h1\<lparr>h_mem := store_bytes p (bytes_of t) (h_mem h1)\<rparr>)
      | r \<Rightarrow> r)"

definition HC_StrNew :: "libc \<Rightarrow> i64 \<Rightarrow> heap \<Rightarrow> i64 outcome" where
  "HC_StrNew lc s h = (case str_arg (h_mem h) s of None \<Rightarrow> Crash | Some t \<Rightarrow> str_new lc t h)"

subsection \<open>Numbers\<close>

definition is_space :: "char \<Rightarrow> bool" where
  "is_space c \<longleftrightarrow> c = CHR '' '' \<or> (9 \<le> byte c \<and> byte c \<le> 13)"

definition digit_value :: "char \<Rightarrow> nat option" where
  "digit_value c =
     (if isdigit c then Some (byte c - 48)
      else if islower c then Some (byte c - 87)
      else if isupper c then Some (byte c - 55) else None)"

definition is_digit_in :: "nat \<Rightarrow> char \<Rightarrow> bool" where
  "is_digit_in b c \<longleftrightarrow> (case digit_value c of None \<Rightarrow> False | Some d \<Rightarrow> d < b)"

definition strtoll_value :: "nat \<Rightarrow> string \<Rightarrow> nat" where
  "strtoll_value b ds = foldl (\<lambda>v c. v * b + the (digit_value c)) 0 ds"

text \<open>The base of \<open>strtoll\<close> and what is left after a prefix \<open>0x\<close>, which counts only before a digit.\<close>

definition strtoll_base :: "int \<Rightarrow> string \<Rightarrow> (nat \<times> string) option" where
  "strtoll_base base s =
     (let hex = (case s of z # x # d # _ \<Rightarrow> z = CHR ''0'' \<and> (x = CHR ''x'' \<or> x = CHR ''X'') \<and> is_digit_in 16 d
                         | _ \<Rightarrow> False)
      in if base = 0
         then Some (if hex then (16, drop 2 s) else if take 1 s = ''0'' then (8, s) else (10, s))
         else if base < 2 \<or> 36 < base then None
         else Some (nat base, if base = 16 \<and> hex then drop 2 s else s))"

text \<open>\<open>strtoll\<close>: the value, clamped to the range of \<open>long long\<close>, and whether there was a number.\<close>

definition strtoll :: "int \<Rightarrow> string \<Rightarrow> i64 \<times> bool" where
  "strtoll base s =
     (let s1 = dropWhile is_space s;
          neg = (take 1 s1 = ''-'');
          s2 = (if take 1 s1 = ''-'' \<or> take 1 s1 = ''+'' then drop 1 s1 else s1)
      in case strtoll_base base s2 of
           None \<Rightarrow> (0, False)
         | Some (b, s3) \<Rightarrow>
             (let ds = takeWhile (is_digit_in b) s3; v = int (strtoll_value b ds)
              in (word_of_int (if neg then max (- (2 ^ 63)) (- v) else min (2 ^ 63 - 1) v), ds \<noteq> [])))"

definition HC_Str2I64 :: "mem \<Rightarrow> i64 \<Rightarrow> i64 \<Rightarrow> i64 option" where
  "HC_Str2I64 m s radix =
     (if s = 0 then Some 0 else do { t \<leftarrow> cstr m s; Some (fst (strtoll (wrap32 (sint radix)) t)) })"

subsection \<open>The Print family\<close>

text \<open>The argument slots at \<open>argv\<close>.\<close>

definition arg_slots :: "mem \<Rightarrow> i64 \<Rightarrow> i64 \<Rightarrow> i64 list" where
  "arg_slots m argc argv = map (\<lambda>i. load64 m (argv + 8 * of_nat i)) [0..<nat (sint argc)]"

definition hc_format_at :: "mem \<Rightarrow> i64 \<Rightarrow> i64 \<Rightarrow> i64 \<Rightarrow> hcout \<Rightarrow> hcout option" where
  "hc_format_at m fmt argc argv o' =
     (if fmt = 0 then Some o'
      else do {
        f \<leftarrow> cstr m fmt;
        st \<leftarrow> format m f (arg_slots m argc argv) o';
        if f_fault st then None else Some (f_out st)
      })"

text \<open>The functions that write to the standard output return the text they send there.\<close>

definition HC_Print :: "mem \<Rightarrow> i64 \<Rightarrow> i64 \<Rightarrow> i64 \<Rightarrow> string option" where
  "HC_Print m fmt argc argv = map_option o_sent (hc_format_at m fmt argc argv out_std)"

definition HC_PutChars :: "i64 \<Rightarrow> string" where
  "HC_PutChars chars = o_sent (emit_packed_chars chars out_std)"

definition HC_PutChar :: "i64 \<Rightarrow> string" where
  "HC_PutChar ch = [char_of (unat (ch AND 0xFF))]"

definition HC_PutS :: "mem \<Rightarrow> i64 \<Rightarrow> string option" where
  "HC_PutS m st = str_arg m st"

text \<open>The formatted text as a C string, which ends at the first NUL.\<close>

definition out_cstr :: "hcout \<Rightarrow> string" where
  "out_cstr o' = takeWhile (\<lambda>c. c \<noteq> CHR 0x00) (o_buf o')"

definition formatted :: "mem \<Rightarrow> i64 \<Rightarrow> i64 \<Rightarrow> i64 \<Rightarrow> string option" where
  "formatted m fmt argc argv = map_option out_cstr (hc_format_at m fmt argc argv out0)"

definition HC_StrPrint :: "libc \<Rightarrow> i64 \<Rightarrow> i64 \<Rightarrow> i64 \<Rightarrow> i64 \<Rightarrow> heap \<Rightarrow> i64 outcome" where
  "HC_StrPrint lc dst fmt argc argv h =
     (case formatted (h_mem h) fmt argc argv of
        None \<Rightarrow> Crash
      | Some t \<Rightarrow> if dst = 0 then str_new lc t h
                  else Ret dst (h\<lparr>h_mem := store_bytes dst (bytes_of t) (h_mem h)\<rparr>))"

definition HC_MStrPrint :: "libc \<Rightarrow> i64 \<Rightarrow> i64 \<Rightarrow> i64 \<Rightarrow> heap \<Rightarrow> i64 outcome" where
  "HC_MStrPrint lc fmt argc argv h =
     (case formatted (h_mem h) fmt argc argv of None \<Rightarrow> Crash | Some t \<Rightarrow> str_new lc t h)"

definition HC_CatPrint :: "i64 \<Rightarrow> i64 \<Rightarrow> i64 \<Rightarrow> i64 \<Rightarrow> heap \<Rightarrow> i64 outcome" where
  "HC_CatPrint dst fmt argc argv h =
     (case formatted (h_mem h) fmt argc argv of
        None \<Rightarrow> Crash
      | Some t \<Rightarrow>
          if dst = 0 then Ret dst h
          else (case cstr (h_mem h) dst of
                  None \<Rightarrow> Crash
                | Some d \<Rightarrow> Ret dst (h\<lparr>h_mem := store_bytes (dst + of_nat (length d)) (bytes_of t) (h_mem h)\<rparr>)))"

definition HC_StrPrintJoin :: "libc \<Rightarrow> i64 \<Rightarrow> i64 \<Rightarrow> i64 \<Rightarrow> i64 \<Rightarrow> heap \<Rightarrow> i64 outcome" where
  "HC_StrPrintJoin lc dst fmt argc argv h =
     (case formatted (h_mem h) fmt argc argv of
        None \<Rightarrow> Crash
      | Some t \<Rightarrow>
          if dst = 0 then str_new lc t h
          else (case cstr (h_mem h) dst of
                  None \<Rightarrow> Crash
                | Some d \<Rightarrow>
                    (case HC_MAlloc lc (of_nat (length d) + of_nat (length t) + 1) h of
                       Ret r h1 \<Rightarrow>
                         (let m2 = store_bytes r (load_bytes (h_mem h1) dst (length d)) (h_mem h1);
                              m3 = store_bytes (r + of_nat (length d)) (bytes_of t) m2
                          in case HC_Free lc dst (h1\<lparr>h_mem := m3\<rparr>) of
                               Ret _ h2 \<Rightarrow> Ret r h2
                             | Exit k e \<Rightarrow> Exit k e | Crash \<Rightarrow> Crash)
                     | e \<Rightarrow> e)))"

text \<open>\<open>HC_StreamPrint\<close> adds to a buffer that \<open>HC_StreamGet\<close> takes and resets.\<close>

definition HC_StreamPrint :: "mem \<Rightarrow> i64 \<Rightarrow> i64 \<Rightarrow> i64 \<Rightarrow> hcout \<Rightarrow> hcout option" where
  "HC_StreamPrint m fmt argc argv stream = hc_format_at m fmt argc argv stream"

definition HC_StreamGet :: "hcout \<Rightarrow> string \<times> hcout" where
  "HC_StreamGet stream = (out_cstr stream, stream\<lparr>o_buf := [], o_cap := 0\<rparr>)"

text \<open>\<open>HC_RtInit\<close> keeps the command line, which \<open>HC_ArgCnt\<close> and \<open>HC_ArgStr\<close> read.\<close>

definition HC_ArgCnt :: "string list \<Rightarrow> i64" where
  "HC_ArgCnt args = of_nat (length args)"

definition HC_ArgStr :: "string list \<Rightarrow> i64 \<Rightarrow> string" where
  "HC_ArgStr args i = (if 0 \<le> sint i \<and> sint i < int (length args) then args ! nat (sint i) else [])"

subsection \<open>Reading and writing strings\<close>

lemma byte_0 [simp]: "byte c = 0 \<longleftrightarrow> c = CHR 0x00"
proof
  assume "byte c = 0"
  then have "c = char_of (0 :: nat)" by (metis char_of_byte)
  then show "c = CHR 0x00" by (simp add: char_of_def bit_0 bit_Suc)
qed (simp add: byte_def)

lemma unat_of_byte: "unat (of_nat (byte c) :: 8 word) = byte c"
  using byte_less [of c] by (simp add: unsigned_of_nat take_bit_nat_eq_self)

lemma byte_of_word: "byte (char_of (unat (w :: 8 word))) = unat w"
proof -
  have "unat w < 2 ^ LENGTH(8)" by (rule unsigned_less)
  then show ?thesis by (intro byte_char_of) simp
qed

lemma byte_word_0 [simp]: "(of_nat (byte c) :: 8 word) = 0 \<longleftrightarrow> c = CHR 0x00"
  by (metis unat_of_byte byte_0 unat_0 unsigned_eq_0_iff)

lemma char_byte_word [simp]: "char_of (unat (of_nat (byte c) :: 8 word)) = c"
  by (simp only: unat_of_byte char_of_byte)

lemma load_bytes_Suc: "load_bytes m p (Suc n) = m p # load_bytes m (p + 1) n"
  by (simp add: load_bytes_def upt_conv_Cons map_Suc_upt [symmetric] add.assoc del: upt_Suc)

lemma length_bytes_of [simp]: "length (bytes_of t) = Suc (length t)"
  by (simp add: bytes_of_def)

lemma bytes_of_simps [simp]: "bytes_of [] = [0]" "bytes_of (c # cs) = of_nat (byte c) # bytes_of cs"
  by (simp_all add: bytes_of_def)

text \<open>A string is what its bytes and the NUL after them say.\<close>

lemma cstr_Some_iff: "cstr m p = Some t \<longleftrightarrow> CHR 0x00 \<notin> set t \<and> load_bytes m p (Suc (length t)) = bytes_of t"
proof (induction t arbitrary: p)
  case Nil
  show ?case
    by (subst cstr.simps) (auto simp: load_bytes_Suc load_bytes_def split: bind_splits)
next
  case (Cons c cs)
  have "m p \<noteq> 0 \<and> char_of (unat (m p)) = c \<longleftrightarrow> c \<noteq> CHR 0x00 \<and> m p = of_nat (byte c)"
  proof
    assume *: "m p \<noteq> 0 \<and> char_of (unat (m p)) = c"
    then have "byte c = unat (m p)" using byte_of_word [of "m p"] by simp
    then have "m p = of_nat (byte c)" by simp
    with * show "c \<noteq> CHR 0x00 \<and> m p = of_nat (byte c)" by auto
  qed auto
  moreover have "cstr m p = Some (c # cs) \<longleftrightarrow> (m p \<noteq> 0 \<and> char_of (unat (m p)) = c) \<and> cstr m (p + 1) = Some cs"
    by (subst cstr.simps) (auto split: bind_splits)
  moreover have "load_bytes m p (Suc (length (c # cs))) = bytes_of (c # cs)
      \<longleftrightarrow> m p = of_nat (byte c) \<and> load_bytes m (p + 1) (Suc (length cs)) = bytes_of cs"
    by (simp add: load_bytes_Suc [of _ _ "Suc _"])
  ultimately show ?case using Cons.IH [of "p + 1"] by auto
qed

lemma cstr_no_nul: "cstr m p = Some t \<Longrightarrow> CHR 0x00 \<notin> set t"
  by (simp add: cstr_Some_iff)

lemma cstr_stored:
  "CHR 0x00 \<notin> set t \<Longrightarrow> length t + 1 < 2 ^ 64 \<Longrightarrow> cstr (store_bytes p (bytes_of t) m) p = Some t"
  using load_store_same [of "bytes_of t" p m] by (simp add: cstr_Some_iff)

lemma msize_live:
  assumes "heap_ok h" and "(p - 16, k) \<in> set (h_blocks h)" and "p \<noteq> 0"
  shows "unat (HC_MSize p h) = k - 16" and "k < 2 ^ 64" and "16 \<le> k"
proof -
  have blk: "block_ok (h_mem h) (p - 16) k" using assms(1,2) by (auto simp: heap_ok_def)
  have "p - 16 + 8 = p - 8" by simp
  then show "unat (HC_MSize p h) = k - 16" using blk assms(3) by (simp only: block_ok_def HC_MSize_def if_False if_True simp_thms)
  show "k < 2 ^ 64" "16 \<le> k" using blk by (simp_all add: block_ok_def)
qed

text \<open>What a function that makes a new string does: a fresh block that holds exactly the string.\<close>

definition new_string :: "string \<Rightarrow> heap \<Rightarrow> i64 \<Rightarrow> heap \<Rightarrow> bool" where
  "new_string t h p h' \<longleftrightarrow> heap_ok h' \<and> p \<noteq> 0 \<and> h_blocks h' = (p - 16, 17 + length t) # h_blocks h
     \<and> cstr (h_mem h') p = Some t
     \<and> (\<forall>(b, j) \<in> set (h_blocks h). load_bytes (h_mem h') b j = load_bytes (h_mem h) b j)"

lemma small_nat_word:
  assumes "n < 2 ^ 63"
  shows "\<not> slt (of_nat n) 0" "unat (of_nat n :: i64) = n"
proof -
  show un: "unat (of_nat n :: i64) = n" using assms by (intro unat_of_nat_eq_64) simp
  have "sint (of_nat n :: i64) = int n"
    using assms by (simp add: signed_of_nat signed_take_bit_int_eq_self)
  then show "\<not> slt (of_nat n) 0" by (simp add: slt_def)
qed

lemma str_new_ok:
  assumes lc: "libc_ok lc" and h: "heap_ok h" and t: "CHR 0x00 \<notin> set t" "Suc (length t) < 2 ^ 63"
    and r: "str_new lc t h = Ret p h'"
  shows "new_string t h p h'"
proof -
  let ?sz = "of_nat (Suc (length t)) :: i64"
  have sz: "of_nat (length t) + 1 = ?sz" by simp
  obtain h1 where m: "HC_MAlloc lc ?sz h = Ret p h1"
    and h': "h' = h1\<lparr>h_mem := store_bytes p (bytes_of t) (h_mem h1)\<rparr>"
    using r unfolding str_new_def sz by (auto split: outcome.splits)
  note small = small_nat_word [OF t(2)]
  note ok = malloc_heap_ok [OF lc h m, unfolded small(2), simplified small(1) if_False small(2)]
  have live: "(p - 16, 17 + length t) \<in> set (h_blocks h1)"
    using ok(4) by simp
  have old: "b \<noteq> p - 16" if "(b, j) \<in> set (h_blocks h)" for b j
    using ok(1,4) that by (force simp: heap_ok_def)
  have st: "store_bytes (p - 16 + 16 + of_nat 0) = (store_bytes p :: _)" by simp
  note w = payload_write [OF ok(1) live, of 0 "bytes_of t", unfolded st]
  have "heap_ok h'" unfolding h' by (rule w(1)) simp
  moreover have "load_bytes (h_mem h') b j = load_bytes (h_mem h) b j" if "(b, j) \<in> set (h_blocks h)" for b j
    using w(2) [of b j] ok(5) [OF that] old [OF that] that ok(4) by (simp add: h')
  moreover have "cstr (h_mem h') p = Some t" using t by (simp add: h' cstr_stored)
  moreover have "h_blocks h' = (p - 16, 17 + length t) # h_blocks h" using ok(4) by (simp add: h')
  ultimately show ?thesis using ok(3) by (auto simp: new_string_def)
qed

lemma load_bytes_sub: "i + n \<le> j \<Longrightarrow> load_bytes m (a + of_nat i) n = take n (drop i (load_bytes m a j))"
  by (rule nth_equalityI) (simp_all add: load_bytes_def add.assoc)

lemma cstr_block:
  assumes "load_bytes m a j = load_bytes m' a j" and "i + Suc (length t) \<le> j"
  shows "cstr m (a + of_nat i) = Some t \<longleftrightarrow> cstr m' (a + of_nat i) = Some t"
  using assms by (simp add: cstr_Some_iff load_bytes_sub)

lemma store_bytes_append:
  assumes "length xs + length ys < 2 ^ 64"
  shows "store_bytes (a + of_nat (length xs)) ys (store_bytes a xs m) = store_bytes a (xs @ ys) m"
proof
  fix x
  let ?i = "unat (x - a)"
  have i: "?i < 2 ^ 64" using unsigned_less [of "x - a"] by simp
  have sh: "unat (x - (a + of_nat (length xs))) = ?i - length xs" if "length xs \<le> ?i"
  proof -
    have "x - (a + of_nat (length xs)) = of_nat (?i - length xs)"
      using that by (simp add: of_nat_diff)
    also have "unat (of_nat (?i - length xs) :: i64) = ?i - length xs"
      using i by (intro unat_of_nat_eq_64) simp
    finally show ?thesis .
  qed
  have un: "\<not> unat (x - (a + of_nat (length xs))) < length ys" if "?i < length xs"
  proof
    assume l: "unat (x - (a + of_nat (length xs))) < length ys"
    have "x = a + of_nat (length xs + unat (x - (a + of_nat (length xs))))" by simp
    then have "?i = length xs + unat (x - (a + of_nat (length xs)))"
      using l assms offset_back [of "length xs + unat (x - (a + of_nat (length xs)))" a] by simp
    with that show False by simp
  qed
  show "store_bytes (a + of_nat (length xs)) ys (store_bytes a xs m) x = store_bytes a (xs @ ys) m x"
    using sh un by (cases "?i < length xs") (auto simp: store_bytes_def Let_def nth_append)
qed

lemma cstr_drop: "cstr m p = Some t \<Longrightarrow> k \<le> length t \<Longrightarrow> cstr m (p + of_nat k) = Some (drop k t)"
proof (induction k arbitrary: p t)
  case (Suc k)
  then obtain c cs where t: "t = c # cs" by (cases t) auto
  with Suc.prems(1) have "cstr m (p + 1) = Some cs"
    by (subst (asm) cstr.simps) (auto split: if_splits bind_splits)
  from Suc.IH [OF this] Suc.prems(2) show ?case by (simp add: t algebra_simps)
qed simp

text \<open>\<open>HC_StrPrintJoin\<close> replaces a string of the heap by itself with the new text behind it.\<close>

lemma join_is_new:
  assumes lc: "libc_ok lc" and h: "heap_ok h" and d: "cstr (h_mem h) dst = Some d" "dst \<noteq> 0"
    and blk: "(dst - 16, k) \<in> set (h_blocks h)" "17 + length d \<le> k"
    and t: "formatted (h_mem h) fmt argc argv = Some t" and len: "Suc (length d + length t) < 2 ^ 63"
  shows "HC_StrPrintJoin lc dst fmt argc argv h =
    (case str_new lc (d @ t) h of
       Ret r h1 \<Rightarrow> (case HC_Free lc dst h1 of Ret _ h2 \<Rightarrow> Ret r h2 | Exit e msg \<Rightarrow> Exit e msg | Crash \<Rightarrow> Crash)
     | e \<Rightarrow> e)"
proof -
  let ?sz = "of_nat (length d) + of_nat (length t) + 1 :: i64"
  have sz: "of_nat (length (d @ t)) + 1 = ?sz" by simp
  have mem: "store_bytes (r + of_nat (length d)) (bytes_of t) (store_bytes r (load_bytes (h_mem h1) dst (length d)) (h_mem h1))
      = store_bytes r (bytes_of (d @ t)) (h_mem h1)"
    if m: "HC_MAlloc lc ?sz h = Ret r h1" for r h1
  proof -
    have "dst = dst - 16 + of_nat 16" by simp
    moreover have "load_bytes (h_mem h1) (dst - 16) k = load_bytes (h_mem h) (dst - 16) k"
      by (rule malloc_heap_ok(5) [OF lc h m blk(1)])
    ultimately have "cstr (h_mem h1) dst = Some d"
      using d(1) cstr_block [of "h_mem h1" "dst - 16" k "h_mem h" 16 d] blk(2) by simp
    then have "load_bytes (h_mem h1) dst (Suc (length d)) = bytes_of d" by (simp add: cstr_Some_iff)
    moreover have "load_bytes (h_mem h1) dst (length d) = take (length d) (load_bytes (h_mem h1) dst (Suc (length d)))"
      using load_bytes_sub [of 0 "length d" "Suc (length d)" "h_mem h1" dst] by simp
    ultimately have "load_bytes (h_mem h1) dst (length d) = map (\<lambda>c. of_nat (byte c)) d"
      by (simp add: bytes_of_def)
    then show ?thesis
      using store_bytes_append [of "map (\<lambda>c. of_nat (byte c)) d" "bytes_of t" r "h_mem h1"] len
      by (simp add: bytes_of_def)
  qed
  show ?thesis
    using t d mem by (simp add: HC_StrPrintJoin_def str_new_def sz Let_def split: outcome.split)
qed

lemma join_ok:
  assumes lc: "libc_ok lc" and h: "heap_ok h" and d: "cstr (h_mem h) dst = Some d" "dst \<noteq> 0"
    and blk: "(dst - 16, k) \<in> set (h_blocks h)" "17 + length d \<le> k"
    and t: "formatted (h_mem h) fmt argc argv = Some t" and len: "Suc (length d + length t) < 2 ^ 63"
    and r: "HC_StrPrintJoin lc dst fmt argc argv h = Ret r h'"
  shows "heap_ok h' \<and> cstr (h_mem h') r = Some (d @ t)
     \<and> h_blocks h' = (r - 16, 17 + length (d @ t)) # filter (\<lambda>b. fst b \<noteq> dst - 16) (h_blocks h)"
proof -
  have "CHR 0x00 \<notin> set t"
    using t by (auto simp: formatted_def out_cstr_def dest: set_takeWhileD)
  then have nul: "CHR 0x00 \<notin> set (d @ t)" using cstr_no_nul [OF d(1)] by simp
  obtain h1 where s: "str_new lc (d @ t) h = Ret r h1" and f: "HC_Free lc dst h1 = Ret () h'"
    using r unfolding join_is_new [OF lc h d blk t len] by (auto split: outcome.splits)
  have new: "new_string (d @ t) h r h1" by (rule str_new_ok [OF lc h nul _ s]) (use len in simp)
  then have ok: "heap_ok h1" "h_blocks h1 = (r - 16, 17 + length (d @ t)) # h_blocks h"
      "cstr (h_mem h1) r = Some (d @ t)" by (simp_all add: new_string_def)
  have live: "(dst - 16, k) \<in> set (h_blocks h1)" using blk ok(2) by simp
  have ne: "r - 16 \<noteq> dst - 16" using ok(1,2) blk by (force simp: heap_ok_def)
  note fr = free_heap_ok [OF lc ok(1) live d(2), unfolded f]
  have "load_bytes (h_mem h') (r - 16) (17 + length (d @ t)) = load_bytes (h_mem h1) (r - 16) (17 + length (d @ t))"
    using fr ok(2) ne by auto
  then have "cstr (h_mem h') r = Some (d @ t)"
    using ok(3) cstr_block [of "h_mem h'" "r - 16" "17 + length (d @ t)" "h_mem h1" 16 "d @ t"] by simp
  then show ?thesis using fr ok(2) ne by auto
qed

subsection \<open>Reading numbers back\<close>

lemma digit_value_digit: "isdigit c \<Longrightarrow> digit_value c = Some (hexval c)"
  by (simp add: digit_value_def hexval_def)

lemma hexval_dec: "isdigit c \<Longrightarrow> hexval c < 10"
  by (auto simp: hexval_def isdigit_def)

lemma strtoll_value_dec:
  "list_all isdigit ds \<Longrightarrow> foldl (\<lambda>v c. v * b + the (digit_value c)) v ds = foldl (\<lambda>v c. v * b + hexval c) v ds"
  by (induction ds arbitrary: v) (simp_all add: digit_value_digit)

lemma takeWhile_dec:
  assumes "list_all isdigit ds" and "10 \<le> b"
  shows "takeWhile (is_digit_in b) ds = ds"
proof -
  have "is_digit_in b c" if "isdigit c" for c
    using hexval_dec [OF that] assms(2) by (simp add: is_digit_in_def digit_value_digit [OF that])
  with assms(1) show ?thesis by (simp add: takeWhile_eq_all_conv list_all_iff)
qed

lemma dec_of_nat_hd: "0 < n \<Longrightarrow> \<exists>k cs. dec_of_nat n = digit_char k # cs \<and> 0 < k \<and> k < 10"
proof (induction n rule: dec_of_nat.induct)
  case (1 n)
  show ?case
  proof (cases "n < 10")
    case True
    with "1.prems" show ?thesis by (subst dec_of_nat.simps) auto
  next
    case False
    then have "0 < n div 10" by simp
    with False "1.IH" [OF False this] show ?thesis by (subst dec_of_nat.simps) auto
  qed
qed

text \<open>A number as digits: what \<open>strtoll\<close> makes of it, in base ten or when it chooses the base.\<close>

lemma strtoll_digits:
  assumes "base = 0 \<or> base = 10"
  shows "\<exists>b. strtoll_base base (dec_of_nat n) = Some (b, dec_of_nat n)
     \<and> takeWhile (is_digit_in b) (dec_of_nat n) = dec_of_nat n \<and> strtoll_value b (dec_of_nat n) = n"
proof -
  have dig: "list_all isdigit (dec_of_nat n)" using dec_of_nat_digits by (simp add: list_all_iff)
  have ten: "takeWhile (is_digit_in 10) (dec_of_nat n) = dec_of_nat n" "strtoll_value 10 (dec_of_nat n) = n"
    using takeWhile_dec [OF dig] strtoll_value_dec [OF dig, of 10 0] digits_value_dec_of_nat [of n]
    by (simp_all add: strtoll_value_def digits_value_def)
  have z: "digit_char 0 = CHR ''0''" by (simp add: digit_char_def char_of_def bit_0 bit_Suc)
  show ?thesis
  proof (cases "n = 0")
    case True
    have d0: "dec_of_nat 0 = ''0''" by (subst dec_of_nat.simps) (simp add: z)
    have "is_digit_in 8 (CHR ''0'')" "strtoll_value 8 ''0'' = 0"
      by (simp_all add: is_digit_in_def strtoll_value_def digit_value_def isdigit_def byte_def)
    with assms ten show ?thesis unfolding True d0 by (auto simp: strtoll_base_def)
  next
    case False
    then obtain k cs where k: "dec_of_nat n = digit_char k # cs" "0 < k" "k < 10" using dec_of_nat_hd [of n] by auto
    have "digit_char k \<noteq> CHR ''0''"
    proof
      assume "digit_char k = CHR ''0''"
      then have "byte (digit_char k) = byte (CHR ''0'')" by simp
      with k show False by (simp add: digit_char_def byte_def)
    qed
    with assms have "strtoll_base base (dec_of_nat n) = Some (10, dec_of_nat n)"
      by (auto simp: strtoll_base_def k(1) split: list.split)
    with ten show ?thesis by blast
  qed
qed

lemma strtoll_printed:
  assumes "base = 0 \<or> base = 10"
  shows "strtoll base (to_string_i64 v) = (v, True)"
proof -
  have dig: "isdigit c \<Longrightarrow> \<not> is_space c \<and> c \<noteq> CHR ''-'' \<and> c \<noteq> CHR ''+''" for c
    by (auto simp: isdigit_def is_space_def byte_def)
  obtain n where n: "n = nat \<bar>sint v\<bar>" by simp
  obtain c cs where c: "dec_of_nat n = c # cs" by (cases "dec_of_nat n") auto
  then have "isdigit c" using dec_of_nat_digits [of n] by simp
  note c_ok = dig [OF this]
  obtain b where b: "strtoll_base base (dec_of_nat n) = Some (b, dec_of_nat n)"
      "takeWhile (is_digit_in b) (dec_of_nat n) = dec_of_nat n" "strtoll_value b (dec_of_nat n) = n"
    using strtoll_digits [OF assms] by blast
  have range: "- (2 ^ 63) \<le> sint v" "sint v \<le> 2 ^ 63 - 1" using sint_range_64 [of v] by auto
  have sp: "\<not> is_space (CHR ''-'')" by (simp add: is_space_def byte_def)
  show ?thesis
  proof (cases "sint v < 0")
    case True
    then have "to_string_i64 v = CHR ''-'' # dec_of_nat n" by (simp add: to_string_i64_def dec_of_int_def n)
    moreover have "max (- (2 ^ 63)) (- int n) = sint v" using True range by (simp add: n)
    ultimately show ?thesis using b sp by (simp add: strtoll_def Let_def del: takeWhile_eq_all_conv)
  next
    case False
    then have "to_string_i64 v = dec_of_nat n" by (simp add: to_string_i64_def dec_of_int_def n)
    moreover have "min (2 ^ 63 - 1) (int n) = sint v" using False range by (simp add: n)
    ultimately show ?thesis using b c c_ok by (simp add: strtoll_def Let_def del: takeWhile_eq_all_conv)
  qed
qed

subsection \<open>Comparing and searching\<close>

lemma strcmp_eq_0: "strcmp s t = 0 \<longleftrightarrow> s = t"
  by (induction s t rule: strcmp.induct) auto

lemma byte_inj: "byte a = byte b \<longleftrightarrow> a = b"
  by (metis char_of_byte)

lemma strcmp_flip: "strcmp t s = - strcmp s t"
proof (induction s t rule: strcmp.induct)
  case (4 a as b bs)
  then show ?case using byte_inj [of a b] by auto
qed auto

lemma strcmp_lexord: "strcmp s t < 0 \<longleftrightarrow> (s, t) \<in> lexord {(a, b). byte a < byte b}"
  by (induction s t rule: strcmp.induct) (auto simp: byte_inj)

lemma strcmp_sign: "strcmp s t \<in> {- 1, 0, 1}"
  by (induction s t rule: strcmp.induct) auto

lemma strcmp_trans: "strcmp s t < 0 \<Longrightarrow> strcmp t u < 0 \<Longrightarrow> strcmp s u < 0"
  unfolding strcmp_lexord by (rule lexord_trans) (auto intro: transI)

text \<open>The needle stands in a text at a position.\<close>

definition occurs :: "string \<Rightarrow> string \<Rightarrow> nat \<Rightarrow> bool" where
  "occurs n h k \<longleftrightarrow> (\<exists>a b. h = a @ n @ b \<and> length a = k)"

lemma occurs_0: "occurs n h 0 \<longleftrightarrow> take (length n) h = n"
  unfolding occurs_def by (metis append_eq_conv_conj append_take_drop_id length_0_conv self_append_conv2)

lemma occurs_Suc: "occurs n h (Suc k) \<longleftrightarrow> (\<exists>c cs. h = c # cs \<and> occurs n cs k)"
proof
  assume "occurs n h (Suc k)"
  then obtain a b where "h = a @ n @ b" "length a = Suc k" by (auto simp: occurs_def)
  then show "\<exists>c cs. h = c # cs \<and> occurs n cs k" by (cases a) (auto simp: occurs_def)
next
  assume "\<exists>c cs. h = c # cs \<and> occurs n cs k"
  then obtain c a b where "h = (c # a) @ n @ b" "length (c # a) = Suc k" by (auto simp: occurs_def)
  then show "occurs n h (Suc k)" unfolding occurs_def by blast
qed

lemma strstr_first:
  "strstr n h = (if \<exists>k. occurs n h k then Some (LEAST k. occurs n h k) else None)"
proof (induction h)
  case Nil
  have e: "occurs n [] = (\<lambda>k. k = 0 \<and> n = [])"
  proof
    show "occurs n [] k = (k = 0 \<and> n = [])" for k by (cases k) (auto simp: occurs_0 occurs_Suc)
  qed
  have "(LEAST k. k = (0 :: nat)) = 0" by (rule Least_equality) auto
  then show ?case unfolding e by (subst strstr.simps) simp
next
  case (Cons c cs)
  show ?case
  proof (cases "occurs n (c # cs) 0")
    case True
    then have "(LEAST k. occurs n (c # cs) k) = 0" by (intro Least_equality) auto
    moreover have "take (length n) (c # cs) = n" using True by (simp only: occurs_0)
    moreover have "\<exists>k. occurs n (c # cs) k" using True by blast
    ultimately show ?thesis by (subst strstr.simps) (simp only: if_True refl)
  next
    case False
    have ex: "(\<exists>k. occurs n (c # cs) k) \<longleftrightarrow> (\<exists>k. occurs n cs k)"
      using False by (metis list.inject not0_implies_Suc occurs_Suc)
    have "(LEAST k. occurs n (c # cs) k) = Suc (LEAST k. occurs n cs k)" if "occurs n cs k" for k
      using Least_Suc [of "occurs n (c # cs)" "Suc k"] False that by (simp add: occurs_Suc)
    with ex False Cons show ?thesis by (subst strstr.simps) (auto simp: occurs_0)
  qed
qed

end
