(* ===== verification/HC_RtInput.thy ===== *)
theory HC_RtInput
  imports HC_RtStr
begin

text \<open>
  Input: \<open>HC_GetStr\<close>, \<open>HC_GetChar\<close> and the loops \<open>HC_GetI64\<close> and \<open>HC_YorN\<close> that ask until the answer is
  usable. The loops always end, also at the end of the input, and leave no block behind.
\<close>

subsection \<open>The standard streams\<close>

record io =
  i_in :: string
  i_eof :: bool
  i_out :: string

text \<open>\<open>getline\<close>: a line with its end, or nothing at the end of the input, which both set \<open>feof\<close>
  when they meet it.\<close>

definition getline :: "io \<Rightarrow> string option \<times> io" where
  "getline io =
     (if i_in io = [] then (None, io\<lparr>i_eof := True\<rparr>)
      else (let l = takeWhile (\<lambda>c. c \<noteq> CHR 0x0A) (i_in io); r = drop (length l) (i_in io)
            in if r = [] then (Some l, io\<lparr>i_in := [], i_eof := True\<rparr>)
               else (Some (l @ [CHR 0x0A]), io\<lparr>i_in := tl r\<rparr>)))"

definition strip_eol :: "string \<Rightarrow> string" where
  "strip_eol l = rev (dropWhile (\<lambda>c. c = CHR 0x0A \<or> c = CHR 0x0D) (rev l))"

text \<open>The text \<open>HC_GetStr\<close> makes a string of.\<close>

definition read_line :: "io \<Rightarrow> string \<times> io" where
  "read_line io = (case getline io of
      (None, io1) \<Rightarrow> ([], io1)
    | (Some l, io1) \<Rightarrow> (takeWhile (\<lambda>c. c \<noteq> CHR 0x00) (strip_eol l), io1))"

definition HC_GetStr :: "libc \<Rightarrow> i64 \<Rightarrow> heap \<Rightarrow> io \<Rightarrow> i64 outcome \<times> io" where
  "HC_GetStr lc msg h io =
     (case str_arg (h_mem h) msg of
        None \<Rightarrow> (Crash, io)
      | Some t \<Rightarrow> (let (l, io1) = read_line (io\<lparr>i_out := i_out io @ t\<rparr>) in (str_new lc l h, io1)))"

definition HC_GetChar :: "io \<Rightarrow> i64 \<times> io" where
  "HC_GetChar io = (case i_in io of [] \<Rightarrow> (- 1, io\<lparr>i_eof := True\<rparr>) | c # cs \<Rightarrow> (of_nat (byte c), io\<lparr>i_in := cs\<rparr>))"

definition HC_PressAKey :: "io \<Rightarrow> io" where
  "HC_PressAKey io = snd (HC_GetChar io)"

subsection \<open>Asking for a number\<close>

text \<open>The result of a call after the line \<open>s\<close> has been freed.\<close>

definition after_free :: "libc \<Rightarrow> i64 \<Rightarrow> heap \<Rightarrow> (heap \<Rightarrow> ('a outcome \<times> io) option) \<Rightarrow> io \<Rightarrow> ('a outcome \<times> io) option" where
  "after_free lc s h k io =
     (case HC_Free lc s h of Ret _ h1 \<Rightarrow> k h1 | Exit e m \<Rightarrow> Some (Exit e m, io) | Crash \<Rightarrow> Some (Crash, io))"

lemma after_free_mono [partial_function_mono]:
  "(\<And>h1. mono_option (\<lambda>f. k f h1)) \<Longrightarrow> mono_option (\<lambda>f. after_free lc s h (k f) io)"
  unfolding after_free_def by (cases "HC_Free lc s h") (simp_all add: option.const_mono)

partial_function (option) HC_GetI64 ::
    "libc \<Rightarrow> i64 \<Rightarrow> i64 \<Rightarrow> i64 \<Rightarrow> i64 \<Rightarrow> heap \<Rightarrow> io \<Rightarrow> (i64 outcome \<times> io) option" where
  "HC_GetI64 lc msg dft mn mx h io =
     (case HC_GetStr lc msg h io of
        (Ret s h1, io1) \<Rightarrow>
          if h_mem h1 s = 0 then after_free lc s h1 (\<lambda>h2. Some (Ret dft h2, io1)) io1
          else (case cstr (h_mem h1) s of
                  None \<Rightarrow> Some (Crash, io1)
                | Some t \<Rightarrow>
                    (case strtoll 0 t of
                       (v, ok) \<Rightarrow>
                         after_free lc s h1
                           (\<lambda>h2. if ok \<and> \<not> slt v mn \<and> \<not> slt mx v then Some (Ret v h2, io1)
                                 else if i_eof io1 then Some (Ret dft h2, io1)
                                 else HC_GetI64 lc msg dft mn mx h2 io1) io1))
      | r \<Rightarrow> Some r)"

partial_function (option) HC_YorN :: "libc \<Rightarrow> heap \<Rightarrow> io \<Rightarrow> (i64 outcome \<times> io) option" where
  "HC_YorN lc h io =
     (case HC_GetStr lc 0 h io of
        (Ret s h1, io1) \<Rightarrow>
          (let c = char_of (unat (h_mem h1 s))
           in after_free lc s h1
                (\<lambda>h2. if c = CHR ''y'' \<or> c = CHR ''Y'' then Some (Ret 1 h2, io1)
                      else if c = CHR ''n'' \<or> c = CHR ''N'' then Some (Ret 0 h2, io1)
                      else if i_eof io1 then Some (Ret 0 h2, io1)
                      else HC_YorN lc h2 io1) io1)
      | r \<Rightarrow> Some r)"

subsection \<open>The loops end\<close>

lemma getline_progress: "i_eof (snd (getline io)) \<or> length (i_in (snd (getline io))) < length (i_in io)"
proof (cases "i_in io")
  case (Cons c cs)
  let ?l = "takeWhile (\<lambda>c. c \<noteq> CHR 0x0A) (i_in io)"
  have "length (tl (drop (length ?l) (i_in io))) < length (i_in io)" using Cons by simp
  then show ?thesis using Cons by (simp add: getline_def Let_def del: length_tl)
qed (simp add: getline_def)

lemma read_line_snd [simp]: "snd (read_line io) = snd (getline io)"
  by (simp add: read_line_def split: prod.split option.split)

lemma HC_GetStr_progress:
  assumes "HC_GetStr lc msg h io = (Ret s h1, io1)"
  shows "i_eof io1 \<or> length (i_in io1) < length (i_in io)"
proof -
  obtain t where "io1 = snd (read_line (io\<lparr>i_out := t\<rparr>))"
    using assms by (auto simp: HC_GetStr_def split: option.splits prod.splits) (metis read_line_snd snd_conv)
  then show ?thesis using getline_progress [of "io\<lparr>i_out := t\<rparr>"] by simp
qed

lemma after_free_None [simp]:
  "after_free lc s h k io = None \<longleftrightarrow> (\<exists>h1. HC_Free lc s h = Ret () h1 \<and> k h1 = None)"
  by (auto simp: after_free_def split: outcome.split)

lemma HC_GetI64_returns: "HC_GetI64 lc msg dft mn mx h io \<noteq> None"
proof (induction "length (i_in io)" arbitrary: h io rule: less_induct)
  case less
  obtain o1 io1 where g: "HC_GetStr lc msg h io = (o1, io1)" by fastforce
  show ?case
  proof (cases o1)
    case (Ret s h1)
    have "i_eof io1 \<or> (\<forall>h2. HC_GetI64 lc msg dft mn mx h2 io1 \<noteq> None)"
      using HC_GetStr_progress [OF g [unfolded Ret]] less by blast
    then show ?thesis
      by (subst HC_GetI64.simps) (auto simp: g Ret simp del: not_None_eq split: option.splits prod.splits)
  qed (subst HC_GetI64.simps, simp add: g)+
qed

lemma HC_YorN_returns: "HC_YorN lc h io \<noteq> None"
proof (induction "length (i_in io)" arbitrary: h io rule: less_induct)
  case less
  obtain o1 io1 where g: "HC_GetStr lc 0 h io = (o1, io1)" by fastforce
  show ?case
  proof (cases o1)
    case (Ret s h1)
    have "i_eof io1 \<or> (\<forall>h2. HC_YorN lc h2 io1 \<noteq> None)"
      using HC_GetStr_progress [OF g [unfolded Ret]] less by blast
    then show ?thesis
      by (subst HC_YorN.simps) (auto simp: g Ret Let_def simp del: not_None_eq)
  qed (subst HC_YorN.simps, simp add: g)+
qed

subsection \<open>What they answer\<close>

text \<open>The lines of a text, as \<open>HC_GetStr\<close> returns them.\<close>

definition clean_line :: "string \<Rightarrow> string" where
  "clean_line l = takeWhile (\<lambda>c. c \<noteq> CHR 0x00) (strip_eol l)"

function text_lines :: "string \<Rightarrow> string list" where
  "text_lines t =
     (if t = [] then []
      else clean_line (takeWhile (\<lambda>c. c \<noteq> CHR 0x0A) t) # text_lines (tl (dropWhile (\<lambda>c. c \<noteq> CHR 0x0A) t)))"
  by pat_completeness auto
termination
proof (relation "measure length", goal_cases)
  case (2 t)
  then show ?case using length_dropWhile_le [of "\<lambda>c. c \<noteq> CHR 0x0A" t]
    by (cases t) (auto intro: le_less_trans)
qed simp

declare text_lines.simps [simp del]

text \<open>The answer: the first line that is empty decides for the default, the first that is a number
  in the range for the number.\<close>

fun answer_i64 :: "i64 \<Rightarrow> i64 \<Rightarrow> i64 \<Rightarrow> string list \<Rightarrow> i64" where
  "answer_i64 dft mn mx [] = dft"
| "answer_i64 dft mn mx (l # ls) =
     (if l = [] then dft
      else if snd (strtoll 0 l) \<and> \<not> slt (fst (strtoll 0 l)) mn \<and> \<not> slt mx (fst (strtoll 0 l)) then fst (strtoll 0 l)
      else answer_i64 dft mn mx ls)"

fun answer_yn :: "string list \<Rightarrow> i64" where
  "answer_yn [] = 0"
| "answer_yn (l # ls) =
     (if take 1 l = ''y'' \<or> take 1 l = ''Y'' then 1
      else if take 1 l = ''n'' \<or> take 1 l = ''N'' then 0 else answer_yn ls)"

text \<open>The stream has not met its end before it is used up.\<close>

definition io_ok :: "io \<Rightarrow> bool" where
  "io_ok io \<longleftrightarrow> (i_eof io \<longrightarrow> i_in io = []) \<and> length (i_in io) < 2 ^ 62"

lemma strip_eol_nl [simp]: "strip_eol (l @ [CHR 0x0A]) = strip_eol l"
  by (simp add: strip_eol_def)

lemma read_line_lines:
  assumes "io_ok io"
  shows "io_ok (snd (getline io))" and "CHR 0x00 \<notin> set (fst (read_line io))"
    and "length (fst (read_line io)) < 2 ^ 62"
    and "text_lines (i_in io) = (if i_in io = [] then [] else fst (read_line io) # text_lines (i_in (snd (getline io))))"
    and "i_in io = [] \<Longrightarrow> fst (read_line io) = [] \<and> i_eof (snd (getline io))"
proof -
  let ?p = "\<lambda>c. c \<noteq> CHR 0x0A"
  have dw: "drop (length (takeWhile ?p t)) t = dropWhile ?p t" for t :: string
    by (simp add: dropWhile_eq_drop)
  have len: "length (strip_eol l) \<le> length l" for l
    using length_dropWhile_le [of _ "rev l"] by (simp add: strip_eol_def)
  have fst: "fst (read_line io) = (if i_in io = [] then [] else clean_line (takeWhile ?p (i_in io)))"
    by (auto simp: read_line_def getline_def Let_def clean_line_def)
  have inn: "i_in (snd (getline io)) = (if i_in io = [] then [] else tl (dropWhile ?p (i_in io)))"
    by (simp add: getline_def Let_def dw del: dropWhile_eq_Nil_conv drop_eq_Nil drop_eq_Nil2)
  have eof: "i_eof (snd (getline io)) \<longrightarrow> i_in (snd (getline io)) = []"
    using assms by (auto simp: getline_def Let_def io_ok_def)
  have "length (i_in (snd (getline io))) \<le> length (i_in io)"
    using length_dropWhile_le [of ?p "i_in io"] by (auto simp: inn)
  with eof assms show "io_ok (snd (getline io))" by (simp add: io_ok_def)
  show "CHR 0x00 \<notin> set (fst (read_line io))"
    by (auto simp: fst clean_line_def dest: set_takeWhileD)
  have "length (clean_line (takeWhile ?p (i_in io))) \<le> length (i_in io)"
    unfolding clean_line_def using length_takeWhile_le len by (meson le_trans)
  with assms show "length (fst (read_line io)) < 2 ^ 62" by (simp add: fst io_ok_def)
  show "text_lines (i_in io) = (if i_in io = [] then [] else fst (read_line io) # text_lines (i_in (snd (getline io))))"
    by (subst text_lines.simps) (simp add: fst inn)
  show "fst (read_line io) = [] \<and> i_eof (snd (getline io))" if "i_in io = []"
    using that by (simp add: fst getline_def)
qed

text \<open>One question: the line that is read stands in a fresh block, which is freed again.\<close>

lemma str_new_length:
  assumes "new_string t h p h'"
  shows "h_mem h' p = 0 \<longleftrightarrow> t = []" and "char_of (unat (h_mem h' p)) = hd (t @ [CHR 0x00])"
proof -
  have "load_bytes (h_mem h') p (Suc (length t)) = bytes_of t"
    using assms by (simp add: new_string_def cstr_Some_iff)
  moreover have "CHR 0x00 \<notin> set t" using assms by (auto simp: new_string_def dest: cstr_no_nul)
  ultimately show "h_mem h' p = 0 \<longleftrightarrow> t = []" "char_of (unat (h_mem h' p)) = hd (t @ [CHR 0x00])"
    by (cases t; auto simp: load_bytes_Suc; simp add: char_of_def)+
qed

lemma free_new_string:
  assumes "libc_ok lc" and h: "heap_ok h" and new: "new_string t h p h1"
  shows "\<exists>h2. HC_Free lc p h1 = Ret () h2 \<and> heap_ok h2 \<and> h_blocks h2 = h_blocks h"
proof -
  have h1: "heap_ok h1" "h_blocks h1 = (p - 16, 17 + length t) # h_blocks h" "p \<noteq> 0"
    using new by (simp_all add: new_string_def)
  then have "(p - 16, 17 + length t) \<in> set (h_blocks h1)" by simp
  from free_heap_ok [OF assms(1) h1(1) this h1(3)]
  obtain h2 where h2: "HC_Free lc p h1 = Ret () h2" "heap_ok h2"
      "h_blocks h2 = filter (\<lambda>b. fst b \<noteq> p - 16) (h_blocks h1)" by blast
  have "\<forall>b \<in> set (h_blocks h). fst b \<noteq> p - 16"
    using h1(1,2) by (force simp: heap_ok_def)
  with h2 h1(2) show ?thesis by (simp add: filter_id_conv)
qed

lemma GetStr_new:
  assumes "libc_ok lc" and "heap_ok h" and "io_ok io" and "HC_GetStr lc msg h io = (Ret s h1, io1)"
  shows "\<exists>t. new_string (fst (read_line (io\<lparr>i_out := t\<rparr>))) h s h1 \<and> io1 = snd (getline (io\<lparr>i_out := t\<rparr>))"
proof -
  obtain t where t: "str_new lc (fst (read_line (io\<lparr>i_out := t\<rparr>))) h = Ret s h1"
      "io1 = snd (read_line (io\<lparr>i_out := t\<rparr>))"
    using assms(4) by (auto simp: HC_GetStr_def case_prod_beta simp del: read_line_snd split: option.splits)
  have "io_ok (io\<lparr>i_out := t\<rparr>)" using assms(3) by (simp add: io_ok_def)
  note rl = read_line_lines [OF this]
  have "new_string (fst (read_line (io\<lparr>i_out := t\<rparr>))) h s h1"
    by (rule str_new_ok [OF assms(1,2) rl(2) _ t(1)]) (use rl(3) in simp)
  with t(2) show ?thesis by auto
qed

lemma HC_GetI64_answer:
  assumes "libc_ok lc" and "heap_ok h" and "io_ok io" and "HC_GetI64 lc msg dft mn mx h io = Some (Ret v h', io')"
  shows "v = answer_i64 dft mn mx (text_lines (i_in io)) \<and> heap_ok h' \<and> h_blocks h' = h_blocks h"
  using assms(2-4)
proof (induction "length (i_in io)" arbitrary: h io rule: less_induct)
  case less
  obtain s h1 io1 where g: "HC_GetStr lc msg h io = (Ret s h1, io1)"
    using less.prems(3) by (subst (asm) HC_GetI64.simps) (auto split: outcome.splits prod.splits)
  obtain t where "new_string (fst (read_line (io\<lparr>i_out := t\<rparr>))) h s h1" and io1: "io1 = snd (getline (io\<lparr>i_out := t\<rparr>))"
    using GetStr_new [OF assms(1) less.prems(1,2) g] by blast
  define l where "l = fst (read_line (io\<lparr>i_out := t\<rparr>))"
  have new: "new_string l h s h1" unfolding l_def by fact
  have "io_ok (io\<lparr>i_out := t\<rparr>)" using less.prems(2) by (simp add: io_ok_def)
  note rl = read_line_lines [OF this, folded l_def io1, simplified]
  obtain h2 where fr: "HC_Free lc s h1 = Ret () h2" "heap_ok h2" "h_blocks h2 = h_blocks h"
    using free_new_string [OF assms(1) less.prems(1) new] by blast
  have cs: "cstr (h_mem h1) s = Some l" using new by (simp add: new_string_def)
  let ?v = "fst (strtoll 0 l)"
  have eq: "HC_GetI64 lc msg dft mn mx h io =
    (if l = [] then Some (Ret dft h2, io1)
     else if snd (strtoll 0 l) \<and> \<not> slt ?v mn \<and> \<not> slt mx ?v then Some (Ret ?v h2, io1)
     else if i_eof io1 then Some (Ret dft h2, io1)
     else HC_GetI64 lc msg dft mn mx h2 io1)"
    by (subst HC_GetI64.simps) (simp add: g cs str_new_length(1) [OF new] after_free_def fr(1) case_prod_beta)
  have eof: "text_lines [] = []" by (subst text_lines.simps) simp
  have "length (i_in io1) < length (i_in io) \<or> i_eof io1" using HC_GetStr_progress [OF g] by blast
  then show ?case
    using less.prems(3) less.hyps [of io1 h2] rl fr
    unfolding eq by (auto simp: io_ok_def eof split: if_splits)
qed

lemma HC_YorN_answer:
  assumes "libc_ok lc" and "heap_ok h" and "io_ok io" and "HC_YorN lc h io = Some (Ret v h', io')"
  shows "v = answer_yn (text_lines (i_in io)) \<and> heap_ok h' \<and> h_blocks h' = h_blocks h"
  using assms(2-4)
proof (induction "length (i_in io)" arbitrary: h io rule: less_induct)
  case less
  obtain s h1 io1 where g: "HC_GetStr lc 0 h io = (Ret s h1, io1)"
    using less.prems(3) by (subst (asm) HC_YorN.simps) (auto split: outcome.splits prod.splits)
  obtain t where "new_string (fst (read_line (io\<lparr>i_out := t\<rparr>))) h s h1" and io1: "io1 = snd (getline (io\<lparr>i_out := t\<rparr>))"
    using GetStr_new [OF assms(1) less.prems(1,2) g] by blast
  define l where "l = fst (read_line (io\<lparr>i_out := t\<rparr>))"
  have new: "new_string l h s h1" unfolding l_def by fact
  have "io_ok (io\<lparr>i_out := t\<rparr>)" using less.prems(2) by (simp add: io_ok_def)
  note rl = read_line_lines [OF this, folded l_def io1, simplified]
  obtain h2 where fr: "HC_Free lc s h1 = Ret () h2" "heap_ok h2" "h_blocks h2 = h_blocks h"
    using free_new_string [OF assms(1) less.prems(1) new] by blast
  have eq: "HC_YorN lc h io =
    (if take 1 l = ''y'' \<or> take 1 l = ''Y'' then Some (Ret 1 h2, io1)
     else if take 1 l = ''n'' \<or> take 1 l = ''N'' then Some (Ret 0 h2, io1)
     else if i_eof io1 then Some (Ret 0 h2, io1)
     else HC_YorN lc h2 io1)"
    by (subst HC_YorN.simps) (cases l; simp add: g str_new_length(2) [OF new] after_free_def fr(1))
  have eof: "text_lines [] = []" by (subst text_lines.simps) simp
  have "length (i_in io1) < length (i_in io) \<or> i_eof io1" using HC_GetStr_progress [OF g] by blast
  then show ?case
    using less.prems(3) less.hyps [of io1 h2] rl fr
    unfolding eq by (auto simp: io_ok_def eof split: if_splits)
qed

end
