(* ===== verification/HC_RtExcept.thy ===== *)
theory HC_RtExcept
  imports HC_RtStr
begin

text \<open>
  Exceptions: the frames of \<open>hcrt.c\<close> as a linked list in memory, \<open>HC_Throw\<close> with its \<open>longjmp\<close>,
  and the control flow that \<open>CG::genTry\<close> builds around them. The implementation is shown to refine
  structured exceptions, in which a handler is looked for outwards and nothing else happens.
\<close>

subsection \<open>Frames\<close>

text \<open>
  The memory, \<open>hc_try_top\<close>, the fields of the task \<open>Fs\<close> (of \<open>except_callers\<close> only the first entry
  is ever written) and the standard output.
\<close>

record exc =
  x_mem :: mem
  x_top :: i64
  x_ch :: i64
  x_caller :: i64
  x_catch :: i64
  x_out :: string

text \<open>
  How a call or a statement ends: it goes on, it is a \<open>longjmp\<close> to a \<open>jmp_buf\<close>, control has left the
  statement by \<open>break\<close>, \<open>goto\<close> or \<open>return\<close>, or the process ends with a message.
\<close>

datatype control = Go | Jump i64 | Leave | Halt string

definition HC_TryPush :: "i64 \<Rightarrow> exc \<Rightarrow> i64 \<times> exc" where
  "HC_TryPush frame s = (frame + 16, s\<lparr>x_mem := store64 frame (x_top s) (x_mem s), x_top := frame\<rparr>)"

definition HC_TryPop :: "exc \<Rightarrow> exc" where
  "HC_TryPop s = (if x_top s \<noteq> 0 then s\<lparr>x_top := load64 (x_mem s) (x_top s)\<rparr> else s)"

text \<open>The eight bytes of the exception, up to the first NUL.\<close>

definition pretty :: "i64 \<Rightarrow> string" where
  "pretty ch = map char_of (takeWhile (\<lambda>b. b \<noteq> 0) (map (packed_byte ch) [0..<8]))"

text \<open>\<open>ra\<close> is the return address of the call.\<close>

definition HC_Throw :: "i64 \<Rightarrow> i64 \<Rightarrow> exc \<Rightarrow> control \<times> exc" where
  "HC_Throw ra ch s =
     (let s1 = s\<lparr>x_ch := ch, x_caller := ra\<rparr>; f = x_top s1
      in if f = 0 then (Halt (''Unhandled exception:'' @ [CHR 0x27] @ pretty ch @ [CHR 0x27, CHR 0x0A]), s1)
         else (Jump (f + 16), s1\<lparr>x_top := load64 (x_mem s1) f\<rparr>))"

definition HC_CatchEnter :: "exc \<Rightarrow> exc" where
  "HC_CatchEnter s = s\<lparr>x_catch := 0\<rparr>"

definition HC_CatchDone :: "i64 \<Rightarrow> exc \<Rightarrow> control \<times> exc" where
  "HC_CatchDone ra s = (if x_catch s = 0 then HC_Throw ra (x_ch s) s else (Go, s\<lparr>x_catch := 0\<rparr>))"

definition HC_PutExcept :: "i64 \<Rightarrow> exc \<Rightarrow> exc" where
  "HC_PutExcept catch_it s =
     (let s1 = s\<lparr>x_out := x_out s @ ''Except:'' @ [CHR 0x27] @ pretty (x_ch s) @ [CHR 0x27] @ '' at ''
                   @ pad_left 16 CHR ''0'' (int_body (x_caller s) 16 True False False) @ [CHR 0x0A]\<rparr>
      in if catch_it \<noteq> 0 then s1\<lparr>x_catch := 1\<rparr> else s1)"

subsection \<open>The code around a try\<close>

text \<open>
  Statements, as far as exceptions see them: output, \<open>throw\<close>, the assignment
  \<open>Fs->catch_except = TRUE\<close>, \<open>PutExcept\<close>, a jump out of the statement, sequences, and
  \<open>try ... catch ...\<close> with the address of the frame that \<open>genTry\<close> allocates for it.
\<close>

datatype prog =
    Emit string
  | ThrowS i64
  | CatchIt
  | PutExceptS i64
  | LeaveS
  | Then prog prog
  | TryS i64 prog prog

primrec leaves :: "prog \<Rightarrow> bool" where
  "leaves (Emit t) = False"
| "leaves (ThrowS ch) = False"
| "leaves CatchIt = False"
| "leaves (PutExceptS c) = False"
| "leaves LeaveS = True"
| "leaves (Then p q) = (leaves p \<or> leaves q)"
| "leaves (TryS f p h) = (leaves p \<or> leaves h)"

text \<open>
  The blocks of \<open>genTry\<close>: the frame is pushed and \<open>setjmp\<close> returns 0, so the body runs; at its end the
  frame is popped. A \<open>longjmp\<close> to this frame's buffer comes back to the \<open>setjmp\<close> and goes to the handler,
  between \<open>HC_CatchEnter\<close> and \<open>HC_CatchDone\<close>. A body that jumps away gets no pop.
\<close>

primrec run :: "i64 \<Rightarrow> prog \<Rightarrow> exc \<Rightarrow> control \<times> exc" where
  "run ra (Emit t) s = (Go, s\<lparr>x_out := x_out s @ t\<rparr>)"
| "run ra (ThrowS ch) s = HC_Throw ra ch s"
| "run ra CatchIt s = (Go, s\<lparr>x_catch := 1\<rparr>)"
| "run ra (PutExceptS c) s = (Go, HC_PutExcept c s)"
| "run ra LeaveS s = (Leave, s)"
| "run ra (Then p q) s = (case run ra p s of (Go, s1) \<Rightarrow> run ra q s1 | r \<Rightarrow> r)"
| "run ra (TryS f p h) s =
     (case run ra p (snd (HC_TryPush f s)) of
        (Go, s1) \<Rightarrow> (Go, HC_TryPop s1)
      | (Jump jb, s1) \<Rightarrow>
          if jb = f + 16
          then (case run ra h (HC_CatchEnter s1) of (Go, s2) \<Rightarrow> HC_CatchDone ra s2 | r \<Rightarrow> r)
          else (Jump jb, s1)
      | r \<Rightarrow> r)"

subsection \<open>Structured exceptions\<close>

text \<open>
  The meaning of the statements without frames and jumps: an exception is a result. The state
  is the task's fields and the output.
\<close>

datatype result = Normal | Raised

primrec meaning :: "i64 \<Rightarrow> prog \<Rightarrow> exc \<Rightarrow> result \<times> exc" where
  "meaning ra (Emit t) s = (Normal, s\<lparr>x_out := x_out s @ t\<rparr>)"
| "meaning ra (ThrowS ch) s = (Raised, s\<lparr>x_ch := ch, x_caller := ra\<rparr>)"
| "meaning ra CatchIt s = (Normal, s\<lparr>x_catch := 1\<rparr>)"
| "meaning ra (PutExceptS c) s = (Normal, HC_PutExcept c s)"
| "meaning ra LeaveS s = (Normal, s)"
| "meaning ra (Then p q) s = (case meaning ra p s of (Normal, s1) \<Rightarrow> meaning ra q s1 | (Raised, s1) \<Rightarrow> (Raised, s1))"
| "meaning ra (TryS f p h) s =
     (case meaning ra p s of
        (Normal, s1) \<Rightarrow> (Normal, s1)
      | (Raised, s1) \<Rightarrow>
          (case meaning ra h (s1\<lparr>x_catch := 0\<rparr>) of
             (Raised, s2) \<Rightarrow> (Raised, s2)
           | (Normal, s2) \<Rightarrow> if x_catch s2 = 0 then (Raised, s2\<lparr>x_caller := ra\<rparr>) else (Normal, s2\<lparr>x_catch := 0\<rparr>)))"

subsection \<open>The implementation refines the meaning\<close>

text \<open>The list of frames from a pointer, in the manner of a linked list in a heap.\<close>

primrec links :: "mem \<Rightarrow> i64 \<Rightarrow> i64 list \<Rightarrow> bool" where
  "links m p [] \<longleftrightarrow> p = 0"
| "links m p (f # fs) \<longleftrightarrow> p = f \<and> f \<noteq> 0 \<and> links m (load64 m f) fs"

lemma links_store: "(\<And>g. g \<in> set fs \<Longrightarrow> apart f 8 g 8) \<Longrightarrow> links (store64 f v m) p fs \<longleftrightarrow> links m p fs"
proof (induction fs arbitrary: p)
  case (Cons g fs)
  have "load64 (store64 f v m) g = load64 m g"
    using load_store_apart [of f "bytes_of_nat 8 (unat v)" g 8 m] Cons.prems
    by (simp add: load64_def store64_def)
  with Cons show ?case by simp
qed simp

text \<open>The frames of nested statements: not null, and away from those that are in use.\<close>

primrec frames_ok :: "i64 list \<Rightarrow> prog \<Rightarrow> bool" where
  "frames_ok fs (Emit t) = True"
| "frames_ok fs (ThrowS ch) = True"
| "frames_ok fs CatchIt = True"
| "frames_ok fs (PutExceptS c) = True"
| "frames_ok fs LeaveS = True"
| "frames_ok fs (Then p q) = (frames_ok fs p \<and> frames_ok fs q)"
| "frames_ok fs (TryS f p h) =
     (f \<noteq> 0 \<and> (\<forall>g \<in> set fs. apart f 8 g 8) \<and> frames_ok (f # fs) p \<and> frames_ok fs h)"

text \<open>The states agree on all that is not the bookkeeping of frames.\<close>

definition same_task :: "exc \<Rightarrow> exc \<Rightarrow> bool" where
  "same_task s t \<longleftrightarrow> x_ch s = x_ch t \<and> x_caller s = x_caller t \<and> x_catch s = x_catch t \<and> x_out s = x_out t"

text \<open>
  What the implementation must have done under the frames \<open>fs\<close>: gone on with the same frames, or
  thrown to the innermost of them (or ended the process when there is none).
\<close>

definition implements :: "i64 list \<Rightarrow> result \<times> exc \<Rightarrow> control \<times> exc \<Rightarrow> bool" where
  "implements fs r r' \<longleftrightarrow> same_task (snd r) (snd r') \<and>
     (case fst r of
        Normal \<Rightarrow> fst r' = Go \<and> links (x_mem (snd r')) (x_top (snd r')) fs
      | Raised \<Rightarrow> (case fs of
            [] \<Rightarrow> fst r' = Halt (''Unhandled exception:'' @ [CHR 0x27] @ pretty (x_ch (snd r)) @ [CHR 0x27, CHR 0x0A])
          | f # gs \<Rightarrow> fst r' = Jump (f + 16) \<and> links (x_mem (snd r')) (x_top (snd r')) gs))"

lemma throw_implements:
  "links (x_mem s') (x_top s') fs \<Longrightarrow> same_task (s\<lparr>x_ch := ch, x_caller := ra\<rparr>) (s'\<lparr>x_ch := ch, x_caller := ra\<rparr>)
    \<Longrightarrow> implements fs (Raised, s\<lparr>x_ch := ch, x_caller := ra\<rparr>) (HC_Throw ra ch s')"
  by (cases fs) (auto simp: implements_def HC_Throw_def same_task_def Let_def)

lemma run_implements:
  assumes "\<not> leaves p" and "frames_ok fs p" and "links (x_mem s') (x_top s') fs" and "same_task s s'"
  shows "implements fs (meaning ra p s) (run ra p s')"
  using assms
proof (induction p arbitrary: fs s s')
  case (ThrowS ch)
  then show ?case using throw_implements [where s' = s' and fs = fs and s = s and ch = ch and ra = ra] by (simp add: same_task_def)
next
  case (Then p q)
  have p: "implements fs (meaning ra p s) (run ra p s')" using Then by simp
  show ?case
  proof (cases "meaning ra p s")
    case (Pair r s1)
    obtain c s1' where r': "run ra p s' = (c, s1')" by fastforce
    show ?thesis
    proof (cases r)
      case Normal
      with p Pair r' Then.IH(2) [of fs s1' s1] Then.prems show ?thesis by (simp add: implements_def)
    next
      case Raised
      with p Pair r' show ?thesis by (cases fs) (auto simp: implements_def)
    qed
  qed
next
  case (TryS f p h)
  have f: "f \<noteq> 0" "\<And>g. g \<in> set fs \<Longrightarrow> apart f 8 g 8" using TryS.prems by simp_all
  let ?s0 = "snd (HC_TryPush f s')"
  have "links (x_mem ?s0) (x_top ?s0) (f # fs)"
    using TryS.prems(3) f by (simp add: HC_TryPush_def links_store)
  moreover have "same_task s ?s0" using TryS.prems(4) by (simp add: same_task_def HC_TryPush_def)
  ultimately have p: "implements (f # fs) (meaning ra p s) (run ra p ?s0)"
    using TryS.IH(1) [of "f # fs" ?s0 s] TryS.prems by simp
  obtain r s1 where m: "meaning ra p s = (r, s1)" by fastforce
  obtain c s1' where r': "run ra p ?s0 = (c, s1')" by fastforce
  show ?case
  proof (cases r)
    case Normal
    with p m r' show ?thesis by (auto simp: implements_def HC_TryPop_def same_task_def)
  next
    case Raised
    then have c: "c = Jump (f + 16)" and l: "links (x_mem s1') (x_top s1') fs" and st: "same_task s1 s1'"
      using p m r' by (simp_all add: implements_def)
    have h: "implements fs (meaning ra h (s1\<lparr>x_catch := 0\<rparr>)) (run ra h (HC_CatchEnter s1'))"
      by (rule TryS.IH(2)) (use TryS.prems l st in \<open>simp_all add: HC_CatchEnter_def same_task_def\<close>)
    obtain r2 s2 where m2: "meaning ra h (s1\<lparr>x_catch := 0\<rparr>) = (r2, s2)" by fastforce
    obtain c2 s2' where r2': "run ra h (HC_CatchEnter s1') = (c2, s2')" by fastforce
    show ?thesis
    proof (cases r2)
      case Raised
      then show ?thesis using h m m2 r' r2' c \<open>r = Raised\<close> by (cases fs) (auto simp: implements_def)
    next
      case Normal
      then have "c2 = Go" "links (x_mem s2') (x_top s2') fs" "same_task s2 s2'"
        using h m2 r2' by (simp_all add: implements_def)
      moreover have "implements fs (Raised, s2\<lparr>x_caller := ra\<rparr>) (HC_Throw ra (x_ch s2) s2')"
        using throw_implements [where s' = s2' and fs = fs and s = s2 and ch = "x_ch s2" and ra = ra] calculation by (simp add: same_task_def)
      ultimately show ?thesis
        using Normal m m2 r' r2' c \<open>r = Raised\<close>
        by (auto simp: HC_CatchDone_def same_task_def implements_def)
    qed
  qed
qed (auto simp: implements_def same_task_def HC_PutExcept_def Let_def)

text \<open>
  A jump out of the body leaves the frame of the finished statement on the stack: the next exception
  goes there.
\<close>

lemma leaving_keeps_frame:
  "f \<noteq> 0 \<Longrightarrow> run ra (TryS f LeaveS h) s = (Leave, snd (HC_TryPush f s))
    \<and> fst (HC_Throw ra ch (snd (run ra (TryS f LeaveS h) s))) = Jump (f + 16)"
  by (simp add: HC_TryPush_def HC_Throw_def Let_def)

end
