(* ===== verification/HC_RtSpec.thy ===== *)
theory HC_RtSpec
  imports HC_RtInput HC_RtExcept HC_ConstEval
begin

text \<open>
  The properties of the runtime library \<open>hcrt.c\<close>, stated over the theories \<open>HC_RtMath\<close> to \<open>HC_RtExcept\<close>.
\<close>

section \<open>The runtime library\<close>

text \<open>
  C23: the formatter behind \<open>Print\<close>, \<open>StrPrint\<close> and \<open>StreamPrint\<close> is a function on texts. Whatever
  output it is given, a growing buffer or the standard output, it appends exactly the text that
  \<open>fmt_text\<close> computes, and a buffer always has room for its text and the NUL behind it.
\<close>

theorem format_prints:
  assumes "fmt_text m s as = Some (t, as', flt)"
  shows "\<exists>st. format m s as o' = Some st \<and> out_text (f_out st) = out_text o' @ t \<and> f_fault st = flt
     \<and> (out_ok o' \<longrightarrow> out_ok (f_out st))"
  using format_text [of o' m s as] assms by (auto simp: option_rel_Some2)

theorem format_prints_witness:
  "\<exists>st. format (\<lambda>_. 0) ''%8s|%%%y'' [0] out0 = Some st \<and> out_text (f_out st) = ''  (null)|%%y''"
proof -
  have "fmt_text (\<lambda>_. 0) ''%8s|%%%y'' [0] = Some (''  (null)|%%y'', [], False)"
    by (simp add: read_spec_def fspec0_def arg_text_def in_field_def next_arg_def isdigit_def byte_def wrap32_def
        fmt_cons_def numeral_eq_Suc)
  from format_prints [OF this, of out0] show ?thesis by (auto simp: out_text_def out0_def)
qed

text \<open>
  C33: a field is as wide as asked. What the field functions print is the body, filled up on the
  side and with the character the flags name, and never shorter than the width nor than the body.
\<close>

theorem field_width:
  "out_text (fmt_field body width left zero o') = out_text o' @ in_field body width left zero
   \<and> int (length (in_field body width left zero)) = max width (int (length body))"
  by (simp add: fmt_field_text length_in_field)

text \<open>
  C29: \<open>%d\<close> prints the number: the sign, then the decimal digits of the magnitude, in groups of three
  when asked, for every 64-bit integer including the most negative one, whose magnitude is no \<open>I64\<close>.
\<close>

theorem decimal_text:
  "int_text f v = (if sint v < 0 then ''-'' else if fs_plus f then ''+'' else [])
     @ (if fs_commas f then thousands else dec_of_nat) (nat \<bar>sint v\<bar>)"
  by (rule int_text_eq)

text \<open>
  C30: what is printed reads back. \<open>Str2I64\<close> of the text that \<open>%d\<close> prints for an integer is the integer,
  in base ten and when it chooses the base itself.
\<close>

theorem number_round_trip:
  assumes "p \<noteq> 0" and "cstr m p = Some (int_text fspec0 v)" and "radix = 0 \<or> radix = 10"
  shows "HC_Str2I64 m p radix = Some v"
proof -
  have "int_text fspec0 v = to_string_i64 v"
    by (auto simp: int_text_eq fspec0_def to_string_i64_def dec_of_int_def)
  moreover have "wrap32 (sint radix) = 0 \<or> wrap32 (sint radix) = 10"
    using assms(3) by (auto simp: wrap32_def)
  ultimately show ?thesis
    using assms strtoll_printed [of "wrap32 (sint radix)" v] by (simp add: HC_Str2I64_def)
qed

theorem number_round_trip_witness:
  "HC_Str2I64 (store_bytes 64 (bytes_of ''-42'') (\<lambda>_. 0)) 64 10 = Some (- 42)"
proof -
  have "cstr (store_bytes 64 (bytes_of ''-42'') (\<lambda>_. 0)) 64 = Some ''-42''"
    by (rule cstr_stored) simp_all
  moreover have "int_text fspec0 (- 42) = ''-42''"
    by (simp add: int_text_eq fspec0_def dec_of_nat.simps digit_char_def char_of_def bit_0 bit_Suc)
  ultimately show ?thesis by (intro number_round_trip) simp_all
qed

text \<open>
  C31: character constants survive compiling and printing. Up to eight characters, none of them NUL,
  packed into an integer by the lexer and given to \<open>PutChars\<close>, are printed as they were written.
\<close>

theorem char_constant_round_trip:
  assumes "length cs \<le> 8" and "CHR 0x00 \<notin> set cs"
  shows "HC_PutChars (pack_chars cs) = cs"
  using packed.put_text [of "pack_chars cs" out_std] packed.put_mode [of "pack_chars cs" out_std] packed_text_pack [OF assms]
  by (simp add: HC_PutChars_def out_text_def out_std_def out0_def)

theorem char_constant_round_trip_witness: "HC_PutChars (pack_chars ''Hello!'') = ''Hello!''"
  using char_constant_round_trip [of "''Hello!''"] by simp

text \<open>
  C28: \<open>%D\<close> follows the calendar. The date computed for a day number has the date of the day before
  with the next day of the proleptic Gregorian calendar, for all integers, and day 719528 is
  1 January 1970.
\<close>

theorem dates_follow_the_calendar:
  "civil (n + 1) = next_day (civil n) \<and> civil 719528 = (1970, 1, 1)"
  by (simp add: civil_next civil_epoch)

text \<open>
  C24: \<open>MAlloc\<close> keeps the heap: the new block has the size asked for (0 for a negative one), meets no
  live block, and the contents of all live blocks are as before.
\<close>

theorem malloc_contract:
  assumes "libc_ok lc" and "heap_ok h" and "HC_MAlloc lc sz h = Ret p h'"
  shows "heap_ok h' \<and> p \<noteq> 0 \<and> HC_MSize p h' = (if slt sz 0 then 0 else sz)
     \<and> h_blocks h' = (p - 16, 16 + unat (if slt sz 0 then 0 else sz)) # h_blocks h
     \<and> (\<forall>(b, j) \<in> set (h_blocks h). load_bytes (h_mem h') b j = load_bytes (h_mem h) b j)"
  using malloc_heap_ok [OF assms] by blast

definition empty_heap :: heap where
  "empty_heap = \<lparr>h_mem = (\<lambda>_. 0), h_blocks = []\<rparr>"

theorem malloc_contract_witness:
  "\<exists>p h'. HC_MAlloc bump 5 empty_heap = Ret p h' \<and> heap_ok h' \<and> HC_MSize p h' = 5"
proof -
  obtain p h' where r: "HC_MAlloc bump 5 empty_heap = Ret p h'"
    by (auto simp: HC_MAlloc_def libc_alloc_def bump_def empty_heap_def slt_def)
  have "heap_ok empty_heap" by (simp add: heap_ok_def empty_heap_def)
  from malloc_contract [OF bump_ok this r] r show ?thesis by (auto simp: slt_def)
qed

text \<open>
  C25: \<open>Free\<close> of a block that \<open>MAlloc\<close> returned ends the block and touches no other, whatever the
  program has written into the blocks.
\<close>

theorem free_contract:
  assumes "libc_ok lc" and "heap_ok h" and "(p - 16, k) \<in> set (h_blocks h)" and "p \<noteq> 0"
  shows "\<exists>h'. HC_Free lc p h = Ret () h' \<and> heap_ok h'
     \<and> h_blocks h' = filter (\<lambda>b. fst b \<noteq> p - 16) (h_blocks h)
     \<and> (\<forall>(b, j) \<in> set (h_blocks h). b \<noteq> p - 16 \<longrightarrow> load_bytes (h_mem h') b j = load_bytes (h_mem h) b j)"
  by (rule free_heap_ok [OF assms])

theorem free_contract_witness:
  "\<exists>p h h'. HC_MAlloc bump 5 empty_heap = Ret p h \<and> HC_Free bump p h = Ret () h' \<and> h_blocks h' = []"
proof -
  obtain p h where r: "HC_MAlloc bump 5 empty_heap = Ret p h"
    by (auto simp: HC_MAlloc_def libc_alloc_def bump_def empty_heap_def slt_def)
  have "heap_ok empty_heap" by (simp add: heap_ok_def empty_heap_def)
  note m = malloc_heap_ok [OF bump_ok this r]
  have "h_blocks h = [(p - 16, 21)]" using m(4) by (simp add: empty_heap_def slt_def)
  then show ?thesis using free_contract [OF bump_ok m(1), of p 21] m(3) r by auto
qed

text \<open>
  C26: \<open>StrPrintJoin\<close> replaces a string of the heap by itself with the formatted text behind it: the
  result is a fresh block with exactly that string, the old block is gone, the rest of the heap stays.
\<close>

theorem join_contract:
  assumes "libc_ok lc" and "heap_ok h" and "cstr (h_mem h) dst = Some d" and "dst \<noteq> 0"
    and "(dst - 16, k) \<in> set (h_blocks h)" and "17 + length d \<le> k"
    and "formatted (h_mem h) fmt argc argv = Some t" and "Suc (length d + length t) < 2 ^ 63"
    and "HC_StrPrintJoin lc dst fmt argc argv h = Ret r h'"
  shows "heap_ok h' \<and> cstr (h_mem h') r = Some (d @ t)
     \<and> h_blocks h' = (r - 16, 17 + length (d @ t)) # filter (\<lambda>b. fst b \<noteq> dst - 16) (h_blocks h)"
  by (rule join_ok [OF assms])

theorem join_contract_witness:
  "\<exists>h r h'. str_new bump ''ab'' empty_heap = Ret 17 h \<and> HC_StrPrintJoin bump 17 0 0 0 h = Ret r h'
     \<and> cstr (h_mem h') r = Some ''ab''"
proof -
  obtain h where r: "str_new bump ''ab'' empty_heap = Ret 17 h"
    by (simp add: str_new_def HC_MAlloc_def libc_alloc_def bump_def empty_heap_def slt_def)
  have e: "heap_ok empty_heap" by (simp add: heap_ok_def empty_heap_def)
  have n: "new_string ''ab'' empty_heap 17 h" by (rule str_new_ok [OF bump_ok e _ _ r]) simp_all
  have blk: "h_blocks h = [(1, 19)]" using n by (simp add: new_string_def empty_heap_def)
  have f: "formatted (h_mem h) 0 0 0 = Some []"
    by (simp add: formatted_def hc_format_at_def out_cstr_def out0_def)
  have ok: "heap_ok h" "cstr (h_mem h) 17 = Some ''ab''" using n by (simp_all add: new_string_def)
  have live: "(17 - 16, 19) \<in> set (h_blocks h)" by (simp add: blk)
  obtain q h1 where q: "str_new bump (''ab'' @ []) h = Ret q h1"
    by (simp add: str_new_def HC_MAlloc_def libc_alloc_def bump_def block_end_def blk slt_def)
  have "new_string (''ab'' @ []) h q h1" by (rule str_new_ok [OF bump_ok ok(1) _ _ q]) simp_all
  then have "heap_ok h1" "(17 - 16, 19) \<in> set (h_blocks h1)" by (simp_all add: new_string_def blk)
  from free_heap_ok [OF bump_ok this] obtain h' where "HC_Free bump 17 h1 = Ret () h'" by auto
  then have j: "HC_StrPrintJoin bump 17 0 0 0 h = Ret q h'"
    using join_is_new [OF bump_ok ok _ live _ f] q by simp
  have "cstr (h_mem h') q = Some (''ab'' @ [])"
    using join_contract [OF bump_ok ok(1,2) _ live _ f _ j] by simp
  with r j show ?thesis by auto
qed

text \<open>
  C36: string comparison is a total order: 0 for equal strings only, the opposite sign for exchanged
  arguments, negative exactly where the first string comes first in the lexicographic order of bytes.
\<close>

theorem string_order:
  assumes "str_arg m a = Some s" and "str_arg m b = Some t"
  shows "\<exists>r. HC_StrCmp m a b = Some r \<and> HC_StrCmp m b a = Some (- r) \<and> (r = 0 \<longleftrightarrow> s = t)
     \<and> (r < 0 \<longleftrightarrow> (s, t) \<in> lexord {(c, d). byte c < byte d})"
  using assms by (simp add: HC_StrCmp_def strcmp_eq_0 strcmp_flip [of t s] strcmp_lexord)

theorem string_order_witness: "\<exists>r. HC_StrCmp (\<lambda>_. 0) 0 8 = Some r \<and> r = 0"
proof -
  have "str_arg (\<lambda>_. 0) 0 = Some []" "str_arg (\<lambda>_. 0) 8 = Some []"
    by (simp_all add: str_arg_def cstr.simps)
  from string_order [OF this] show ?thesis by blast
qed



text \<open>
  C27: \<open>GetI64\<close> always returns, whatever the input holds: after an empty line or the end of the input
  with the default, after a number inside the bounds with that number, and every line it has read is
  freed again.
\<close>

theorem asking_for_a_number:
  assumes "libc_ok lc" and "heap_ok h" and "io_ok io"
  shows "\<exists>r io'. HC_GetI64 lc msg dft mn mx h io = Some (r, io')
     \<and> (\<forall>v h'. r = Ret v h' \<longrightarrow> v = answer_i64 dft mn mx (text_lines (i_in io)) \<and> heap_ok h' \<and> h_blocks h' = h_blocks h)"
proof -
  obtain r io' where r: "HC_GetI64 lc msg dft mn mx h io = Some (r, io')"
    using HC_GetI64_returns [of lc msg dft mn mx h io] by auto
  then show ?thesis using HC_GetI64_answer [OF assms] by auto
qed

theorem asking_for_a_number_witness:
  "\<exists>r io'. HC_GetI64 bump 0 7 1 9 empty_heap \<lparr>i_in = [], i_eof = False, i_out = []\<rparr> = Some (r, io')
     \<and> (\<forall>v h'. r = Ret v h' \<longrightarrow> v = 7)"
proof -
  have "heap_ok empty_heap" by (simp add: heap_ok_def empty_heap_def)
  moreover have "io_ok \<lparr>i_in = [], i_eof = False, i_out = []\<rparr>" by (simp add: io_ok_def)
  moreover have "text_lines [] = []" by (subst text_lines.simps) simp
  ultimately show ?thesis
    using asking_for_a_number [OF bump_ok, of empty_heap "\<lparr>i_in = [], i_eof = False, i_out = []\<rparr>" 0 7 1 9] by auto
qed






text \<open>
  C34: the random numbers never get stuck: the state after \<open>Seed\<close> is not zero, a step maps different
  states to different states and never to zero, so the generator has no short tail.
\<close>

theorem random_state:
  "HC_Seed now seed \<noteq> 0 \<and> inj (\<lambda>st. snd (HC_RandU64 st)) \<and> (st \<noteq> 0 \<longrightarrow> snd (HC_RandU64 st) \<noteq> 0)"
  using xorshift_inj xorshift_nonzero [of st] by (simp add: HC_Seed_def HC_RandU64_def Let_def)

theorem random_state_witness: "snd (HC_RandU64 rand_init) \<noteq> 0"
  using random_state [of 0 0 rand_init] by (simp add: rand_init_def)

text \<open>
  C35: \<open>Bts\<close>, \<open>Btr\<close> and \<open>Btc\<close> set, reset and complement the bit they are given and no other bit of the
  field, for all 64-bit bit numbers, and all of them return the bit as it was.
\<close>

theorem bit_operations:
  "the_bit (snd (HC_Bts m p n)) p k = (k = n \<or> the_bit m p k)
   \<and> the_bit (snd (HC_Btr m p n)) p k = (k \<noteq> n \<and> the_bit m p k)
   \<and> the_bit (snd (HC_Btc m p n)) p k = (if k = n then \<not> the_bit m p k else the_bit m p k)
   \<and> fst (HC_Bts m p n) = b2i (the_bit m p n) \<and> fst (HC_Btr m p n) = b2i (the_bit m p n)
   \<and> fst (HC_Btc m p n) = b2i (the_bit m p n)"
  using the_bit_ops [of m p n k] Bt_the_bit [of m p n] by (simp add: HC_Bts_def HC_Btr_def HC_Btc_def)

text \<open>
  C32: the power operator of the runtime computes powers modulo 2^64, as the constant evaluators of the
  compiler do; for a negative exponent the two differ, 0 at run time and 1 in a constant.
\<close>

theorem power_operator:
  "HC_PowI64 b e = (if slt e 0 then 0 else b ^ nat (sint e))
   \<and> const_binop PPow b e = Some (Some (if slt e 0 then 1 else HC_PowI64 b e))"
  using pow_loop_runtime [of e b] pow_loop_negative [of e b] HC_PowI64_eq [of e b]
  by (simp add: const_binop_def)



end
