(* ===== verification/HC_IR.thy ===== *)
theory HC_IR
  imports HC_ConstEval
begin

text \<open>
  The module under construction: what \<open>codegen.cpp\<close> builds through the classes of LLVM, as data.
  LLVM itself is not modelled. A builder call appends an instruction with the operands it was given
  and yields the register of its result; what the library may do on its own (folding of constants,
  names made unique) is left out, and the code asks nothing that depends on it. It asks for the type
  of a value, whether a block ends in a terminator, and for a function of the module by name, which
  are read off the data here.
\<close>

subsection \<open>Types and values\<close>

datatype lty = LInt nat | LF64 | LPtr | LVoid | LArr nat lty

abbreviation LI64 :: lty where "LI64 \<equiv> LInt 64"
abbreviation LI32 :: lty where "LI32 \<equiv> LInt 32"
abbreviation LI8 :: lty where "LI8 \<equiv> LInt 8"
abbreviation LI1 :: lty where "LI1 \<equiv> LInt 1"

text \<open>Constants, the result of an instruction by its number, an argument of the current function,
  and the globals and functions of the module by their index.\<close>

datatype val =
    VInt nat i64
  | VFlt f64
  | VReg nat lty
  | VArg nat lty
  | VGlobal nat
  | VFun nat

fun val_ty :: "val \<Rightarrow> lty" where
  "val_ty (VInt w _) = LInt w"
| "val_ty (VFlt _) = LF64"
| "val_ty (VReg _ t) = t"
| "val_ty (VArg _ t) = t"
| "val_ty (VGlobal _) = LPtr"
| "val_ty (VFun _) = LPtr"

definition cI64 :: "i64 \<Rightarrow> val" where
  "cI64 v = VInt 64 v"

definition cFalse :: val where
  "cFalse = VInt 1 0"

lemma val_ty_consts [simp]: "val_ty (cI64 v) = LI64" "val_ty cFalse = LI1"
  by (simp_all add: cI64_def cFalse_def)

subsection \<open>Instructions\<close>

datatype binop =
    BAdd | BSub | BMul | BSDiv | BUDiv | BSRem | BURem | BAnd | BOr | BXor | BShl | BLShr | BAShr
  | BFAdd | BFSub | BFMul | BFDiv | BFRem

datatype castop = CZExt | CSExt | CTrunc | CPtrToInt | CIntToPtr | CUIToFP | CSIToFP | CFPToSI | CBitCast

datatype ipred = IEQ | INE | ISLT | ISGT | ISLE | ISGE | IULT | IUGT | IULE | IUGE

datatype fpred = FOLT | FOGT | FOLE | FOGE | FOEQ | FONE

text \<open>The instructions and, from \<open>TBr\<close> on, the terminators. Blocks are named by their index in the
  function.\<close>

datatype instr =
    IBin binop val val
  | INeg val
  | INot val
  | IFNeg val
  | ICmp ipred val val
  | IFCmp fpred val val
  | ICast castop val lty
  | ILoad lty val
  | IStore val val
  | IGep lty val "val list"
  | ICall val lty "val list"
  | IMemCpy val val i64
  | IMemSet val i64
  | IPhi "(val \<times> nat) list"
  | TBr nat
  | TCondBr val nat nat
  | TSwitch val nat "(i64 \<times> nat) list"
  | TRet "val option"

fun is_term :: "instr \<Rightarrow> bool" where
  "is_term (TBr _) = True"
| "is_term (TCondBr _ _ _) = True"
| "is_term (TSwitch _ _ _) = True"
| "is_term (TRet _) = True"
| "is_term _ = False"

fun is_float_op :: "binop \<Rightarrow> bool" where
  "is_float_op BFAdd = True"
| "is_float_op BFSub = True"
| "is_float_op BFMul = True"
| "is_float_op BFDiv = True"
| "is_float_op BFRem = True"
| "is_float_op _ = False"

text \<open>The type of the result.\<close>

fun instr_ty :: "instr \<Rightarrow> lty" where
  "instr_ty (IBin op x _) = val_ty x"
| "instr_ty (INeg x) = val_ty x"
| "instr_ty (INot x) = val_ty x"
| "instr_ty (IFNeg x) = LF64"
| "instr_ty (ICmp _ _ _) = LI1"
| "instr_ty (IFCmp _ _ _) = LI1"
| "instr_ty (ICast _ _ t) = t"
| "instr_ty (ILoad t _) = t"
| "instr_ty (IGep _ _ _) = LPtr"
| "instr_ty (ICall _ t _) = t"
| "instr_ty (IPhi _) = LI64"
| "instr_ty _ = LVoid"

text \<open>The typing rules of the instructions, as the language reference gives them.\<close>

fun is_int_ty :: "lty \<Rightarrow> bool" where
  "is_int_ty (LInt _) = True"
| "is_int_ty _ = False"

fun width :: "lty \<Rightarrow> nat" where
  "width (LInt w) = w"
| "width _ = 0"

fun cast_ok :: "castop \<Rightarrow> lty \<Rightarrow> lty \<Rightarrow> bool" where
  "cast_ok CZExt s t = (is_int_ty s \<and> is_int_ty t \<and> width s < width t)"
| "cast_ok CSExt s t = (is_int_ty s \<and> is_int_ty t \<and> width s < width t)"
| "cast_ok CTrunc s t = (is_int_ty s \<and> is_int_ty t \<and> width t < width s)"
| "cast_ok CPtrToInt s t = (s = LPtr \<and> is_int_ty t)"
| "cast_ok CIntToPtr s t = (is_int_ty s \<and> t = LPtr)"
| "cast_ok CUIToFP s t = (is_int_ty s \<and> t = LF64)"
| "cast_ok CSIToFP s t = (is_int_ty s \<and> t = LF64)"
| "cast_ok CFPToSI s t = (s = LF64 \<and> is_int_ty t)"
| "cast_ok CBitCast s t = (s = LF64 \<and> t = LI64)"

text \<open>\<open>fty\<close> is the function type of each function of the module; a call through a pointer takes the
  type it is given.\<close>

fun instr_ok :: "(nat \<Rightarrow> (lty \<times> lty list) option) \<Rightarrow> instr \<Rightarrow> bool" where
  "instr_ok fty (IBin op x y) =
     (val_ty x = val_ty y \<and> (if is_float_op op then val_ty x = LF64 else is_int_ty (val_ty x)))"
| "instr_ok fty (INeg x) = is_int_ty (val_ty x)"
| "instr_ok fty (INot x) = is_int_ty (val_ty x)"
| "instr_ok fty (IFNeg x) = (val_ty x = LF64)"
| "instr_ok fty (ICmp _ x y) = (val_ty x = val_ty y \<and> is_int_ty (val_ty x))"
| "instr_ok fty (IFCmp _ x y) = (val_ty x = LF64 \<and> val_ty y = LF64)"
| "instr_ok fty (ICast c x t) = cast_ok c (val_ty x) t"
| "instr_ok fty (ILoad t a) = (val_ty a = LPtr)"
| "instr_ok fty (IStore v a) = (val_ty a = LPtr \<and> val_ty v \<noteq> LVoid)"
| "instr_ok fty (IGep t a is) = (val_ty a = LPtr \<and> (\<forall>i \<in> set is. val_ty i = LI64))"
| "instr_ok fty (ICall f t as) =
     (case f of VFun k \<Rightarrow> fty k = Some (t, map val_ty as) | _ \<Rightarrow> val_ty f = LPtr)"
| "instr_ok fty (IMemCpy d s n) = (val_ty d = LPtr \<and> val_ty s = LPtr)"
| "instr_ok fty (IMemSet d n) = (val_ty d = LPtr)"
| "instr_ok fty (IPhi ps) = (\<forall>(v, b) \<in> set ps. val_ty v = LI64)"
| "instr_ok fty (TBr b) = True"
| "instr_ok fty (TCondBr c a b) = (val_ty c = LI1)"
| "instr_ok fty (TSwitch c d cs) = is_int_ty (val_ty c)"
| "instr_ok fty (TRet r) = True"

subsection \<open>Blocks\<close>

record block =
  bl_name :: string
  bl_code :: "(nat \<times> instr) list"

text \<open>\<open>bb->getTerminator()\<close>: the last instruction, if it is one.\<close>

definition has_term :: "block \<Rightarrow> bool" where
  "has_term bl \<longleftrightarrow> bl_code bl \<noteq> [] \<and> is_term (snd (last (bl_code bl)))"

text \<open>The blocks a terminator can go to.\<close>

fun targets :: "instr \<Rightarrow> nat list" where
  "targets (TBr b) = [b]"
| "targets (TCondBr _ a b) = [a, b]"
| "targets (TSwitch _ d cs) = d # map snd cs"
| "targets _ = []"

subsection \<open>The state of the generator\<close>

text \<open>\<open>struct VarSym\<close>, \<open>struct FuncSym\<close>, \<open>struct SwitchCtx\<close> (a switch instruction is named by its block),
  and \<open>struct FnCtx\<close>. The marker in front of which allocas are inserted is the split between
  \<open>fx_allocas\<close>, in order, and the rest of the entry block.\<close>

record varsym =
  vs_addr :: val
  vs_type :: ty

record funcsym =
  fs_fn :: "nat option"
  fs_type :: ty

record swctx =
  sc_sw :: nat
  sc_exit :: nat
  sc_inGroup :: bool
  sc_groupStart :: nat
  sc_groupEnd :: nat
  sc_groupSel :: val
  sc_groupSw :: "nat option"
  sc_nextGroupId :: nat
  sc_nextCaseVal :: i64
  sc_sawDefault :: bool

datatype retkind = RetInt | RetF64 | RetVoid

record fnctx =
  fx_fn :: nat
  fx_blocks :: "block list"
  fx_cur :: nat
  fx_next :: nat
  fx_allocas :: "(nat \<times> lty \<times> string) list"
  fx_scopes :: "(string \<times> varsym) list list"
  fx_localNames :: "string list"
  fx_labels :: "(string \<times> nat) list"
  fx_labelsDefined :: "string list"
  fx_breaks :: "(nat \<times> swctx option) list"
  fx_ret :: retkind

text \<open>Initial values of globals.\<close>

datatype const =
    KNull lty
  | KInt nat i64
  | KFlt f64
  | KStr string
  | KBytes "8 word list"
  | KAddr nat lty

record lglobal =
  lg_name :: string
  lg_type :: lty
  lg_internal :: bool
  lg_init :: "const option"

text \<open>A function of the module: the name it was created with, or \<^const>\<open>None\<close> where the module had the
  name already and LLVM chose another; its type; its body once it is generated.\<close>

record lfun =
  lf_name :: "string option"
  lf_type :: "lty \<times> lty list"
  lf_internal :: bool
  lf_body :: "fnctx option"

text \<open>
  The generator. \<open>cg_store\<close> and \<open>cg_classes\<close> are the program's classes, \<open>cg_fc\<close> is \<open>*fc_\<close>.
  \<open>cg_fault\<close> is set where the compiler uses a null \<open>Value\<close>, or hands LLVM a value of a type the
  instruction does not take.
\<close>

record cg =
  cg_store :: store
  cg_classes :: "(string \<times> nat) list"
  cg_aot :: bool
  cg_funcs :: "(string \<times> funcsym) list"
  cg_globals :: "(string \<times> varsym) list"
  cg_strLits :: "(string \<times> nat) list"
  cg_bodyDeclared :: "string list"
  cg_uniq :: nat
  cg_errors :: "(srcloc \<times> string) list"
  cg_fault :: bool
  cg_mglobals :: "lglobal list"
  cg_mfuns :: "lfun list"
  cg_fc :: fnctx

subsection \<open>The builder\<close>

definition upd_fc :: "(fnctx \<Rightarrow> fnctx) \<Rightarrow> cg \<Rightarrow> cg" where
  "upd_fc f s = s\<lparr>cg_fc := f (cg_fc s)\<rparr>"

definition cg_error :: "srcloc \<Rightarrow> string \<Rightarrow> cg \<Rightarrow> cg" where
  "cg_error l m s = s\<lparr>cg_errors := (l, m) # cg_errors s\<rparr>"

definition add_code :: "nat \<Rightarrow> (nat \<times> instr) \<Rightarrow> fnctx \<Rightarrow> fnctx" where
  "add_code b i fx = fx\<lparr>fx_blocks := (fx_blocks fx)[b := (fx_blocks fx ! b)\<lparr>bl_code := bl_code (fx_blocks fx ! b) @ [i]\<rparr>]\<rparr>"

text \<open>An instruction at the insertion point.\<close>

definition emit :: "instr \<Rightarrow> cg \<Rightarrow> val \<times> cg" where
  "emit i s = (let fx = cg_fc s
     in (VReg (fx_next fx) (instr_ty i),
         s\<lparr>cg_fc := (add_code (fx_cur fx) (fx_next fx, i) fx)\<lparr>fx_next := Suc (fx_next fx)\<rparr>\<rparr>))"

definition emit0 :: "instr \<Rightarrow> cg \<Rightarrow> cg" where
  "emit0 i s = snd (emit i s)"

text \<open>\<open>BasicBlock::Create\<close> and \<open>SetInsertPoint\<close>.\<close>

definition new_block :: "string \<Rightarrow> cg \<Rightarrow> nat \<times> cg" where
  "new_block n s = (length (fx_blocks (cg_fc s)),
     upd_fc (\<lambda>fx. fx\<lparr>fx_blocks := fx_blocks fx @ [\<lparr>bl_name = n, bl_code = []\<rparr>]\<rparr>) s)"

definition set_block :: "nat \<Rightarrow> cg \<Rightarrow> cg" where
  "set_block b = upd_fc (\<lambda>fx. fx\<lparr>fx_cur := b\<rparr>)"

definition cur_block :: "cg \<Rightarrow> nat" where
  "cur_block s = fx_cur (cg_fc s)"

definition block_at :: "cg \<Rightarrow> nat \<Rightarrow> block" where
  "block_at s b = fx_blocks (cg_fc s) ! b"

text \<open>\<open>b().GetInsertBlock()->getTerminator()\<close>.\<close>

definition cur_term :: "cg \<Rightarrow> bool" where
  "cur_term s \<longleftrightarrow> has_term (block_at s (cur_block s))"

text \<open>\<open>if (!b().GetInsertBlock()->getTerminator()) b().CreateBr(bb);\<close>\<close>

definition br_open :: "nat \<Rightarrow> cg \<Rightarrow> cg" where
  "br_open b s = (if cur_term s then s else emit0 (TBr b) s)"

definition startDeadBlock :: "string \<Rightarrow> cg \<Rightarrow> cg" where
  "startDeadBlock n s = (let (b, s1) = new_block n s in set_block b s1)"

definition entryAlloca :: "lty \<Rightarrow> string \<Rightarrow> cg \<Rightarrow> val \<times> cg" where
  "entryAlloca t n s = (let fx = cg_fc s
     in (VReg (fx_next fx) LPtr,
         s\<lparr>cg_fc := fx\<lparr>fx_allocas := fx_allocas fx @ [(fx_next fx, t, n)], fx_next := Suc (fx_next fx)\<rparr>\<rparr>))"

text \<open>\<open>mod_->getFunction\<close> and \<open>Function::Create\<close>.\<close>

definition fun_index :: "string \<Rightarrow> lfun list \<Rightarrow> nat option" where
  "fun_index n fs = find (\<lambda>k. lf_name (fs ! k) = Some n) [0..<length fs]"

definition getFunction :: "string \<Rightarrow> cg \<Rightarrow> nat option" where
  "getFunction n s = fun_index n (cg_mfuns s)"

definition name_taken :: "string \<Rightarrow> cg \<Rightarrow> bool" where
  "name_taken n s \<longleftrightarrow> Some n \<in> lf_name ` set (cg_mfuns s) \<or> n \<in> lg_name ` set (cg_mglobals s)"

definition new_function :: "lty \<times> lty list \<Rightarrow> bool \<Rightarrow> string \<Rightarrow> cg \<Rightarrow> nat \<times> cg" where
  "new_function t intern n s =
     (length (cg_mfuns s),
      s\<lparr>cg_mfuns := cg_mfuns s @
          [\<lparr>lf_name = (if name_taken n s then None else Some n), lf_type = t, lf_internal = intern, lf_body = None\<rparr>]\<rparr>)"

definition fun_type :: "cg \<Rightarrow> nat \<Rightarrow> (lty \<times> lty list) option" where
  "fun_type s k = (if k < length (cg_mfuns s) then Some (lf_type (cg_mfuns s ! k)) else None)"

definition new_global :: "lglobal \<Rightarrow> cg \<Rightarrow> nat \<times> cg" where
  "new_global g s = (length (cg_mglobals s), s\<lparr>cg_mglobals := cg_mglobals s @ [g]\<rparr>)"

end
