(* ===== verification/HC_GenBase.thy ===== *)
theory HC_GenBase
  imports HC_IR
begin

text \<open>
  The helpers of \<open>class CG\<close>: types in memory, conversions between rvalues, loads and stores, string
  constants, lookups, the static types of expressions and the declaration of functions.
\<close>

subsection \<open>Rvalues and lvalues\<close>

text \<open>\<open>struct RV\<close>, with no value for a void one, and \<open>struct LV\<close>, with no address after an error.\<close>

type_synonym rv = "val option \<times> ty"
type_synonym lv = "(val \<times> ty) option"

fun isInt :: "ty \<Rightarrow> bool" where
  "isInt (TyInt _ _) = True"
| "isInt _ = False"

fun isPtr :: "ty \<Rightarrow> bool" where
  "isPtr (TyPtr _) = True"
| "isPtr _ = False"

fun isFunc :: "ty \<Rightarrow> bool" where
  "isFunc (TyFunc _ _ _) = True"
| "isFunc _ = False"

text \<open>\<open>t->isPtr() ? t->elem : tyU8()\<close>.\<close>

fun pointee :: "ty \<Rightarrow> ty" where
  "pointee (TyPtr t) = t"
| "pointee _ = tyU8"

definition byte_if_void :: "ty \<Rightarrow> ty" where
  "byte_if_void t = (if t = TyVoid then tyU8 else t)"

definition size_at_least_1 :: "store \<Rightarrow> ty \<Rightarrow> i64" where
  "size_at_least_1 st t = (if slt (ty_size st t) 1 then 1 else ty_size st t)"

fun memTy :: "store \<Rightarrow> ty \<Rightarrow> lty" where
  "memTy st TyF64 = LF64"
| "memTy st (TyInt n _) = LInt (if n \<noteq> 0 then n * 8 else 8)"
| "memTy st (TyPtr _) = LI64"
| "memTy st (TyFunc _ _ _) = LI64"
| "memTy st TyVoid = LI8"
| "memTy st (TyArray t n) = LArr (unat (size_at_least_1 st (TyArray t n))) LI8"
| "memTy st (TyClass c) = LArr (unat (size_at_least_1 st (TyClass c))) LI8"

fun isAggregate :: "ty \<Rightarrow> bool" where
  "isAggregate (TyArray _ _) = True"
| "isAggregate (TyClass _) = True"
| "isAggregate _ = False"

text \<open>A value of type \<open>double\<close>.\<close>

definition is_double :: "val option \<Rightarrow> bool" where
  "is_double v \<longleftrightarrow> (case v of Some x \<Rightarrow> val_ty x = LF64 | None \<Rightarrow> False)"

text \<open>
  \<open>asPtr\<close>. The code calls it on the value of any rvalue: on none it dereferences null, and on a
  double it builds an \<open>inttoptr\<close> that LLVM does not allow.
\<close>

definition asPtr :: "val option \<Rightarrow> cg \<Rightarrow> val \<times> cg" where
  "asPtr v s = (case v of
      None \<Rightarrow> (VReg 0 LPtr, s\<lparr>cg_fault := True\<rparr>)
    | Some x \<Rightarrow>
        if val_ty x = LPtr then (x, s)
        else emit (ICast CIntToPtr x LPtr) (if is_int_ty (val_ty x) then s else s\<lparr>cg_fault := True\<rparr>))"

definition ptrToI64 :: "val \<Rightarrow> cg \<Rightarrow> val \<times> cg" where
  "ptrToI64 v s = (if val_ty v = LPtr then emit (ICast CPtrToInt v LI64) s else (v, s))"

definition widen :: "val \<Rightarrow> ty \<Rightarrow> cg \<Rightarrow> val \<times> cg" where
  "widen v t s =
     (if t = TyF64 then (v, s)
      else if val_ty v = LPtr then emit (ICast CPtrToInt v LI64) s
      else if val_ty v = LI64 then (v, s)
      else case t of TyInt _ True \<Rightarrow> emit (ICast CZExt v LI64) s | _ \<Rightarrow> emit (ICast CSExt v LI64) s)"

text \<open>\<open>convert\<close>.\<close>

definition to_double :: "val \<Rightarrow> ty \<Rightarrow> cg \<Rightarrow> val \<times> cg" where
  "to_double v t s =
     (let (iv, s1) = ptrToI64 v s
      in emit (ICast (if t = TyInt 8 True then CUIToFP else CSIToFP) iv LF64) s1)"

definition to_int :: "val \<Rightarrow> cg \<Rightarrow> val \<times> cg" where
  "to_int v s = (if val_ty v = LF64 then emit (ICast CFPToSI v LI64) s else ptrToI64 v s)"

definition narrow :: "ty \<Rightarrow> val \<Rightarrow> cg \<Rightarrow> val \<times> cg" where
  "narrow to v s = (case to of
      TyInt n uns \<Rightarrow>
        if 0 < n \<and> n < 8
        then (let (tr, s1) = emit (ICast CTrunc v (LInt (n * 8))) s
              in emit (ICast (if uns then CZExt else CSExt) tr LI64) s1)
        else (v, s)
    | _ \<Rightarrow> (v, s))"

definition convert :: "rv \<Rightarrow> ty \<Rightarrow> bool \<Rightarrow> cg \<Rightarrow> val \<times> cg" where
  "convert r to norm s = (case r of
      (None, _) \<Rightarrow> (if to = TyF64 then VFlt 0 else cI64 0, s)
    | (Some v, t) \<Rightarrow>
        if to = TyF64 then (if val_ty v = LF64 then (v, s) else to_double v t s)
        else (let (iv, s1) = to_int v s in if norm then narrow to iv s1 else (iv, s1)))"

text \<open>
  The type a typed union stands for when it is accessed as a whole: \<open>storeTo\<close> and \<open>loadFrom\<close> call
  themselves with it. \<^const>\<open>None\<close> is a circle.
\<close>

fun whole_type :: "store \<Rightarrow> nat \<Rightarrow> ty \<Rightarrow> ty option" where
  "whole_type st 0 t = None"
| "whole_type st (Suc k) t = (case t of
      TyClass c \<Rightarrow> (case class_at st c of
          Some ci \<Rightarrow> (case ci_wholeType ci of Some w \<Rightarrow> whole_type st k w | None \<Rightarrow> Some t)
        | None \<Rightarrow> Some t)
    | _ \<Rightarrow> Some t)"

abbreviation resolve :: "cg \<Rightarrow> ty \<Rightarrow> ty option" where
  "resolve s t \<equiv> whole_type (cg_store s) (Suc (length (cg_store s))) t"

definition store_plain :: "val \<Rightarrow> rv \<Rightarrow> ty \<Rightarrow> cg \<Rightarrow> cg" where
  "store_plain addr r t s =
     (let mt = memTy (cg_store s) t
      in if isAggregate t
         then (let (src, s1) = asPtr (fst r) s in emit0 (IMemCpy addr src (ty_size (cg_store s) t)) s1)
         else if mt = LF64 then (let (v, s1) = convert r tyF64 True s in emit0 (IStore v addr) s1)
         else (let (iv, s1) = convert r tyI64 False s;
                   (v, s2) = (if mt = LI64 then (iv, s1) else emit (ICast CTrunc iv mt) s1)
               in emit0 (IStore v addr) s2))"

definition storeTo :: "val \<Rightarrow> rv \<Rightarrow> ty \<Rightarrow> cg \<Rightarrow> cg option" where
  "storeTo addr r t s = do { w \<leftarrow> resolve s t; Some (store_plain addr r w s) }"

definition load_plain :: "val \<Rightarrow> ty \<Rightarrow> cg \<Rightarrow> rv \<times> cg" where
  "load_plain addr t s = (case t of
      TyArray el _ \<Rightarrow> (let (v, s1) = emit (ICast CPtrToInt addr LI64) s in ((Some v, tyPtr el), s1))
    | TyClass _ \<Rightarrow> (let (v, s1) = emit (ICast CPtrToInt addr LI64) s in ((Some v, tyPtr t), s1))
    | _ \<Rightarrow> (let (v, s1) = emit (ILoad (memTy (cg_store s) t) addr) s; (w, s2) = widen v t s1
            in ((Some w, t), s2)))"

definition loadFrom :: "val \<Rightarrow> ty \<Rightarrow> cg \<Rightarrow> (rv \<times> cg) option" where
  "loadFrom addr t s = do { w \<leftarrow> resolve s t; Some (load_plain addr w s) }"

definition truthy :: "rv \<Rightarrow> srcloc \<Rightarrow> cg \<Rightarrow> val \<times> cg" where
  "truthy r l s = (case fst r of
      None \<Rightarrow> (cFalse, cg_error l ''void value used in condition'' s)
    | Some v \<Rightarrow>
        if val_ty v = LF64 then emit (IFCmp FONE v (VFlt 0)) s
        else (let (iv, s1) = ptrToI64 v s in emit (ICmp INE iv (cI64 0)) s1))"

definition boolToI64 :: "val \<Rightarrow> cg \<Rightarrow> val \<times> cg" where
  "boolToI64 v s = emit (ICast CZExt v LI64) s"

subsection \<open>Strings and names\<close>

definition stringConst :: "string \<Rightarrow> cg \<Rightarrow> nat \<times> cg" where
  "stringConst t s = (case map_of (cg_strLits s) t of
      Some g \<Rightarrow> (g, s)
    | None \<Rightarrow>
        (let (g, s1) = new_global \<lparr>lg_name = ''.str'' @ dec_of_nat (cg_uniq s), lg_type = LArr (length t + 1) LI8,
                          lg_internal = True, lg_init = Some (KStr (t @ [CHR 0x00]))\<rparr> s
         in (g, s1\<lparr>cg_uniq := Suc (cg_uniq s), cg_strLits := AList.update t g (cg_strLits s)\<rparr>)))"

definition strRV :: "string \<Rightarrow> cg \<Rightarrow> rv \<times> cg" where
  "strRV t s = (let (g, s1) = stringConst t s; (v, s2) = emit (ICast CPtrToInt (VGlobal g) LI64) s1
     in ((Some v, tyPtr tyU8), s2))"

fun lookup_scopes :: "(string \<times> varsym) list list \<Rightarrow> string \<Rightarrow> varsym option" where
  "lookup_scopes [] n = None"
| "lookup_scopes (sc # scs) n = (case map_of sc n of Some v \<Rightarrow> Some v | None \<Rightarrow> lookup_scopes scs n)"

text \<open>The innermost scope comes first.\<close>

definition lookupVar :: "cg \<Rightarrow> string \<Rightarrow> varsym option" where
  "lookupVar s n = (case lookup_scopes (fx_scopes (cg_fc s)) n of
      Some v \<Rightarrow> Some v | None \<Rightarrow> map_of (cg_globals s) n)"

definition lookupFun :: "cg \<Rightarrow> string \<Rightarrow> funcsym option" where
  "lookupFun s n = map_of (cg_funcs s) n"

fun fun_ret :: "ty \<Rightarrow> ty" where
  "fun_ret (TyFunc r _ _) = r"
| "fun_ret _ = tyI64"

fun fun_params :: "ty \<Rightarrow> fparam list" where
  "fun_params (TyFunc _ ps _) = ps"
| "fun_params _ = []"

fun fun_variadic :: "ty \<Rightarrow> bool" where
  "fun_variadic (TyFunc _ _ v) = v"
| "fun_variadic _ = False"

definition subIntType :: "string \<Rightarrow> ty option" where
  "subIntType n =
     (if n = ''i8'' then Some (tyInt 1 False) else if n = ''u8'' then Some (tyInt 1 True)
      else if n = ''i16'' then Some (tyInt 2 False) else if n = ''u16'' then Some (tyInt 2 True)
      else if n = ''i32'' then Some (tyInt 4 False) else if n = ''u32'' then Some (tyInt 4 True)
      else if n = ''i64'' then Some (tyInt 8 False) else if n = ''u64'' then Some (tyInt 8 True)
      else None)"

fun strip_ptrs :: "ty \<Rightarrow> ty" where
  "strip_ptrs (TyPtr t) = strip_ptrs t"
| "strip_ptrs t = t"

definition classNameOf :: "store \<Rightarrow> ty \<Rightarrow> string" where
  "classNameOf st t = ty_str st (strip_ptrs t)"

subsection \<open>Static types\<close>

definition member_type :: "cg \<Rightarrow> ty \<Rightarrow> string \<Rightarrow> ty option" where
  "member_type s bt n = do {
     m \<leftarrow> (case bt of TyClass c \<Rightarrow> findMember (cg_store s) (Suc (length (cg_store s))) c n | _ \<Rightarrow> Some None);
     Some (case m of Some mm \<Rightarrow> cm_type mm
           | None \<Rightarrow> (case subIntType n of Some t \<Rightarrow> t | None \<Rightarrow> tyI64))
   }"

fun call_type :: "ty \<Rightarrow> ty" where
  "call_type (TyFunc r _ _) = r"
| "call_type (TyPtr (TyFunc r _ _)) = r"
| "call_type _ = tyI64"

definition ident_type :: "cg \<Rightarrow> string \<Rightarrow> ty" where
  "ident_type s n = (case lookupVar s n of
      Some v \<Rightarrow> vs_type v
    | None \<Rightarrow> (case lookupFun s n of Some f \<Rightarrow> fun_ret (fs_type f) | None \<Rightarrow> tyI64))"

fun index_type :: "ty \<Rightarrow> ty" where
  "index_type (TyPtr t) = t"
| "index_type (TyArray t _) = t"
| "index_type _ = tyU8"

text \<open>\<open>typeOf\<close>; \<^const>\<open>None\<close> where the lookup of a member runs in a circle of base classes.\<close>

fun typeOf :: "cg \<Rightarrow> expr \<Rightarrow> ty option" where
  "typeOf s (EFloatLit _ _) = Some tyF64"
| "typeOf s (EStrLit _ _) = Some (tyPtr tyU8)"
| "typeOf s (ECast _ t _) = Some t"
| "typeOf s (EIdent _ n) = Some (ident_type s n)"
| "typeOf s (EUnary _ p _ k) =
     (if p = PAmp then do { t \<leftarrow> typeOf s k; Some (tyPtr t) }
      else if p = PStar then do { t \<leftarrow> typeOf s k; Some (pointee t) }
      else if p = PNot then Some tyI64
      else typeOf s k)"
| "typeOf s (EBinary _ _ k1 k2) = do {
     a \<leftarrow> typeOf s k1; c \<leftarrow> typeOf s k2;
     Some (if a = TyF64 \<or> c = TyF64 then tyF64 else if isPtr a then a else if isPtr c then c else tyI64)
   }"
| "typeOf s (EAssign _ _ k _) = typeOf s k"
| "typeOf s (EIndex _ k _) = do { t \<leftarrow> typeOf s k; Some (index_type t) }"
| "typeOf s (EMember _ arrow k n) = do {
     bt \<leftarrow> typeOf s k;
     member_type s (if arrow \<and> isPtr bt then pointee bt else bt) n
   }"
| "typeOf s (ECall _ callee _) =
     (case callee of
        EIdent _ n \<Rightarrow>
          (case lookupFun s n of
             Some f \<Rightarrow> Some (fun_ret (fs_type f))
           | None \<Rightarrow> if n = ''ToF64'' then Some tyF64 else Some (call_type (ident_type s n)))
      | _ \<Rightarrow> do { t \<leftarrow> typeOf s callee; Some (call_type t) })"
| "typeOf s _ = Some tyI64"

subsection \<open>Functions\<close>

fun param_type :: "fparam \<Rightarrow> ty" where
  "param_type (FParam _ t _ _ _) = t"

fun param_name :: "fparam \<Rightarrow> string" where
  "param_name (FParam n _ _ _ _) = n"

fun param_dflt :: "fparam \<Rightarrow> expr option" where
  "param_dflt (FParam _ _ d _ _) = d"

fun param_lastclass :: "fparam \<Rightarrow> bool" where
  "param_lastclass (FParam _ _ _ b _) = b"

fun param_loc :: "fparam \<Rightarrow> srcloc" where
  "param_loc (FParam _ _ _ _ l) = l"

definition value_type :: "ty \<Rightarrow> lty" where
  "value_type t = (if t = TyF64 then LF64 else LI64)"

definition llvmFnType :: "ty \<Rightarrow> lty \<times> lty list" where
  "llvmFnType ft =
     (if fun_ret ft = TyF64 then LF64 else if fun_ret ft = TyVoid then LVoid else LI64,
      map (\<lambda>p. value_type (param_type p)) (fun_params ft)
        @ (if fun_variadic ft then [LI64, LI64] else []))"

definition fn_symbol :: "funcdecl \<Rightarrow> string" where
  "fn_symbol fd = (if fd_linkage fd \<in> {LExternAlias, LImportAlias} then fd_aliasSym fd else fd_name fd)"

definition declareFunc :: "funcdecl \<Rightarrow> cg \<Rightarrow> nat \<times> cg" where
  "declareFunc fd s =
     (let sym = fn_symbol fd; fty = llvmFnType (fd_type fd);
          f = (case getFunction sym s of
                 None \<Rightarrow> None
               | Some k \<Rightarrow> if lf_type (cg_mfuns s ! k) \<noteq> fty \<or> (fd_hasBody fd \<and> sym \<in> set (cg_bodyDeclared s))
                           then None else Some k);
          (k, s1) = (case f of
              Some k \<Rightarrow> (k, s)
            | None \<Rightarrow>
                (case getFunction sym s of
                   Some _ \<Rightarrow> new_function fty (fd_linkage fd = LStatic) (sym @ ''.'' @ dec_of_nat (cg_uniq s))
                               (s\<lparr>cg_uniq := Suc (cg_uniq s)\<rparr>)
                 | None \<Rightarrow> new_function fty (fd_linkage fd = LStatic) sym s))
      in (k, if fd_hasBody fd then s1\<lparr>cg_bodyDeclared := sym # cg_bodyDeclared s1\<rparr> else s1))"

definition getRT :: "string \<Rightarrow> lty \<Rightarrow> lty list \<Rightarrow> cg \<Rightarrow> nat \<times> cg" where
  "getRT n ret as s = (case getFunction n s of Some k \<Rightarrow> (k, s) | None \<Rightarrow> new_function (ret, as) False n s)"

subsection \<open>Declarations of locals\<close>

definition regSlotType :: "ty \<Rightarrow> ty" where
  "regSlotType t = (case t of TyInt n uns \<Rightarrow> if n = 4 then tyInt 8 uns else t | _ \<Rightarrow> t)"

definition declareLocal :: "string \<Rightarrow> varsym \<Rightarrow> srcloc \<Rightarrow> cg \<Rightarrow> cg" where
  "declareLocal n v l s =
     (if n \<in> set (fx_localNames (cg_fc s))
      then cg_error l (''duplicate local variable '' @ [CHR 0x27] @ n @ [CHR 0x27]
                       @ '' (HolyC local vars are NoDups; pick another name)'') s
      else upd_fc (\<lambda>fx. fx\<lparr>fx_localNames := n # fx_localNames fx,
             fx_scopes := (case fx_scopes fx of [] \<Rightarrow> [] | sc # scs \<Rightarrow> AList.update n v sc # scs)\<rparr>) s)"

end
