(* ===== verification/HC_GenExpr.thy ===== *)
theory HC_GenExpr
  imports HC_GenBase
begin

text \<open>
  Expressions: \<open>genExpr\<close> and \<open>genLValue\<close> with everything between them. Each function of the code is a
  definition over the two recursive calls; the recursion is tied at the end, with fuel, because the
  default expression of a parameter is generated at the call, wherever it stands: \<^const>\<open>None\<close> is a
  recursion of more calls than the fuel, or a circle of classes.
\<close>

type_synonym gexpr = "expr \<Rightarrow> cg \<Rightarrow> (rv \<times> cg) option"
type_synonym glval = "expr \<Rightarrow> cg \<Rightarrow> (lv \<times> cg) option"

abbreviation zero_rv :: rv where
  "zero_rv \<equiv> (Some (cI64 0), tyI64)"

definition in_quotes :: "string \<Rightarrow> string" where
  "in_quotes n = [CHR 0x27] @ n @ [CHR 0x27]"

subsection \<open>Operators\<close>

definition isU64 :: "ty \<Rightarrow> bool" where
  "isU64 t \<longleftrightarrow> t = TyInt 8 True \<or> isPtr t"

text \<open>The floating point half of \<open>arith\<close>.\<close>

definition float_binop :: "punct \<Rightarrow> binop option" where
  "float_binop p = (case p of PPlus \<Rightarrow> Some BFAdd | PMinus \<Rightarrow> Some BFSub | PStar \<Rightarrow> Some BFMul
     | PSlash \<Rightarrow> Some BFDiv | PPercent \<Rightarrow> Some BFRem | _ \<Rightarrow> None)"

definition arith_f64 :: "punct \<Rightarrow> rv \<Rightarrow> rv \<Rightarrow> srcloc \<Rightarrow> cg \<Rightarrow> rv \<times> cg" where
  "arith_f64 p a c l s =
     (let (x, s1) = convert a tyF64 True s; (y, s2) = convert c tyF64 True s1
      in case float_binop p of
           Some op \<Rightarrow> (let (v, s3) = emit (IBin op x y) s2 in ((Some v, tyF64), s3))
         | None \<Rightarrow>
             if p = PPow
             then (let (f, s3) = getRT ''HC_Pow'' LF64 [LF64, LF64] s2;
                       (v, s4) = emit (ICall (VFun f) LF64 [x, y]) s3
                   in ((Some v, tyF64), s4))
             else ((Some (VFlt 0), tyF64), cg_error l ''bad float operation'' s2))"

text \<open>The type of the result of an integer operation, and the instruction.\<close>

definition arith_type :: "ty \<Rightarrow> ty \<Rightarrow> ty" where
  "arith_type a c = (if isPtr a then a else if isPtr c then c else if isU64 a \<or> isU64 c then tyU64 else tyI64)"

definition int_binop :: "bool \<Rightarrow> punct \<Rightarrow> binop option" where
  "int_binop uns p = (case p of
       PPlus \<Rightarrow> Some BAdd | PMinus \<Rightarrow> Some BSub | PStar \<Rightarrow> Some BMul
     | PSlash \<Rightarrow> Some (if uns then BUDiv else BSDiv)
     | PPercent \<Rightarrow> Some (if uns then BURem else BSRem)
     | PAmp \<Rightarrow> Some BAnd | PPipe \<Rightarrow> Some BOr | PCaret \<Rightarrow> Some BXor | _ \<Rightarrow> None)"

definition arith_i64 :: "punct \<Rightarrow> rv \<Rightarrow> rv \<Rightarrow> srcloc \<Rightarrow> cg \<Rightarrow> rv \<times> cg" where
  "arith_i64 p a c l s =
     (let (x, s1) = convert a tyI64 False s; (y, s2) = convert c tyI64 False s1;
          rt = arith_type (snd a) (snd c)
      in case int_binop (isU64 (snd a) \<or> isU64 (snd c)) p of
           Some op \<Rightarrow> (let (v, s3) = emit (IBin op x y) s2 in ((Some v, rt), s3))
         | None \<Rightarrow>
             if p = PShl \<or> p = PShr
             then (let (k, s3) = emit (IBin BAnd y (cI64 63)) s2;
                       (v, s4) = emit (IBin (if p = PShl then BShl else if isU64 (snd a) then BLShr else BAShr) x k) s3
                   in ((Some v, rt), s4))
             else if p = PPow
             then (let (f, s3) = getRT ''HC_PowI64'' LI64 [LI64, LI64] s2;
                       (v, s4) = emit (ICall (VFun f) LI64 [x, y]) s3
                   in ((Some v, tyI64), s4))
             else (zero_rv, cg_error l ''bad integer operation'' s2))"

definition arith :: "punct \<Rightarrow> rv \<Rightarrow> rv \<Rightarrow> srcloc \<Rightarrow> cg \<Rightarrow> rv \<times> cg" where
  "arith p a c l s =
     (if (is_double (fst a) \<or> is_double (fst c)) \<and> p \<notin> {PAmp, PPipe, PCaret, PShl, PShr}
      then arith_f64 p a c l s else arith_i64 p a c l s)"

definition float_pred :: "punct \<Rightarrow> fpred option" where
  "float_pred p = (case p of PLt \<Rightarrow> Some FOLT | PGt \<Rightarrow> Some FOGT | PLe \<Rightarrow> Some FOLE | PGe \<Rightarrow> Some FOGE
     | PEqEq \<Rightarrow> Some FOEQ | PNe \<Rightarrow> Some FONE | _ \<Rightarrow> None)"

definition int_pred :: "bool \<Rightarrow> punct \<Rightarrow> ipred option" where
  "int_pred uns p = (case p of
       PLt \<Rightarrow> Some (if uns then IULT else ISLT) | PGt \<Rightarrow> Some (if uns then IUGT else ISGT)
     | PLe \<Rightarrow> Some (if uns then IULE else ISLE) | PGe \<Rightarrow> Some (if uns then IUGE else ISGE)
     | PEqEq \<Rightarrow> Some IEQ | PNe \<Rightarrow> Some INE | _ \<Rightarrow> None)"

definition cmp :: "punct \<Rightarrow> rv \<Rightarrow> rv \<Rightarrow> cg \<Rightarrow> val \<times> cg" where
  "cmp p a c s =
     (if is_double (fst a) \<or> is_double (fst c)
      then (let (x, s1) = convert a tyF64 True s; (y, s2) = convert c tyF64 True s1
            in case float_pred p of Some q \<Rightarrow> emit (IFCmp q x y) s2 | None \<Rightarrow> (cFalse, s2))
      else (let (x, s1) = convert a tyI64 False s; (y, s2) = convert c tyI64 False s1
            in case int_pred (isU64 (snd a) \<or> isU64 (snd c)) p of
                 Some q \<Rightarrow> emit (ICmp q x y) s2 | None \<Rightarrow> (cFalse, s2)))"

subsection \<open>Calls\<close>

text \<open>The argument for a parameter: the one written, \<open>lastclass\<close>, the default, or an error.\<close>

definition missing_arg :: "nat \<Rightarrow> string \<Rightarrow> string" where
  "missing_arg i n = ''missing argument '' @ dec_of_nat (i + 1) @ (if n = [] then [] else '' ('' @ in_quotes n @ '')'')
     @ '' and no default value''"

definition gen_arg :: "gexpr \<Rightarrow> srcloc \<Rightarrow> nat \<Rightarrow> fparam \<Rightarrow> expr option \<Rightarrow> ty option \<Rightarrow> cg \<Rightarrow> (rv \<times> cg) option" where
  "gen_arg gx l i p arg prev s = (case arg of
      Some e \<Rightarrow> gx e s
    | None \<Rightarrow>
        if param_lastclass p
        then Some (strRV (classNameOf (cg_store s) (case prev of Some t \<Rightarrow> t | None \<Rightarrow> tyI64)) s)
        else (case param_dflt p of
                Some d \<Rightarrow> gx d s
              | None \<Rightarrow> Some (zero_rv, cg_error l (missing_arg i (param_name p)) s)))"

text \<open>The loop over the parameters; \<open>args\<close> are those left, \<open>prev\<close> is \<open>prevArgType\<close>.\<close>

fun gen_params :: "gexpr \<Rightarrow> srcloc \<Rightarrow> nat \<Rightarrow> fparam list \<Rightarrow> expr option list \<Rightarrow> ty option \<Rightarrow> cg \<Rightarrow> (val list \<times> cg) option" where
  "gen_params gx l i [] args prev s = Some ([], s)"
| "gen_params gx l i (p # ps) args prev s = do {
     let arg = (case args of [] \<Rightarrow> None | a # _ \<Rightarrow> a);
     (a, s1) \<leftarrow> gen_arg gx l i p arg prev s;
     pt \<leftarrow> (case arg of Some e \<Rightarrow> typeOf s1 e | None \<Rightarrow> Some (snd a));
     let (v, s2) = (if param_type p = TyF64 then convert a tyF64 True s1 else convert a tyI64 False s1);
     (vs, s3) \<leftarrow> gen_params gx l (Suc i) ps (drop 1 args) (Some pt) s2;
     Some (v # vs, s3)
   }"

text \<open>The slots of the arguments behind the parameters; doubles keep their bits.\<close>

fun gen_extra :: "gexpr \<Rightarrow> srcloc \<Rightarrow> expr option list \<Rightarrow> cg \<Rightarrow> (val list \<times> cg) option" where
  "gen_extra gx l [] s = Some ([], s)"
| "gen_extra gx l (None # as) s = do {
     (vs, s1) \<leftarrow> gen_extra gx l as (cg_error l ''missing variadic argument has no default'' s);
     Some (cI64 0 # vs, s1)
   }"
| "gen_extra gx l (Some e # as) s = do {
     (a, s1) \<leftarrow> gx e s;
     let (v, s2) = (case fst a of
         Some x \<Rightarrow> if val_ty x = LF64 then emit (ICast CBitCast x LI64) s1 else convert a tyI64 False s1
       | None \<Rightarrow> convert a tyI64 False s1);
     (vs, s3) \<leftarrow> gen_extra gx l as s2;
     Some (v # vs, s3)
   }"

text \<open>The array \<open>argv\<close>.\<close>

fun store_slots :: "lty \<Rightarrow> val \<Rightarrow> nat \<Rightarrow> val list \<Rightarrow> cg \<Rightarrow> cg" where
  "store_slots t al i [] s = s"
| "store_slots t al i (v # vs) s =
     (let (slot, s1) = emit (IGep t al [cI64 0, cI64 (of_nat i)]) s
      in store_slots t al (Suc i) vs (emit0 (IStore v slot) s1))"

definition gen_argv :: "val list \<Rightarrow> cg \<Rightarrow> val \<times> cg" where
  "gen_argv vs s =
     (if vs = [] then (cI64 0, s)
      else (let t = LArr (length vs) LI64; (al, s1) = entryAlloca t ''va'' s
            in emit (ICast CPtrToInt al LI64) (store_slots t al 0 vs s1)))"

definition genCallTo :: "gexpr \<Rightarrow> funcsym \<Rightarrow> expr option list \<Rightarrow> srcloc \<Rightarrow> val option \<Rightarrow> cg \<Rightarrow> (rv \<times> cg) option" where
  "genCallTo gx f args l fnPtr s = do {
     let ps = fun_params (fs_type f);
     let var = fun_variadic (fs_type f);
     let many = length ps < length args \<and> \<not> var;
     let args1 = (if many then take (length ps) args else args);
     (vs, s1) \<leftarrow> gen_params gx l 0 ps args1 None (if many then cg_error l ''too many arguments'' s else s);
     (vs1, s2) \<leftarrow> (if var
       then do {
         (ex, s2) \<leftarrow> gen_extra gx l (drop (length ps) args1) s1;
         let (arr, s3) = gen_argv ex s2;
         Some (vs @ [cI64 (of_nat (length ex)), arr], s3)
       }
       else Some (vs, s1));
     let t = fst (llvmFnType (fs_type f));
     let (v, s3) = (case fs_fn f of
         Some k \<Rightarrow> emit (ICall (VFun k) t vs1) s2
       | None \<Rightarrow> (let (p, s3) = asPtr fnPtr s2 in emit (ICall p t vs1) s3));
     Some (if fun_ret (fs_type f) = TyVoid then (None, tyVoid) else (Some v, fun_ret (fs_type f)), s3)
   }"

text \<open>A call through a value of unknown signature.\<close>

fun gen_untyped :: "gexpr \<Rightarrow> srcloc \<Rightarrow> expr option list \<Rightarrow> cg \<Rightarrow> (val list \<times> cg) option" where
  "gen_untyped gx l [] s = Some ([], s)"
| "gen_untyped gx l (None # as) s = do {
     (vs, s1) \<leftarrow> gen_untyped gx l as (cg_error l ''cannot skip args when calling through an untyped pointer'' s);
     Some (cI64 0 # vs, s1)
   }"
| "gen_untyped gx l (Some e # as) s = do {
     (a, s1) \<leftarrow> gx e s;
     let (v, s2) = (case fst a of
         Some x \<Rightarrow> if val_ty x = LF64 then (x, s1) else convert a tyI64 False s1
       | None \<Rightarrow> convert a tyI64 False s1);
     (vs, s3) \<leftarrow> gen_untyped gx l as s2;
     Some (v # vs, s3)
   }"

definition gen_intrinsic :: "gexpr \<Rightarrow> string \<Rightarrow> expr option list \<Rightarrow> srcloc \<Rightarrow> cg \<Rightarrow> (rv \<times> cg) option" where
  "gen_intrinsic gx n args l s = (case args of
      [Some e] \<Rightarrow> do {
        (v, s1) \<leftarrow> gx e s;
        Some (if n = ''ToF64'' then (let (x, s2) = convert v tyF64 True s1 in ((Some x, tyF64), s2))
              else if n = ''ToBool''
              then (let (t, s2) = truthy v l s1; (x, s3) = boolToI64 t s2 in ((Some x, tyI64), s3))
              else (let (x, s2) = convert v tyI64 True s1 in ((Some x, tyI64), s2)))
      }
    | _ \<Rightarrow> Some (zero_rv, cg_error l (n @ ''() takes exactly one argument'') s))"

definition gen_indirect :: "gexpr \<Rightarrow> expr \<Rightarrow> expr option list \<Rightarrow> srcloc \<Rightarrow> cg \<Rightarrow> (rv \<times> cg) option" where
  "gen_indirect gx callee args l s = do {
     (fv, s1) \<leftarrow> gx callee s;
     let ft = (if isPtr (snd fv) \<and> isFunc (pointee (snd fv)) then pointee (snd fv) else snd fv);
     if isFunc ft then genCallTo gx \<lparr>fs_fn = None, fs_type = ft\<rparr> args l (fst fv) s1
     else do {
       (vs, s2) \<leftarrow> gen_untyped gx l args s1;
       let (fp, s3) = asPtr (fst fv) s2;
       let (v, s4) = emit (ICall fp LI64 vs) s3;
       Some ((Some v, tyI64), s4)
     }
   }"

definition genCall :: "gexpr \<Rightarrow> expr \<Rightarrow> expr option list \<Rightarrow> srcloc \<Rightarrow> cg \<Rightarrow> (rv \<times> cg) option" where
  "genCall gx callee args l s = (case callee of
      EIdent _ n \<Rightarrow>
        if lookupVar s n \<noteq> None then gen_indirect gx callee args l s
        else if n \<in> {''ToI64'', ''ToBool'', ''ToF64''} then gen_intrinsic gx n args l s
        else (case lookupFun s n of
                Some f \<Rightarrow> genCallTo gx f args l None s
              | None \<Rightarrow> Some (zero_rv, cg_error l (''undefined function '' @ in_quotes n) s))
    | _ \<Rightarrow> gen_indirect gx callee args l s)"

subsection \<open>Lvalues\<close>

abbreviation no_lv :: lv where
  "no_lv \<equiv> None"

definition gen_ident_lv :: "srcloc \<Rightarrow> string \<Rightarrow> cg \<Rightarrow> lv \<times> cg" where
  "gen_ident_lv l n s = (case lookupVar s n of
      Some v \<Rightarrow> (Some (vs_addr v, vs_type v), s)
    | None \<Rightarrow>
        if lookupFun s n \<noteq> None then (no_lv, cg_error l (''function '' @ in_quotes n @ '' is not an lvalue'') s)
        else (no_lv, cg_error l (''undefined symbol '' @ in_quotes n) s))"

definition not_lvalue :: "srcloc \<Rightarrow> cg \<Rightarrow> lv \<times> cg" where
  "not_lvalue l s = (no_lv, cg_error l ''expression is not an lvalue'' s)"

definition gen_deref_lv :: "gexpr \<Rightarrow> srcloc \<Rightarrow> expr \<Rightarrow> cg \<Rightarrow> (lv \<times> cg) option" where
  "gen_deref_lv gx l k s = do {
     (p, s1) \<leftarrow> gx k s;
     Some (if isPtr (snd p) \<and> isFunc (pointee (snd p)) then not_lvalue l s1
           else (let (a, s2) = asPtr (fst p) s1 in (Some (a, pointee (snd p)), s2)))
   }"

text \<open>The part of \<open>genIndexLV\<close> for a base that is not a sub-integer of a variable.\<close>

definition gen_index_base :: "gexpr \<Rightarrow> glval \<Rightarrow> expr \<Rightarrow> cg \<Rightarrow> ((rv \<times> ty) option \<times> cg) option" where
  "gen_index_base gx gl base s = do {
     bt \<leftarrow> typeOf s base;
     (case bt of
        TyArray el _ \<Rightarrow> do {
          (blv, s1) \<leftarrow> gl base s;
          Some (case blv of
              None \<Rightarrow> (None, s1)
            | Some (a, _) \<Rightarrow> (let (v, s2) = emit (ICast CPtrToInt a LI64) s1 in (Some ((Some v, tyPtr el), el), s2)))
        }
      | _ \<Rightarrow> do {
          (bv, s1) \<leftarrow> gx base s;
          Some (Some (bv, pointee (snd bv)), s1)
        })
   }"

definition gen_index_plain :: "gexpr \<Rightarrow> glval \<Rightarrow> expr \<Rightarrow> expr \<Rightarrow> cg \<Rightarrow> (lv \<times> cg) option" where
  "gen_index_plain gx gl base idx s = do {
     (r, s1) \<leftarrow> gen_index_base gx gl base s;
     (case r of
        None \<Rightarrow> Some (no_lv, s1)
      | Some (bv, el0) \<Rightarrow> do {
          let el = byte_if_void el0;
          (iv, s2) \<leftarrow> gx idx s1;
          let (i, s3) = convert iv tyI64 True s2;
          let (off, s4) = emit (IBin BMul i (cI64 (size_at_least_1 (cg_store s) el))) s3;
          let (b, s5) = (case fst bv of
              Some v \<Rightarrow> (let (w, s5) = ptrToI64 v s4
                         in (w, if val_ty w = LI64 then s5 else s5\<lparr>cg_fault := True\<rparr>))
            | None \<Rightarrow> (cI64 0, s4\<lparr>cg_fault := True\<rparr>));
          let (addr, s6) = emit (IBin BAdd b off) s5;
          let (a, s7) = asPtr (Some addr) s6;
          Some (Some (a, el), s7)
        })
   }"

text \<open>\<open>q.u8[5]\<close>: the sub-integers of an integer or float variable.\<close>

definition gen_subint_index :: "gexpr \<Rightarrow> val \<Rightarrow> ty \<Rightarrow> expr \<Rightarrow> cg \<Rightarrow> (lv \<times> cg) option" where
  "gen_subint_index gx addr sub idx s = do {
     (iv, s1) \<leftarrow> gx idx s;
     let (i, s2) = convert iv tyI64 True s1;
     let (off, s3) = emit (IBin BMul i (cI64 (ty_size (cg_store s) sub))) s2;
     let (a, s4) = emit (IGep LI8 addr [off]) s3;
     Some (Some (a, sub), s4)
   }"

definition genIndexLV :: "gexpr \<Rightarrow> glval \<Rightarrow> expr \<Rightarrow> expr \<Rightarrow> cg \<Rightarrow> (lv \<times> cg) option" where
  "genIndexLV gx gl base idx s = (case base of
      EMember _ False k n \<Rightarrow>
        (case subIntType n of
           None \<Rightarrow> gen_index_plain gx gl base idx s
         | Some sub \<Rightarrow> do {
             (blv, s1) \<leftarrow> gl k s;
             (case blv of
                Some (a, t) \<Rightarrow>
                  if isInt t \<or> t = TyF64 then gen_subint_index gx a sub idx s1
                  else gen_index_plain gx gl base idx s1
              | None \<Rightarrow> gen_index_plain gx gl base idx s1)
           })
    | _ \<Rightarrow> gen_index_plain gx gl base idx s)"

definition gen_member_at :: "srcloc \<Rightarrow> val \<Rightarrow> ty option \<Rightarrow> string \<Rightarrow> cg \<Rightarrow> (lv \<times> cg) option" where
  "gen_member_at l addr bt n s = (case bt of
      Some (TyClass c) \<Rightarrow> do {
        m \<leftarrow> findMember (cg_store s) (Suc (length (cg_store s))) c n;
        Some (case m of
            Some mm \<Rightarrow> (let (a, s1) = emit (IGep LI8 addr [cI64 (cm_offset mm)]) s in (Some (a, cm_type mm), s1))
          | None \<Rightarrow> (no_lv, cg_error l (''no member '' @ in_quotes n @ '' in class '' @ in_quotes (ty_str (cg_store s) (TyClass c))) s))
      }
    | _ \<Rightarrow>
        Some (case bt of
            Some t \<Rightarrow>
              if (isInt t \<or> t = TyF64) \<and> subIntType n \<noteq> None then (Some (addr, the (subIntType n)), s)
              else (no_lv, cg_error l (''member access on non-class value of type '' @ ty_str (cg_store s) t) s)
          | None \<Rightarrow> (no_lv, cg_error l ''member access on non-class value'' s)))"

definition genMemberLV :: "gexpr \<Rightarrow> glval \<Rightarrow> srcloc \<Rightarrow> bool \<Rightarrow> expr \<Rightarrow> string \<Rightarrow> cg \<Rightarrow> (lv \<times> cg) option" where
  "genMemberLV gx gl l arrow k n s =
     (if arrow
      then do {
        (p, s1) \<leftarrow> gx k s;
        let (a, s2) = asPtr (fst p) s1;
        gen_member_at l a (if isPtr (snd p) then Some (pointee (snd p)) else None) n s2
      }
      else do {
        (blv, s1) \<leftarrow> gl k s;
        (case blv of None \<Rightarrow> Some (no_lv, s1) | Some (a, t) \<Rightarrow> gen_member_at l a (Some t) n s1)
      })"

subsection \<open>Unary operators\<close>

definition gen_address :: "glval \<Rightarrow> expr \<Rightarrow> cg \<Rightarrow> (rv \<times> cg) option" where
  "gen_address gl k s = do {
     let fn = (case k of
         EIdent _ n \<Rightarrow> (if lookupVar s n = None then lookupFun s n else None) | _ \<Rightarrow> None);
     (case fn of
        Some f \<Rightarrow>
          (let (v, s1) = emit (ICast CPtrToInt (VFun (the (fs_fn f))) LI64) s in Some ((Some v, tyPtr (fs_type f)), s1))
      | None \<Rightarrow> do {
          (lv, s1) \<leftarrow> gl k s;
          Some (case lv of
              None \<Rightarrow> (zero_rv, s1)
            | Some (a, t) \<Rightarrow> (let (v, s2) = emit (ICast CPtrToInt a LI64) s1 in ((Some v, tyPtr t), s2)))
        })
   }"

definition gen_deref :: "gexpr \<Rightarrow> expr \<Rightarrow> cg \<Rightarrow> (rv \<times> cg) option" where
  "gen_deref gx k s = do {
     (p, s1) \<leftarrow> gx k s;
     if (isPtr (snd p) \<and> isFunc (pointee (snd p))) \<or> isFunc (snd p) then Some (p, s1)
     else (let (a, s2) = asPtr (fst p) s1 in loadFrom a (byte_if_void (pointee (snd p))) s2)
   }"

definition gen_step :: "glval \<Rightarrow> bool \<Rightarrow> bool \<Rightarrow> expr \<Rightarrow> cg \<Rightarrow> (rv \<times> cg) option" where
  "gen_step gl inc pre k s = do {
     (lv, s1) \<leftarrow> gl k s;
     (case lv of
        None \<Rightarrow> Some (zero_rv, s1)
      | Some (a, t) \<Rightarrow> do {
          (old, s2) \<leftarrow> loadFrom a t s1;
          let v = the (fst old);
          let (nv, s3) = (if val_ty v = LF64 then emit (IBin (if inc then BFAdd else BFSub) v (VFlt (i64_to_f64 1))) s2
                          else emit (IBin (if inc then BAdd else BSub) v (cI64 1)) s2);
          s4 \<leftarrow> storeTo a (Some nv, snd old) t s3;
          Some ((Some (if pre then nv else v), snd old), s4)
        })
   }"

definition genUnary :: "gexpr \<Rightarrow> glval \<Rightarrow> srcloc \<Rightarrow> punct \<Rightarrow> bool \<Rightarrow> expr \<Rightarrow> cg \<Rightarrow> (rv \<times> cg) option" where
  "genUnary gx gl l p pre k s = (case p of
      PAmp \<Rightarrow> gen_address gl k s
    | PStar \<Rightarrow> gen_deref gx k s
    | PNot \<Rightarrow> do {
        (v, s1) \<leftarrow> gx k s;
        let (z, s2) = truthy v l s1;
        let (nz, s3) = emit (INot z) s2;
        let (r, s4) = boolToI64 nz s3;
        Some ((Some r, tyI64), s4)
      }
    | PTilde \<Rightarrow> do {
        (v, s1) \<leftarrow> gx k s;
        let (x, s2) = convert v tyI64 False s1;
        let (r, s3) = emit (IBin BXor x (cI64 (- 1))) s2;
        Some ((Some r, tyI64), s3)
      }
    | PMinus \<Rightarrow> do {
        (v, s1) \<leftarrow> gx k s;
        if is_double (fst v)
        then (let (r, s2) = emit (IFNeg (the (fst v))) s1 in Some ((Some r, tyF64), s2))
        else (let (x, s2) = convert v tyI64 False s1; (r, s3) = emit (INeg x) s2
              in Some ((Some r, if isInt (snd v) then snd v else tyI64), s3))
      }
    | PPlus \<Rightarrow> gx k s
    | PPlusPlus \<Rightarrow> gen_step gl True pre k s
    | PMinusMinus \<Rightarrow> gen_step gl False pre k s
    | _ \<Rightarrow> Some (zero_rv, cg_error l ''bad unary operator'' s))"

subsection \<open>Binary operators, comparisons and assignments\<close>

definition genShortCircuit :: "gexpr \<Rightarrow> srcloc \<Rightarrow> bool \<Rightarrow> expr \<Rightarrow> expr \<Rightarrow> cg \<Rightarrow> (rv \<times> cg) option" where
  "genShortCircuit gx l isAnd k1 k2 s = do {
     (a, s1) \<leftarrow> gx k1 s;
     let (av, s2) = truthy a l s1;
     let lhs = cur_block s2;
     let (rhs, s3) = new_block ''sc.rhs'' s2;
     let (endb, s4) = new_block ''sc.end'' s3;
     let s5 = emit0 (if isAnd then TCondBr av rhs endb else TCondBr av endb rhs) s4;
     (c, s6) \<leftarrow> gx k2 (set_block rhs s5);
     let (cb, s7) = truthy c l s6;
     let (cv, s8) = boolToI64 cb s7;
     let rhsEnd = cur_block s8;
     let s9 = emit0 (TBr endb) s8;
     let (phi, s10) = emit (IPhi [(cI64 (if isAnd then 0 else 1), lhs), (cv, rhsEnd)]) (set_block endb s9);
     Some ((Some phi, tyI64), s10)
   }"

definition genBinary :: "gexpr \<Rightarrow> srcloc \<Rightarrow> punct \<Rightarrow> expr \<Rightarrow> expr \<Rightarrow> cg \<Rightarrow> (rv \<times> cg) option" where
  "genBinary gx l p k1 k2 s =
     (if p = PAndAnd \<or> p = POrOr then genShortCircuit gx l (p = PAndAnd) k1 k2 s
      else do {
        (a, s1) \<leftarrow> gx k1 s;
        (c, s2) \<leftarrow> gx k2 s1;
        Some (if p = PXorXor
              then (let (x, s3) = truthy a l s2; (y, s4) = truthy c l s3; (z, s5) = emit (IBin BXor x y) s4;
                        (r, s6) = boolToI64 z s5 in ((Some r, tyI64), s6))
              else if p = PEqEq \<or> p = PNe
              then (let (z, s3) = cmp p a c s2; (r, s4) = boolToI64 z s3 in ((Some r, tyI64), s4))
              else arith p a c l s2)
      })"

text \<open>
  The links of a chained comparison; \<open>inc\<close> holds the incoming edges of the final phi, last first. A chain
  without links, which the parser does not build, leaves a phi without edges.
\<close>

fun chain_links :: "gexpr \<Rightarrow> nat \<Rightarrow> rv \<Rightarrow> (punct \<times> expr) list \<Rightarrow> (val \<times> nat) list \<Rightarrow> cg \<Rightarrow> ((val \<times> nat) list \<times> cg) option" where
  "chain_links gx endb prev [] inc s = Some (inc, s)"
| "chain_links gx endb prev ((p, k) # ks) inc s = do {
     (cur, s1) \<leftarrow> gx k s;
     let (c, s2) = cmp p prev cur s1;
     if ks = []
     then (let (v, s3) = boolToI64 c s2 in Some ((v, cur_block s3) # inc, emit0 (TBr endb) s3))
     else (let (nx, s3) = new_block ''chain.next'' s2
           in chain_links gx endb cur ks ((cI64 0, cur_block s3) # inc) (set_block nx (emit0 (TCondBr c nx endb) s3)))
   }"

definition genChainCmp :: "gexpr \<Rightarrow> expr \<Rightarrow> (punct \<times> expr) list \<Rightarrow> cg \<Rightarrow> (rv \<times> cg) option" where
  "genChainCmp gx k ks s = do {
     let (endb, s1) = new_block ''chain.end'' s;
     (prev, s2) \<leftarrow> gx k s1;
     (inc, s3) \<leftarrow> chain_links gx endb prev ks [] s2;
     let s4 = (if ks = [] then s3\<lparr>cg_fault := True\<rparr> else s3);
     let (phi, s5) = emit (IPhi (rev inc)) (set_block endb s4);
     Some ((Some phi, tyI64), s5)
   }"

definition assign_binop :: "punct \<Rightarrow> punct" where
  "assign_binop p = (case p of
       PPlusEq \<Rightarrow> PPlus | PMinusEq \<Rightarrow> PMinus | PStarEq \<Rightarrow> PStar | PSlashEq \<Rightarrow> PSlash | PPercentEq \<Rightarrow> PPercent
     | PShlEq \<Rightarrow> PShl | PShrEq \<Rightarrow> PShr | PAmpEq \<Rightarrow> PAmp | PPipeEq \<Rightarrow> PPipe | PCaretEq \<Rightarrow> PCaret
     | _ \<Rightarrow> PPlus)"

definition genAssign :: "gexpr \<Rightarrow> glval \<Rightarrow> srcloc \<Rightarrow> punct \<Rightarrow> expr \<Rightarrow> expr \<Rightarrow> cg \<Rightarrow> (rv \<times> cg) option" where
  "genAssign gx gl l p k1 k2 s = do {
     (lv, s1) \<leftarrow> gl k1 s;
     if p = PAssign
     then do {
       (rhs, s2) \<leftarrow> gx k2 s1;
       s3 \<leftarrow> (case lv of Some (a, t) \<Rightarrow> storeTo a rhs t s2 | None \<Rightarrow> Some s2);
       Some (rhs, s3)
     }
     else (case lv of
         None \<Rightarrow> do { (v, s2) \<leftarrow> gx k2 s1; Some (zero_rv, s2) }
       | Some (a, t) \<Rightarrow> do {
           (old, s2) \<leftarrow> loadFrom a t s1;
           (v, s3) \<leftarrow> gx k2 s2;
           let (rhs, s4) = arith (assign_binop p) old v l s3;
           s5 \<leftarrow> storeTo a rhs t s4;
           Some (rhs, s5)
         })
   }"

subsection \<open>The recursion\<close>

definition gen_cast :: "gexpr \<Rightarrow> ty \<Rightarrow> expr \<Rightarrow> cg \<Rightarrow> (rv \<times> cg) option" where
  "gen_cast gx to k s = do {
     (v, s1) \<leftarrow> gx k s;
     Some (if to = TyVoid then ((None, tyVoid), s1)
           else if isAggregate to
           then (case fst v of
               Some x \<Rightarrow> (let (w, s2) = ptrToI64 x s1 in ((Some w, tyPtr to), s2))
             | None \<Rightarrow> ((Some (cI64 0), tyPtr to), s1))
           else (let (w, s2) = convert v to True s1 in ((Some w, to), s2)))
   }"

definition genIdent :: "gexpr \<Rightarrow> srcloc \<Rightarrow> string \<Rightarrow> cg \<Rightarrow> (rv \<times> cg) option" where
  "genIdent gx l n s = (case lookupVar s n of
      Some v \<Rightarrow> loadFrom (vs_addr v) (vs_type v) s
    | None \<Rightarrow> (case lookupFun s n of
          Some f \<Rightarrow> genCallTo gx f [] l None s
        | None \<Rightarrow> Some (zero_rv, cg_error l (''undefined symbol '' @ in_quotes n) s)))"

definition gen_load_lv :: "glval \<Rightarrow> expr \<Rightarrow> cg \<Rightarrow> (rv \<times> cg) option" where
  "gen_load_lv gl e s = do {
     (lv, s1) \<leftarrow> gl e s;
     (case lv of None \<Rightarrow> Some (zero_rv, s1) | Some (a, t) \<Rightarrow> loadFrom a t s1)
   }"

fun expr_step :: "gexpr \<Rightarrow> glval \<Rightarrow> expr \<Rightarrow> cg \<Rightarrow> (rv \<times> cg) option" where
  "expr_step gx gl (EIntLit _ v) s = Some ((Some (cI64 v), tyI64), s)"
| "expr_step gx gl (ECharLit _ v _) s = Some ((Some (cI64 v), tyI64), s)"
| "expr_step gx gl (EFloatLit _ f) s = Some ((Some (VFlt f), tyF64), s)"
| "expr_step gx gl (EStrLit _ t) s = Some (strRV t s)"
| "expr_step gx gl (ESizeofType _ t) s = Some ((Some (cI64 (ty_size (cg_store s) t)), tyI64), s)"
| "expr_step gx gl (ESizeofExpr _ k) s = do {
     t \<leftarrow> typeOf s k;
     Some ((Some (cI64 (ty_size (cg_store s) t)), tyI64), s)
   }"
| "expr_step gx gl (EOffsetOf l c r m) s = do {
     v \<leftarrow> evalConst (cg_store s) (cg_classes s) (EOffsetOf l c r m);
     Some (case v of
         Some x \<Rightarrow> ((Some (cI64 x), tyI64), s)
       | None \<Rightarrow> (zero_rv, cg_error l ''bad offset() expression'' s))
   }"
| "expr_step gx gl (EIdent l n) s = genIdent gx l n s"
| "expr_step gx gl (EUnary l p pre k) s = genUnary gx gl l p pre k s"
| "expr_step gx gl (EBinary l p k1 k2) s = genBinary gx l p k1 k2 s"
| "expr_step gx gl (EChainCmp _ k ks) s = genChainCmp gx k ks s"
| "expr_step gx gl (EAssign l p k1 k2) s = genAssign gx gl l p k1 k2 s"
| "expr_step gx gl (ECall l callee args) s = genCall gx callee args l s"
| "expr_step gx gl (EIndex l k1 k2) s = gen_load_lv gl (EIndex l k1 k2) s"
| "expr_step gx gl (EMember l arrow k n) s = gen_load_lv gl (EMember l arrow k n) s"
| "expr_step gx gl (ECast _ to k) s = gen_cast gx to k s"
| "expr_step gx gl (ELastClass l) s =
     Some (zero_rv, cg_error l (in_quotes ''lastclass'' @ '' is only valid as a default argument'') s)"
| "expr_step gx gl (EInitList l _) s =
     Some (zero_rv, cg_error l ''initializer list is only valid in declarations'' s)"

text \<open>A \<open>++x\<close> or an assignment used as an lvalue is generated, and then its operand is generated again.\<close>

fun lvalue_step :: "gexpr \<Rightarrow> glval \<Rightarrow> expr \<Rightarrow> cg \<Rightarrow> (lv \<times> cg) option" where
  "lvalue_step gx gl (EIdent l n) s = Some (gen_ident_lv l n s)"
| "lvalue_step gx gl (EUnary l p pre k) s =
     (if p = PStar \<and> pre then gen_deref_lv gx l k s
      else if p = PPlusPlus \<or> p = PMinusMinus
      then do { (v, s1) \<leftarrow> genUnary gx gl l p pre k s; gl k s1 }
      else Some (not_lvalue l s))"
| "lvalue_step gx gl (EIndex _ k1 k2) s = genIndexLV gx gl k1 k2 s"
| "lvalue_step gx gl (EMember l arrow k n) s = genMemberLV gx gl l arrow k n s"
| "lvalue_step gx gl (ECast _ t k) s = do {
     (lv, s1) \<leftarrow> gl k s;
     Some (map_option (\<lambda>(a, _). (a, t)) lv, s1)
   }"
| "lvalue_step gx gl (EAssign l p k1 k2) s = do { (v, s1) \<leftarrow> gx (EAssign l p k1 k2) s; gl k1 s1 }"
| "lvalue_step gx gl e s = Some (not_lvalue (expr_loc e) s)"

fun genExpr :: "nat \<Rightarrow> expr \<Rightarrow> cg \<Rightarrow> (rv \<times> cg) option"
  and genLValue :: "nat \<Rightarrow> expr \<Rightarrow> cg \<Rightarrow> (lv \<times> cg) option" where
  "genExpr 0 e s = None"
| "genExpr (Suc n) e s = expr_step (genExpr n) (genLValue n) e s"
| "genLValue 0 e s = None"
| "genLValue (Suc n) e s = lvalue_step (genExpr n) (genLValue n) e s"

end
