(* ===== verification/HC_GenStmt.thy ===== *)
theory HC_GenStmt
  imports HC_GenExpr
begin

text \<open>
  Statements: \<open>genStmt\<close> and the functions it calls, with the control flow they build, the switch with
  its groups, declarations and initialisers. The generators of sub-statements are arguments of the
  definitions; the recursion over the statement is structural, \<open>n\<close> is the fuel of the expressions.
\<close>

type_synonym gstmt = "cg \<Rightarrow> cg option"

subsection \<open>Scopes and break targets\<close>

definition push_scope :: "cg \<Rightarrow> cg" where
  "push_scope = upd_fc (\<lambda>fx. fx\<lparr>fx_scopes := [] # fx_scopes fx\<rparr>)"

definition pop_scope :: "cg \<Rightarrow> cg" where
  "pop_scope = upd_fc (\<lambda>fx. fx\<lparr>fx_scopes := tl (fx_scopes fx)\<rparr>)"

definition push_break :: "nat \<Rightarrow> swctx option \<Rightarrow> cg \<Rightarrow> cg" where
  "push_break b sw = upd_fc (\<lambda>fx. fx\<lparr>fx_breaks := (b, sw) # fx_breaks fx\<rparr>)"

definition pop_break :: "cg \<Rightarrow> cg" where
  "pop_break = upd_fc (\<lambda>fx. fx\<lparr>fx_breaks := tl (fx_breaks fx)\<rparr>)"

text \<open>\<open>{ fc_->scopes.emplace_back(); ... fc_->scopes.pop_back(); }\<close>\<close>

definition in_scope :: "gstmt \<Rightarrow> gstmt" where
  "in_scope g s = map_option pop_scope (g (push_scope s))"

text \<open>A loop body, whose \<open>break\<close> goes to \<open>endb\<close>.\<close>

definition in_loop :: "nat \<Rightarrow> gstmt \<Rightarrow> gstmt" where
  "in_loop endb g s = map_option pop_break (g (push_break endb None s))"

subsection \<open>Branches and loops\<close>

definition gen_cond :: "nat \<Rightarrow> srcloc \<Rightarrow> expr \<Rightarrow> cg \<Rightarrow> (val \<times> cg) option" where
  "gen_cond n l e s = do { (r, s1) \<leftarrow> genExpr n e s; Some (truthy r l s1) }"

definition genIf :: "nat \<Rightarrow> srcloc \<Rightarrow> expr \<Rightarrow> gstmt \<Rightarrow> gstmt option \<Rightarrow> gstmt" where
  "genIf n l e thn els s = do {
     (c, s1) \<leftarrow> gen_cond n l e s;
     let (thenb, s2) = new_block ''if.then'' s1;
     let (endb, s3) = new_block ''if.end'' s2;
     let (elseb, s4) = (if els = None then (endb, s3) else new_block ''if.else'' s3);
     s5 \<leftarrow> thn (set_block thenb (emit0 (TCondBr c thenb elseb) s4));
     let s6 = br_open endb s5;
     s7 \<leftarrow> (case els of None \<Rightarrow> Some s6 | Some g \<Rightarrow> map_option (br_open endb) (g (set_block elseb s6)));
     Some (set_block endb s7)
   }"

definition genWhile :: "nat \<Rightarrow> srcloc \<Rightarrow> expr \<Rightarrow> gstmt \<Rightarrow> gstmt" where
  "genWhile n l e body s = do {
     let (condb, s1) = new_block ''while.cond'' s;
     let (bodyb, s2) = new_block ''while.body'' s1;
     let (endb, s3) = new_block ''while.end'' s2;
     (c, s4) \<leftarrow> gen_cond n l e (set_block condb (emit0 (TBr condb) s3));
     s5 \<leftarrow> in_loop endb body (set_block bodyb (emit0 (TCondBr c bodyb endb) s4));
     Some (set_block endb (br_open condb s5))
   }"

definition genDoWhile :: "nat \<Rightarrow> srcloc \<Rightarrow> expr option \<Rightarrow> gstmt \<Rightarrow> gstmt" where
  "genDoWhile n l e body s = do {
     let (bodyb, s1) = new_block ''do.body'' s;
     let (condb, s2) = new_block ''do.cond'' s1;
     let (endb, s3) = new_block ''do.end'' s2;
     s4 \<leftarrow> in_loop endb body (set_block bodyb (emit0 (TBr bodyb) s3));
     let s5 = set_block condb (br_open condb s4);
     (c, s6) \<leftarrow> (case e of Some x \<Rightarrow> gen_cond n l x s5 | None \<Rightarrow> Some (cFalse, s5\<lparr>cg_fault := True\<rparr>));
     Some (set_block endb (emit0 (TCondBr c bodyb endb) s6))
   }"

fun gen_exprs :: "nat \<Rightarrow> expr list \<Rightarrow> gstmt" where
  "gen_exprs n [] s = Some s"
| "gen_exprs n (e # es) s = do { (v, s1) \<leftarrow> genExpr n e s; gen_exprs n es s1 }"

definition genFor :: "nat \<Rightarrow> srcloc \<Rightarrow> expr list \<Rightarrow> expr option \<Rightarrow> gstmt \<Rightarrow> gstmt \<Rightarrow> gstmt" where
  "genFor n l inits cond posts body s = do {
     s0 \<leftarrow> gen_exprs n inits s;
     let (condb, s1) = new_block ''for.cond'' s0;
     let (bodyb, s2) = new_block ''for.body'' s1;
     let (endb, s3) = new_block ''for.end'' s2;
     let s4 = set_block condb (emit0 (TBr condb) s3);
     s5 \<leftarrow> (case cond of
         Some e \<Rightarrow> do { (c, s5) \<leftarrow> gen_cond n l e s4; Some (emit0 (TCondBr c bodyb endb) s5) }
       | None \<Rightarrow> Some (emit0 (TBr bodyb) s4));
     s6 \<leftarrow> in_loop endb body (set_block bodyb s5);
     s7 \<leftarrow> (if cur_term s6 then Some s6 else map_option (emit0 (TBr condb)) (posts s6));
     Some (set_block endb s7)
   }"

subsection \<open>Jumps\<close>

definition genBreak :: "srcloc \<Rightarrow> cg \<Rightarrow> cg" where
  "genBreak l s = (case fx_breaks (cg_fc s) of
      [] \<Rightarrow> cg_error l ''break outside of loop or switch'' s
    | (b, sw) # _ \<Rightarrow>
        (let dst = (case sw of Some c \<Rightarrow> if sc_inGroup c then sc_groupEnd c else b | None \<Rightarrow> b)
         in startDeadBlock ''after.break'' (emit0 (TBr dst) s)))"

definition getLabelBlock :: "string \<Rightarrow> cg \<Rightarrow> nat \<times> cg" where
  "getLabelBlock n s = (case map_of (fx_labels (cg_fc s)) n of
      Some b \<Rightarrow> (b, s)
    | None \<Rightarrow> (let (b, s1) = new_block (''lbl.'' @ n) s
              in (b, upd_fc (\<lambda>fx. fx\<lparr>fx_labels := AList.update n b (fx_labels fx)\<rparr>) s1)))"

definition genGoto :: "string \<Rightarrow> cg \<Rightarrow> cg" where
  "genGoto n s = (let (b, s1) = getLabelBlock n s in startDeadBlock ''after.goto'' (emit0 (TBr b) s1))"

definition genLabel :: "srcloc \<Rightarrow> string \<Rightarrow> cg \<Rightarrow> cg" where
  "genLabel l n s =
     (if n \<in> set (fx_labelsDefined (cg_fc s)) then cg_error l (''duplicate label '' @ in_quotes n) s
      else (let (b, s1) = getLabelBlock n s;
                s2 = upd_fc (\<lambda>fx. fx\<lparr>fx_labelsDefined := n # fx_labelsDefined fx\<rparr>) s1
            in set_block b (br_open b s2)))"

definition zero_ret :: "retkind \<Rightarrow> val option" where
  "zero_ret k = (case k of RetVoid \<Rightarrow> None | RetF64 \<Rightarrow> Some (VFlt 0) | RetInt \<Rightarrow> Some (cI64 0))"

definition genReturn :: "nat \<Rightarrow> expr option \<Rightarrow> gstmt" where
  "genReturn n e s = do {
     s1 \<leftarrow> (case e of
         None \<Rightarrow> Some (emit0 (TRet (zero_ret (fx_ret (cg_fc s)))) s)
       | Some x \<Rightarrow> do {
           (r, s1) \<leftarrow> genExpr n x s;
           Some (case fx_ret (cg_fc s) of
               RetVoid \<Rightarrow> emit0 (TRet None) s1
             | RetF64 \<Rightarrow> (let (v, s2) = convert r tyF64 True s1 in emit0 (TRet (Some v)) s2)
             | RetInt \<Rightarrow> (let (v, s2) = convert r tyI64 False s1 in emit0 (TRet (Some v)) s2))
         });
     Some (startDeadBlock ''after.ret'' s1)
   }"

subsection \<open>Switch\<close>

text \<open>An instruction put into a block that is not the insertion point, and a change of the instruction
  that ends a block.\<close>

definition emit_at :: "nat \<Rightarrow> instr \<Rightarrow> cg \<Rightarrow> cg" where
  "emit_at b i = upd_fc (\<lambda>fx. (add_code b (fx_next fx, i) fx)\<lparr>fx_next := Suc (fx_next fx)\<rparr>)"

fun change_last :: "(instr \<Rightarrow> instr) \<Rightarrow> (nat \<times> instr) list \<Rightarrow> (nat \<times> instr) list" where
  "change_last f [] = []"
| "change_last f (i # is) = (if is = [] then [apsnd f i] else i # change_last f is)"

definition upd_last :: "nat \<Rightarrow> (instr \<Rightarrow> instr) \<Rightarrow> cg \<Rightarrow> cg" where
  "upd_last b f = upd_fc (\<lambda>fx. fx\<lparr>fx_blocks := (fx_blocks fx)[b := (fx_blocks fx ! b)
     \<lparr>bl_code := change_last f (bl_code (fx_blocks fx ! b))\<rparr>]\<rparr>)"

fun add_cases :: "i64 list \<Rightarrow> nat \<Rightarrow> instr \<Rightarrow> instr" where
  "add_cases vs b (TSwitch c d cs) = TSwitch c d (cs @ map (\<lambda>v. (v, b)) vs)"
| "add_cases vs b i = i"

fun set_default :: "nat \<Rightarrow> instr \<Rightarrow> instr" where
  "set_default b (TSwitch c d cs) = TSwitch c b cs"
| "set_default b i = i"

text \<open>The context of the switch whose items are being generated, on top of the break targets.\<close>

definition cur_swc :: "cg \<Rightarrow> swctx" where
  "cur_swc s = the (snd (hd (fx_breaks (cg_fc s))))"

definition upd_swc :: "(swctx \<Rightarrow> swctx) \<Rightarrow> cg \<Rightarrow> cg" where
  "upd_swc f = upd_fc (\<lambda>fx. fx\<lparr>fx_breaks := (case fx_breaks fx of
      (b, Some c) # bs \<Rightarrow> (b, Some (f c)) # bs | bs \<Rightarrow> bs)\<rparr>)"

text \<open>The bounds of a case label.\<close>

definition case_lo :: "srcloc \<Rightarrow> expr \<Rightarrow> cg \<Rightarrow> (i64 \<times> cg) option" where
  "case_lo l e s = do {
     r \<leftarrow> evalConst (cg_store s) (cg_classes s) e;
     Some (case r of
         Some v \<Rightarrow> (v, s)
       | None \<Rightarrow> (sc_nextCaseVal (cur_swc s), cg_error l ''case value must be a constant expression'' s))
   }"

definition case_hi :: "srcloc \<Rightarrow> i64 \<Rightarrow> expr option \<Rightarrow> cg \<Rightarrow> (i64 \<times> cg) option" where
  "case_hi l lo e s = (case e of
      None \<Rightarrow> Some (lo, s)
    | Some x \<Rightarrow> do {
        r \<leftarrow> evalConst (cg_store s) (cg_classes s) x;
        Some (case r of
            Some v \<Rightarrow> (v, s)
          | None \<Rightarrow> (lo, cg_error l ''case range end must be a constant expression'' s))
      })"

definition case_bounds :: "srcloc \<Rightarrow> (expr \<times> expr option) option \<Rightarrow> cg \<Rightarrow> (i64 \<times> i64 \<times> cg) option" where
  "case_bounds l c s = do {
     (lo, hi, s2) \<leftarrow> (case c of
         None \<Rightarrow> Some (sc_nextCaseVal (cur_swc s), sc_nextCaseVal (cur_swc s), s)
       | Some (e, h) \<Rightarrow> do {
           (lo, s1) \<leftarrow> case_lo l e s;
           (hi, s2) \<leftarrow> case_hi l lo h s1;
           Some (lo, hi, s2)
         });
     let s3 = upd_swc (\<lambda>c. c\<lparr>sc_nextCaseVal := hi + 1\<rparr>) s2;
     Some (if slt hi lo \<or> slt 100000 (hi - lo) then (lo, lo, cg_error l ''case range too large'' s3) else (lo, hi, s3))
   }"

text \<open>
  \<open>for (int64_t v = lo; v <= hi; v++)\<close>: the values for which a case is added. \<^const>\<open>None\<close> is a loop that
  does not end.
\<close>

partial_function (option) case_values :: "i64 \<Rightarrow> i64 \<Rightarrow> i64 list option" where
  "case_values v hi = (if slt hi v then Some [] else do { vs \<leftarrow> case_values (v + 1) hi; Some (v # vs) })"

text \<open>The first label of a group ends the porch with the inner dispatch.\<close>

definition enter_group_case :: "srcloc \<Rightarrow> nat \<Rightarrow> cg \<Rightarrow> cg" where
  "enter_group_case l bb s =
     (if sc_groupSw (cur_swc s) = None
      then if cur_term s then cg_error l ''start: front porch may not end in a jump'' s
           else (let (sel, s1) = emit (ILoad LI32 (sc_groupSel (cur_swc s))) s; b = cur_block s1
                 in upd_swc (\<lambda>c. c\<lparr>sc_groupSw := Some b\<rparr>) (emit0 (TSwitch sel bb []) s1))
      else br_open bb s)"

definition group_case :: "srcloc \<Rightarrow> nat \<Rightarrow> i64 list \<Rightarrow> cg \<Rightarrow> cg" where
  "group_case l bb vs s =
     (let s1 = enter_group_case l bb s;
          i = sc_nextGroupId (cur_swc s1);
          s2 = upd_swc (\<lambda>c. c\<lparr>sc_nextGroupId := Suc i\<rparr>) s1;
          (stub, s3) = new_block ''sw.substub'' s2;
          s4 = emit_at stub (TBr (sc_groupStart (cur_swc s3)))
                 (emit_at stub (IStore (VInt 32 (of_nat i)) (sc_groupSel (cur_swc s3))) s3);
          s5 = upd_last (sc_sw (cur_swc s4)) (add_cases vs stub) s4
      in case sc_groupSw (cur_swc s5) of
           Some g \<Rightarrow> upd_last g (add_cases [of_nat i] bb) s5 | None \<Rightarrow> s5)"

definition genCaseLabel :: "srcloc \<Rightarrow> (expr \<times> expr option) option \<Rightarrow> gstmt" where
  "genCaseLabel l c s = do {
     (lo, hi, s1) \<leftarrow> case_bounds l c s;
     vs \<leftarrow> case_values lo hi;
     let (bb, s2) = new_block ''sw.case'' s1;
     Some (set_block bb
       (if sc_inGroup (cur_swc s2) then group_case l bb vs s2
        else upd_last (sc_sw (cur_swc s2)) (add_cases vs bb) (br_open bb s2)))
   }"

definition genDefault :: "srcloc \<Rightarrow> cg \<Rightarrow> cg" where
  "genDefault l s =
     (let (bb, s1) = new_block ''sw.default'' s; s2 = set_block bb (br_open bb s1)
      in if sc_inGroup (cur_swc s2) then cg_error l ''default: inside start:/end: group'' s2
         else upd_swc (\<lambda>c. c\<lparr>sc_sawDefault := True\<rparr>) (upd_last (sc_sw (cur_swc s2)) (set_default bb) s2))"

definition genSubStart :: "srcloc \<Rightarrow> cg \<Rightarrow> cg" where
  "genSubStart l s =
     (if sc_inGroup (cur_swc s) then cg_error l ''nested start: in switch'' s
      else (let (sb, s1) = new_block ''sw.porch'' s; (eb, s2) = new_block ''sw.endporch'' s1;
                (sel, s3) = entryAlloca LI32 ''sw.sel'' s2;
                s4 = upd_swc (\<lambda>c. c\<lparr>sc_inGroup := True, sc_groupStart := sb, sc_groupEnd := eb, sc_groupSel := sel,
                       sc_groupSw := None, sc_nextGroupId := 0\<rparr>) s3;
                s5 = (if cur_term s4 then s4 else emit0 (TBr sb) (emit0 (IStore (VInt 32 0) sel) s4))
            in set_block sb s5))"

definition genSubEnd :: "srcloc \<Rightarrow> cg \<Rightarrow> cg" where
  "genSubEnd l s =
     (if \<not> sc_inGroup (cur_swc s) then cg_error l ''end: without start: in switch'' s
      else (let eb = sc_groupEnd (cur_swc s)
            in set_block eb (upd_swc (\<lambda>c. c\<lparr>sc_inGroup := False\<rparr>) (br_open eb s))))"

text \<open>The items of the body of a switch; \<open>g\<close> generates an item that is not a label.\<close>

fun switch_item :: "stmt \<Rightarrow> gstmt \<Rightarrow> gstmt" where
  "switch_item (SCase l c) g s = genCaseLabel l c s"
| "switch_item (SDefault l) g s = Some (genDefault l s)"
| "switch_item (SSubStart l) g s = Some (genSubStart l s)"
| "switch_item (SSubEnd l) g s = Some (genSubEnd l s)"
| "switch_item _ g s = g s"

definition new_swc :: "nat \<Rightarrow> nat \<Rightarrow> swctx" where
  "new_swc sw exit = \<lparr>sc_sw = sw, sc_exit = exit, sc_inGroup = False, sc_groupStart = 0, sc_groupEnd = 0,
     sc_groupSel = cI64 0, sc_groupSw = None, sc_nextGroupId = 0, sc_nextCaseVal = 0, sc_sawDefault = False\<rparr>"

definition genSwitch :: "nat \<Rightarrow> srcloc \<Rightarrow> expr \<Rightarrow> gstmt \<Rightarrow> gstmt" where
  "genSwitch n l e items s = do {
     (r, s1) \<leftarrow> genExpr n e s;
     let (c, s2) = convert r tyI64 False s1;
     let (exitb, s3) = new_block ''sw.end'' s2;
     let (firstb, s4) = new_block ''sw.dispatch'' s3;
     let s5 = emit0 (TSwitch c exitb []) (set_block firstb (emit0 (TBr firstb) s4));
     let s6 = startDeadBlock ''sw.preamble'' (push_break exitb (Some (new_swc firstb exitb)) s5);
     s7 \<leftarrow> in_scope items s6;
     let open_group = sc_inGroup (cur_swc s7);
     let s8 = pop_break s7;
     let s9 = (if open_group then cg_error l ''start: without matching end: in switch'' s8 else s8);
     Some (set_block exitb (br_open exitb s9))
   }"

subsection \<open>Try and catch\<close>

definition call_rt :: "nat \<Rightarrow> lty \<Rightarrow> val list \<Rightarrow> cg \<Rightarrow> val \<times> cg" where
  "call_rt f t as = emit (ICall (VFun f) t as)"

definition genTry :: "gstmt \<Rightarrow> gstmt \<Rightarrow> gstmt" where
  "genTry body handler s = do {
     let (frame, s1) = entryAlloca (LArr 256 LI8) ''try.frame'' s;
     let (push, s2) = getRT ''HC_TryPush'' LPtr [LPtr] s1;
     let (popf, s3) = getRT ''HC_TryPop'' LVoid [] s2;
     let (centr, s4) = getRT ''HC_CatchEnter'' LVoid [] s3;
     let (cdone, s5) = getRT ''HC_CatchDone'' LVoid [] s4;
     let (setjmp, s6) = getRT ''setjmp'' LI32 [LPtr] s5;
     let (jb, s7) = call_rt push LPtr [frame] s6;
     let (rc, s8) = call_rt setjmp LI32 [jb] s7;
     let (tryb, s9) = new_block ''try.body'' s8;
     let (catchb, s10) = new_block ''catch.body'' s9;
     let (endb, s11) = new_block ''try.end'' s10;
     let (isz, s12) = emit (ICmp IEQ rc (VInt 32 0)) s11;
     s13 \<leftarrow> in_scope body (set_block tryb (emit0 (TCondBr isz tryb catchb) s12));
     let s14 = (if cur_term s13 then s13 else emit0 (TBr endb) (snd (call_rt popf LVoid [] s13)));
     s15 \<leftarrow> in_scope handler (snd (call_rt centr LVoid [] (set_block catchb s14)));
     let s16 = (if cur_term s15 then s15 else emit0 (TBr endb) (snd (call_rt cdone LVoid [] s15)));
     Some (set_block endb s16)
   }"

subsection \<open>Initialisers\<close>

text \<open>The members that an initialiser list fills, those of the base class first; \<^const>\<open>None\<close> is a circle
  of base classes.\<close>

fun flat_members :: "store \<Rightarrow> nat \<Rightarrow> nat \<Rightarrow> cmember list option" where
  "flat_members st 0 c = None"
| "flat_members st (Suc k) c = (case class_at st c of
      None \<Rightarrow> Some []
    | Some ci \<Rightarrow> do {
        b \<leftarrow> (case base_of st c of Some b \<Rightarrow> flat_members st k b | None \<Rightarrow> Some []);
        Some (b @ ci_members ci)
      })"

text \<open>Where the elements of an aggregate stand: offset and type by index. The outer \<^const>\<open>None\<close> is the
  circle, the inner one a type that is no aggregate.\<close>

definition slots :: "store \<Rightarrow> ty \<Rightarrow> (nat \<Rightarrow> (i64 \<times> ty) option) option option" where
  "slots st t = (case t of
      TyArray el len \<Rightarrow> Some (Some (\<lambda>i. if sint len \<le> int i then None else Some (of_nat i * ty_size st el, el)))
    | TyClass c \<Rightarrow> do {
        ms \<leftarrow> flat_members st (Suc (length st)) c;
        Some (Some (\<lambda>i. if i < length ms then Some (cm_offset (ms ! i), cm_type (ms ! i)) else None))
      }
    | _ \<Rightarrow> Some None)"

definition init_plain :: "nat \<Rightarrow> val \<Rightarrow> ty \<Rightarrow> expr \<Rightarrow> gstmt" where
  "init_plain n addr t e s = (case (t, e) of
      (TyArray (TyInt (Suc 0) u) len, EStrLit l x) \<Rightarrow>
        (let (g, s1) = stringConst x s; size = ty_size (cg_store s) t
         in Some (emit0 (IMemCpy addr (VGlobal g) (if of_nat (length x + 1) \<le> size then of_nat (length x + 1) else size)) s1))
    | _ \<Rightarrow> do {
        (r, s1) \<leftarrow> genExpr n e s;
        if isAggregate t
        then (let (src, s2) = asPtr (fst r) s1 in Some (emit0 (IMemCpy addr src (ty_size (cg_store s) t)) s2))
        else storeTo addr r t s1
      })"

fun genInit :: "nat \<Rightarrow> val \<Rightarrow> ty \<Rightarrow> expr \<Rightarrow> gstmt"
  and genInitList :: "nat \<Rightarrow> val \<Rightarrow> ty \<Rightarrow> srcloc \<Rightarrow> expr list \<Rightarrow> gstmt"
  and init_elems :: "nat \<Rightarrow> val \<Rightarrow> (nat \<Rightarrow> (i64 \<times> ty) option) \<Rightarrow> srcloc \<Rightarrow> nat \<Rightarrow> expr list \<Rightarrow> gstmt" where
  "genInit n addr t (EInitList l ks) s = genInitList n addr t l ks (emit0 (IMemSet addr (ty_size (cg_store s) t)) s)"
| "genInit n addr t e s = init_plain n addr t e s"
| "genInitList n addr t l ks s = (case slots (cg_store s) t of
      None \<Rightarrow> None
    | Some None \<Rightarrow> Some (cg_error l ''initializer list for non-aggregate'' s)
    | Some (Some f) \<Rightarrow> init_elems n addr f l 0 ks s)"
| "init_elems n addr f l i [] s = Some s"
| "init_elems n addr f l i (k # ks) s = (case f i of
      None \<Rightarrow> Some (cg_error l ''too many initializers'' s)
    | Some (off, t) \<Rightarrow>
        (let (ea, s1) = emit (IGep LI8 addr [cI64 off]) s
         in Option.bind
              (case k of EInitList l2 ks2 \<Rightarrow> genInitList n ea t l2 ks2 s1 | _ \<Rightarrow> genInit n ea t k s1)
              (init_elems n addr f l (Suc i) ks)))"

subsection \<open>Constant initialisers\<close>

text \<open>\<open>memcpy(&out[off], ...)\<close>; \<^const>\<open>None\<close> is a write outside the vector.\<close>

definition put_bytes :: "i64 \<Rightarrow> 8 word list \<Rightarrow> 8 word list \<Rightarrow> 8 word list option" where
  "put_bytes off bs out =
     (if bs = [] then Some out
      else if 0 \<le> sint off \<and> nat (sint off) + length bs \<le> length out
      then Some (take (nat (sint off)) out @ bs @ drop (nat (sint off) + length bs) out)
      else None)"

fun le_bytes :: "nat \<Rightarrow> nat \<Rightarrow> 8 word list" where
  "le_bytes 0 v = []"
| "le_bytes (Suc k) v = of_nat (v mod 256) # le_bytes k (v div 256)"

definition const_scalar :: "store \<Rightarrow> (string \<times> nat) list \<Rightarrow> expr \<Rightarrow> ty \<Rightarrow> 8 word list option option" where
  "const_scalar st cls e t =
     (if t = TyF64 then do { r \<leftarrow> evalConstF64 st cls e; Some (map_option (\<lambda>d. le_bytes 8 (unat d)) r) }
      else do {
        r \<leftarrow> evalConst st cls e;
        Some (map_option (\<lambda>v. le_bytes (if slt (ty_size st t) 8 then unat (ty_size st t) else 8) (unat v)) r)
      })"

text \<open>\<open>e->kids.size() > t->arrayLen\<close>, signed, and \<open>e->kids.size() > flat.size()\<close>.\<close>

definition too_many_inits :: "ty \<Rightarrow> (nat \<Rightarrow> (i64 \<times> ty) option) \<Rightarrow> expr list \<Rightarrow> bool" where
  "too_many_inits t f ks \<longleftrightarrow> (case t of
      TyArray el len \<Rightarrow> sint len < int (length ks)
    | _ \<Rightarrow> ks \<noteq> [] \<and> f (length ks - 1) = None)"

text \<open>\<open>constBytes\<close>: the bytes afterwards, or \<^term>\<open>Some None\<close> for false.\<close>

fun constBytes :: "store \<Rightarrow> (string \<times> nat) list \<Rightarrow> expr \<Rightarrow> ty \<Rightarrow> i64 \<Rightarrow> 8 word list \<Rightarrow> 8 word list option option"
  and const_elems :: "store \<Rightarrow> (string \<times> nat) list \<Rightarrow> (nat \<Rightarrow> (i64 \<times> ty) option) \<Rightarrow> nat \<Rightarrow> expr list \<Rightarrow> i64 \<Rightarrow> 8 word list
    \<Rightarrow> 8 word list option option" where
  "constBytes st cls (EInitList l ks) t off out = (case slots st t of
      None \<Rightarrow> None
    | Some None \<Rightarrow> Some None
    | Some (Some f) \<Rightarrow> if too_many_inits t f ks then Some None else const_elems st cls f 0 ks off out)"
| "constBytes st cls e t off out = do {
     r \<leftarrow> const_scalar st cls e t;
     (case r of
        None \<Rightarrow> Some None
      | Some bs \<Rightarrow> do { out1 \<leftarrow> put_bytes off bs out; Some (Some out1) })
   }"
| "const_elems st cls f i [] off out = Some (Some out)"
| "const_elems st cls f i (k # ks) off out = (case f i of
      None \<Rightarrow> Some None
    | Some (o', t) \<Rightarrow> do {
        r \<leftarrow> constBytes st cls k t (off + o') out;
        (case r of None \<Rightarrow> Some None | Some out1 \<Rightarrow> const_elems st cls f (Suc i) ks off out1)
      })"

text \<open>\<open>tryConstInit\<close>: \<^term>\<open>Some (None, s)\<close> is the null pointer. A negative size makes the vector or the
  string throw.\<close>

definition const_string :: "store \<Rightarrow> ty \<Rightarrow> string \<Rightarrow> const option" where
  "const_string st t x =
     (if slt (ty_size st t) 0 then None
      else (let n = unat (ty_size st t) in Some (KStr (take n (x @ replicate n (CHR 0x00))))))"

definition const_aggregate :: "store \<Rightarrow> (string \<times> nat) list \<Rightarrow> ty \<Rightarrow> expr \<Rightarrow> const option option" where
  "const_aggregate st cls t e =
     (if slt (ty_size st t) 0 then None
      else do {
        r \<leftarrow> constBytes st cls e t 0 (replicate (unat (ty_size st t)) 0);
        Some (map_option KBytes r)
      })"

fun is_byte_array :: "ty \<Rightarrow> bool" where
  "is_byte_array (TyArray (TyInt n u) len) = (n = 1)"
| "is_byte_array _ = False"

fun is_str_lit :: "expr \<Rightarrow> bool" where
  "is_str_lit (EStrLit _ _) = True"
| "is_str_lit _ = False"

fun is_init_list :: "expr \<Rightarrow> bool" where
  "is_init_list (EInitList _ _) = True"
| "is_init_list _ = False"

fun str_lit_text :: "expr \<Rightarrow> string" where
  "str_lit_text (EStrLit _ x) = x"
| "str_lit_text _ = []"

definition tryConstInit :: "expr \<Rightarrow> ty \<Rightarrow> cg \<Rightarrow> (const option \<times> cg) option" where
  "tryConstInit e t s =
     (if t = TyF64
      then do { r \<leftarrow> evalConstF64 (cg_store s) (cg_classes s) e; Some (map_option KFlt r, s) }
      else if isInt t \<or> isPtr t \<or> isFunc t
      then if is_str_lit e
           then (let (g, s1) = stringConst (str_lit_text e) s in Some (Some (KAddr g (memTy (cg_store s) t)), s1))
           else do {
             r \<leftarrow> evalConst (cg_store s) (cg_classes s) e;
             Some (map_option (KInt (width (memTy (cg_store s) t))) r, s)
           }
      else if is_byte_array t \<and> is_str_lit e
      then do { k \<leftarrow> const_string (cg_store s) t (str_lit_text e); Some (Some k, s) }
      else if isAggregate t \<and> is_init_list e
      then do { r \<leftarrow> const_aggregate (cg_store s) (cg_classes s) t e; Some (r, s) }
      else Some (None, s))"

subsection \<open>Declarations\<close>

definition fun_label :: "cg \<Rightarrow> string" where
  "fun_label s = (case lf_name (cg_mfuns s ! fx_fn (cg_fc s)) of Some n \<Rightarrow> n | None \<Rightarrow> [])"

definition genStaticLocal :: "vdecl \<Rightarrow> gstmt" where
  "genStaticLocal d s = do {
     let mt = memTy (cg_store s) (vd_type d);
     (k, s1) \<leftarrow> (case vd_init d of None \<Rightarrow> Some (None, s) | Some e \<Rightarrow> tryConstInit e (vd_type d) s);
     let s2 = (if vd_init d \<noteq> None \<and> k = None
               then cg_error (vd_loc d) ''static var initializer must be a compile-time constant'' s1 else s1);
     let (g, s3) = new_global \<lparr>lg_name = fun_label s2 @ ''.'' @ vd_name d, lg_type = mt, lg_internal = True,
                     lg_init = Some (case k of Some c \<Rightarrow> c | None \<Rightarrow> KNull mt)\<rparr> s2;
     Some (declareLocal (vd_name d) \<lparr>vs_addr = VGlobal g, vs_type = vd_type d\<rparr> (vd_loc d) s3)
   }"

definition gen_local :: "nat \<Rightarrow> vdecl \<Rightarrow> gstmt" where
  "gen_local n d s =
     (let t = regSlotType (vd_type d); (a, s1) = entryAlloca (memTy (cg_store s) t) (vd_name d) s;
          s2 = declareLocal (vd_name d) \<lparr>vs_addr = a, vs_type = t\<rparr> (vd_loc d) s1
      in case vd_init d of None \<Rightarrow> Some s2 | Some e \<Rightarrow> genInit n a t e s2)"

fun genVarDecl :: "nat \<Rightarrow> bool \<Rightarrow> vdecl list \<Rightarrow> gstmt" where
  "genVarDecl n static [] s = Some s"
| "genVarDecl n static (d # ds) s = do {
     s1 \<leftarrow> (if static then genStaticLocal d s else gen_local n d s);
     genVarDecl n static ds s1
   }"

subsection \<open>The recursion over statements\<close>

definition bad_label :: "srcloc \<Rightarrow> cg \<Rightarrow> cg" where
  "bad_label l s = cg_error l ''case labels are only valid directly inside a switch'' s"

text \<open>The items of a switch are those of its block, or the single statement.\<close>

fun genStmt :: "nat \<Rightarrow> stmt \<Rightarrow> gstmt"
  and genStmts :: "nat \<Rightarrow> stmt list \<Rightarrow> gstmt"
  and genItems :: "nat \<Rightarrow> stmt list \<Rightarrow> gstmt" where
  "genStmt n (SEmpty l) s = Some s"
| "genStmt n (SBlock l ss) s = in_scope (genStmts n ss) s"
| "genStmt n (SExpr l e) s = map_option snd (genExpr n e s)"
| "genStmt n (SIf l e a b) s = genIf n l e (genStmt n a) (map_option (genStmt n) b) s"
| "genStmt n (SWhile l e b) s = genWhile n l e (genStmt n b) s"
| "genStmt n (SDoWhile l b e) s = genDoWhile n l e (genStmt n b) s"
| "genStmt n (SFor l inits e posts b) s = genFor n l inits e (genStmts n posts) (genStmt n b) s"
| "genStmt n (SSwitch l unchecked e b) s =
     genSwitch n l e (case b of SBlock l2 ss \<Rightarrow> genItems n ss | _ \<Rightarrow> switch_item b (genStmt n b)) s"
| "genStmt n (SBreak l) s = Some (genBreak l s)"
| "genStmt n (SGoto l x) s = Some (genGoto x s)"
| "genStmt n (SLabel l x) s = Some (genLabel l x s)"
| "genStmt n (SReturn l e) s = genReturn n e s"
| "genStmt n (SVarDecl l static ds) s = genVarDecl n static ds s"
| "genStmt n (STry l body handler) s = genTry (genStmts n body) (genStmts n handler) s"
| "genStmt n (SNoWarn l) s = Some s"
| "genStmt n (SLock l b) s = genStmt n b s"
| "genStmt n (SCase l c) s = Some (bad_label l s)"
| "genStmt n (SDefault l) s = Some (bad_label l s)"
| "genStmt n (SSubStart l) s = Some (bad_label l s)"
| "genStmt n (SSubEnd l) s = Some (bad_label l s)"
| "genStmts n [] s = Some s"
| "genStmts n (b # ss) s = Option.bind (genStmt n b s) (genStmts n ss)"
| "genItems n [] s = Some s"
| "genItems n (b # ss) s = Option.bind (switch_item b (genStmt n b) s) (genItems n ss)"

end
