(* ===== verification/HC_GenTop.thy ===== *)
theory HC_GenTop
  imports HC_GenStmt "HOL-Library.List_Lexorder" "HOL-Library.Char_ord"
begin

text \<open>
  Functions, globals and the module: \<open>declareGlobal\<close>, \<open>beginFn\<close>, \<open>genFuncBody\<close>, \<open>finishFn\<close> and
  \<open>CG::run\<close>. The verifier of LLVM, which \<open>run\<close> asks at the end, is an argument.
\<close>

subsection \<open>Globals\<close>

definition gv_symbol :: "globalvar \<Rightarrow> string" where
  "gv_symbol g = (if gv_linkage g \<in> {LExternAlias, LImportAlias} then gv_aliasSym g else gv_name g)"

definition gv_isDecl :: "globalvar \<Rightarrow> bool" where
  "gv_isDecl g \<longleftrightarrow> gv_linkage g \<in> {LExternAlias, LImportAlias, LExtern, LImport}"

definition set_global_init :: "nat \<Rightarrow> const \<Rightarrow> cg \<Rightarrow> cg" where
  "set_global_init k c s = s\<lparr>cg_mglobals := (cg_mglobals s)[k := (cg_mglobals s ! k)\<lparr>lg_init := Some c\<rparr>]\<rparr>"

text \<open>The item comes back without its initialiser where that was a constant.\<close>

definition declareGlobal :: "globalvar \<Rightarrow> cg \<Rightarrow> (globalvar \<times> cg) option" where
  "declareGlobal g s = (
     let mt = memTy (cg_store s) (gv_type g);
         (k, s1) = new_global \<lparr>lg_name = gv_symbol g, lg_type = mt, lg_internal = (gv_linkage g = LStatic),
                     lg_init = (if gv_isDecl g then None else Some (KNull mt))\<rparr> s;
         s2 = s1\<lparr>cg_globals := AList.update (gv_name g) \<lparr>vs_addr = VGlobal k, vs_type = gv_type g\<rparr> (cg_globals s1)\<rparr>
     in case (if gv_isDecl g then None else gv_init g) of
          None \<Rightarrow> Some (g, s2)
        | Some e \<Rightarrow> do {
            (c, s3) \<leftarrow> tryConstInit e (gv_type g) s2;
            Some (case c of
                Some x \<Rightarrow> (g\<lparr>gv_init := None\<rparr>, set_global_init k x s3)
              | None \<Rightarrow> (g, s3))
          })"

text \<open>A definition after an \<open>extern\<close> declaration.\<close>

definition define_forward :: "varsym \<Rightarrow> cg \<Rightarrow> cg" where
  "define_forward v s = (case vs_addr v of
      VGlobal k \<Rightarrow> if lg_init (cg_mglobals s ! k) = None
                   then set_global_init k (KNull (lg_type (cg_mglobals s ! k))) s else s
    | _ \<Rightarrow> s)"

subsection \<open>Function bodies\<close>

definition ret_kind :: "ty \<Rightarrow> retkind" where
  "ret_kind t = (if t = TyVoid then RetVoid else if t = TyF64 then RetF64 else RetInt)"

text \<open>\<open>beginFn\<close>. The entry block holds the allocas of \<open>fx_allocas\<close>, the marker and the rest; the marker is
  not an instruction of the model.\<close>

definition beginFn :: "nat \<Rightarrow> retkind \<Rightarrow> fnctx" where
  "beginFn k r = \<lparr>fx_fn = k, fx_blocks = [\<lparr>bl_name = ''entry'', bl_code = []\<rparr>], fx_cur = 0, fx_next = 0,
     fx_allocas = [], fx_scopes = [[]], fx_localNames = [], fx_labels = [], fx_labelsDefined = [],
     fx_breaks = [], fx_ret = r\<rparr>"

definition bind_param :: "nat \<Rightarrow> fparam \<Rightarrow> gstmt" where
  "bind_param i p s = do {
     let pt = regSlotType (param_type p);
     let nm = (if param_name p = [] then ''arg'' @ dec_of_nat (Suc i) else param_name p);
     let (a, s1) = entryAlloca (memTy (cg_store s) pt) (nm @ ''.addr'') s;
     s2 \<leftarrow> storeTo a (Some (VArg i (value_type (param_type p))), if pt = TyF64 then tyF64 else tyI64) pt s1;
     Some (if param_name p = [] then s2
           else declareLocal (param_name p) \<lparr>vs_addr = a, vs_type = pt\<rparr> (param_loc p) s2)
   }"

fun bind_params :: "nat \<Rightarrow> fparam list \<Rightarrow> gstmt" where
  "bind_params i [] s = Some s"
| "bind_params i (p # ps) s = Option.bind (bind_param i p s) (bind_params (Suc i) ps)"

definition bind_builtin :: "string \<Rightarrow> val \<Rightarrow> ty \<Rightarrow> cg \<Rightarrow> cg" where
  "bind_builtin n a t = upd_fc (\<lambda>fx. fx\<lparr>fx_localNames := List.insert n (fx_localNames fx),
     fx_scopes := (case fx_scopes fx of [] \<Rightarrow> []
       | sc # scs \<Rightarrow> AList.update n \<lparr>vs_addr = a, vs_type = t\<rparr> sc # scs)\<rparr>)"

text \<open>\<open>argc\<close> and \<open>argv\<close> of a variadic function.\<close>

definition bind_variadic :: "nat \<Rightarrow> cg \<Rightarrow> cg" where
  "bind_variadic i s =
     (let (ac, s1) = entryAlloca LI64 ''argc.addr'' s; (av, s2) = entryAlloca LI64 ''argv.addr'' s1;
          s3 = emit0 (IStore (VArg (Suc i) LI64) av) (emit0 (IStore (VArg i LI64) ac) s2)
      in bind_builtin ''argv'' av (tyPtr tyI64) (bind_builtin ''argc'' ac tyI64 s3))"

text \<open>
  \<open>finishFn\<close>: the missing return, then the labels without a definition, in the order of
  \<open>std::map\<close>. The diagnostic of a missing label carries no position.
\<close>

definition undefined_labels :: "fnctx \<Rightarrow> (string \<times> nat) list" where
  "undefined_labels fx = sort_key fst (filter (\<lambda>(n, b). n \<notin> set (fx_labelsDefined fx)) (fx_labels fx))"

definition label_error :: "string \<Rightarrow> cg \<Rightarrow> string" where
  "label_error n s = ''goto to undefined label '' @ in_quotes n @ '' in '' @ fun_label s"

definition close_label :: "string \<times> nat \<Rightarrow> cg \<Rightarrow> cg" where
  "close_label l s =
     (let s1 = cg_error no_loc (label_error (fst l) s) s
      in if has_term (block_at s1 (snd l)) then s1
         else emit_at (snd l) (TRet (zero_ret (fx_ret (cg_fc s1)))) s1)"

definition finishFn :: "cg \<Rightarrow> cg" where
  "finishFn s =
     (let s1 = (if cur_term s then s else emit0 (TRet (zero_ret (fx_ret (cg_fc s)))) s);
          s2 = fold close_label (undefined_labels (cg_fc s1)) s1
      in s2\<lparr>cg_mfuns := (cg_mfuns s2)[fx_fn (cg_fc s2) := (cg_mfuns s2 ! fx_fn (cg_fc s2))
                 \<lparr>lf_body := Some (cg_fc s2)\<rparr>]\<rparr>)"

definition genFuncBody :: "nat \<Rightarrow> funcdecl \<Rightarrow> nat \<Rightarrow> gstmt" where
  "genFuncBody n fd k s = do {
     let prev = cg_fc s;
     let ps = fun_params (fd_type fd);
     s1 \<leftarrow> bind_params 0 ps (s\<lparr>cg_fc := beginFn k (ret_kind (fun_ret (fd_type fd)))\<rparr>);
     let s2 = (if fun_variadic (fd_type fd) then bind_variadic (length ps) s1 else s1);
     s3 \<leftarrow> genStmts n (fd_body fd) s2;
     Some ((finishFn s3)\<lparr>cg_fc := prev\<rparr>)
   }"

subsection \<open>The module\<close>

text \<open>The first pass. Each function item comes with the function \<open>declToFn_\<close> has for it.\<close>

definition declare_item :: "topitem \<Rightarrow> cg \<Rightarrow> ((topitem \<times> nat) \<times> cg) option" where
  "declare_item it s = (case it of
      IFunc fd \<Rightarrow>
        (let (k, s1) = declareFunc fd s
         in Some ((it, k), if map_of (cg_funcs s1) (fd_name fd) = None
              then s1\<lparr>cg_funcs := AList.update (fd_name fd) \<lparr>fs_fn = Some k, fs_type = fd_type fd\<rparr> (cg_funcs s1)\<rparr>
              else s1))
    | IGlobal g \<Rightarrow>
        (case map_of (cg_globals s) (gv_name g) of
           None \<Rightarrow> do { (g1, s1) \<leftarrow> declareGlobal g s; Some ((IGlobal g1, 0), s1) }
         | Some v \<Rightarrow>
             Some ((it, 0), if gv_linkage g \<in> {LNormal, LPublic, LStatic} then define_forward v s else s))
    | _ \<Rightarrow> Some ((it, 0), s))"

fun declare_items :: "topitem list \<Rightarrow> cg \<Rightarrow> ((topitem \<times> nat) list \<times> cg) option" where
  "declare_items [] s = Some ([], s)"
| "declare_items (it # its) s = do {
     (x, s1) \<leftarrow> declare_item it s;
     (xs, s2) \<leftarrow> declare_items its s1;
     Some (x # xs, s2)
   }"

text \<open>The second pass. Outside the bodies of functions \<open>fc_\<close> is the context of the startup function.\<close>

definition gen_item :: "nat \<Rightarrow> topitem \<times> nat \<Rightarrow> gstmt" where
  "gen_item n x s = (case fst x of
      IFunc fd \<Rightarrow>
        (let s1 = s\<lparr>cg_funcs := AList.update (fd_name fd) \<lparr>fs_fn = Some (snd x), fs_type = fd_type fd\<rparr> (cg_funcs s)\<rparr>
         in if fd_hasBody fd then genFuncBody n fd (snd x) s1 else Some s1)
    | IGlobal g \<Rightarrow>
        (case gv_init g of
           None \<Rightarrow> Some s
         | Some e \<Rightarrow> (case map_of (cg_globals s) (gv_name g) of
               Some v \<Rightarrow> genInit n (vs_addr v) (vs_type v) e s
             | None \<Rightarrow> Some (s\<lparr>cg_fault := True\<rparr>)))
    | IStmt b \<Rightarrow> genStmt n b s
    | IClass c \<Rightarrow> Some s)"

fun gen_items :: "nat \<Rightarrow> (topitem \<times> nat) list \<Rightarrow> gstmt" where
  "gen_items n [] s = Some s"
| "gen_items n (x # xs) s = Option.bind (gen_item n x s) (gen_items n xs)"

text \<open>\<open>int main(int argc, char **argv)\<close> of an executable.\<close>

definition gen_main :: "nat \<Rightarrow> cg \<Rightarrow> cg" where
  "gen_main start s =
     (let (m, s1) = new_function (LI32, [LI32, LPtr]) False ''main'' s;
          (rt, s2) = getRT ''HC_RtInit'' LVoid [LI64, LPtr] (s1\<lparr>cg_fc := beginFn m RetInt\<rparr>);
          (argc, s3) = emit (ICast CSExt (VArg 0 LI32) LI64) s2;
          s4 = emit0 (ICall (VFun rt) LVoid [argc, VArg 1 LPtr]) s3;
          s5 = emit0 (TRet (Some (VInt 32 0))) (emit0 (ICall (VFun start) LVoid []) s4)
      in s5\<lparr>cg_mfuns := (cg_mfuns s5)[m := (cg_mfuns s5 ! m)\<lparr>lf_body := Some (cg_fc s5)\<rparr>]\<rparr>)"

definition cg_init :: "bool \<Rightarrow> store \<Rightarrow> (string \<times> nat) list \<Rightarrow> cg" where
  "cg_init aot st cls = \<lparr>cg_store = st, cg_classes = cls, cg_aot = aot, cg_funcs = [], cg_globals = [],
     cg_strLits = [], cg_bodyDeclared = [], cg_uniq = 0, cg_errors = [], cg_fault = False, cg_mglobals = [],
     cg_mfuns = [], cg_fc = beginFn 0 RetVoid\<rparr>"

definition gen_program :: "nat \<Rightarrow> topitem list \<Rightarrow> gstmt" where
  "gen_program n items s = do {
     (its, s1) \<leftarrow> declare_items items s;
     let (start, s2) = new_function (LVoid, []) False ''__HC_startup'' s1;
     s3 \<leftarrow> gen_items n its (s2\<lparr>cg_fc := beginFn start RetVoid\<rparr>);
     let s4 = finishFn s3;
     Some (if cg_aot s4 then gen_main start s4 else s4)
   }"

text \<open>\<open>codegen\<close>: the state, which holds the module, and \<open>ok\<close>.\<close>

definition codegen :: "(lglobal list \<Rightarrow> lfun list \<Rightarrow> bool) \<Rightarrow> nat \<Rightarrow> bool \<Rightarrow> store \<Rightarrow> (string \<times> nat) list \<Rightarrow> topitem list
    \<Rightarrow> (cg \<times> bool) option" where
  "codegen verify n aot st cls items = do {
     s \<leftarrow> gen_program n items (cg_init aot st cls);
     Some (s, cg_errors s = [] \<and> verify (cg_mglobals s) (cg_mfuns s))
   }"

end
