(* ===== verification/HC_Jit.thy ===== *)
theory HC_Jit
  imports HC_GenTop HC_Lexer HC_ParserTop HC_RtStr
begin

text \<open>
  \<open>jit.cpp\<close> and the part of \<open>aot.cpp\<close> that works on the module: the pipeline from a lexer to a module, the
  symbols of the runtime, \<open>runJIT\<close>, and the snippets of \<open>#exe\<close>. LLVM is a record of functions: its
  verifier, its optimiser, its JIT and its writers, each with the message it fails with.
\<close>

subsection \<open>LLVM\<close>

type_synonym lmodule = "lglobal list \<times> lfun list"

record llvm =
  l_verify :: "lglobal list \<Rightarrow> lfun list \<Rightarrow> bool"
  l_pipeline :: "nat \<Rightarrow> lmodule \<Rightarrow> lmodule"
  l_create :: "nat \<Rightarrow> string option"
  l_add :: "nat \<Rightarrow> lmodule \<Rightarrow> string option"
  l_lookup :: "lmodule \<Rightarrow> string \<Rightarrow> string option"
  l_stream :: "lmodule \<Rightarrow> hcout"
  l_print :: "lmodule \<Rightarrow> string"
  l_target :: "string option"
  l_open :: "string \<Rightarrow> string option"
  l_emits :: bool

text \<open>\<open>l_stream m\<close> is what the startup function of \<open>m\<close> leaves in the stream of \<open>HC_StreamPrint\<close>; that it
  returns is assumed. What the compiler does to the outside is a list of events.\<close>

datatype event =
    EvErr string
  | EvOut string
  | EvRun lmodule "string list"
  | EvObject lmodule string
  | EvSystem string
  | EvRemove string

subsection \<open>The pipeline\<close>

definition front_end :: "env \<Rightarrow> nat \<Rightarrow> lexer \<Rightarrow> (pst \<times> lexer) option" where
  "front_end e n lx = do {
     (ts, lx1) \<leftarrow> lex_all e n n lx;
     ps \<leftarrow> parseProgram ts;
     Some (ps, lx1)
   }"

text \<open>\<open>Parser::hadError\<close> after \<open>parseProgram\<close>.\<close>

definition hadError :: "pst \<times> lexer \<Rightarrow> bool" where
  "hadError p \<longleftrightarrow> p_hadError (fst p) \<or> lx_hadError (snd p)"

definition generate :: "llvm \<Rightarrow> nat \<Rightarrow> bool \<Rightarrow> pst \<Rightarrow> (cg \<times> bool) option" where
  "generate L n aot ps = codegen (l_verify L) n aot (ps_store ps) (ps_classes ps) (ps_items ps)"

definition module_of :: "cg \<Rightarrow> lmodule" where
  "module_of s = (cg_mglobals s, cg_mfuns s)"

definition optimizeModule :: "llvm \<Rightarrow> int \<Rightarrow> lmodule \<Rightarrow> lmodule" where
  "optimizeModule L level m =
     (if level \<le> 0 then m else l_pipeline L (if level = 1 then 1 else if level = 2 then 2 else 3) m)"

definition emitObjectFile :: "llvm \<Rightarrow> string \<Rightarrow> string option" where
  "emitObjectFile L path = (case l_target L of
      Some err \<Rightarrow> Some (''hcc: '' @ err)
    | None \<Rightarrow> (case l_open L path of
        Some msg \<Rightarrow> Some (''hcc: cannot write '' @ in_quotes path @ '': '' @ msg)
      | None \<Rightarrow> if l_emits L then None else Some ''hcc: target cannot emit object files''))"

subsection \<open>The JIT\<close>

text \<open>The names \<open>defineRuntimeSymbols\<close> gives to the JIT.\<close>

definition runtime_symbols :: "string list" where
  "runtime_symbols = [
     ''HC_Print'', ''HC_PutChars'', ''HC_PutChar'', ''HC_PutS'', ''HC_StrPrint'', ''HC_MStrPrint'', ''HC_CatPrint'',
     ''HC_StrPrintJoin'', ''HC_GetStr'', ''HC_GetChar'', ''HC_GetI64'', ''HC_GetF64'', ''HC_YorN'', ''HC_PressAKey'',
     ''HC_MAlloc'', ''HC_CAlloc'', ''HC_MAllocIdent'', ''HC_Free'', ''HC_MSize'', ''HC_MemCpy'', ''HC_MemSet'',
     ''HC_MemCmp'', ''HC_StrLen'', ''HC_StrCpy'', ''HC_StrNew'', ''HC_StrCmp'', ''HC_StrNCmp'', ''HC_StrICmp'',
     ''HC_StrFind'', ''HC_Str2I64'', ''HC_Str2F64'', ''HC_Abs'', ''HC_Sqrt'', ''HC_Sin'', ''HC_Cos'', ''HC_Tan'',
     ''HC_ASin'', ''HC_ACos'', ''HC_ATan'', ''HC_Arg'', ''HC_Ln'', ''HC_Log2'', ''HC_Log10'', ''HC_Exp'', ''HC_Pow'',
     ''HC_PowI64'', ''HC_Floor'', ''HC_Ceil'', ''HC_Round'', ''HC_Trunc'', ''HC_AbsI64'', ''HC_MinI64'', ''HC_MaxI64'',
     ''HC_SignI64'', ''HC_SqrI64'', ''HC_Seed'', ''HC_RandU64'', ''HC_RandI64'', ''HC_RandU32'', ''HC_RandU16'',
     ''HC_Bt'', ''HC_Bts'', ''HC_Btr'', ''HC_Btc'', ''HC_BCnt'', ''HC_tS'', ''HC_Now'', ''HC_Sleep'', ''HC_Exit'',
     ''HC_Call'', ''HC_ArgCnt'', ''HC_ArgStr'', ''HC_FileRead'', ''HC_FileWrite'', ''HC_Throw'', ''HC_TryPush'',
     ''HC_TryPop'', ''HC_CatchEnter'', ''HC_CatchDone'', ''HC_PutExcept'', ''HC_StreamPrint'', ''HC_RtInit'',
     ''HC_Fs'', ''setjmp'', ''memcpy'', ''memset'', ''memmove'']"

definition codegen_level :: "int \<Rightarrow> nat" where
  "codegen_level opt = (if 3 \<le> opt then 3 else if opt = 2 then 2 else if opt = 1 then 1 else 0)"

text \<open>The message of \<open>makeJit\<close>, or \<^const>\<open>None\<close> for success.\<close>

definition makeJit :: "llvm \<Rightarrow> lmodule \<Rightarrow> int \<Rightarrow> string option" where
  "makeJit L m opt = (case l_create L (codegen_level opt) of
      Some err \<Rightarrow> Some (''hcc: cannot create JIT: '' @ err)
    | None \<Rightarrow> map_option (\<lambda>err. ''hcc: JIT error: '' @ err) (l_add L (codegen_level opt) m))"

definition runJIT :: "llvm \<Rightarrow> lmodule \<Rightarrow> string list \<Rightarrow> int \<Rightarrow> bool \<Rightarrow> event list \<times> int" where
  "runJIT L m argv opt noRun = (case makeJit L m opt of
      Some err \<Rightarrow> ([EvErr err], 1)
    | None \<Rightarrow> (case l_lookup L m ''__HC_startup'' of
        Some err \<Rightarrow> ([EvErr (''hcc: '' @ err)], 1)
      | None \<Rightarrow> if noRun then ([], 0) else ([EvRun m argv], 0)))"

subsection \<open>Snippets of \<open>#exe\<close>\<close>

text \<open>The lexer of a snippet has neither the include directories nor the hook. The messages to \<open>stderr\<close> are
  left out: a snippet is its text and \<open>ok\<close>.\<close>

definition with_prelude :: "string \<Rightarrow> string \<Rightarrow> string" where
  "with_prelude prelude src = (if prelude = [] then src
     else ''#include '' @ [CHR 0x22] @ prelude @ [CHR 0x22, CHR 0x0A] @ src)"

definition run_snippet :: "llvm \<Rightarrow> lmodule \<Rightarrow> string \<times> bool" where
  "run_snippet L m = (case makeJit L m 0 of
      Some err \<Rightarrow> ([], False)
    | None \<Rightarrow> (case l_lookup L m ''__HC_startup'' of
        Some err \<Rightarrow> ([], False)
      | None \<Rightarrow> (fst (HC_StreamGet (l_stream L m)), True)))"

definition runExeSnippet :: "llvm \<Rightarrow> env \<Rightarrow> nat \<Rightarrow> string \<Rightarrow> string \<Rightarrow> string \<Rightarrow> (string \<times> bool) option" where
  "runExeSnippet L e n src name prelude = do {
     p \<leftarrow> front_end (e\<lparr>e_exe := None\<rparr>) n (Lexer_buffer (with_prelude prelude src) name True);
     if hadError p then Some ([], False)
     else do {
       (s, ok) \<leftarrow> generate L n False (fst p);
       Some (if ok then run_snippet L (module_of s) else ([], False))
     }
   }"

text \<open>The hook \<open>compileMain\<close> installs. A hook has no value for a snippet that does not return; it is empty here.\<close>

definition exe_hook :: "llvm \<Rightarrow> env \<Rightarrow> nat \<Rightarrow> string \<Rightarrow> string \<Rightarrow> srcloc \<Rightarrow> string" where
  "exe_hook L e n prelude src l =
     (case runExeSnippet L e n src (srcloc_str l @ '':<#exe>'') prelude of None \<Rightarrow> [] | Some r \<Rightarrow> fst r)"

end
