(* ===== verification/HC_Driver.thy ===== *)
theory HC_Driver
  imports HC_Jit HC_Dump HC_RtFormat
begin

text \<open>
  \<open>driver.cpp\<close>, \<open>main.cpp\<close> and the linking of \<open>aot.cpp\<close>: the command line, the places of the prelude and of the
  runtime, \<open>compileMain\<close> with its exit codes, the dumps of \<open>main\<close>. The operating system is a record: files, the
  path of the executable, the environment and \<open>system\<close>.
\<close>

record host =
  h_env :: env
  h_self :: "string option"
  h_readable :: "string \<Rightarrow> bool"
  h_devLib :: "string option"
  h_cc :: "string option"
  h_system :: "string \<Rightarrow> int"

subsection \<open>Where things are\<close>

text \<open>\<open>h_self\<close> is what \<open>readlink\<close> gives for \<open>/proc/self/exe\<close>.\<close>

definition exeDir :: "host \<Rightarrow> string" where
  "exeDir h = (case h_self h of None \<Rightarrow> ''.'' | Some p \<Rightarrow> dirOf p)"

definition findPrelude :: "host \<Rightarrow> string" where
  "findPrelude h =
     (if h_readable h (exeDir h @ ''/lib/HolyC.HH'') then exeDir h @ ''/lib/HolyC.HH''
      else case h_devLib h of
             None \<Rightarrow> []
           | Some d \<Rightarrow> if h_readable h (d @ ''/HolyC.HH'') then d @ ''/HolyC.HH'' else [])"

definition findRuntimeArchive :: "host \<Rightarrow> string" where
  "findRuntimeArchive h = (if h_readable h (exeDir h @ ''/libhcrt.a'') then exeDir h @ ''/libhcrt.a'' else [])"

subsection \<open>The command line\<close>

record options =
  o_input :: string
  o_outExe :: string
  o_outObj :: string
  o_emitLL :: bool
  o_noPrelude :: bool
  o_noRun :: bool
  o_opt :: int
  o_dirs :: "string list"
  o_args :: "string list"

definition options0 :: options where
  "options0 = \<lparr>o_input = [], o_outExe = [], o_outObj = [], o_emitLL = False, o_noPrelude = False, o_noRun = False,
     o_opt = 0, o_dirs = [], o_args = []\<rparr>"

text \<open>\<open>a[2] - '0'\<close> with a signed \<open>char\<close>.\<close>

definition opt_digit :: "char \<Rightarrow> int" where
  "opt_digit c = (if of_char c < (128 :: int) then of_char c else of_char c - 256) - 48"

definition is_opt_level :: "string \<Rightarrow> bool" where
  "is_opt_level a \<longleftrightarrow> length a = 3 \<and> a ! 0 = CHR ''-'' \<and> a ! 1 = CHR ''O''"

text \<open>The loop over \<open>argv[1..]\<close>: the message for exit code 2, or the options.\<close>

fun scan_args :: "string list \<Rightarrow> options \<Rightarrow> string + options" where
  "scan_args [] c = Inr c"
| "scan_args (a # as) c =
     (if a = ''--'' then Inr (c\<lparr>o_args := as\<rparr>)
      else if a = ''-o'' \<and> as \<noteq> [] then scan_args (tl as) (c\<lparr>o_outExe := hd as\<rparr>)
      else if a = ''-c'' \<and> as \<noteq> [] then scan_args (tl as) (c\<lparr>o_outObj := hd as\<rparr>)
      else if a = ''-I'' \<and> as \<noteq> [] then scan_args (tl as) (c\<lparr>o_dirs := o_dirs c @ [hd as]\<rparr>)
      else if a = ''--emit-llvm'' then scan_args as (c\<lparr>o_emitLL := True\<rparr>)
      else if a = ''--no-prelude'' then scan_args as (c\<lparr>o_noPrelude := True\<rparr>)
      else if a = ''--no-run'' then scan_args as (c\<lparr>o_noRun := True\<rparr>)
      else if is_opt_level a then scan_args as (c\<lparr>o_opt := opt_digit (a ! 2)\<rparr>)
      else if a \<noteq> [] \<and> hd a = CHR ''-'' then Inl (''hcc: unknown option '' @ in_quotes a)
      else if o_input c = [] then scan_args as (c\<lparr>o_input := a\<rparr>)
      else Inl ''hcc: multiple input files'')"

definition aotMode :: "options \<Rightarrow> bool" where
  "aotMode c \<longleftrightarrow> o_outExe c \<noteq> [] \<or> o_outObj c \<noteq> []"

subsection \<open>Linking\<close>

definition link_drivers :: "host \<Rightarrow> string list" where
  "link_drivers h = [case h_cc h of None \<Rightarrow> [] | Some c \<Rightarrow> c, ''cc'', ''gcc'', ''clang'']"

definition probe_cmd :: "string \<Rightarrow> string" where
  "probe_cmd d = ''command -v '' @ d @ '' >/dev/null 2>&1''"

definition link_cmd :: "string \<Rightarrow> string \<Rightarrow> string \<Rightarrow> string \<Rightarrow> string" where
  "link_cmd d obj out rt = d @ '' -o '' @ in_quotes out @ '' '' @ in_quotes obj @ '' '' @ in_quotes rt @ '' -lm''"

fun try_link :: "host \<Rightarrow> string \<Rightarrow> string \<Rightarrow> string \<Rightarrow> string list \<Rightarrow> event list \<times> bool" where
  "try_link h obj out rt [] = ([EvErr ''hcc: no C compiler found for linking (set HCC_CC)''], False)"
| "try_link h obj out rt (d # ds) =
     (if d = [] then try_link h obj out rt ds
      else if h_system h (probe_cmd d) \<noteq> 0 then apfst ((#) (EvSystem (probe_cmd d))) (try_link h obj out rt ds)
      else if h_system h (link_cmd d obj out rt) \<noteq> 0
      then ([EvSystem (probe_cmd d), EvSystem (link_cmd d obj out rt),
             EvErr (''hcc: link failed: '' @ link_cmd d obj out rt)], False)
      else ([EvSystem (probe_cmd d), EvSystem (link_cmd d obj out rt)], True))"

definition linkExecutable :: "host \<Rightarrow> string \<Rightarrow> string \<Rightarrow> string \<Rightarrow> event list \<times> bool" where
  "linkExecutable h obj out rt = try_link h obj out rt (link_drivers h)"

subsection \<open>Compiling\<close>

definition emit_aot :: "host \<Rightarrow> llvm \<Rightarrow> options \<Rightarrow> lmodule \<Rightarrow> event list \<times> int" where
  "emit_aot h L c m =
     (let obj = (if o_outObj c = [] then o_outExe c @ ''.o'' else o_outObj c)
      in case emitObjectFile L obj of
           Some err \<Rightarrow> ([EvErr err], 1)
         | None \<Rightarrow>
             if o_outExe c = [] then ([EvObject m obj], 0)
             else (let rt = findRuntimeArchive h
                   in if rt = [] then ([EvObject m obj, EvErr ''hcc: cannot find libhcrt.a next to hcc''], 1)
                      else (let (evs, ok) = linkExecutable h obj (o_outExe c) rt
                            in if ok then (EvObject m obj # evs @ (if o_outObj c = [] then [EvRemove obj] else []), 0)
                               else (EvObject m obj # evs, 1))))"

definition back_end :: "host \<Rightarrow> llvm \<Rightarrow> options \<Rightarrow> lmodule \<Rightarrow> event list \<times> int" where
  "back_end h L c m0 =
     (let m = optimizeModule L (o_opt c) m0;
          pr = (if o_emitLL c then [EvOut (l_print L m)] else [])
      in if o_emitLL c \<and> \<not> aotMode c then (pr, 0)
         else apfst ((@) pr) (if aotMode c then emit_aot h L c m
                              else runJIT L m (o_input c # o_args c) (o_opt c) (o_noRun c)))"

text \<open>From the lexer with its sources on the stack to the end. What lexer, parser and generator print is in
  their states and not among the events.\<close>

definition compile :: "host \<Rightarrow> llvm \<Rightarrow> nat \<Rightarrow> options \<Rightarrow> string \<Rightarrow> lexer \<Rightarrow> (event list \<times> int) option" where
  "compile h L n c prelude lx = do {
     p \<leftarrow> front_end ((h_env h)\<lparr>e_exe := Some (exe_hook L (h_env h) n prelude)\<rparr>) n lx;
     if hadError p then Some ([], 1)
     else do {
       (s, ok) \<leftarrow> generate L n (aotMode c) (fst p);
       Some (if ok then back_end h L c (module_of s) else ([], 1))
     }
   }"

definition open_prelude :: "host \<Rightarrow> string \<Rightarrow> lexer \<Rightarrow> bool \<times> lexer" where
  "open_prelude h prelude lx = (if prelude = [] then (True, lx) else includeFirst (h_env h) prelude lx)"

definition prelude_of :: "host \<Rightarrow> options \<Rightarrow> string" where
  "prelude_of h c = (if o_noPrelude c then [] else findPrelude h)"

definition compileMain :: "host \<Rightarrow> llvm \<Rightarrow> nat \<Rightarrow> string list \<Rightarrow> (event list \<times> int) option" where
  "compileMain h L n args = (case scan_args args options0 of
      Inl msg \<Rightarrow> Some ([EvErr msg], 2)
    | Inr c \<Rightarrow>
        (let prelude = prelude_of h c;
             lx0 = Lexer_file (h_env h) (o_input c) (\<not> aotMode c) (o_dirs c)
         in if o_input c = [] then Some ([EvErr ''hcc: no input file''], 2)
            else if \<not> o_noPrelude c \<and> prelude = []
            then Some ([EvErr ''hcc: cannot find stdlib prelude lib/HolyC.HH''], 2)
            else if lx_hadError lx0 then Some ([], 1)
            else (case open_prelude h prelude lx0 of
                (False, _) \<Rightarrow> Some ([EvErr (''hcc: cannot open prelude '' @ in_quotes prelude)], 1)
              | (True, lx1) \<Rightarrow> compile h L n c prelude lx1)))"

subsection \<open>The dumps\<close>

text \<open>\<open>%s\<close> stops at a NUL.\<close>

definition c_str :: "string \<Rightarrow> string" where
  "c_str = takeWhile (\<lambda>c. c \<noteq> CHR 0x00)"

definition dump_escape :: "char \<Rightarrow> string" where
  "dump_escape c = (if c = CHR 0x0A then [CHR 0x5C, CHR ''n'']
     else if c = CHR 0x09 then [CHR 0x5C, CHR ''t'']
     else if c = CHR 0x00 then [CHR 0x5C, CHR ''0''] else [c])"

definition dump_token :: "token \<Rightarrow> string" where
  "dump_token t =
     (let pos = dec_of_nat (loc_line (tk_loc t)) @ '':'' @ dec_of_nat (loc_col (tk_loc t)); tab = [CHR 0x09]; nl = [CHR 0x0A]
      in case tk_kind t of
           TkIdent \<Rightarrow> pos @ tab @ ''ident'' @ tab @ c_str (tk_text t) @ nl
         | TkIntLit \<Rightarrow> pos @ tab @ ''int'' @ tab @ to_string_i64 (tk_ival t) @ nl
         | TkFloatLit \<Rightarrow> pos @ tab @ ''float'' @ tab @ printf_f64 (CHR ''g'') False 6 (tk_fval t) @ nl
         | TkStrLit \<Rightarrow> pos @ tab @ ''str'' @ tab @ [CHR 0x22] @ concat (map dump_escape (tk_text t)) @ [CHR 0x22] @ nl
         | TkCharLit \<Rightarrow> pos @ tab @ ''char'' @ tab @ to_string_i64 (tk_ival t) @ '' '' @ in_quotes (c_str (tk_text t)) @ nl
         | TkPunct \<Rightarrow> pos @ tab @ ''punct'' @ tab @ punctStr (tk_punct t) @ nl
         | TkEof \<Rightarrow> [])"

definition dumpTokens :: "env \<Rightarrow> nat \<Rightarrow> string \<Rightarrow> (event list \<times> int) option" where
  "dumpTokens e n path = do {
     (ts, lx) \<leftarrow> lex_all (e\<lparr>e_exe := None\<rparr>) n n (Lexer_file e path True []);
     Some ([EvOut (concat (map dump_token ts))], if lx_hadError lx then 1 else 0)
   }"

definition dumpAst :: "env \<Rightarrow> nat \<Rightarrow> string \<Rightarrow> (event list \<times> int) option" where
  "dumpAst e n path = do {
     p \<leftarrow> front_end (e\<lparr>e_exe := None\<rparr>) n (Lexer_file e path True []);
     Some ([EvOut (c_str (dumpProgram (fst p)))], if hadError p then 1 else 0)
   }"

definition usage_lines :: "string list" where
  "usage_lines = [
     ''usage: hcc [options] file.HC [-- args...]'',
     ''  (default)          JIT compile and run'',
     ''  -o <file>          AOT compile and link an executable'',
     ''  -c <file.o>        AOT compile to an object file'',
     ''  --emit-llvm        print LLVM IR'',
     ''  --dump-tokens      dump lexer tokens'',
     ''  --dump-ast         dump parse tree'',
     ''  -O0..-O3           optimization level (default -O0)'',
     ''  -I <dir>           add include search dir'',
     ''  --no-prelude       don'' @ [CHR 0x27] @ ''t auto-include the HolyC stdlib prelude'',
     ''  --no-run           JIT-compile and materialize, but don'' @ [CHR 0x27] @ ''t execute'',
     ''                     (compile check / benchmark load-time probe)'']"

definition usage :: event where
  "usage = EvErr (concat (map (\<lambda>l. l @ [CHR 0x0A]) usage_lines))"

text \<open>\<open>argv[j][0] != '-'\<close>, which an empty argument satisfies.\<close>

definition no_dash :: "string \<Rightarrow> bool" where
  "no_dash a \<longleftrightarrow> a = [] \<or> hd a \<noteq> CHR ''-''"

definition main_hcc :: "host \<Rightarrow> llvm \<Rightarrow> nat \<Rightarrow> string list \<Rightarrow> (event list \<times> int) option" where
  "main_hcc h L n args =
     (if args = [] then Some ([usage], 2)
      else case find (\<lambda>a. a = ''--dump-tokens'' \<or> a = ''--dump-ast'') args of
             None \<Rightarrow> compileMain h L n args
           | Some d \<Rightarrow> (case find no_dash args of
               None \<Rightarrow> Some ([usage], 2)
             | Some f \<Rightarrow> if d = ''--dump-ast'' then dumpAst (h_env h) n f else dumpTokens (h_env h) n f))"

end
