(* ===== verification/HC_GenFrame.thy ===== *)
theory HC_GenFrame
  imports HC_GenExpr
begin

text \<open>
  What an expression does to the state of the generator, as an interface: a property of states (a family
  of them) that the builder's calls keep is kept by every function between \<open>asPtr\<close> and \<open>genExpr\<close>. The two
  functions that create blocks, short circuits and chained comparisons, are obligations of the provider.
\<close>

locale straight =
  fixes Q :: "'p \<Rightarrow> cg \<Rightarrow> bool"
  assumes Q_emit [simp]: "Q p s \<Longrightarrow> \<not> is_term i \<Longrightarrow> Q p (snd (emit i s))"
    and Q_error [simp]: "Q p s \<Longrightarrow> m \<noteq> ''start: front porch may not end in a jump'' \<Longrightarrow> Q p (cg_error l m s)"
    and Q_fault [simp]: "Q p s \<Longrightarrow> Q p (s\<lparr>cg_fault := True\<rparr>)"
    and Q_alloca [simp]: "Q p s \<Longrightarrow> Q p (snd (entryAlloca t n s))"
    and Q_function [simp]: "Q p s \<Longrightarrow> Q p (snd (new_function ft b n s))"
    and Q_global [simp]: "Q p s \<Longrightarrow> Q p (snd (new_global g s))"
    and Q_strLits [simp]: "Q p s \<Longrightarrow> Q p (s\<lparr>cg_uniq := k, cg_strLits := ls\<rparr>)"
begin

text \<open>The property of the results of generators, with a rule for each construct they are written in.\<close>

definition rq :: "'p \<Rightarrow> ('a \<times> cg) option \<Rightarrow> bool" where
  "rq p m \<longleftrightarrow> (\<forall>r s. m = Some (r, s) \<longrightarrow> Q p s)"

definition sq :: "'p \<Rightarrow> cg option \<Rightarrow> bool" where
  "sq p m \<longleftrightarrow> (\<forall>s. m = Some s \<longrightarrow> Q p s)"

lemma pair_let: "Q p (snd f) \<Longrightarrow> (\<And>x s. Q p s \<Longrightarrow> Q p (snd (g x s))) \<Longrightarrow> Q p (snd (case f of (x, s) \<Rightarrow> g x s))"
  by (cases f) simp

lemma state_let: "Q p (snd f) \<Longrightarrow> (\<And>x s. Q p s \<Longrightarrow> Q p (g x s)) \<Longrightarrow> Q p (case f of (x, s) \<Rightarrow> g x s)"
  by (cases f) simp

lemma rq_let: "Q p (snd f) \<Longrightarrow> (\<And>x s. Q p s \<Longrightarrow> rq p (g x s)) \<Longrightarrow> rq p (case f of (x, s) \<Rightarrow> g x s)"
  by (cases f) simp

lemma sq_let: "Q p (snd f) \<Longrightarrow> (\<And>x s. Q p s \<Longrightarrow> sq p (g x s)) \<Longrightarrow> sq p (case f of (x, s) \<Rightarrow> g x s)"
  by (cases f) simp

lemma rq_Some: "Q p (snd x) \<Longrightarrow> rq p (Some x)"
  by (cases x) (simp add: rq_def)

lemma sq_Some: "Q p s \<Longrightarrow> sq p (Some s)"
  by (simp add: sq_def)

lemma rq_None [simp]: "rq p None"
  by (simp add: rq_def)

lemma sq_None [simp]: "sq p None"
  by (simp add: sq_def)

lemma rq_bind: "rq p m \<Longrightarrow> (\<And>r s. Q p s \<Longrightarrow> rq p (g r s)) \<Longrightarrow> rq p (Option.bind m (\<lambda>(r, s). g r s))"
  by (cases m) (auto simp: rq_def)

lemma rq_sbind: "sq p m \<Longrightarrow> (\<And>s. Q p s \<Longrightarrow> rq p (g s)) \<Longrightarrow> rq p (Option.bind m g)"
  by (cases m) (auto simp: rq_def sq_def)

lemma sq_bind: "rq p m \<Longrightarrow> (\<And>r s. Q p s \<Longrightarrow> sq p (g r s)) \<Longrightarrow> sq p (Option.bind m (\<lambda>(r, s). g r s))"
  by (cases m) (auto simp: rq_def sq_def)

lemma sq_sbind: "sq p m \<Longrightarrow> (\<And>s. Q p s \<Longrightarrow> sq p (g s)) \<Longrightarrow> sq p (Option.bind m g)"
  by (cases m) (auto simp: sq_def)

lemma rq_tbind: "(\<And>t. rq p (g t)) \<Longrightarrow> rq p (Option.bind (m :: ty option) g)"
  by (cases m) auto

lemma sq_tbind: "(\<And>t. sq p (g t)) \<Longrightarrow> sq p (Option.bind (m :: ty option) g)"
  by (cases m) auto

lemma rq_mbind: "(\<And>t. rq p (g t)) \<Longrightarrow> rq p (Option.bind (m :: 'b option option) g)"
  by (cases m) auto

lemma sq_mbind: "(\<And>t. sq p (g t)) \<Longrightarrow> sq p (Option.bind (m :: 'b option option) g)"
  by (cases m) auto

lemmas vc = pair_let state_let rq_let sq_let rq_Some sq_Some rq_bind rq_sbind sq_bind sq_sbind
  rq_tbind sq_tbind rq_mbind sq_mbind

subsection \<open>Helpers\<close>

lemma Q_emit0 [simp]: "Q p s \<Longrightarrow> \<not> is_term i \<Longrightarrow> Q p (emit0 i s)"
  by (simp add: emit0_def)

lemma Q_asPtr [simp]: "Q p s \<Longrightarrow> Q p (snd (asPtr v s))"
  by (simp add: asPtr_def split: option.split)

lemma Q_ptrToI64 [simp]: "Q p s \<Longrightarrow> Q p (snd (ptrToI64 v s))"
  by (simp add: ptrToI64_def)

lemma Q_widen [simp]: "Q p s \<Longrightarrow> Q p (snd (widen v t s))"
  by (simp add: widen_def split: ty.split bool.split)

lemma Q_to_double [simp]: "Q p s \<Longrightarrow> Q p (snd (to_double v t s))"
  by (auto simp: to_double_def Let_def intro!: vc)

lemma Q_to_int [simp]: "Q p s \<Longrightarrow> Q p (snd (to_int v s))"
  by (simp add: to_int_def)

lemma Q_narrow [simp]: "Q p s \<Longrightarrow> Q p (snd (narrow t v s))"
  by (cases t) (auto simp: narrow_def Let_def intro!: vc)

lemma Q_convert [simp]: "Q p s \<Longrightarrow> Q p (snd (convert r t b s))"
  by (cases r; cases "fst r") (auto simp: convert_def Let_def intro!: vc)

lemma Q_store_plain [simp]: "Q p s \<Longrightarrow> Q p (store_plain a r t s)"
  by (auto simp: store_plain_def Let_def intro!: vc)

lemma Q_storeTo: "Q p s \<Longrightarrow> sq p (storeTo a r t s)"
  by (auto simp: storeTo_def simp del: whole_type.simps intro!: vc)

lemma Q_load_plain [simp]: "Q p s \<Longrightarrow> Q p (snd (load_plain a t s))"
  by (cases t) (auto simp: load_plain_def Let_def intro!: vc)

lemma Q_loadFrom: "Q p s \<Longrightarrow> rq p (loadFrom a t s)"
  by (auto simp: loadFrom_def simp del: whole_type.simps intro!: vc)

lemma Q_truthy [simp]: "Q p s \<Longrightarrow> Q p (snd (truthy r l s))"
  by (cases "fst r") (auto simp: truthy_def Let_def intro!: vc)

lemma Q_boolToI64 [simp]: "Q p s \<Longrightarrow> Q p (snd (boolToI64 v s))"
  by (simp add: boolToI64_def)

lemma Q_stringConst [simp]: "Q p s \<Longrightarrow> Q p (snd (stringConst t s))"
  by (cases "map_of (cg_strLits s) t") (auto simp: stringConst_def Let_def intro!: vc)

lemma Q_strRV [simp]: "Q p s \<Longrightarrow> Q p (snd (strRV t s))"
  by (auto simp: strRV_def Let_def intro!: vc)

lemma Q_getRT [simp]: "Q p s \<Longrightarrow> Q p (snd (getRT n t ts s))"
  by (simp add: getRT_def split: option.split)

lemma Q_arith_f64: "Q p s \<Longrightarrow> Q p (snd (arith_f64 q a c l s))"
  by (cases "float_binop q") (auto simp: arith_f64_def Let_def intro!: vc)

lemma Q_arith_i64: "Q p s \<Longrightarrow> Q p (snd (arith_i64 q a c l s))"
  by (cases "int_binop (isU64 (snd a) \<or> isU64 (snd c)) q") (auto simp: arith_i64_def Let_def intro!: vc)

lemma Q_arith [simp]: "Q p s \<Longrightarrow> Q p (snd (arith q a c l s))"
  by (simp add: arith_def Q_arith_f64 Q_arith_i64)

lemma Q_cmp [simp]: "Q p s \<Longrightarrow> Q p (snd (cmp q a c s))"
  by (cases "float_pred q"; cases "int_pred (isU64 (snd a) \<or> isU64 (snd c)) q")
    (auto simp: cmp_def Let_def intro!: vc)

lemma Q_store_slots [simp]: "Q p s \<Longrightarrow> Q p (store_slots t al i vs s)"
  by (induction vs arbitrary: i s) (auto simp: Let_def intro!: vc)

lemma Q_gen_argv [simp]: "Q p s \<Longrightarrow> Q p (snd (gen_argv vs s))"
  by (auto simp: gen_argv_def Let_def intro!: vc)

lemma Q_gen_ident_lv [simp]: "Q p s \<Longrightarrow> Q p (snd (gen_ident_lv l n s))"
  by (simp add: gen_ident_lv_def in_quotes_def split: option.split)

lemma Q_not_lvalue [simp]: "Q p s \<Longrightarrow> Q p (snd (not_lvalue l s))"
  by (simp add: not_lvalue_def)

end
text \<open>The generators of the branching operators, over a generator of operands that keeps the properties.\<close>

locale branching = straight Q for Q :: "'p \<Rightarrow> cg \<Rightarrow> bool" +
  assumes Q_short: "(\<And>p e s. Q p s \<Longrightarrow> rq p (gx e s)) \<Longrightarrow> Q p s \<Longrightarrow> rq p (genShortCircuit gx l b k1 k2 s)"
    and Q_chain: "(\<And>p e s. Q p s \<Longrightarrow> rq p (gx e s)) \<Longrightarrow> Q p s \<Longrightarrow> rq p (genChainCmp gx k ks s)"

text \<open>The two recursive calls.\<close>

locale recursive_calls = branching Q for Q :: "'p \<Rightarrow> cg \<Rightarrow> bool" +
  fixes gx :: gexpr and gl :: glval
  assumes gx: "Q p s \<Longrightarrow> rq p (gx e s)" and gl: "Q p s \<Longrightarrow> rq p (gl e s)"
begin

lemma Q_gen_arg: "Q p s \<Longrightarrow> rq p (gen_arg gx l i a arg prev s)"
  by (auto simp: gen_arg_def missing_arg_def intro!: vc gx split: option.split)

lemma Q_gen_params: "Q p s \<Longrightarrow> rq p (gen_params gx l i ps args prev s)"
  by (induction ps arbitrary: i args prev s) (auto simp: Let_def intro!: vc Q_gen_arg)

lemma Q_gen_extra: "Q p s \<Longrightarrow> rq p (gen_extra gx l as s)"
proof (induction as arbitrary: s)
  case (Cons a as)
  then show ?case by (cases a) (auto simp: Let_def intro!: vc gx split: option.split)
qed (auto intro!: vc)

lemma Q_gen_untyped: "Q p s \<Longrightarrow> rq p (gen_untyped gx l as s)"
proof (induction as arbitrary: s)
  case (Cons a as)
  then show ?case by (cases a) (auto simp: Let_def intro!: vc gx split: option.split)
qed (auto intro!: vc)

lemma Q_genCallTo: "Q p s \<Longrightarrow> rq p (genCallTo gx f args l fnPtr s)"
  by (auto simp: genCallTo_def Let_def intro!: vc Q_gen_params Q_gen_extra split: option.split)

lemma Q_gen_intrinsic: "n \<in> {''ToI64'', ''ToBool'', ''ToF64''} \<Longrightarrow> Q p s \<Longrightarrow> rq p (gen_intrinsic gx n args l s)"
  by (auto simp: gen_intrinsic_def Let_def intro!: vc gx split: list.split option.split)

lemma Q_gen_indirect: "Q p s \<Longrightarrow> rq p (gen_indirect gx callee args l s)"
  by (auto simp: gen_indirect_def Let_def intro!: vc gx Q_genCallTo Q_gen_untyped)

lemma Q_genCall: "Q p s \<Longrightarrow> rq p (genCall gx callee args l s)"
  by (cases callee)
    (auto simp: genCall_def in_quotes_def simp del: insert_iff intro!: vc Q_gen_indirect Q_gen_intrinsic Q_genCallTo split: option.split)

lemma Q_gen_deref_lv: "Q p s \<Longrightarrow> rq p (gen_deref_lv gx l k s)"
  by (auto simp: gen_deref_lv_def Let_def intro!: vc gx)

lemma Q_gen_index_base: "Q p s \<Longrightarrow> rq p (gen_index_base gx gl b s)"
  by (auto simp: gen_index_base_def Let_def intro!: vc gx gl split: ty.split option.split)

lemma Q_gen_index_plain: "Q p s \<Longrightarrow> rq p (gen_index_plain gx gl b i s)"
  by (auto simp: gen_index_plain_def Let_def intro!: vc gx Q_gen_index_base split: option.split)

lemma Q_gen_subint_index: "Q p s \<Longrightarrow> rq p (gen_subint_index gx a t i s)"
  by (auto simp: gen_subint_index_def Let_def intro!: vc gx)

lemma Q_genIndexLV: "Q p s \<Longrightarrow> rq p (genIndexLV gx gl b i s)"
  by (auto simp: genIndexLV_def Let_def intro!: vc gl Q_gen_index_plain Q_gen_subint_index
      split: expr.split bool.split option.split)

lemma Q_gen_member_at: "Q p s \<Longrightarrow> rq p (gen_member_at l a bt n s)"
  by (auto simp: gen_member_at_def Let_def in_quotes_def simp del: findMember.simps intro!: vc split: option.split ty.split)

lemma Q_genMemberLV: "Q p s \<Longrightarrow> rq p (genMemberLV gx gl l arrow k n s)"
  by (auto simp: genMemberLV_def Let_def intro!: vc gx gl Q_gen_member_at split: option.split)

lemma Q_gen_address: "Q p s \<Longrightarrow> rq p (gen_address gl k s)"
  by (auto simp: gen_address_def Let_def intro!: vc gl split: option.split expr.split)

lemma Q_gen_deref: "Q p s \<Longrightarrow> rq p (gen_deref gx k s)"
  by (auto simp: gen_deref_def Let_def intro!: vc gx Q_loadFrom)

lemma Q_gen_step: "Q p s \<Longrightarrow> rq p (gen_step gl inc pre k s)"
  by (auto simp: gen_step_def Let_def intro!: vc gl Q_loadFrom Q_storeTo split: option.split)

lemma Q_genUnary: "Q p s \<Longrightarrow> rq p (genUnary gx gl l q pre k s)"
  by (cases q)
    (auto simp: genUnary_def Let_def intro!: vc gx Q_gen_address Q_gen_deref Q_gen_step)

lemma Q_genBinary: "Q p s \<Longrightarrow> rq p (genBinary gx l q k1 k2 s)"
  by (auto simp: genBinary_def Let_def intro!: vc gx Q_short)

lemma Q_genAssign: "Q p s \<Longrightarrow> rq p (genAssign gx gl l q k1 k2 s)"
  by (auto simp: genAssign_def Let_def intro!: vc gx gl Q_loadFrom Q_storeTo split: option.split)

lemma Q_gen_cast: "Q p s \<Longrightarrow> rq p (gen_cast gx t k s)"
  by (auto simp: gen_cast_def Let_def intro!: vc gx split: option.split)

lemma Q_genIdent: "Q p s \<Longrightarrow> rq p (genIdent gx l n s)"
  by (auto simp: genIdent_def in_quotes_def intro!: vc Q_loadFrom Q_genCallTo split: option.split)

lemma Q_gen_load_lv: "Q p s \<Longrightarrow> rq p (gen_load_lv gl e s)"
  by (auto simp: gen_load_lv_def intro!: vc gl Q_loadFrom split: option.split)

lemma Q_expr_step: "Q p s \<Longrightarrow> rq p (expr_step gx gl e s)"
  by (cases e)
    (auto simp: in_quotes_def simp del: evalConst.simps typeOf.simps intro!: vc Q_genIdent Q_genUnary Q_genBinary Q_chain gx Q_genAssign
      Q_genCall Q_gen_load_lv Q_gen_cast split: option.split)

lemma Q_lvalue_step: "Q p s \<Longrightarrow> rq p (lvalue_step gx gl e s)"
  by (cases e)
    (auto intro!: vc Q_gen_deref_lv Q_genUnary Q_genIndexLV Q_genMemberLV gx gl)

end

text \<open>The recursion of \<open>genExpr\<close> and \<open>genLValue\<close> keeps what its steps keep.\<close>

context branching begin

lemma Q_rec: "(\<forall>p e s. Q p s \<longrightarrow> rq p (genExpr n e s)) \<and> (\<forall>p e s. Q p s \<longrightarrow> rq p (genLValue n e s))"
proof (induction n)
  case (Suc n)
  then have "recursive_calls Q (genExpr n) (genLValue n)"
    by (auto intro!: recursive_calls.intro branching_axioms recursive_calls_axioms.intro)
  then show ?case
    by (auto intro: recursive_calls.Q_expr_step recursive_calls.Q_lvalue_step)
qed simp

lemma Q_genExpr: "Q p s \<Longrightarrow> rq p (genExpr n e s)"
  using Q_rec by blast

lemma Q_genLValue: "Q p s \<Longrightarrow> rq p (genLValue n e s)"
  using Q_rec by blast

end

end
