(* ===== verification/HC_GenFlow.thy ===== *)
theory HC_GenFlow
  imports HC_GenTop HC_GenFrame
begin

text \<open>
  The control flow of the generated functions. A block that has been created and is still to be filled
  is \<^emph>\<open>pending\<close>; every generator of a statement starts and ends in an open block and leaves the pending
  blocks as it found them, so that at the end of a function every block has its terminator.
\<close>

subsection \<open>Pending blocks\<close>

definition blk :: "fnctx \<Rightarrow> nat \<Rightarrow> block" where
  "blk fx b = fx_blocks fx ! b"

definition opens :: "fnctx \<Rightarrow> nat set" where
  "opens fx = {b. b < length (fx_blocks fx) \<and> \<not> has_term (blk fx b)}"

text \<open>The blocks of labels that a \<open>goto\<close> has named and no statement has defined.\<close>

definition ulabs :: "fnctx \<Rightarrow> nat set" where
  "ulabs fx = {b. \<exists>n. (n, b) \<in> set (fx_labels fx) \<and> n \<notin> set (fx_labelsDefined fx)}"

definition pend :: "fnctx \<Rightarrow> nat set" where
  "pend fx = opens fx - {fx_cur fx} - ulabs fx"

subsection \<open>Well-formed contexts\<close>

text \<open>Terminators stand at the end of a block only, and go to blocks of the function.\<close>

definition code_wf :: "nat \<Rightarrow> block \<Rightarrow> bool" where
  "code_wf n bl \<longleftrightarrow> (\<forall>x \<in> set (butlast (bl_code bl)). \<not> is_term (snd x))
     \<and> (\<forall>x \<in> set (bl_code bl). \<forall>t \<in> set (targets (snd x)). t < n)"

definition lab_ok :: "fnctx \<Rightarrow> bool" where
  "lab_ok fx \<longleftrightarrow> distinct (map fst (fx_labels fx)) \<and> distinct (map snd (fx_labels fx))
     \<and> set (fx_labelsDefined fx) \<subseteq> fst ` set (fx_labels fx)
     \<and> (\<forall>b \<in> snd ` set (fx_labels fx). b < length (fx_blocks fx)) \<and> ulabs fx \<subseteq> opens fx - {fx_cur fx}"

definition ends_term :: "fnctx \<Rightarrow> nat \<Rightarrow> bool" where
  "ends_term fx b \<longleftrightarrow> b < length (fx_blocks fx) \<and> has_term (blk fx b)"

definition swc_ok :: "fnctx \<Rightarrow> swctx \<Rightarrow> bool" where
  "swc_ok fx c \<longleftrightarrow> ends_term fx (sc_sw c) \<and> (\<forall>g. sc_groupSw c = Some g \<longrightarrow> ends_term fx g)
     \<and> (sc_inGroup c \<longrightarrow> sc_groupStart c < length (fx_blocks fx) \<and> sc_groupEnd c < length (fx_blocks fx))"

definition break_ok :: "fnctx \<Rightarrow> nat \<times> swctx option \<Rightarrow> bool" where
  "break_ok fx x \<longleftrightarrow> fst x < length (fx_blocks fx) \<and> (\<forall>c. snd x = Some c \<longrightarrow> swc_ok fx c)"

definition blocks_wf :: "fnctx \<Rightarrow> bool" where
  "blocks_wf fx \<longleftrightarrow> (\<forall>bl \<in> set (fx_blocks fx). code_wf (length (fx_blocks fx)) bl)"

definition fx_inv :: "fnctx \<Rightarrow> bool" where
  "fx_inv fx \<longleftrightarrow> blocks_wf fx \<and> fx_cur fx < length (fx_blocks fx) \<and> lab_ok fx \<and> (\<forall>x \<in> set (fx_breaks fx). break_ok fx x)"

text \<open>The finished functions of the module.\<close>

definition all_term :: "fnctx \<Rightarrow> bool" where
  "all_term fx \<longleftrightarrow> (\<forall>bl \<in> set (fx_blocks fx). has_term bl)"

definition mod_ok :: "cg \<Rightarrow> bool" where
  "mod_ok s \<longleftrightarrow> (\<forall>f \<in> set (cg_mfuns s). \<forall>fx. lf_body f = Some fx \<longrightarrow>
     blocks_wf fx \<and> (cg_errors s = [] \<longrightarrow> all_term fx))"

definition good :: "nat set \<Rightarrow> cg \<Rightarrow> bool" where
  "good P s \<longleftrightarrow> fx_inv (cg_fc s) \<and> P \<subseteq> pend (cg_fc s) \<and> (cg_errors s = [] \<longrightarrow> pend (cg_fc s) = P) \<and> mod_ok s"

text \<open>What a generator leaves alone.\<close>

abbreviation porch_msg :: string where
  "porch_msg \<equiv> ''start: front porch may not end in a jump''"

definition errs_ext :: "cg \<Rightarrow> cg \<Rightarrow> bool" where
  "errs_ext s s' \<longleftrightarrow> (\<exists>es. cg_errors s' = es @ cg_errors s \<and> porch_msg \<notin> snd ` set es)"

definition fx_keeps :: "fnctx \<Rightarrow> fnctx \<Rightarrow> bool" where
  "fx_keeps f f' \<longleftrightarrow> length (fx_blocks f) \<le> length (fx_blocks f') \<and> (\<forall>b. ends_term f b \<longrightarrow> ends_term f' b)
     \<and> fx_ret f' = fx_ret f \<and> fx_fn f' = fx_fn f"

definition sc_keeps :: "fnctx \<Rightarrow> fnctx \<Rightarrow> bool" where
  "sc_keeps f f' \<longleftrightarrow> tl (fx_scopes f') = tl (fx_scopes f) \<and> length (fx_scopes f') = length (fx_scopes f)"

definition mf_keeps :: "cg \<Rightarrow> cg \<Rightarrow> bool" where
  "mf_keeps s s' \<longleftrightarrow> length (cg_mfuns s) \<le> length (cg_mfuns s')
     \<and> cg_store s' = cg_store s \<and> cg_classes s' = cg_classes s \<and> cg_aot s' = cg_aot s"

definition keeps0 :: "cg \<Rightarrow> cg \<Rightarrow> bool" where
  "keeps0 s s' \<longleftrightarrow> errs_ext s s' \<and> fx_keeps (cg_fc s) (cg_fc s') \<and> sc_keeps (cg_fc s) (cg_fc s') \<and> mf_keeps s s'"

definition cg_keeps :: "cg \<Rightarrow> cg \<Rightarrow> bool" where
  "cg_keeps s s' \<longleftrightarrow> keeps0 s s' \<and> fx_breaks (cg_fc s') = fx_breaks (cg_fc s)"

definition fl0 :: "cg \<Rightarrow> nat set \<Rightarrow> cg \<Rightarrow> bool" where
  "fl0 s0 P s \<longleftrightarrow> good P s \<and> \<not> cur_term s \<and> cg_keeps s0 s"

definition nblocks :: "cg \<Rightarrow> nat" where
  "nblocks s = length (fx_blocks (cg_fc s))"

text \<open>The state \<open>s\<close> is reached from \<open>s0\<close> with the blocks \<open>P\<close> pending, unless the compiler has failed.\<close>

definition fl :: "cg \<Rightarrow> nat set \<Rightarrow> cg \<Rightarrow> bool" where
  "fl s0 P s \<longleftrightarrow> nblocks s0 \<le> nblocks s \<and> (\<forall>b \<in> P. b < nblocks s) \<and> (cg_fault s \<or> fl0 s0 P s)"

lemma errs_ext_refl [simp]: "errs_ext s s"
  by (simp add: errs_ext_def)

lemma errs_ext_trans: "errs_ext s t \<Longrightarrow> errs_ext t u \<Longrightarrow> errs_ext s u"
  by (auto simp: errs_ext_def image_Un)

lemma errs_ext_same: "cg_errors s' = cg_errors s \<Longrightarrow> errs_ext s s'"
  by (simp add: errs_ext_def)

lemma fx_keeps_refl [simp]: "fx_keeps f f"
  by (simp add: fx_keeps_def)

lemma fx_keeps_trans: "fx_keeps f g \<Longrightarrow> fx_keeps g h \<Longrightarrow> fx_keeps f h"
  by (simp add: fx_keeps_def)

lemma sc_keeps_refl [simp]: "sc_keeps f f"
  by (simp add: sc_keeps_def)

lemma sc_keeps_trans: "sc_keeps f g \<Longrightarrow> sc_keeps g h \<Longrightarrow> sc_keeps f h"
  by (simp add: sc_keeps_def)

lemma mf_keeps_refl [simp]: "mf_keeps s s"
  by (simp add: mf_keeps_def)

lemma mf_keeps_trans: "mf_keeps s t \<Longrightarrow> mf_keeps t u \<Longrightarrow> mf_keeps s u"
  by (simp add: mf_keeps_def)

lemma keeps0_refl [simp]: "keeps0 s s"
  by (simp add: keeps0_def)

lemma keeps0_trans: "keeps0 s t \<Longrightarrow> keeps0 t u \<Longrightarrow> keeps0 s u"
  unfolding keeps0_def by (meson errs_ext_trans fx_keeps_trans sc_keeps_trans mf_keeps_trans)

lemma cg_keeps_refl [simp]: "cg_keeps s s"
  by (simp add: cg_keeps_def)

lemma cg_keeps_trans: "cg_keeps s t \<Longrightarrow> cg_keeps t u \<Longrightarrow> cg_keeps s u"
  by (auto simp: cg_keeps_def intro: keeps0_trans)

subsection \<open>Appending instructions\<close>

lemma blk_add_code:
  "blk (add_code c i fx) b = (if b = c \<and> c < length (fx_blocks fx) then (blk fx b)\<lparr>bl_code := bl_code (blk fx b) @ [i]\<rparr> else blk fx b)"
  by (cases "c < length (fx_blocks fx)") (auto simp: blk_def add_code_def nth_list_update list_update_beyond)

lemma add_code_fields [simp]:
  "length (fx_blocks (add_code c i fx)) = length (fx_blocks fx)" "fx_cur (add_code c i fx) = fx_cur fx"
  "fx_labels (add_code c i fx) = fx_labels fx" "fx_labelsDefined (add_code c i fx) = fx_labelsDefined fx"
  "fx_breaks (add_code c i fx) = fx_breaks fx" "fx_scopes (add_code c i fx) = fx_scopes fx"
  "fx_ret (add_code c i fx) = fx_ret fx" "fx_fn (add_code c i fx) = fx_fn fx"
  by (simp_all add: add_code_def)

lemma has_term_append [simp]: "has_term (bl\<lparr>bl_code := bl_code bl @ [i]\<rparr>) \<longleftrightarrow> is_term (snd i)"
  by (simp add: has_term_def)

lemma has_term_empty [simp]: "\<not> has_term \<lparr>bl_name = n, bl_code = []\<rparr>"
  by (simp add: has_term_def)

lemma code_wf_append:
  assumes "code_wf n bl" and "\<not> has_term bl" and "\<forall>t \<in> set (targets (snd i)). t < n"
  shows "code_wf n (bl\<lparr>bl_code := bl_code bl @ [i]\<rparr>)"
proof -
  have "\<not> is_term (snd x)" if "x \<in> set (bl_code bl)" for x
  proof -
    have "bl_code bl \<noteq> []" using that by auto
    then have "bl_code bl = butlast (bl_code bl) @ [last (bl_code bl)]" by simp
    then have "x \<in> set (butlast (bl_code bl)) \<or> x = last (bl_code bl)"
      using that by (metis Un_iff empty_iff insert_iff list.set(1) list.simps(15) set_append)
    then show ?thesis using assms(1,2) \<open>bl_code bl \<noteq> []\<close> by (auto simp: code_wf_def has_term_def)
  qed
  then show ?thesis using assms(1,3) by (auto simp: code_wf_def)
qed

lemma code_wf_mono: "code_wf n bl \<Longrightarrow> n \<le> m \<Longrightarrow> code_wf m bl"
  by (fastforce simp: code_wf_def)

lemma blocks_wf_add_code:
  assumes "blocks_wf fx" and "c < length (fx_blocks fx) \<Longrightarrow> \<not> has_term (blk fx c)"
    and "\<forall>t \<in> set (targets (snd i)). t < length (fx_blocks fx)"
  shows "blocks_wf (add_code c i fx)"
proof (cases "c < length (fx_blocks fx)")
  case True
  then have c: "fx_blocks fx ! c \<in> set (fx_blocks fx)" by simp
  have "set (fx_blocks (add_code c i fx)) \<subseteq> insert ((blk fx c)\<lparr>bl_code := bl_code (blk fx c) @ [i]\<rparr>) (set (fx_blocks fx))"
    by (simp add: add_code_def set_update_subset_insert blk_def)
  then show ?thesis
    using assms c True by (auto simp: blocks_wf_def blk_def dest!: subsetD intro: code_wf_append)
next
  case False
  then show ?thesis using assms(1) by (simp add: add_code_def blocks_wf_def list_update_beyond)
qed

lemma fx_frame [simp]:
  "blk (fx\<lparr>fx_next := k\<rparr>) = blk fx" "blk (fx\<lparr>fx_allocas := al\<rparr>) = blk fx"
  "blk (fx\<lparr>fx_scopes := sc\<rparr>) = blk fx" "blk (fx\<lparr>fx_localNames := ns\<rparr>) = blk fx"
  "blk (fx\<lparr>fx_cur := c\<rparr>) = blk fx" "blk (fx\<lparr>fx_breaks := bs\<rparr>) = blk fx"
  "blk (fx\<lparr>fx_labelsDefined := ns\<rparr>) = blk fx" "blk (fx\<lparr>fx_labels := ls\<rparr>) = blk fx"
  by (simp_all add: blk_def fun_eq_iff)

lemma opens_frame [simp]:
  "opens (fx\<lparr>fx_next := k\<rparr>) = opens fx" "opens (fx\<lparr>fx_allocas := al\<rparr>) = opens fx"
  "opens (fx\<lparr>fx_scopes := sc\<rparr>) = opens fx" "opens (fx\<lparr>fx_localNames := ns\<rparr>) = opens fx"
  "opens (fx\<lparr>fx_cur := c\<rparr>) = opens fx" "opens (fx\<lparr>fx_breaks := bs\<rparr>) = opens fx"
  "opens (fx\<lparr>fx_labelsDefined := ns\<rparr>) = opens fx" "opens (fx\<lparr>fx_labels := ls\<rparr>) = opens fx"
  by (simp_all add: opens_def)

lemma ends_frame [simp]:
  "ends_term (fx\<lparr>fx_next := k\<rparr>) = ends_term fx" "ends_term (fx\<lparr>fx_allocas := al\<rparr>) = ends_term fx"
  "ends_term (fx\<lparr>fx_scopes := sc\<rparr>) = ends_term fx" "ends_term (fx\<lparr>fx_localNames := ns\<rparr>) = ends_term fx"
  "ends_term (fx\<lparr>fx_cur := c\<rparr>) = ends_term fx" "ends_term (fx\<lparr>fx_breaks := bs\<rparr>) = ends_term fx"
  "ends_term (fx\<lparr>fx_labelsDefined := ns\<rparr>) = ends_term fx" "ends_term (fx\<lparr>fx_labels := ls\<rparr>) = ends_term fx"
  by (simp_all add: ends_term_def fun_eq_iff)

lemma ulabs_frame [simp]:
  "ulabs (fx\<lparr>fx_next := k\<rparr>) = ulabs fx" "ulabs (fx\<lparr>fx_allocas := al\<rparr>) = ulabs fx"
  "ulabs (fx\<lparr>fx_scopes := sc\<rparr>) = ulabs fx" "ulabs (fx\<lparr>fx_localNames := ns\<rparr>) = ulabs fx"
  "ulabs (fx\<lparr>fx_cur := c\<rparr>) = ulabs fx" "ulabs (fx\<lparr>fx_breaks := bs\<rparr>) = ulabs fx"
  "ulabs (fx\<lparr>fx_blocks := bl\<rparr>) = ulabs fx" "ulabs (add_code c i fx) = ulabs fx"
  by (simp_all add: ulabs_def)

lemma break_frame [simp]:
  "break_ok (fx\<lparr>fx_next := k\<rparr>) = break_ok fx" "break_ok (fx\<lparr>fx_allocas := al\<rparr>) = break_ok fx"
  "break_ok (fx\<lparr>fx_scopes := sc\<rparr>) = break_ok fx" "break_ok (fx\<lparr>fx_localNames := ns\<rparr>) = break_ok fx"
  "break_ok (fx\<lparr>fx_cur := c\<rparr>) = break_ok fx" "break_ok (fx\<lparr>fx_breaks := bs\<rparr>) = break_ok fx"
  "break_ok (fx\<lparr>fx_labelsDefined := ns\<rparr>) = break_ok fx" "break_ok (fx\<lparr>fx_labels := ls\<rparr>) = break_ok fx"
  by (simp_all add: break_ok_def swc_ok_def fun_eq_iff)

lemma pend_frame [simp]:
  "pend (fx\<lparr>fx_next := k\<rparr>) = pend fx" "pend (fx\<lparr>fx_allocas := al\<rparr>) = pend fx"
  "pend (fx\<lparr>fx_scopes := sc\<rparr>) = pend fx" "pend (fx\<lparr>fx_localNames := ns\<rparr>) = pend fx"
  "pend (fx\<lparr>fx_breaks := bs\<rparr>) = pend fx"
  by (simp_all add: pend_def)

lemma fx_inv_frame [simp]:
  "fx_inv (fx\<lparr>fx_next := k\<rparr>) = fx_inv fx" "fx_inv (fx\<lparr>fx_allocas := al\<rparr>) = fx_inv fx"
  "fx_inv (fx\<lparr>fx_scopes := sc\<rparr>) = fx_inv fx" "fx_inv (fx\<lparr>fx_localNames := ns\<rparr>) = fx_inv fx"
  by (simp_all add: fx_inv_def blocks_wf_def lab_ok_def)

lemma opens_add_code:
  assumes "c < length (fx_blocks fx) \<Longrightarrow> \<not> has_term (blk fx c)"
  shows "opens (add_code c i fx) = (if is_term (snd i) then opens fx - {c} else opens fx)"
  using assms by (auto simp: opens_def blk_add_code)

lemma ends_add_code:
  "c < length (fx_blocks fx) \<Longrightarrow> \<not> has_term (blk fx c) \<Longrightarrow> ends_term fx b \<Longrightarrow> ends_term (add_code c i fx) b"
  by (auto simp: ends_term_def blk_add_code)

lemma swc_ok_mono:
  assumes "swc_ok fx c" and "length (fx_blocks fx) \<le> length (fx_blocks fx')" and "\<forall>b. ends_term fx b \<longrightarrow> ends_term fx' b"
  shows "swc_ok fx' c"
proof -
  have "k < length (fx_blocks fx')" if "k < length (fx_blocks fx)" for k using that assms(2) by simp
  with assms(1,3) show ?thesis by (simp add: swc_ok_def)
qed

lemma break_ok_mono:
  assumes "break_ok fx x" and "length (fx_blocks fx) \<le> length (fx_blocks fx')" and "\<forall>b. ends_term fx b \<longrightarrow> ends_term fx' b"
  shows "break_ok fx' x"
proof -
  have "fst x < length (fx_blocks fx')" using assms(1,2) by (simp add: break_ok_def)
  moreover have "swc_ok fx' c" if "snd x = Some c" for c
    using assms(1) that swc_ok_mono [OF _ assms(2,3)] by (simp add: break_ok_def)
  ultimately show ?thesis by (simp add: break_ok_def)
qed

lemma fx_inv_add_cur:
  assumes "fx_inv fx" and "\<not> has_term (blk fx (fx_cur fx))" and "\<forall>t \<in> set (targets (snd i)). t < length (fx_blocks fx)"
  shows "fx_inv (add_code (fx_cur fx) i fx)"
proof -
  have len: "fx_cur fx < length (fx_blocks fx)" using assms(1) by (simp add: fx_inv_def)
  have "lab_ok (add_code (fx_cur fx) i fx)"
    using assms len by (auto simp: fx_inv_def lab_ok_def opens_add_code)
  moreover have "break_ok (add_code (fx_cur fx) i fx) x" if "x \<in> set (fx_breaks fx)" for x
    using assms that len by - (rule break_ok_mono [of fx], auto simp: fx_inv_def ends_add_code)
  ultimately show ?thesis
    using assms len by (simp add: fx_inv_def blocks_wf_add_code)
qed

lemma pend_add_cur:
  "\<not> has_term (blk fx (fx_cur fx)) \<Longrightarrow> pend (add_code (fx_cur fx) i fx) = pend fx"
  by (auto simp: pend_def opens_add_code)

lemma fx_keeps_add_cur:
  "\<not> has_term (blk fx (fx_cur fx)) \<Longrightarrow> fx_cur fx < length (fx_blocks fx) \<Longrightarrow> fx_keeps fx (add_code (fx_cur fx) i fx)"
  by (simp add: fx_keeps_def ends_add_code)

subsection \<open>The builder\<close>

lemma cur_term_blk: "cur_term s = has_term (blk (cg_fc s) (fx_cur (cg_fc s)))"
  by (simp add: cur_term_def block_at_def cur_block_def blk_def)

lemma nonterm_targets: "\<not> is_term i \<Longrightarrow> targets i = []"
  by (cases i) auto

lemma good_inv: "good P s \<Longrightarrow> fx_inv (cg_fc s)"
  by (simp add: good_def)

lemma cur_in_range: "good P s \<Longrightarrow> fx_cur (cg_fc s) < length (fx_blocks (cg_fc s))"
  by (simp add: good_def fx_inv_def)

lemma good_emit0:
  assumes "good P s" and "\<not> cur_term s" and "\<forall>t \<in> set (targets i). t < length (fx_blocks (cg_fc s))"
  shows "good P (emit0 i s)" and "cur_term (emit0 i s) = is_term i" and "cg_keeps s (emit0 i s)"
proof -
  let ?fx = "cg_fc s" and ?k = "fx_next (cg_fc s)"
  have open_cur: "\<not> has_term (blk ?fx (fx_cur ?fx))" using assms(2) by (simp add: cur_term_blk)
  have len: "fx_cur ?fx < length (fx_blocks ?fx)" using assms(1) by (rule cur_in_range)
  have fc: "cg_fc (emit0 i s) = (add_code (fx_cur ?fx) (?k, i) ?fx)\<lparr>fx_next := Suc ?k\<rparr>"
    and same: "cg_errors (emit0 i s) = cg_errors s" "cg_mfuns (emit0 i s) = cg_mfuns s" "mf_keeps s (emit0 i s)"
    by (simp_all add: emit0_def emit_def Let_def mf_keeps_def)
  have "fx_inv (add_code (fx_cur ?fx) (?k, i) ?fx)"
    using assms(3) by (intro fx_inv_add_cur good_inv [OF assms(1)] open_cur) simp
  then show "good P (emit0 i s)"
    using assms(1) open_cur by (simp add: good_def fc same pend_add_cur mod_ok_def)
  show "cur_term (emit0 i s) = is_term i"
    using len by (simp add: cur_term_blk fc blk_add_code)
  have "fx_keeps ?fx (add_code (fx_cur ?fx) (?k, i) ?fx)" by (rule fx_keeps_add_cur [OF open_cur len])
  then have "fx_keeps ?fx (cg_fc (emit0 i s))" by (simp add: fx_keeps_def fc)
  then show "cg_keeps s (emit0 i s)"
    using same by (simp add: cg_keeps_def keeps0_def errs_ext_same sc_keeps_def fc)
qed

lemma fl_emit0: "fl s0 P s \<Longrightarrow> \<not> is_term i \<Longrightarrow> fl s0 P (emit0 i s)"
proof -
  assume a: "fl s0 P s" "\<not> is_term i"
  have "nblocks (emit0 i s) = nblocks s" "cg_fault (emit0 i s) = cg_fault s"
    by (simp_all add: nblocks_def emit0_def emit_def Let_def)
  moreover have "fl0 s0 P (emit0 i s)" if "fl0 s0 P s"
    using that a(2) good_emit0 [of P s i] nonterm_targets [of i] cg_keeps_trans by (auto simp: fl0_def)
  ultimately show ?thesis using a(1) by (auto simp: fl_def)
qed

lemma fl_emit: "fl s0 P s \<Longrightarrow> \<not> is_term i \<Longrightarrow> fl s0 P (snd (emit i s))"
  using fl_emit0 by (simp add: emit0_def)

text \<open>Changes of the state beside the blocks.\<close>

lemma mod_ok_new_function: "mod_ok s \<Longrightarrow> mod_ok (snd (new_function t b n s))"
  by (auto simp: mod_ok_def new_function_def)

lemma mod_ok_errors: "mod_ok s \<Longrightarrow> mod_ok (cg_error l m s)"
  by (auto simp: mod_ok_def cg_error_def)

lemmas fl_defs = fl_def fl0_def nblocks_def good_def cur_term_blk cg_keeps_def keeps0_def errs_ext_def mf_keeps_def

lemma fl_error: "fl s0 P s \<Longrightarrow> m \<noteq> porch_msg \<Longrightarrow> fl s0 P (cg_error l m s)"
  using mod_ok_errors [of s] by (auto simp: fl_defs cg_error_def)

lemma fl_fault: "fl s0 P s \<Longrightarrow> fl s0 P (s\<lparr>cg_fault := True\<rparr>)"
  by (simp add: fl_def nblocks_def)

lemma fl_alloca: "fl s0 P s \<Longrightarrow> fl s0 P (snd (entryAlloca t n s))"
  by (auto simp: fl_defs mod_ok_def entryAlloca_def Let_def fx_keeps_def sc_keeps_def)

lemma fl_function: "fl s0 P s \<Longrightarrow> fl s0 P (snd (new_function t b n s))"
  using mod_ok_new_function [of s t b n] by (auto simp: fl_defs new_function_def)

lemma fl_global: "fl s0 P s \<Longrightarrow> fl s0 P (snd (new_global g s))"
  by (auto simp: fl_defs mod_ok_def new_global_def)

lemma fl_strLits: "fl s0 P s \<Longrightarrow> fl s0 P (s\<lparr>cg_uniq := k, cg_strLits := ls\<rparr>)"
  by (auto simp: fl_defs mod_ok_def)

interpretation fs: straight "fl s0" for s0
  by unfold_locales (simp_all add: fl_emit fl_error fl_fault fl_alloca fl_function fl_global fl_strLits)

subsection \<open>Blocks\<close>

abbreviation empty_block :: "string \<Rightarrow> block" where
  "empty_block n \<equiv> \<lparr>bl_name = n, bl_code = []\<rparr>"

lemma new_context:
  fixes n fx
  defines "fx' \<equiv> fx\<lparr>fx_blocks := fx_blocks fx @ [empty_block n]\<rparr>"
  shows "b \<le> length (fx_blocks fx) \<Longrightarrow> blk fx' b = (if b = length (fx_blocks fx) then empty_block n else blk fx b)"
    and "opens fx' = insert (length (fx_blocks fx)) (opens fx)"
    and "ends_term fx b \<Longrightarrow> ends_term fx' b"
proof -
  show blk: "b \<le> length (fx_blocks fx) \<Longrightarrow> blk fx' b = (if b = length (fx_blocks fx) then empty_block n else blk fx b)" for b
    by (cases "b < length (fx_blocks fx)") (auto simp: fx'_def blk_def nth_append)
  have len: "length (fx_blocks fx') = Suc (length (fx_blocks fx))" by (simp add: fx'_def)
  show "opens fx' = insert (length (fx_blocks fx)) (opens fx)"
    by (auto simp: opens_def blk len less_Suc_eq)
  show "ends_term fx b \<Longrightarrow> ends_term fx' b"
    by (simp add: ends_term_def blk len)
qed

lemma fx_inv_new_block:
  assumes "fx_inv fx"
  shows "fx_inv (fx\<lparr>fx_blocks := fx_blocks fx @ [empty_block n]\<rparr>)"
    and "pend (fx\<lparr>fx_blocks := fx_blocks fx @ [empty_block n]\<rparr>) = insert (length (fx_blocks fx)) (pend fx)"
proof -
  let ?fx = "fx\<lparr>fx_blocks := fx_blocks fx @ [empty_block n]\<rparr>"
  have cur: "fx_cur fx < length (fx_blocks fx)" and lab: "\<forall>b \<in> ulabs fx. b < length (fx_blocks fx)"
    using assms by (auto simp: fx_inv_def lab_ok_def ulabs_def)
  show "pend ?fx = insert (length (fx_blocks fx)) (pend fx)"
    using cur lab by (auto simp: pend_def new_context(2))
  have "code_wf (Suc (length (fx_blocks fx))) (empty_block n)" by (simp add: code_wf_def)
  then have "blocks_wf ?fx"
    using assms by (auto simp: fx_inv_def blocks_wf_def intro: code_wf_mono)
  moreover have "lab_ok ?fx"
    using assms by (auto simp: fx_inv_def lab_ok_def new_context(2))
  moreover have "break_ok ?fx x" if "x \<in> set (fx_breaks fx)" for x
    using assms that by - (rule break_ok_mono [of fx], auto simp: fx_inv_def new_context(3))
  ultimately show "fx_inv ?fx"
    using cur by (simp add: fx_inv_def)
qed

lemma fl_new_block:
  assumes "fl s0 P s" and "new_block n s = (b, s')"
  shows "fl s0 (insert b P) s'" and "b \<notin> P" and "b < nblocks s'" and "nblocks s' = Suc (nblocks s)" and "b \<noteq> cur_block s \<or> cg_fault s"
proof -
  let ?fx = "cg_fc s"
  have b: "b = length (fx_blocks ?fx)" and s': "s' = s\<lparr>cg_fc := ?fx\<lparr>fx_blocks := fx_blocks ?fx @ [empty_block n]\<rparr>\<rparr>"
    using assms(2) by (auto simp: new_block_def upd_fc_def)
  show "b \<notin> P" "b < nblocks s'" "nblocks s' = Suc (nblocks s)" "b \<noteq> cur_block s \<or> cg_fault s"
    using assms(1) by (auto simp: fl_def nblocks_def b s' cur_block_def fl0_def dest: cur_in_range)
  have "fl0 s0 (insert b P) s'" if "fl0 s0 P s"
  proof -
    have good: "good P s" and opn: "\<not> cur_term s" and kp: "cg_keeps s0 s" using that by (auto simp: fl0_def)
    have "good (insert b P) s'"
      using good fx_inv_new_block [of ?fx n] by (auto simp: good_def s' b mod_ok_def)
    moreover have "\<not> cur_term s'"
      using opn cur_in_range [OF good] by (simp add: cur_term_blk s' new_context(1))
    moreover have "cg_keeps s s'"
      by (simp add: cg_keeps_def keeps0_def s' errs_ext_def fx_keeps_def sc_keeps_def mf_keeps_def new_context(3))
    ultimately show ?thesis using kp by (auto simp: fl0_def intro: cg_keeps_trans)
  qed
  then show "fl s0 (insert b P) s'"
    using assms(1) by (auto simp: fl_def nblocks_def b s')
qed

lemma good_set_block:
  assumes "good (insert b P) s" and "cur_term s" and "b \<notin> P"
  shows "good P (set_block b s)" and "\<not> cur_term (set_block b s)" and "cg_keeps s (set_block b s)"
proof -
  let ?fx = "cg_fc s"
  have inv: "fx_inv ?fx" and bp: "b \<in> pend ?fx" using assms(1) by (auto simp: good_def)
  have cur: "fx_cur ?fx \<notin> opens ?fx" using assms(2) by (simp add: cur_term_blk opens_def)
  have fc: "cg_fc (set_block b s) = ?fx\<lparr>fx_cur := b\<rparr>"
    and same: "cg_errors (set_block b s) = cg_errors s" "cg_mfuns (set_block b s) = cg_mfuns s" "mf_keeps s (set_block b s)"
    by (simp_all add: set_block_def upd_fc_def mf_keeps_def)
  have pend: "pend (?fx\<lparr>fx_cur := b\<rparr>) = pend ?fx - {b}" using cur by (auto simp: pend_def)
  have "lab_ok (?fx\<lparr>fx_cur := b\<rparr>)" using inv bp by (auto simp: fx_inv_def lab_ok_def pend_def)
  moreover have "b < length (fx_blocks ?fx)" using bp by (simp add: pend_def opens_def)
  ultimately have "fx_inv (?fx\<lparr>fx_cur := b\<rparr>)" using inv by (simp add: fx_inv_def blocks_wf_def)
  then show "good P (set_block b s)"
    using assms(1,3) by (auto simp: good_def fc same pend mod_ok_def)
  show "\<not> cur_term (set_block b s)" using bp by (simp add: cur_term_blk fc pend_def opens_def)
  show "cg_keeps s (set_block b s)" using same by (simp add: cg_keeps_def keeps0_def errs_ext_same fx_keeps_def sc_keeps_def fc)
qed

text \<open>A terminator, and then on in a pending block.\<close>

lemma fl_jump:
  assumes "fl s0 (insert b P) s" and "b \<notin> P" and "is_term i" and "\<forall>t \<in> set (targets i). t < nblocks s"
  shows "fl s0 P (set_block b (emit0 i s))"
proof -
  have "fl0 s0 P (set_block b (emit0 i s))" if "fl0 s0 (insert b P) s"
  proof -
    have good: "good (insert b P) s" and opn: "\<not> cur_term s" and kp: "cg_keeps s0 s" using that by (auto simp: fl0_def)
    note e = good_emit0 [OF good opn assms(4) [unfolded nblocks_def]]
    have "cur_term (emit0 i s)" using e(2) assms(3) by simp
    from good_set_block [OF e(1) this assms(2)] e(3) kp show ?thesis
      by (auto simp: fl0_def intro: cg_keeps_trans)
  qed
  moreover have "nblocks (set_block b (emit0 i s)) = nblocks s" "cg_fault (set_block b (emit0 i s)) = cg_fault s"
    by (simp_all add: nblocks_def set_block_def upd_fc_def emit0_def emit_def Let_def)
  ultimately show ?thesis using assms(1) by (auto simp: fl_def)
qed

subsection \<open>Expressions\<close>

lemma nblocks_set_block [simp]: "nblocks (set_block b s) = nblocks s"
  by (simp add: nblocks_def set_block_def upd_fc_def)

lemma nblocks_emit0 [simp]: "nblocks (emit0 i s) = nblocks s"
  by (simp add: nblocks_def emit0_def emit_def Let_def)

lemma fl_in_range: "fl s0 P s \<Longrightarrow> b \<in> P \<Longrightarrow> b < nblocks s"
  by (simp add: fl_def)

text \<open>Two fresh blocks.\<close>

lemma fl_two_blocks:
  assumes "fl s0 P s" and "new_block n s = (x, s1)" and "new_block m s1 = (y, s2)"
  shows "fl s0 (insert y (insert x P)) s2" and "x \<notin> P" and "y \<notin> P" and "x \<noteq> y" and "x < nblocks s2" and "y < nblocks s2"
  using fl_new_block [OF assms(1,2)] fl_new_block [OF fl_new_block(1) [OF assms(1,2)] assms(3)] by auto

lemma flow_short:
  assumes gx: "\<And>P e s. fl s0 P s \<Longrightarrow> fs.rq s0 P (gx e s)" and fl: "fl s0 P s"
  shows "fs.rq s0 P (genShortCircuit gx l isAnd k1 k2 s)"
proof (unfold fs.rq_def, intro allI impI)
  fix r s'
  assume res: "genShortCircuit gx l isAnd k1 k2 s = Some (r, s')"
  then obtain a s1 where 1: "gx k1 s = Some (a, s1)" by (cases "gx k1 s") (auto simp: genShortCircuit_def)
  obtain av s2 where 2: "truthy a l s1 = (av, s2)" by fastforce
  obtain rhs s3 where 3: "new_block ''sc.rhs'' s2 = (rhs, s3)" by fastforce
  obtain endb s4 where 4: "new_block ''sc.end'' s3 = (endb, s4)" by fastforce
  let ?t = "if isAnd then TCondBr av rhs endb else TCondBr av endb rhs"
  have f2: "fl s0 P s2"
    using gx [OF fl, of k1] fs.Q_truthy [of s0 P s1 a l] 1 2 by (simp add: fs.rq_def)
  note b = fl_two_blocks [OF f2 3 4]
  have f5: "fl s0 (insert endb P) (set_block rhs (emit0 ?t s4))"
    using b by (intro fl_jump) (auto simp: insert_commute)
  from res 1 2 3 4 obtain c s6 where 6: "gx k2 (set_block rhs (emit0 ?t s4)) = Some (c, s6)"
    by (cases "gx k2 (set_block rhs (emit0 ?t s4))") (auto simp: genShortCircuit_def Let_def)
  obtain cb s7 where 7: "truthy c l s6 = (cb, s7)" by fastforce
  obtain cv s8 where 8: "boolToI64 cb s7 = (cv, s8)" by fastforce
  have "fl s0 (insert endb P) s6" using gx [OF f5, of k2] 6 by (simp add: fs.rq_def)
  then have f8: "fl s0 (insert endb P) s8"
    using fs.Q_truthy [of s0 "insert endb P" s6 c l] fs.Q_boolToI64 [of s0 "insert endb P" s7 cb] 7 8 by simp
  have "fl s0 P (set_block endb (emit0 (TBr endb) s8))"
    using b(3) fl_in_range [OF f8] by (intro fl_jump [OF f8]) auto
  moreover have "s' = snd (emit (IPhi [(cI64 (if isAnd then 0 else 1), cur_block s2), (cv, cur_block s8)])
      (set_block endb (emit0 (TBr endb) s8)))"
    using res by (auto simp: genShortCircuit_def Let_def 1 2 3 4 6 7 8 split: prod.splits)
  ultimately show "fl s0 P s'" by (simp add: fl_emit)
qed

text \<open>A chain: every link but the last goes on in a block of its own.\<close>

lemma flow_links:
  assumes gx: "\<And>P e s. fl s0 P s \<Longrightarrow> fs.rq s0 P (gx e s)" and endb: "endb \<notin> P"
  shows "fl s0 (insert endb P) s \<Longrightarrow> ks \<noteq> [] \<Longrightarrow> chain_links gx endb prev ks inc s = Some (inc', s')
    \<Longrightarrow> fl s0 P (set_block endb s')"
proof (induction ks arbitrary: prev inc s)
  case (Cons pk ks)
  obtain q k where pk: "pk = (q, k)" by fastforce
  from Cons.prems(3) obtain c s1 where 1: "gx k s = Some (c, s1)" by (cases "gx k s") (auto simp: pk)
  obtain v s2 where 2: "cmp q prev c s1 = (v, s2)" by fastforce
  have f2: "fl s0 (insert endb P) s2"
    using gx [OF Cons.prems(1), of k] 1 2 fs.Q_cmp [of s0 "insert endb P" s1 q prev c] by (simp add: fs.rq_def)
  show ?case
  proof (cases "ks = []")
    case True
    obtain w s3 where 3: "boolToI64 v s2 = (w, s3)" by fastforce
    have f3: "fl s0 (insert endb P) s3" using f2 fs.Q_boolToI64 [of s0 "insert endb P" s2 v] 3 by simp
    have "s' = emit0 (TBr endb) s3" using Cons.prems(3) True by (simp add: pk 1 2 3)
    then show ?thesis using endb fl_in_range [OF f3] by (auto intro!: fl_jump [OF f3])
  next
    case False
    obtain nx s3 where 3: "new_block ''chain.next'' s2 = (nx, s3)" by fastforce
    note b = fl_new_block [OF f2 3]
    have "fl s0 (insert endb P) (set_block nx (emit0 (TCondBr v nx endb) s3))"
      using b fl_in_range [OF b(1), of endb] by (intro fl_jump) auto
    moreover have "chain_links gx endb c ks ((cI64 0, cur_block s3) # inc) (set_block nx (emit0 (TCondBr v nx endb) s3)) = Some (inc', s')"
      using Cons.prems(3) False by (simp add: pk 1 2 3)
    ultimately show ?thesis using Cons.IH False by blast
  qed
qed simp

lemma flow_chain:
  assumes gx: "\<And>P e s. fl s0 P s \<Longrightarrow> fs.rq s0 P (gx e s)" and fl: "fl s0 P s"
  shows "fs.rq s0 P (genChainCmp gx k ks s)"
proof (unfold fs.rq_def, intro allI impI)
  fix r s'
  assume res: "genChainCmp gx k ks s = Some (r, s')"
  obtain endb s1 where 1: "new_block ''chain.end'' s = (endb, s1)" by fastforce
  note b = fl_new_block [OF fl 1]
  from res obtain prev s2 where 2: "gx k s1 = Some (prev, s2)"
    by (cases "gx k s1") (auto simp: genChainCmp_def 1)
  have f2: "fl s0 (insert endb P) s2" using gx [OF b(1), of k] 2 by (simp add: fs.rq_def)
  from res obtain inc s3 where 3: "chain_links gx endb prev ks [] s2 = Some (inc, s3)"
    by (cases "chain_links gx endb prev ks [] s2") (auto simp: genChainCmp_def 1 2)
  let ?s4 = "if ks = [] then s3\<lparr>cg_fault := True\<rparr> else s3"
  have s': "s' = snd (emit (IPhi (rev inc)) (set_block endb ?s4))"
    using res by (auto simp: genChainCmp_def 1 2 3 Let_def split: prod.splits)
  have "fl s0 P (set_block endb ?s4)"
  proof (cases "ks = []")
    case True
    then have "s3 = s2" using 3 by simp
    then show ?thesis using f2 True by (auto simp: fl_def set_block_def upd_fc_def nblocks_def)
  next
    case False
    then show ?thesis using flow_links [OF gx b(2) f2 False 3] by simp
  qed
  then show "fl s0 P s'" by (simp add: s' fl_emit)
qed

interpretation fe: branching "fl s0" for s0
  by unfold_locales (simp_all add: flow_short flow_chain)

end
