(* ===== verification/HC_StmtFlow.thy ===== *)
theory HC_StmtFlow
  imports HC_GenFlow
begin

text \<open>
  The control flow of statements: every generator of a statement keeps the pending blocks, the break
  targets and the scopes, and works from an open block to an open block.
\<close>

definition flows :: "gstmt \<Rightarrow> bool" where
  "flows g \<longleftrightarrow> (\<forall>s0 P s s'. fl s0 P s \<longrightarrow> g s = Some s' \<longrightarrow> fl s0 P s')"

lemma flowsD: "flows g \<Longrightarrow> fl s0 P s \<Longrightarrow> g s = Some s' \<Longrightarrow> fl s0 P s'"
  by (auto simp: flows_def)

lemma flowsI: "(\<And>s0 P s. fl s0 P s \<Longrightarrow> fs.sq s0 P (g s)) \<Longrightarrow> flows g"
  by (simp add: flows_def fs.sq_def)

lemma flows_sq: "flows g \<Longrightarrow> fl s0 P s \<Longrightarrow> fs.sq s0 P (g s)"
  by (simp add: flows_def fs.sq_def)

subsection \<open>The fields the flow does not depend on\<close>

lemma cg_fault_simps [simp]:
  "cg_fault (upd_fc f s) = cg_fault s" "cg_fault (cg_error l m s) = cg_fault s" "cg_fault (emit0 i s) = cg_fault s"
  "cg_fault (snd (new_block n s)) = cg_fault s" "cg_fault (set_block b s) = cg_fault s" "cg_fault (br_open b s) = cg_fault s"
  "cg_fault (startDeadBlock n s) = cg_fault s" "cg_fault (emit_at b i s) = cg_fault s" "cg_fault (upd_last b g s) = cg_fault s"
  "cg_fault (upd_swc h s) = cg_fault s" "cg_fault (snd (entryAlloca t n s)) = cg_fault s" "cg_fault (snd (emit i s)) = cg_fault s"
  by (simp_all add: upd_fc_def cg_error_def emit0_def emit_def Let_def new_block_def set_block_def br_open_def
      startDeadBlock_def emit_at_def upd_last_def upd_swc_def entryAlloca_def)

lemma nblocks_simps [simp]:
  "nblocks (cg_error l m s) = nblocks s" "nblocks (snd (new_block n s)) = Suc (nblocks s)" "nblocks (br_open b s) = nblocks s"
  "nblocks (startDeadBlock n s) = Suc (nblocks s)" "nblocks (emit_at b i s) = nblocks s" "nblocks (upd_last b g s) = nblocks s"
  "nblocks (upd_swc h s) = nblocks s" "nblocks (snd (entryAlloca t n s)) = nblocks s" "nblocks (snd (emit i s)) = nblocks s"
  by (simp_all add: nblocks_def upd_fc_def cg_error_def emit0_def emit_def Let_def new_block_def set_block_def br_open_def
      startDeadBlock_def emit_at_def upd_last_def upd_swc_def entryAlloca_def)

lemma new_block_fst: "fst (new_block n s) = nblocks s"
  by (simp add: new_block_def nblocks_def)

subsection \<open>Jumps between blocks\<close>

lemma fl_br_open:
  assumes "fl s0 (insert b P) s" and "b \<notin> P" and "c < nblocks s"
  shows "fl s0 P (set_block b (br_open c s))"
proof (cases "cur_term s")
  case True
  then have "cg_fault s" using assms(1) by (simp add: fl_def fl0_def)
  then show ?thesis using assms(1) by (simp add: fl_def)
next
  case False
  then show ?thesis using assms by (auto simp: br_open_def intro!: fl_jump)
qed

lemma fl_nblocks: "fl s0 P s \<Longrightarrow> nblocks s0 \<le> nblocks s"
  by (simp add: fl_def)

text \<open>The same from a state of the run, for the blocks named before.\<close>

lemma fl_here: "fl s0 P s \<Longrightarrow> fl s P s"
  by (auto simp: fl_def fl0_def)

lemma fl_from: "fl s0 P s \<Longrightarrow> fl s Q s' \<Longrightarrow> (cg_fault s \<longrightarrow> cg_fault s') \<Longrightarrow> fl s0 Q s'"
  by (auto simp: fl_def fl0_def intro: cg_keeps_trans)

lemma fl_gen_cond: "fl s0 P s \<Longrightarrow> fs.rq s0 P (gen_cond n l e s)"
  by (auto simp: gen_cond_def intro!: fs.vc fe.Q_genExpr)

lemma gen_cond_fl: "fl s0 P s \<Longrightarrow> gen_cond n l e s = Some (c, s') \<Longrightarrow> fl s0 P s'"
  using fl_gen_cond [of s0 P s n l e] by (simp add: fs.rq_def)

lemma genExpr_fl: "fl s0 P s \<Longrightarrow> genExpr n e s = Some (r, s') \<Longrightarrow> fl s0 P s'"
  using fe.Q_genExpr [of s0 P s n e] by (simp add: fs.rq_def)

text \<open>A jump, and the block behind it that nothing reaches.\<close>

lemma good_new_block:
  assumes "good P s" and "new_block n s = (b, s')"
  shows "good (insert b P) s'" and "b \<notin> P" and "cur_term s' = cur_term s" and "cg_keeps s s'"
proof -
  let ?fx = "cg_fc s"
  have b: "b = length (fx_blocks ?fx)" and s': "s' = s\<lparr>cg_fc := ?fx\<lparr>fx_blocks := fx_blocks ?fx @ [empty_block n]\<rparr>\<rparr>"
    using assms(2) by (auto simp: new_block_def upd_fc_def)
  show "good (insert b P) s'"
    using assms(1) fx_inv_new_block [of ?fx n] by (auto simp: good_def s' b mod_ok_def)
  show "b \<notin> P" using assms(1) by (auto simp: good_def b pend_def opens_def)
  show "cur_term s' = cur_term s"
    using cur_in_range [OF assms(1)] by (simp add: cur_term_blk s' new_context(1))
  show "cg_keeps s s'"
    by (simp add: cg_keeps_def keeps0_def s' errs_ext_def fx_keeps_def sc_keeps_def mf_keeps_def new_context(3))
qed

lemma fl_dead:
  assumes "fl s0 P s" and "is_term i" and "\<forall>t \<in> set (targets i). t < nblocks s"
  shows "fl s0 P (startDeadBlock n (emit0 i s))"
proof -
  obtain b s1 where nb: "new_block n (emit0 i s) = (b, s1)" by fastforce
  have sd: "startDeadBlock n (emit0 i s) = set_block b s1" by (simp add: startDeadBlock_def nb)
  have "fl0 s0 P (set_block b s1)" if "fl0 s0 P s"
  proof -
    have a: "good P s" "\<not> cur_term s" "cg_keeps s0 s" using that by (auto simp: fl0_def)
    note e = good_emit0 [OF a(1,2) assms(3) [unfolded nblocks_def]]
    note n = good_new_block [OF e(1) nb]
    have ct: "cur_term s1" using n(3) e(2) assms(2) by simp
    from good_set_block [OF n(1) ct n(2)] n(4) e(3) a(3) show ?thesis
      by (auto simp: fl0_def intro: cg_keeps_trans)
  qed
  moreover have "nblocks (set_block b s1) = Suc (nblocks s)" "cg_fault (set_block b s1) = cg_fault s"
    using arg_cong [OF nb, of "\<lambda>x. nblocks (snd x)"] arg_cong [OF nb, of "\<lambda>x. cg_fault (snd x)"] by simp_all
  ultimately show ?thesis using assms(1) by (auto simp: sd fl_def)
qed

subsection \<open>Scopes and loops\<close>

lemma good_frame:
  assumes "good P s" and "\<And>fx. fx_inv (f fx) = fx_inv fx" and "\<And>fx. pend (f fx) = pend fx"
  shows "good P (upd_fc f s)"
  using assms by (auto simp: good_def upd_fc_def mod_ok_def)

lemma fl_push_scope: "fl s0 P s \<Longrightarrow> fl (push_scope s) P (push_scope s)"
proof -
  assume "fl s0 P s"
  moreover have "good P (push_scope s)" if "good P s"
    unfolding push_scope_def using that by (rule good_frame) simp_all
  ultimately show ?thesis
    by (auto simp: fl_def fl0_def nblocks_def cur_term_blk push_scope_def upd_fc_def)
qed

lemma fl_pop_scope:
  assumes "fl s0 P s" and "fl (push_scope s) P s'" and "cg_fault s \<longrightarrow> cg_fault s'"
  shows "fl s0 P (pop_scope s')"
proof -
  have "good P (pop_scope s')" if "good P s'"
    unfolding pop_scope_def using that by (rule good_frame) simp_all
  moreover have "cg_keeps s0 (pop_scope s')" if "cg_keeps s0 s" "cg_keeps (push_scope s) s'"
  proof -
    have "cg_keeps s (pop_scope s')"
      using that(2) by (simp add: cg_keeps_def keeps0_def errs_ext_def fx_keeps_def sc_keeps_def mf_keeps_def push_scope_def
          pop_scope_def upd_fc_def)
    with that(1) show ?thesis by (rule cg_keeps_trans)
  qed
  ultimately show ?thesis
    using assms by (auto simp: fl_def fl0_def nblocks_def cur_term_blk pop_scope_def push_scope_def upd_fc_def)
qed

text \<open>A failure of the compiler lasts: otherwise the state would be reached from one it cannot be reached from.\<close>

lemma flows_fault:
  assumes "flows g" and "cg_fault s" and "g s = Some s'"
  shows "cg_fault s'"
proof -
  let ?s0 = "s\<lparr>cg_aot := \<not> cg_aot s'\<rparr>"
  have "fl ?s0 {} s" using assms(2) by (simp add: fl_def nblocks_def)
  from flowsD [OF assms(1) this assms(3)] show ?thesis
    by (auto simp: fl_def fl0_def cg_keeps_def keeps0_def mf_keeps_def)
qed

lemma flows_in_scope: "flows g \<Longrightarrow> flows (in_scope g)"
proof (unfold flows_def, intro allI impI)
  fix s0 P s s'
  assume g: "\<forall>s0 P s s'. fl s0 P s \<longrightarrow> g s = Some s' \<longrightarrow> fl s0 P s'" and fl: "fl s0 P s" and r: "in_scope g s = Some s'"
  then obtain s1 where 1: "g (push_scope s) = Some s1" and s': "s' = pop_scope s1" by (auto simp: in_scope_def)
  have "cg_fault s \<longrightarrow> cg_fault s1" using g 1 flows_fault [of g "push_scope s" s1] by (auto simp: flows_def push_scope_def)
  moreover have "fl (push_scope s) P s1" using g 1 fl_push_scope [OF fl] by blast
  ultimately show "fl s0 P s'" using fl_pop_scope [OF fl] by (simp add: s')
qed

lemma good_breaks:
  assumes "good P s" and "\<forall>x \<in> set bs. break_ok (cg_fc s) x"
  shows "good P (upd_fc (\<lambda>fx. fx\<lparr>fx_breaks := bs\<rparr>) s)"
  using assms by (auto simp: good_def upd_fc_def mod_ok_def fx_inv_def blocks_wf_def lab_ok_def)

lemma good_breaks_of: "good P s \<Longrightarrow> x \<in> set (fx_breaks (cg_fc s)) \<Longrightarrow> break_ok (cg_fc s) x"
  by (simp add: good_def fx_inv_def)

lemma good_push_break:
  assumes "good P s" and "b < nblocks s" and "\<forall>c. sw = Some c \<longrightarrow> swc_ok (cg_fc s) c"
  shows "good P (push_break b sw s)"
proof -
  have "good P (upd_fc (\<lambda>fx. fx\<lparr>fx_breaks := (b, sw) # fx_breaks (cg_fc s)\<rparr>) s)"
    using assms good_breaks_of [OF assms(1)] by (intro good_breaks) (auto simp: break_ok_def nblocks_def)
  then show ?thesis by (simp add: push_break_def upd_fc_def)
qed

lemma good_pop_break: "good P s \<Longrightarrow> good P (pop_break s)"
proof -
  assume a: "good P s"
  have "good P (upd_fc (\<lambda>fx. fx\<lparr>fx_breaks := tl (fx_breaks (cg_fc s))\<rparr>) s)"
    using good_breaks_of [OF a] by (intro good_breaks a ballI) (cases "fx_breaks (cg_fc s)", auto)
  then show ?thesis by (simp add: pop_break_def upd_fc_def)
qed

lemma flows_in_loop:
  assumes g: "flows g" and fl: "fl s0 P s" and b: "b < nblocks s" and r: "in_loop b g s = Some s'"
  shows "fl s0 P s'"
proof -
  obtain s1 where 1: "g (push_break b None s) = Some s1" and s': "s' = pop_break s1" using r by (auto simp: in_loop_def)
  have same: "cg_fault (push_break b None s) = cg_fault s" "nblocks (push_break b None s) = nblocks s"
    "cg_fault (pop_break s1) = cg_fault s1" "nblocks (pop_break s1) = nblocks s1"
    "cur_term (push_break b None s) = cur_term s" "cur_term (pop_break s1) = cur_term s1"
    by (simp_all add: push_break_def pop_break_def nblocks_def upd_fc_def cur_term_blk)
  have "fl (push_break b None s) P (push_break b None s)"
    using fl b by (auto simp: fl_def fl0_def same intro: good_push_break)
  then have fl1: "fl (push_break b None s) P s1" using flowsD [OF g _ 1] by blast
  have ft: "cg_fault s \<longrightarrow> cg_fault s1" using flows_fault [OF g _ 1] by (simp add: same)
  have "cg_keeps s (pop_break s1)" if "cg_keeps (push_break b None s) s1"
    using that by (simp add: cg_keeps_def keeps0_def errs_ext_def fx_keeps_def sc_keeps_def mf_keeps_def push_break_def
        pop_break_def upd_fc_def)
  then show ?thesis
    using fl fl1 ft good_pop_break [of P s1] by (auto simp: fl_def fl0_def same s' intro: cg_keeps_trans)
qed

subsection \<open>Branches and loops\<close>

lemma flows_genIf:
  assumes thn: "flows thn" and els: "\<And>g. els = Some g \<Longrightarrow> flows g"
  shows "flows (genIf n l e thn els)"
proof (unfold flows_def, intro allI impI)
  fix s0 P s s'
  assume fl: "fl s0 P s" and r: "genIf n l e thn els s = Some s'"
  from r obtain c s1 where 1: "gen_cond n l e s = Some (c, s1)" by (cases "gen_cond n l e s") (auto simp: genIf_def)
  obtain thenb s2 where 2: "new_block ''if.then'' s1 = (thenb, s2)" by fastforce
  obtain endb s3 where 3: "new_block ''if.end'' s2 = (endb, s3)" by fastforce
  note f1 = gen_cond_fl [OF fl 1]
  note b = fl_two_blocks [OF f1 2 3]
  show "fl s0 P s'"
  proof (cases els)
    case None
    let ?s = "set_block thenb (emit0 (TCondBr c thenb endb) s3)"
    obtain s5 where 5: "thn ?s = Some s5" and s': "s' = set_block endb (br_open endb s5)"
      using r by (cases "thn ?s") (auto simp: genIf_def Let_def 1 2 3 None)
    have "fl s0 (insert endb P) ?s" using b by (intro fl_jump) (auto simp: insert_commute)
    then have "fl s0 (insert endb P) s5" by (rule flowsD [OF thn _ 5])
    then show ?thesis using b(3) by (auto simp: s' intro!: fl_br_open fl_in_range)
  next
    case (Some g)
    obtain elseb s4 where 4: "new_block ''if.else'' s3 = (elseb, s4)" by fastforce
    note b4 = fl_new_block [OF b(1) 4]
    let ?s = "set_block thenb (emit0 (TCondBr c thenb elseb) s4)"
    obtain s5 s7 where 5: "thn ?s = Some s5" and 7: "g (set_block elseb (br_open endb s5)) = Some s7"
      and s': "s' = set_block endb (br_open endb s7)"
      using r by (cases "thn ?s") (auto simp: genIf_def Let_def 1 2 3 4 Some bind_eq_Some_conv)
    have "fl s0 (insert elseb (insert endb P)) ?s"
      using b b4 by (intro fl_jump) (auto simp: insert_commute)
    then have "fl s0 (insert elseb (insert endb P)) s5" by (rule flowsD [OF thn _ 5])
    then have "fl s0 (insert endb P) (set_block elseb (br_open endb s5))"
      using b4(2) by (auto intro!: fl_br_open fl_in_range)
    then have "fl s0 (insert endb P) s7" by (rule flowsD [OF els [OF Some] _ 7])
    then show ?thesis using b(3) by (auto simp: s' intro!: fl_br_open fl_in_range)
  qed
qed

lemma flows_genWhile:
  assumes body: "flows body"
  shows "flows (genWhile n l e body)"
proof (unfold flows_def, intro allI impI)
  fix s0 P s s'
  assume fl: "fl s0 P s" and r: "genWhile n l e body s = Some s'"
  obtain condb s1 where 1: "new_block ''while.cond'' s = (condb, s1)" by fastforce
  obtain bodyb s2 where 2: "new_block ''while.body'' s1 = (bodyb, s2)" by fastforce
  obtain endb s3 where 3: "new_block ''while.end'' s2 = (endb, s3)" by fastforce
  note b = fl_two_blocks [OF fl 1 2]
  note b3 = fl_new_block [OF b(1) 3]
  let ?c = "set_block condb (emit0 (TBr condb) s3)"
  have fc: "fl s0 (insert bodyb (insert endb P)) ?c" using b b3 by (intro fl_jump) (auto simp: insert_commute)
  obtain c s4 where 4: "gen_cond n l e ?c = Some (c, s4)"
    using r by (cases "gen_cond n l e ?c") (auto simp: genWhile_def Let_def 1 2 3)
  note f4 = gen_cond_fl [OF fc 4]
  let ?b = "set_block bodyb (emit0 (TCondBr c bodyb endb) s4)"
  obtain s5 where 5: "in_loop endb body ?b = Some s5" and s': "s' = set_block endb (br_open condb s5)"
    using r by (cases "in_loop endb body ?b") (auto simp: genWhile_def Let_def 1 2 3 4)
  have fb: "fl s0 (insert endb P) ?b"
    using b b3 fl_in_range [OF f4] by (intro fl_jump [OF f4]) auto
  have f5: "fl s0 (insert endb P) s5"
    by (rule flows_in_loop [OF body fb _ 5]) (use fl_in_range [OF fb] in simp)
  have "condb < nblocks s5"
  proof -
    have "nblocks ?c \<le> nblocks s4" using gen_cond_fl [OF fl_here [OF fc] 4] by (rule fl_nblocks)
    moreover have "nblocks ?b \<le> nblocks s5"
      by (rule fl_nblocks, rule flows_in_loop [OF body fl_here [OF fb] _ 5]) (use fl_in_range [OF fb] in simp)
    ultimately show ?thesis using fl_in_range [OF b3(1), of condb] by simp
  qed
  then show "fl s0 P s'" using b3(2) by (auto simp: s' intro!: fl_br_open [OF f5])
qed

lemma flows_nblocks: "flows g \<Longrightarrow> fl s0 P s \<Longrightarrow> g s = Some s' \<Longrightarrow> nblocks s \<le> nblocks s'"
  using flowsD fl_here fl_nblocks by blast

lemma in_loop_nblocks:
  "flows g \<Longrightarrow> fl s0 P s \<Longrightarrow> b < nblocks s \<Longrightarrow> in_loop b g s = Some s' \<Longrightarrow> nblocks s \<le> nblocks s'"
  using flows_in_loop fl_here fl_nblocks by blast

lemma gen_cond_nblocks: "fl s0 P s \<Longrightarrow> gen_cond n l e s = Some (c, s') \<Longrightarrow> nblocks s \<le> nblocks s'"
  using gen_cond_fl fl_here fl_nblocks by blast

lemma flows_genDoWhile:
  assumes body: "flows body"
  shows "flows (genDoWhile n l e body)"
proof (unfold flows_def, intro allI impI)
  fix s0 P s s'
  assume fl: "fl s0 P s" and r: "genDoWhile n l e body s = Some s'"
  obtain bodyb s1 where 1: "new_block ''do.body'' s = (bodyb, s1)" by fastforce
  obtain condb s2 where 2: "new_block ''do.cond'' s1 = (condb, s2)" by fastforce
  obtain endb s3 where 3: "new_block ''do.end'' s2 = (endb, s3)" by fastforce
  note b = fl_two_blocks [OF fl 1 2]
  note b3 = fl_new_block [OF b(1) 3]
  let ?b = "set_block bodyb (emit0 (TBr bodyb) s3)"
  have fb: "fl s0 (insert condb (insert endb P)) ?b" using b b3 by (intro fl_jump) (auto simp: insert_commute)
  obtain s4 where 4: "in_loop endb body ?b = Some s4"
    using r by (cases "in_loop endb body ?b") (auto simp: genDoWhile_def Let_def 1 2 3)
  have f4: "fl s0 (insert condb (insert endb P)) s4"
    by (rule flows_in_loop [OF body fb _ 4]) (use fl_in_range [OF fb] in simp)
  have "nblocks s3 \<le> nblocks s4"
    using in_loop_nblocks [OF body fb _ 4] fl_in_range [OF fb] by simp
  let ?c = "set_block condb (br_open condb s4)"
  have fc: "fl s0 (insert endb P) ?c"
    using b b3 f4 by (auto intro!: fl_br_open fl_in_range)
  have fin: "fl s0 P (set_block endb (emit0 (TCondBr c bodyb endb) s6))"
    if "fl s0 (insert endb P) s6" "nblocks ?c \<le> nblocks s6" for c s6
    using b b3 that \<open>nblocks s3 \<le> nblocks s4\<close> fl_in_range [OF b3(1), of bodyb] fl_in_range [OF that(1)]
    by (auto intro!: fl_jump)
  show "fl s0 P s'"
  proof (cases e)
    case None
    then have "s' = set_block endb (emit0 (TCondBr cFalse bodyb endb) (?c\<lparr>cg_fault := True\<rparr>))"
      using r by (auto simp: genDoWhile_def Let_def 1 2 3 4)
    moreover have "nblocks (?c\<lparr>cg_fault := True\<rparr>) = nblocks ?c" by (simp add: nblocks_def)
    ultimately show ?thesis using fin [of "?c\<lparr>cg_fault := True\<rparr>"] fl_fault [OF fc] by simp
  next
    case (Some x)
    obtain c s6 where 6: "gen_cond n l x ?c = Some (c, s6)"
      using r by (cases "gen_cond n l x ?c") (auto simp: genDoWhile_def Let_def 1 2 3 4 Some)
    then have "s' = set_block endb (emit0 (TCondBr c bodyb endb) s6)"
      using r by (auto simp: genDoWhile_def Let_def 1 2 3 4 Some)
    then show ?thesis using fin [OF gen_cond_fl [OF fc 6] gen_cond_nblocks [OF fc 6]] by simp
  qed
qed

lemma flows_gen_exprs: "flows (gen_exprs n es)"
proof (rule flowsI)
  show "fs.sq s0 P (gen_exprs n es s)" if "fl s0 P s" for s0 P s
    using that by (induction es arbitrary: s) (auto intro!: fs.vc fe.Q_genExpr)
qed

lemma flows_genFor:
  assumes body: "flows body" and posts: "flows posts"
  shows "flows (genFor n l inits cond posts body)"
proof (unfold flows_def, intro allI impI)
  fix s0 P s s'
  assume fl: "fl s0 P s" and r: "genFor n l inits cond posts body s = Some s'"
  from r obtain s00 where 0: "gen_exprs n inits s = Some s00"
    by (cases "gen_exprs n inits s") (auto simp: genFor_def)
  note f0 = flowsD [OF flows_gen_exprs fl 0]
  obtain condb s1 where 1: "new_block ''for.cond'' s00 = (condb, s1)" by fastforce
  obtain bodyb s2 where 2: "new_block ''for.body'' s1 = (bodyb, s2)" by fastforce
  obtain endb s3 where 3: "new_block ''for.end'' s2 = (endb, s3)" by fastforce
  note b = fl_two_blocks [OF f0 1 2]
  note b3 = fl_new_block [OF b(1) 3]
  let ?c = "set_block condb (emit0 (TBr condb) s3)"
  have fc: "fl s0 (insert bodyb (insert endb P)) ?c" using b b3 by (intro fl_jump) (auto simp: insert_commute)
  obtain i s4 where i: "is_term i" "\<forall>t \<in> set (targets i). t < nblocks s4" and f4: "fl s0 (insert bodyb (insert endb P)) s4"
    and n4: "nblocks ?c \<le> nblocks s4"
    and r4: "do { s6 \<leftarrow> in_loop endb body (set_block bodyb (emit0 i s4));
                  s7 \<leftarrow> (if cur_term s6 then Some s6 else map_option (emit0 (TBr condb)) (posts s6));
                  Some (set_block endb s7) } = Some s'"
  proof (cases cond)
    case None
    then show ?thesis
      using r that [of "TBr bodyb" ?c] fc fl_in_range [OF fc, of bodyb] by (auto simp: genFor_def Let_def 0 1 2 3)
  next
    case (Some x)
    obtain c s4 where 4: "gen_cond n l x ?c = Some (c, s4)"
      using r by (cases "gen_cond n l x ?c") (auto simp: genFor_def Let_def 0 1 2 3 Some)
    note f4 = gen_cond_fl [OF fc 4]
    show ?thesis
      using r that [of "TCondBr c bodyb endb" s4] f4 gen_cond_nblocks [OF fc 4] fl_in_range [OF f4]
      by (auto simp: genFor_def Let_def 0 1 2 3 4 Some)
  qed
  let ?b = "set_block bodyb (emit0 i s4)"
  obtain s6 where 6: "in_loop endb body ?b = Some s6" using r4 by (cases "in_loop endb body ?b") auto
  have fb: "fl s0 (insert endb P) ?b" using b b3 i by (intro fl_jump [OF f4]) auto
  have f6: "fl s0 (insert endb P) s6"
    by (rule flows_in_loop [OF body fb _ 6]) (use fl_in_range [OF fb] in simp)
  have n6: "nblocks ?b \<le> nblocks s6"
    using in_loop_nblocks [OF body fb _ 6] fl_in_range [OF fb] by simp
  show "fl s0 P s'"
  proof (cases "cur_term s6")
    case True
    then have "cg_fault s6" using f6 by (simp add: fl_def fl0_def)
    then show ?thesis using True r4 6 f6 by (auto simp: fl_def)
  next
    case False
    then obtain s7 where 7: "posts s6 = Some s7" and s': "s' = set_block endb (emit0 (TBr condb) s7)"
      using r4 6 by (auto simp: bind_eq_Some_conv)
    have "condb < nblocks s7"
      using flows_nblocks [OF posts f6 7] n6 n4 fl_in_range [OF b3(1), of condb] by simp
    then show ?thesis using flowsD [OF posts f6 7] b3(2) by (auto simp: s' intro!: fl_jump)
  qed
qed

subsection \<open>Jumps and labels\<close>

lemma fl_breaks: "fl s0 P s \<Longrightarrow> \<not> cg_fault s \<Longrightarrow> x \<in> set (fx_breaks (cg_fc s)) \<Longrightarrow> break_ok (cg_fc s) x"
  by (cases x) (auto simp: fl_def fl0_def dest: good_breaks_of)

lemma fl_trivial: "cg_fault s' \<Longrightarrow> fl s0 P s \<Longrightarrow> nblocks s \<le> nblocks s' \<Longrightarrow> fl s0 P s'"
  by (auto simp: fl_def)

lemma fl_genBreak: "fl s0 P s \<Longrightarrow> fl s0 P (genBreak l s)"
proof (cases "fx_breaks (cg_fc s)")
  case Nil
  then show "fl s0 P s \<Longrightarrow> ?thesis" by (simp add: genBreak_def fl_error)
next
  case (Cons x bs)
  assume fl: "fl s0 P s"
  obtain b sw where x: "x = (b, sw)" by fastforce
  define dst where "dst = (case sw of Some c \<Rightarrow> if sc_inGroup c then sc_groupEnd c else b | None \<Rightarrow> b)"
  have eq: "genBreak l s = startDeadBlock ''after.break'' (emit0 (TBr dst) s)"
    by (simp add: genBreak_def Cons x dst_def)
  show ?thesis
  proof (cases "cg_fault s")
    case True
    then show ?thesis using fl by (auto simp: eq intro: fl_trivial)
  next
    case False
    then have "break_ok (cg_fc s) (b, sw)" using fl_breaks [OF fl] by (simp add: Cons x)
    then have "dst < nblocks s"
      by (auto simp: dst_def break_ok_def swc_ok_def nblocks_def split: option.split)
    then show ?thesis using fl by (auto simp: eq intro: fl_dead)
  qed
qed

lemma update_fresh: "k \<notin> fst ` set al \<Longrightarrow> AList.update k v al = al @ [(k, v)]"
  by (induction al) auto

text \<open>After \<open>getLabelBlock\<close> the label has its block, which is not pending but the label's.\<close>

lemma good_getLabelBlock:
  assumes "good P s" and "getLabelBlock n s = (b, s')"
  shows "good P s'" and "cur_term s' = cur_term s" and "cg_keeps s s'" and "b < nblocks s'"
    and "(n, b) \<in> set (fx_labels (cg_fc s'))" and "fx_labelsDefined (cg_fc s') = fx_labelsDefined (cg_fc s)"
proof -
  let ?fx = "cg_fc s"
  have inv: "fx_inv ?fx" and lab: "lab_ok ?fx" using assms(1) by (auto simp: good_def fx_inv_def)
  have all: "good P s' \<and> cur_term s' = cur_term s \<and> cg_keeps s s' \<and> b < nblocks s'
      \<and> (n, b) \<in> set (fx_labels (cg_fc s')) \<and> fx_labelsDefined (cg_fc s') = fx_labelsDefined ?fx"
  proof (cases "map_of (fx_labels ?fx) n")
    case None
    then have n: "n \<notin> fst ` set (fx_labels ?fx)" by (simp add: map_of_eq_None_iff)
    then have nd: "n \<notin> set (fx_labelsDefined ?fx)" using lab by (auto simp: lab_ok_def)
    obtain s1 where nb: "new_block (''lbl.'' @ n) s = (b, s1)"
      and s': "s' = upd_fc (\<lambda>fx. fx\<lparr>fx_labels := AList.update n b (fx_labels fx)\<rparr>) s1"
      using assms(2) None by (auto simp: getLabelBlock_def Let_def split: prod.splits)
    have b: "b = length (fx_blocks ?fx)" and s1: "s1 = s\<lparr>cg_fc := ?fx\<lparr>fx_blocks := fx_blocks ?fx @ [empty_block (''lbl.'' @ n)]\<rparr>\<rparr>"
      using nb by (auto simp: new_block_def upd_fc_def)
    note g = good_new_block [OF assms(1) nb]
    let ?f1 = "cg_fc s1"
    let ?f2 = "?f1\<lparr>fx_labels := fx_labels ?fx @ [(n, b)]\<rparr>"
    have fc: "cg_fc s' = ?f2" by (simp add: s' upd_fc_def s1 update_fresh n)
    have ul: "ulabs ?f2 = insert b (ulabs ?f1)" using nd by (auto simp: ulabs_def s1)
    have op: "b \<in> opens ?f1" "b \<noteq> fx_cur ?f1"
      using cur_in_range [OF assms(1)] by (auto simp: s1 b new_context(2))
    have "lab_ok ?f2"
    proof -
      have lab1: "lab_ok ?f1" using good_inv [OF g(1)] by (simp add: fx_inv_def)
      have "b \<notin> snd ` set (fx_labels ?fx)" using lab by (auto simp: lab_ok_def b)
      then have "distinct (map snd (fx_labels ?f2))" using lab by (simp add: lab_ok_def)
      moreover have "distinct (map fst (fx_labels ?f2))" using lab n by (simp add: lab_ok_def)
      moreover have "set (fx_labelsDefined ?f2) \<subseteq> fst ` set (fx_labels ?f2)" using lab by (auto simp: lab_ok_def s1)
      moreover have "\<forall>c \<in> snd ` set (fx_labels ?f2). c < length (fx_blocks ?f2)"
        using lab by (auto simp: lab_ok_def s1 b)
      moreover have "ulabs ?f2 \<subseteq> opens ?f2 - {fx_cur ?f2}"
        using lab1 op by (simp add: ul) (simp add: lab_ok_def)
      ultimately show ?thesis by (simp add: lab_ok_def)
    qed
    then have "fx_inv ?f2" using good_inv [OF g(1)] by (simp add: fx_inv_def blocks_wf_def)
    moreover have pend: "pend ?f2 = pend ?f1 - {b}" by (auto simp: pend_def ul)
    moreover have "pend ?f1 - {b} = pend ?fx"
      using fx_inv_new_block(2) [OF inv] by (auto simp: s1 b pend_def opens_def)
    ultimately have ok: "fx_inv (cg_fc s')" "pend (cg_fc s') = pend ?fx" by (simp_all only: fc)
    have "cg_errors s' = cg_errors s" "cg_mfuns s' = cg_mfuns s" by (simp_all add: s' upd_fc_def s1)
    then have "good P s'" using assms(1) ok by (simp add: good_def mod_ok_def)
    moreover have "cur_term s' = cur_term s" using g(3) by (simp add: cur_term_blk fc)
    moreover have "cg_keeps s s'" using g(4) by (simp add: cg_keeps_def keeps0_def errs_ext_def fx_keeps_def sc_keeps_def mf_keeps_def s' upd_fc_def)
    ultimately show ?thesis by (simp add: fc s1 b nblocks_def)
  next
    case (Some c)
    then have "(n, c) \<in> set (fx_labels ?fx)" by (rule map_of_SomeD)
    then show ?thesis using assms Some lab by (auto simp: getLabelBlock_def lab_ok_def nblocks_def)
  qed
  then show "good P s'" "cur_term s' = cur_term s" "cg_keeps s s'" "b < nblocks s'"
    "(n, b) \<in> set (fx_labels (cg_fc s'))" "fx_labelsDefined (cg_fc s') = fx_labelsDefined ?fx" by auto
qed

lemma getLabelBlock_same:
  assumes "getLabelBlock n s = (b, s')"
  shows "cg_fault s' = cg_fault s" and "nblocks s \<le> nblocks s'"
  using assms by (auto simp: getLabelBlock_def new_block_def upd_fc_def nblocks_def split: option.splits)

lemma fl_genGoto: "fl s0 P s \<Longrightarrow> fl s0 P (genGoto n s)"
proof -
  assume fl: "fl s0 P s"
  obtain b s1 where 1: "getLabelBlock n s = (b, s1)" by fastforce
  note same = getLabelBlock_same [OF 1]
  have eq: "genGoto n s = startDeadBlock ''after.goto'' (emit0 (TBr b) s1)" by (simp add: genGoto_def 1)
  show ?thesis
  proof (cases "cg_fault s")
    case True
    then show ?thesis using fl same by (auto simp: eq intro: fl_trivial)
  next
    case False
    then have "good P s" "\<not> cur_term s" "cg_keeps s0 s" using fl by (auto simp: fl_def fl0_def)
    note g = good_getLabelBlock [OF this(1) 1]
    have "fl s0 P s1" using fl g same \<open>\<not> cur_term s\<close> \<open>cg_keeps s0 s\<close> by (auto simp: fl_def fl0_def intro: cg_keeps_trans)
    then show ?thesis using g(4) by (auto simp: eq intro: fl_dead)
  qed
qed

lemma fl_genLabel: "fl s0 P s \<Longrightarrow> fl s0 P (genLabel l n s)"
proof (cases "n \<in> set (fx_labelsDefined (cg_fc s))")
  case True
  then show "fl s0 P s \<Longrightarrow> ?thesis" by (simp add: genLabel_def fl_error in_quotes_def)
next
  case False
  assume fl: "fl s0 P s"
  obtain b s1 where 1: "getLabelBlock n s = (b, s1)" by fastforce
  note same = getLabelBlock_same [OF 1]
  define s2 where "s2 = upd_fc (\<lambda>fx. fx\<lparr>fx_labelsDefined := n # fx_labelsDefined fx\<rparr>) s1"
  have eq: "genLabel l n s = set_block b (br_open b s2)" using False by (simp add: genLabel_def 1 s2_def)
  have same2: "cg_fault s2 = cg_fault s1" "nblocks s2 = nblocks s1" by (simp_all add: s2_def nblocks_def upd_fc_def)
  show ?thesis
  proof (cases "cg_fault s")
    case True
    then show ?thesis using fl same same2 by (auto simp: eq intro: fl_trivial)
  next
    case nofault: False
    then have a: "good P s" "\<not> cur_term s" "cg_keeps s0 s" using fl by (auto simp: fl_def fl0_def)
    note g = good_getLabelBlock [OF a(1) 1]
    let ?f1 = "cg_fc s1"
    let ?f2 = "?f1\<lparr>fx_labelsDefined := n # fx_labelsDefined ?f1\<rparr>"
    have fc: "cg_fc s2 = ?f2" by (simp add: s2_def upd_fc_def)
    have lab: "lab_ok ?f1" using g(1) by (simp add: good_def fx_inv_def)
    have b: "b \<in> ulabs ?f1" using g(5,6) False by (auto simp: ulabs_def)
    have only: "m = n" if "(m, b) \<in> set (fx_labels ?f1)" for m
    proof -
      have "inj_on snd (set (fx_labels ?f1))" using lab by (simp add: lab_ok_def distinct_map)
      from inj_onD [OF this _ that g(5)] show ?thesis by simp
    qed
    have uniq: "c = b" if "(n, c) \<in> set (fx_labels ?f1)" for c
    proof -
      have "inj_on fst (set (fx_labels ?f1))" using lab by (simp add: lab_ok_def distinct_map)
      from inj_onD [OF this _ that g(5)] show ?thesis by simp
    qed
    have ul: "ulabs ?f2 = ulabs ?f1 - {b}" using only uniq by (auto simp: ulabs_def)
    have pend: "pend ?f2 = insert b (pend ?f1)" and notin: "b \<notin> pend ?f1"
      using lab b by (auto simp: pend_def ul lab_ok_def)
    have "n \<in> fst ` set (fx_labels ?f1)" using g(5) by (rule image_eqI [rotated]) simp
    then have "lab_ok ?f2" using lab by (simp add: lab_ok_def ul) blast
    then have "fx_inv ?f2" using good_inv [OF g(1)] by (simp add: fx_inv_def blocks_wf_def)
    then have "good (insert b P) s2" using g(1) by (auto simp: good_def fc pend s2_def upd_fc_def mod_ok_def)
    moreover have "\<not> cur_term s2" using a(2) g(2) by (simp add: cur_term_blk fc)
    moreover have "cg_keeps s0 s2"
      using cg_keeps_trans [OF a(3) g(3)] by (simp add: cg_keeps_def keeps0_def errs_ext_def fx_keeps_def sc_keeps_def mf_keeps_def s2_def upd_fc_def)
    ultimately have "fl s0 (insert b P) s2" using fl g(4) same same2 by (auto simp: fl_def fl0_def)
    moreover have "b \<notin> P" using notin g(1) by (auto simp: good_def)
    ultimately show ?thesis using fl_in_range by (auto simp: eq intro!: fl_br_open)
  qed
qed

lemma flows_genReturn: "flows (genReturn n e)"
proof (rule flowsI)
  have fl_ret: "fl s0 P (startDeadBlock ''after.ret'' (emit0 (TRet v) s))" if "fl s0 P s" for s0 P s v
    using that by (rule fl_dead) simp_all
  have conv: "fl s0 P (snd (convert r t b s))" if "fl s0 P s" for s0 P s r t b
    using that by (rule fs.Q_convert)
  show "fs.sq s0 P (genReturn n e s)" if fl: "fl s0 P s" for s0 P s
  proof (cases e)
    case None
    then show ?thesis using fl_ret [OF fl] by (simp add: genReturn_def fs.sq_def)
  next
    case (Some x)
    show ?thesis
      unfolding fs.sq_def
    proof (intro allI impI)
      fix s'
      assume r: "genReturn n e s = Some s'"
      obtain v s1 where 1: "genExpr n x s = Some (v, s1)"
        using r by (cases "genExpr n x s") (auto simp: genReturn_def Some)
      have f1: "fl s0 P s1" using fl 1 by (rule genExpr_fl)
      then show "fl s0 P s'"
        using r by (cases "fx_ret (cg_fc s)") (auto simp: genReturn_def Some 1 Let_def case_prod_beta intro!: fl_ret conv)
    qed
  qed
qed

subsection \<open>Try\<close>

text \<open>The end of a body: a last call, and the jump behind the statement.\<close>

lemma fl_leave:
  assumes "fl s0 (insert b P) s" and "b \<notin> P" and "c < nblocks s" and "\<not> is_term i"
  shows "fl s0 P (set_block b (if cur_term s then s else emit0 (TBr c) (emit0 i s)))"
proof (cases "cur_term s")
  case True
  then have "cg_fault s" using assms(1) by (simp add: fl_def fl0_def)
  then show ?thesis using True assms(1) by (simp add: fl_def)
next
  case False
  then show ?thesis
    using assms fl_emit0 [OF assms(1,4)] by (auto intro!: fl_jump)
qed

lemma flows_genTry:
  assumes body: "flows body" and handler: "flows handler"
  shows "flows (genTry body handler)"
proof (unfold flows_def, intro allI impI)
  fix s0 P s s'
  assume fl: "fl s0 P s" and "genTry body handler s = Some s'"
  note r = this(2) [unfolded genTry_def call_rt_def emit0_def [symmetric]]
  obtain frame s1 where 1: "entryAlloca (LArr 256 LI8) ''try.frame'' s = (frame, s1)" by fastforce
  obtain push s2 where 2: "getRT ''HC_TryPush'' LPtr [LPtr] s1 = (push, s2)" by fastforce
  obtain popf s3 where 3: "getRT ''HC_TryPop'' LVoid [] s2 = (popf, s3)" by fastforce
  obtain centr s4 where 4: "getRT ''HC_CatchEnter'' LVoid [] s3 = (centr, s4)" by fastforce
  obtain cdone s5 where 5: "getRT ''HC_CatchDone'' LVoid [] s4 = (cdone, s5)" by fastforce
  obtain sj s6 where 6: "getRT ''setjmp'' LI32 [LPtr] s5 = (sj, s6)" by fastforce
  obtain jb s7 where 7: "emit (ICall (VFun push) LPtr [frame]) s6 = (jb, s7)" by fastforce
  obtain rc s8 where 8: "emit (ICall (VFun sj) LI32 [jb]) s7 = (rc, s8)" by fastforce
  obtain tryb s9 where 9: "new_block ''try.body'' s8 = (tryb, s9)" by fastforce
  obtain catchb s10 where 10: "new_block ''catch.body'' s9 = (catchb, s10)" by fastforce
  obtain endb s11 where 11: "new_block ''try.end'' s10 = (endb, s11)" by fastforce
  obtain isz s12 where 12: "emit (ICmp IEQ rc (VInt 32 0)) s11 = (isz, s12)" by fastforce
  have "fl s0 P s1" using fs.Q_alloca [OF fl, of "LArr 256 LI8" "''try.frame''"] by (simp add: 1)
  note f = fs.Q_getRT [OF this, of "''HC_TryPush''" LPtr "[LPtr]", unfolded 2 snd_conv]
  note f = fs.Q_getRT [OF f, of "''HC_TryPop''" LVoid "[]", unfolded 3 snd_conv]
  note f = fs.Q_getRT [OF f, of "''HC_CatchEnter''" LVoid "[]", unfolded 4 snd_conv]
  note f = fs.Q_getRT [OF f, of "''HC_CatchDone''" LVoid "[]", unfolded 5 snd_conv]
  note f = fs.Q_getRT [OF f, of "''setjmp''" LI32 "[LPtr]", unfolded 6 snd_conv]
  have f7: "fl s0 P s7" using fl_emit [OF f, of "ICall (VFun push) LPtr [frame]"] by (simp add: 7)
  have f8: "fl s0 P s8" using fl_emit [OF f7, of "ICall (VFun sj) LI32 [jb]"] by (simp add: 8)
  note b = fl_two_blocks [OF f8 9 10]
  note b3 = fl_new_block [OF b(1) 11]
  have f12: "fl s0 (insert endb (insert catchb (insert tryb P))) s12"
    using fl_emit [OF b3(1), of "ICmp IEQ rc (VInt 32 0)"] by (simp add: 12)
  let ?t = "set_block tryb (emit0 (TCondBr isz tryb catchb) s12)"
  have ft: "fl s0 (insert catchb (insert endb P)) ?t"
    using b b3 fl_in_range [OF f12] f12 by (intro fl_jump) (auto simp: insert_commute)
  obtain s13 where 13: "in_scope body ?t = Some s13"
    using r by (cases "in_scope body ?t") (auto simp: Let_def 1 2 3 4 5 6 7 8 9 10 11 12)
  note f13 = flowsD [OF flows_in_scope [OF body] ft 13]
  let ?c = "set_block catchb (if cur_term s13 then s13 else emit0 (TBr endb) (emit0 (ICall (VFun popf) LVoid []) s13))"
  have fc: "fl s0 (insert endb P) ?c"
    using b b3 fl_in_range [OF f13] f13 by (intro fl_leave) auto
  obtain s15 where 15: "in_scope handler (emit0 (ICall (VFun centr) LVoid []) ?c) = Some s15"
    and s': "s' = set_block endb (if cur_term s15 then s15 else emit0 (TBr endb) (emit0 (ICall (VFun cdone) LVoid []) s15))"
    using r by (cases "in_scope handler (emit0 (ICall (VFun centr) LVoid []) ?c)")
      (auto simp: Let_def 1 2 3 4 5 6 7 8 9 10 11 12 13)
  have f15: "fl s0 (insert endb P) s15"
    using flowsD [OF flows_in_scope [OF handler] _ 15] fl_emit0 [OF fc] by simp
  show "fl s0 P s'"
    unfolding s' by (rule fl_leave [OF f15]) (use b3(2) fl_in_range [OF f15] in auto)
qed

subsection \<open>Declarations and initialisers\<close>

lemma fl_declareLocal: "fl s0 P s \<Longrightarrow> fl s0 P (declareLocal n v l s)"
proof -
  assume fl: "fl s0 P s"
  let ?f = "\<lambda>fx. fx\<lparr>fx_localNames := n # fx_localNames fx,
      fx_scopes := (case fx_scopes fx of [] \<Rightarrow> [] | sc # scs \<Rightarrow> AList.update n v sc # scs)\<rparr>"
  have "fl s0 P (upd_fc ?f s)"
  proof -
    have "good P (upd_fc ?f s)" if "good P s" using that by (rule good_frame) simp_all
    moreover have "cg_keeps s (upd_fc ?f s)"
      by (auto simp: cg_keeps_def keeps0_def errs_ext_def fx_keeps_def sc_keeps_def mf_keeps_def upd_fc_def split: list.split)
    ultimately show ?thesis
      using fl by (auto simp: fl_def fl0_def nblocks_def cur_term_blk upd_fc_def intro: cg_keeps_trans)
  qed
  then show ?thesis using fl by (simp add: declareLocal_def fl_error)
qed

lemma fl_init_plain: "fl s0 P s \<Longrightarrow> fs.sq s0 P (init_plain n a t e s)"
  by (auto simp: init_plain_def Let_def intro!: fs.vc fe.Q_genExpr fs.Q_storeTo split: ty.split expr.split nat.split)

text \<open>Initialiser lists, by induction on the size of the initialiser.\<close>

lemma fl_init_elems:
  assumes "\<forall>k \<in> set ks. \<forall>a t s. fl s0 P s \<longrightarrow> fs.sq s0 P (genInit n a t k s)"
    and "\<forall>k \<in> set ks. \<forall>l2 ks2. k = EInitList l2 ks2 \<longrightarrow> (\<forall>a t s. fl s0 P s \<longrightarrow> fs.sq s0 P (genInitList n a t l2 ks2 s))"
  shows "fl s0 P s \<Longrightarrow> fs.sq s0 P (init_elems n a f l i ks s)"
  using assms
proof (induction ks arbitrary: i s)
  case (Cons k ks)
  have kid: "fs.sq s0 P (case k of EInitList l2 ks2 \<Rightarrow> genInitList n ea t l2 ks2 s1 | _ \<Rightarrow> genInit n ea t k s1)"
    if "fl s0 P s1" for ea t s1
    using Cons.prems(2,3) that by (cases k) auto
  have rest: "fl s0 P s1 \<Longrightarrow> fs.sq s0 P (init_elems n a f l (Suc i) ks s1)" for s1
    using Cons.prems(2,3) by (intro Cons.IH) auto
  show ?case
  proof (cases "f i")
    case None
    then show ?thesis using Cons.prems(1) by (auto intro!: fs.vc)
  next
    case (Some x)
    then show ?thesis using Cons.prems(1) kid rest by (cases x) (auto simp: Let_def intro!: fs.vc)
  qed
qed (auto intro!: fs.vc)

lemma fl_genInitList_step:
  assumes "\<And>f s. fl s0 P s \<Longrightarrow> fs.sq s0 P (init_elems n a f l 0 ks s)" and "fl s0 P s"
  shows "fs.sq s0 P (genInitList n a t l ks s)"
  using assms by (auto intro!: fs.vc split: option.split)

lemma genInit_plain: "(\<And>l ks. e \<noteq> EInitList l ks) \<Longrightarrow> genInit n a t e s = init_plain n a t e s"
  by (cases e) auto

lemma fl_genInit_size:
  "size e < m \<Longrightarrow> (\<forall>a t s. fl s0 P s \<longrightarrow> fs.sq s0 P (genInit n a t e s))
     \<and> (\<forall>l ks. e = EInitList l ks \<longrightarrow> (\<forall>a t s. fl s0 P s \<longrightarrow> fs.sq s0 P (genInitList n a t l ks s)))"
proof (induction m arbitrary: e)
  case (Suc m)
  have lists: "fs.sq s0 P (genInitList n a t l ks s)" if e: "e = EInitList l ks" and "fl s0 P s" for l ks a t s
  proof -
    have "size k < m" if "k \<in> set ks" for k
      using Suc.prems that size_list_estimation' [OF that, of "size k" size] by (auto simp: e)
    then show ?thesis
      using Suc.IH \<open>fl s0 P s\<close> by (intro fl_genInitList_step fl_init_elems) blast+
  qed
  show ?case
  proof (cases "\<exists>l ks. e = EInitList l ks")
    case True
    then obtain l ks where e: "e = EInitList l ks" by blast
    have "fs.sq s0 P (genInit n a t e s)" if "fl s0 P s" for a t s
      using lists [OF e] that by (simp add: e fl_emit0)
    then show ?thesis using lists by blast
  next
    case False
    then show ?thesis by (auto simp: genInit_plain intro: fl_init_plain)
  qed
qed simp

lemma fl_genInit: "fl s0 P s \<Longrightarrow> fs.sq s0 P (genInit n a t e s)"
  using fl_genInit_size [of e "Suc (size e)"] by blast

lemma rq_const: "(\<And>k. fs.rq s0 P (g k)) \<Longrightarrow> fs.rq s0 P (Option.bind (m :: const option) g)"
  by (cases m) auto

lemma fl_tryConstInit: "fl s0 P s \<Longrightarrow> fs.rq s0 P (tryConstInit e t s)"
  by (auto simp: tryConstInit_def Let_def simp del: evalConst.simps evalConstF64.simps intro!: fs.vc rq_const split: option.split)

lemma fl_genStaticLocal: "fl s0 P s \<Longrightarrow> fs.sq s0 P (genStaticLocal d s)"
  by (auto simp: genStaticLocal_def Let_def intro!: fs.vc fl_tryConstInit fl_declareLocal fl_error fl_global split: option.split)

lemma fl_gen_local: "fl s0 P s \<Longrightarrow> fs.sq s0 P (gen_local n d s)"
  by (auto simp: gen_local_def Let_def intro!: fs.vc fl_declareLocal fl_genInit split: option.split)

lemma flows_genVarDecl: "flows (genVarDecl n st ds)"
proof (rule flowsI)
  show "fs.sq s0 P (genVarDecl n st ds s)" if "fl s0 P s" for s0 P s
    using that by (induction ds arbitrary: s) (auto intro!: fs.vc fl_genStaticLocal fl_gen_local)
qed

end
