(* ===== verification/HC_SwitchFlow.thy ===== *)
theory HC_SwitchFlow
  imports HC_StmtFlow
begin

text \<open>
  The control flow of the switch: its items change the context on top of the break targets, and while a
  group is open its end is one more pending block.
\<close>

definition gp :: "swctx \<Rightarrow> nat set \<Rightarrow> nat set" where
  "gp c P = (if sc_inGroup c then insert (sc_groupEnd c) P else P)"

text \<open>The state inside a switch with the context \<open>c\<close> and the blocks \<open>P\<close> pending.\<close>

definition swst :: "cg \<Rightarrow> nat set \<Rightarrow> swctx \<Rightarrow> cg \<Rightarrow> bool" where
  "swst s0 P c s \<longleftrightarrow> (\<exists>x. fx_breaks (cg_fc s) = (x, Some c) # tl (fx_breaks (cg_fc s0))) \<and> fx_breaks (cg_fc s0) \<noteq> []
     \<and> good P s \<and> keeps0 s0 s"

definition sw0 :: "cg \<Rightarrow> nat set \<Rightarrow> cg \<Rightarrow> bool" where
  "sw0 s0 P s \<longleftrightarrow> (\<exists>c. swst s0 (gp c P) c s \<and> (sc_inGroup c \<longrightarrow> sc_groupEnd c \<notin> P) \<and> \<not> cur_term s)"

definition fsw :: "cg \<Rightarrow> nat set \<Rightarrow> cg \<Rightarrow> bool" where
  "fsw s0 P s \<longleftrightarrow> nblocks s0 \<le> nblocks s \<and> (\<forall>b \<in> P. b < nblocks s) \<and> (cg_fault s \<or> sw0 s0 P s)"

definition item_flows :: "gstmt \<Rightarrow> bool" where
  "item_flows g \<longleftrightarrow> (\<forall>s0 P s s'. fsw s0 P s \<longrightarrow> g s = Some s' \<longrightarrow> fsw s0 P s')"

lemma item_flowsD: "item_flows g \<Longrightarrow> fsw s0 P s \<Longrightarrow> g s = Some s' \<Longrightarrow> fsw s0 P s'"
  by (auto simp: item_flows_def)

lemma fsw_trivial: "cg_fault s' \<Longrightarrow> fsw s0 P s \<Longrightarrow> nblocks s \<le> nblocks s' \<Longrightarrow> fsw s0 P s'"
  by (auto simp: fsw_def)

lemma keeps0_of [simp]: "cg_keeps s s' \<Longrightarrow> keeps0 s s'"
  by (simp add: cg_keeps_def)

lemma swst_good: "swst s0 P c s \<Longrightarrow> good P s"
  by (simp add: swst_def)

lemma swst_keeps: "swst s0 P c s \<Longrightarrow> good Q s' \<Longrightarrow> cg_keeps s s' \<Longrightarrow> swst s0 Q c s'"
  by (auto simp: swst_def cg_keeps_def intro: keeps0_trans)

lemma swst_cur_swc [simp]: "swst s0 P c s \<Longrightarrow> cur_swc s = c"
  by (auto simp: swst_def cur_swc_def)

lemma swst_ok: "swst s0 P c s \<Longrightarrow> swc_ok (cg_fc s) c"
  by (force simp: swst_def good_def fx_inv_def break_ok_def)

text \<open>A statement as an item.\<close>

lemma item_flows_stmt:
  assumes "flows g"
  shows "item_flows g"
proof (unfold item_flows_def, intro allI impI)
  fix s0 P s s'
  assume f: "fsw s0 P s" and r: "g s = Some s'"
  show "fsw s0 P s'"
  proof (cases "cg_fault s")
    case True
    then have "fl s P s" using f by (simp add: fl_def fsw_def)
    then show ?thesis
      using flowsD [OF assms _ r] flows_fault [OF assms True r] f fl_nblocks fsw_trivial by blast
  next
    case False
    then obtain c where c: "swst s0 (gp c P) c s" "sc_inGroup c \<longrightarrow> sc_groupEnd c \<notin> P" "\<not> cur_term s"
      using f by (auto simp: fsw_def sw0_def)
    then have "\<forall>b \<in> gp c P. b < nblocks s"
      using swst_ok [OF c(1)] f by (auto simp: gp_def swc_ok_def nblocks_def fsw_def)
    then have "fl s (gp c P) s" using c by (simp add: fl_def fl0_def swst_good)
    from flowsD [OF assms this r] have fl': "fl s (gp c P) s'" .
    have "\<forall>b \<in> P. b < nblocks s'" using fl' by (auto simp: fl_def gp_def split: if_splits)
    moreover have "nblocks s0 \<le> nblocks s'" using f fl_nblocks [OF fl'] by (simp add: fsw_def)
    moreover have "sw0 s0 P s'" if "\<not> cg_fault s'"
    proof -
      have "good (gp c P) s'" "\<not> cur_term s'" "cg_keeps s s'" using fl' that by (auto simp: fl_def fl0_def)
      then show ?thesis using swst_keeps [OF c(1)] c(2) by (auto simp: sw0_def)
    qed
    ultimately show ?thesis by (auto simp: fsw_def)
  qed
qed

subsection \<open>Changes of the context and of finished blocks\<close>

lemma swst_upd_swc:
  assumes "swst s0 P c s" and "swc_ok (cg_fc s) (f c)"
  shows "swst s0 P (f c) (upd_swc f s)" and "cur_term (upd_swc f s) = cur_term s"
proof -
  obtain x where br: "fx_breaks (cg_fc s) = (x, Some c) # tl (fx_breaks (cg_fc s0))" using assms(1) by (auto simp: swst_def)
  let ?bs = "(x, Some (f c)) # tl (fx_breaks (cg_fc s0))"
  have eq: "upd_swc f s = upd_fc (\<lambda>fx. fx\<lparr>fx_breaks := ?bs\<rparr>) s" by (simp add: upd_swc_def upd_fc_def br)
  have "\<forall>y \<in> set ?bs. break_ok (cg_fc s) y"
  proof -
    have "\<forall>y \<in> set ((x, Some c) # tl (fx_breaks (cg_fc s0))). break_ok (cg_fc s) y"
      using good_breaks_of [OF swst_good [OF assms(1)]] by (simp only: br) blast
    then show ?thesis using assms(2) by (simp add: break_ok_def)
  qed
  then have "good P (upd_swc f s)" unfolding eq by (rule good_breaks [OF swst_good [OF assms(1)]])
  moreover have "keeps0 s (upd_swc f s)"
    by (simp add: eq keeps0_def errs_ext_def fx_keeps_def sc_keeps_def mf_keeps_def upd_fc_def)
  ultimately show "swst s0 P (f c) (upd_swc f s)"
    using assms(1) by (auto simp: swst_def eq upd_fc_def intro: keeps0_trans)
  show "cur_term (upd_swc f s) = cur_term s" by (simp add: eq upd_fc_def cur_term_blk)
qed

lemma swst_error: "swst s0 P c s \<Longrightarrow> m \<noteq> porch_msg \<Longrightarrow> swst s0 P c (cg_error l m s)"
  using mod_ok_errors [of s]
  by (auto simp: swst_def good_def keeps0_def errs_ext_def mf_keeps_def cg_error_def)

lemma cur_term_error [simp]: "cur_term (cg_error l m s) = cur_term s"
  by (simp add: cur_term_blk cg_error_def)

lemma good_emit_at:
  assumes "good (insert b P) s" and "b \<notin> P" and "\<forall>t \<in> set (targets i). t < nblocks s"
  shows "good (if is_term i then P else insert b P) (emit_at b i s)" and "cur_term (emit_at b i s) = cur_term s"
    and "cg_keeps s (emit_at b i s)"
proof -
  let ?fx = "cg_fc s" and ?k = "fx_next (cg_fc s)"
  let ?f = "add_code b (?k, i) ?fx"
  have fc: "cg_fc (emit_at b i s) = ?f\<lparr>fx_next := Suc ?k\<rparr>"
    and same: "cg_errors (emit_at b i s) = cg_errors s" "cg_mfuns (emit_at b i s) = cg_mfuns s" "mf_keeps s (emit_at b i s)"
    by (simp_all add: emit_at_def upd_fc_def mf_keeps_def)
  have inv: "fx_inv ?fx" and "b \<in> pend ?fx" using assms(1) by (auto simp: good_def)
  then have b: "b < length (fx_blocks ?fx)" "\<not> has_term (blk ?fx b)" "b \<noteq> fx_cur ?fx" "b \<notin> ulabs ?fx"
    by (auto simp: pend_def opens_def)
  have op: "opens ?f = (if is_term i then opens ?fx - {b} else opens ?fx)" using b(2) by (simp add: opens_add_code)
  have pend: "pend ?f = (if is_term i then pend ?fx - {b} else pend ?fx)" by (auto simp: pend_def op)
  have "blocks_wf ?f" using inv b assms(3) by (intro blocks_wf_add_code) (auto simp: fx_inv_def nblocks_def)
  moreover have "lab_ok ?f" using inv b(4) by (auto simp: fx_inv_def lab_ok_def op)
  moreover have "break_ok ?f x" if "x \<in> set (fx_breaks ?fx)" for x
    using inv that b by - (rule break_ok_mono [of ?fx], auto simp: fx_inv_def ends_add_code)
  ultimately have "fx_inv ?f" using inv by (simp add: fx_inv_def)
  then show "good (if is_term i then P else insert b P) (emit_at b i s)"
    using assms(1,2) by (auto simp: good_def fc same pend mod_ok_def)
  show "cur_term (emit_at b i s) = cur_term s" using b(3) by (simp add: cur_term_blk fc blk_add_code)
  show "cg_keeps s (emit_at b i s)"
    using same b by (simp add: cg_keeps_def keeps0_def errs_ext_same fx_keeps_def sc_keeps_def fc ends_add_code)
qed

text \<open>A finished block whose terminator gets other targets.\<close>

definition changes :: "nat \<Rightarrow> (instr \<Rightarrow> instr) \<Rightarrow> bool" where
  "changes n f \<longleftrightarrow> (\<forall>i. is_term (f i) = is_term i) \<and> (\<forall>i. (\<forall>t \<in> set (targets i). t < n) \<longrightarrow> (\<forall>t \<in> set (targets (f i)). t < n))"

lemma changes_add_cases: "b < n \<Longrightarrow> changes n (add_cases vs b)"
proof -
  have "is_term (add_cases vs b i) = is_term i" for i by (cases i) auto
  moreover have "b < n \<Longrightarrow> \<forall>t \<in> set (targets i). t < n \<Longrightarrow> \<forall>t \<in> set (targets (add_cases vs b i)). t < n" for i
    by (cases i) auto
  ultimately show "b < n \<Longrightarrow> ?thesis" by (simp add: changes_def)
qed

lemma changes_set_default: "b < n \<Longrightarrow> changes n (set_default b)"
proof -
  have "is_term (set_default b i) = is_term i" for i by (cases i) auto
  moreover have "b < n \<Longrightarrow> \<forall>t \<in> set (targets i). t < n \<Longrightarrow> \<forall>t \<in> set (targets (set_default b i)). t < n" for i
    by (cases i) auto
  ultimately show "b < n \<Longrightarrow> ?thesis" by (simp add: changes_def)
qed

lemma has_term_last: "has_term bl \<Longrightarrow> bl_code bl = butlast (bl_code bl) @ [last (bl_code bl)]"
  by (simp add: has_term_def)

lemma change_last_eq: "c \<noteq> [] \<Longrightarrow> change_last f c = butlast c @ [apsnd f (last c)]"
  by (induction c) auto

lemma good_upd_last:
  assumes "good P s" and "ends_term (cg_fc s) b" and "changes (nblocks s) f"
  shows "good P (upd_last b f s)" and "cur_term (upd_last b f s) = cur_term s" and "cg_keeps s (upd_last b f s)"
proof -
  let ?fx = "cg_fc s"
  let ?bl = "(blk ?fx b)\<lparr>bl_code := butlast (bl_code (blk ?fx b)) @ [apsnd f (last (bl_code (blk ?fx b)))]\<rparr>"
  let ?f = "?fx\<lparr>fx_blocks := (fx_blocks ?fx)[b := ?bl]\<rparr>"
  have b: "b < length (fx_blocks ?fx)" "has_term (blk ?fx b)" using assms(2) by (auto simp: ends_term_def)
  then have "bl_code (fx_blocks ?fx ! b) \<noteq> []" by (simp add: has_term_def blk_def)
  then have fc: "cg_fc (upd_last b f s) = ?f"
    and same: "cg_errors (upd_last b f s) = cg_errors s" "cg_mfuns (upd_last b f s) = cg_mfuns s" "mf_keeps s (upd_last b f s)"
    by (simp_all add: upd_last_def upd_fc_def mf_keeps_def blk_def change_last_eq)
  have inv: "fx_inv ?fx" using assms(1) by (simp add: good_def)
  have term_f: "is_term (f i) = is_term i" for i using assms(3) by (simp add: changes_def)
  have nt: "has_term ?bl" using b(2) term_f by (simp add: has_term_def)
  have blk: "blk ?f c = (if c = b then ?bl else blk ?fx c)" for c
    using b(1) by (simp add: blk_def nth_list_update)
  have ht: "has_term (blk ?f c) = has_term (blk ?fx c)" for c using nt b(2) by (simp add: blk)
  have op: "opens ?f = opens ?fx" by (auto simp: opens_def ht)
  have en: "ends_term ?f = ends_term ?fx" by (auto simp: ends_term_def ht fun_eq_iff)
  have bwf: "blocks_wf ?f"
  proof -
    have wf: "code_wf (length (fx_blocks ?fx)) (blk ?fx b)" using inv b(1) by (simp add: fx_inv_def blocks_wf_def blk_def)
    have "code_wf (length (fx_blocks ?fx)) ?bl"
    proof -
      let ?c = "bl_code (blk ?fx b)"
      have c: "?c = butlast ?c @ [last ?c]" by (rule has_term_last [OF b(2)])
      have "\<forall>x \<in> set ?c. \<forall>t \<in> set (targets (snd x)). t < nblocks s" using wf by (simp add: code_wf_def nblocks_def)
      then have "\<forall>x \<in> set (butlast ?c @ [last ?c]). \<forall>t \<in> set (targets (snd x)). t < nblocks s" using c by simp
      then have "\<forall>t \<in> set (targets (f (snd (last ?c)))). t < nblocks s"
        and "\<forall>x \<in> set (butlast ?c). \<forall>t \<in> set (targets (snd x)). t < nblocks s"
        using assms(3) by (auto simp: changes_def)
      then show ?thesis using wf by (auto simp: code_wf_def nblocks_def)
    qed
    moreover have "set (fx_blocks ?f) \<subseteq> insert ?bl (set (fx_blocks ?fx))" by (simp add: set_update_subset_insert)
    ultimately show ?thesis using inv by (auto simp: fx_inv_def blocks_wf_def dest!: subsetD)
  qed
  have "lab_ok ?f" using inv by (simp add: fx_inv_def lab_ok_def op)
  moreover have "break_ok ?f x" if "x \<in> set (fx_breaks ?fx)" for x
    using inv that by - (rule break_ok_mono [of ?fx], auto simp: fx_inv_def en)
  ultimately have "fx_inv ?f" using inv bwf by (simp add: fx_inv_def)
  moreover have "pend ?f = pend ?fx" by (simp add: pend_def op)
  ultimately show "good P (upd_last b f s)" using assms(1) by (simp add: good_def fc same mod_ok_def)
  show "cur_term (upd_last b f s) = cur_term s" by (simp add: cur_term_blk fc ht)
  show "cg_keeps s (upd_last b f s)"
    using same by (simp add: cg_keeps_def keeps0_def errs_ext_same fx_keeps_def sc_keeps_def fc en)
qed

subsection \<open>Case labels\<close>

text \<open>Steps on the state inside a switch.\<close>

lemma swst_emit0:
  assumes "swst s0 P c s" and "\<not> cur_term s" and "\<forall>t \<in> set (targets i). t < nblocks s"
  shows "swst s0 P c (emit0 i s)" and "cur_term (emit0 i s) = is_term i"
  using good_emit0 [OF swst_good [OF assms(1)] assms(2) assms(3) [unfolded nblocks_def]] swst_keeps [OF assms(1)] by auto

lemma swst_new_block:
  assumes "swst s0 P c s" and "new_block n s = (b, s')"
  shows "swst s0 (insert b P) c s'" and "b \<notin> P" and "cur_term s' = cur_term s" and "b < nblocks s'" and "nblocks s' = Suc (nblocks s)"
  using good_new_block [OF swst_good [OF assms(1)] assms(2)] swst_keeps [OF assms(1)] assms(2)
    new_block_fst [of n s] nblocks_simps(2) [of n s] by auto

lemma swst_set_block:
  assumes "swst s0 (insert b P) c s" and "cur_term s" and "b \<notin> P"
  shows "swst s0 P c (set_block b s)" and "\<not> cur_term (set_block b s)"
  using good_set_block [OF swst_good [OF assms(1)] assms(2,3)] swst_keeps [OF assms(1)] by auto

lemma swst_upd_last:
  assumes "swst s0 P c s" and "ends_term (cg_fc s) b" and "changes (nblocks s) f"
  shows "swst s0 P c (upd_last b f s)" and "cur_term (upd_last b f s) = cur_term s"
  using good_upd_last [OF swst_good [OF assms(1)] assms(2,3)] swst_keeps [OF assms(1)] by auto

lemma swst_emit_at:
  assumes "swst s0 (insert b P) c s" and "b \<notin> P" and "\<forall>t \<in> set (targets i). t < nblocks s"
  shows "swst s0 (if is_term i then P else insert b P) c (emit_at b i s)" and "cur_term (emit_at b i s) = cur_term s"
  using good_emit_at [OF swst_good [OF assms(1)] assms(2,3)] swst_keeps [OF assms(1)] by auto

lemma swst_alloca:
  "swst s0 P c s \<Longrightarrow> swst s0 P c (snd (entryAlloca t n s)) \<and> cur_term (snd (entryAlloca t n s)) = cur_term s"
  by (simp add: swst_def good_def mod_ok_def cur_term_blk keeps0_def errs_ext_def mf_keeps_def entryAlloca_def Let_def
      fx_keeps_def sc_keeps_def)

lemma swst_in_range: "swst s0 P c s \<Longrightarrow> b \<in> P \<Longrightarrow> b < nblocks s"
  by (auto simp: swst_def good_def pend_def opens_def nblocks_def dest!: subsetD)

text \<open>Steps that change nothing but diagnostics.\<close>

definition quiet :: "cg \<Rightarrow> cg \<Rightarrow> bool" where
  "quiet s s' \<longleftrightarrow> (\<exists>es. s' = s\<lparr>cg_errors := es @ cg_errors s\<rparr> \<and> porch_msg \<notin> snd ` set es)"

lemma quiet_refl [simp]: "quiet s s"
  by (auto simp: quiet_def intro: exI [of _ "[]"])

lemma quiet_error: "quiet s s' \<Longrightarrow> m \<noteq> porch_msg \<Longrightarrow> quiet s (cg_error l m s')"
proof -
  assume "quiet s s'" "m \<noteq> porch_msg"
  then obtain es where "s' = s\<lparr>cg_errors := es @ cg_errors s\<rparr>" "porch_msg \<notin> snd ` set ((l, m) # es)"
    by (auto simp: quiet_def)
  then show ?thesis unfolding quiet_def by (intro exI [of _ "(l, m) # es"]) (simp add: cg_error_def)
qed

lemma quiet_same: "quiet s s' \<Longrightarrow> cur_term s' = cur_term s \<and> nblocks s' = nblocks s \<and> cg_fault s' = cg_fault s"
  by (auto simp: quiet_def cur_term_blk nblocks_def)

lemma swst_quiet: "swst s0 P c s \<Longrightarrow> quiet s s' \<Longrightarrow> swst s0 P c s'"
proof -
  assume st: "swst s0 P c s" and "quiet s s'"
  then obtain es where s': "s' = s\<lparr>cg_errors := es @ cg_errors s\<rparr>" and es: "porch_msg \<notin> snd ` set es"
    by (auto simp: quiet_def)
  have "good P s'" using swst_good [OF st] by (auto simp: good_def s' mod_ok_def)
  moreover have "cg_keeps s s'" using es by (auto simp: cg_keeps_def keeps0_def errs_ext_def mf_keeps_def s')
  ultimately show ?thesis by (rule swst_keeps [OF st])
qed

lemma case_lo_quiet: "case_lo l e s = Some (v, s') \<Longrightarrow> quiet s s'"
proof -
  assume "case_lo l e s = Some (v, s')"
  then have "s' = s \<or> s' = cg_error l ''case value must be a constant expression'' s"
    unfolding case_lo_def bind_eq_Some_conv by (auto split: option.splits)
  then show ?thesis using quiet_error [OF quiet_refl] by auto
qed

lemma case_hi_quiet: "case_hi l lo e s = Some (v, s') \<Longrightarrow> quiet s s'"
proof (cases e)
  case (Some x)
  assume "case_hi l lo e s = Some (v, s')"
  then have "s' = s \<or> s' = cg_error l ''case range end must be a constant expression'' s"
    unfolding case_hi_def Some option.case bind_eq_Some_conv by (auto split: option.splits)
  then show ?thesis using quiet_error [OF quiet_refl] by auto
qed (simp add: case_hi_def)

lemma quiet_trans: "quiet s t \<Longrightarrow> quiet t u \<Longrightarrow> quiet s u"
proof -
  assume "quiet s t" "quiet t u"
  then obtain es fs where "t = s\<lparr>cg_errors := es @ cg_errors s\<rparr>" "porch_msg \<notin> snd ` set es"
    "u = t\<lparr>cg_errors := fs @ cg_errors t\<rparr>" "porch_msg \<notin> snd ` set fs"
    unfolding quiet_def by blast
  then have "u = s\<lparr>cg_errors := (fs @ es) @ cg_errors s\<rparr>" "porch_msg \<notin> snd ` set (fs @ es)"
    by (simp_all add: image_Un)
  then show ?thesis unfolding quiet_def by blast
qed

lemma upd_swc_same [simp]:
  "cg_fault (upd_swc f s) = cg_fault s" "nblocks (upd_swc f s) = nblocks s"
  by (simp_all add: upd_swc_def upd_fc_def nblocks_def)

lemma swc_ok_more [simp]:
  "swc_ok fx (c\<lparr>sc_nextCaseVal := v\<rparr>) = swc_ok fx c" "swc_ok fx (c\<lparr>sc_nextGroupId := k\<rparr>) = swc_ok fx c"
  "swc_ok fx (c\<lparr>sc_sawDefault := d\<rparr>) = swc_ok fx c"
  by (simp_all add: swc_ok_def)

lemma case_bounds_ok:
  assumes "case_bounds l cs s = Some (lo, hi, s')"
  shows "\<exists>s1 v. quiet s s1 \<and> quiet (upd_swc (\<lambda>c. c\<lparr>sc_nextCaseVal := v\<rparr>) s1) s'"
proof -
  let ?m = "case cs of None \<Rightarrow> Some (sc_nextCaseVal (cur_swc s), sc_nextCaseVal (cur_swc s), s)
    | Some (e, h) \<Rightarrow> do { (lo, s1) \<leftarrow> case_lo l e s; (hi, s2) \<leftarrow> case_hi l lo h s1; Some (lo, hi, s2) }"
  obtain lo1 hi1 s1 where m: "?m = Some (lo1, hi1, s1)"
    and s': "(lo, hi, s') = (let s3 = upd_swc (\<lambda>c. c\<lparr>sc_nextCaseVal := hi1 + 1\<rparr>) s1
      in if slt hi1 lo1 \<or> slt 100000 (hi1 - lo1) then (lo1, lo1, cg_error l ''case range too large'' s3) else (lo1, hi1, s3))"
    using assms by (cases ?m) (auto simp: case_bounds_def Let_def split: if_splits)
  have s1: "quiet s s1"
    using m by (auto simp: bind_eq_Some_conv split: option.splits dest!: case_lo_quiet case_hi_quiet intro: quiet_trans)
  moreover have "quiet (upd_swc (\<lambda>c. c\<lparr>sc_nextCaseVal := hi1 + 1\<rparr>) s1) s'"
    using s' by (auto simp: Let_def split: if_splits intro: quiet_error)
  ultimately show ?thesis by blast
qed

lemma case_bounds_swst:
  assumes "swst s0 P c s" and "case_bounds l cs s = Some (lo, hi, s')"
  shows "\<exists>v. swst s0 P (c\<lparr>sc_nextCaseVal := v\<rparr>) s'" and "cur_term s' = cur_term s"
proof -
  obtain s1 v where q: "quiet s s1" "quiet (upd_swc (\<lambda>c. c\<lparr>sc_nextCaseVal := v\<rparr>) s1) s'"
    using case_bounds_ok [OF assms(2)] by blast
  have 1: "swst s0 P c s1" using assms(1) q(1) by (rule swst_quiet)
  have "swc_ok (cg_fc s1) (c\<lparr>sc_nextCaseVal := v\<rparr>)" using swst_ok [OF 1] by simp
  note 2 = swst_upd_swc [OF 1, of "\<lambda>c. c\<lparr>sc_nextCaseVal := v\<rparr>", OF this]
  show "\<exists>v. swst s0 P (c\<lparr>sc_nextCaseVal := v\<rparr>) s'" using swst_quiet [OF 2(1) q(2)] by blast
  show "cur_term s' = cur_term s" using quiet_same [OF q(1)] quiet_same [OF q(2)] 2(2) by simp
qed

lemma case_bounds_same:
  assumes "case_bounds l cs s = Some (lo, hi, s')"
  shows "cg_fault s' = cg_fault s" and "nblocks s' = nblocks s"
  using case_bounds_ok [OF assms] by (auto dest!: quiet_same)

text \<open>A plain case: the fallthrough, and the entry in the dispatch.\<close>

lemma swst_plain_case:
  assumes st: "swst s0 P c s" and opn: "\<not> cur_term s" and nb: "new_block n s = (bb, s2)"
    and f: "\<And>k. bb < k \<Longrightarrow> changes k f"
  shows "swst s0 P c (set_block bb (upd_last (sc_sw c) f (br_open bb s2)))"
    and "\<not> cur_term (set_block bb (upd_last (sc_sw c) f (br_open bb s2)))"
proof -
  note n = swst_new_block [OF st nb]
  have br: "br_open bb s2 = emit0 (TBr bb) s2" using n(3) opn by (simp add: br_open_def)
  have 1: "swst s0 (insert bb P) c (br_open bb s2)" "cur_term (br_open bb s2)"
    unfolding br using swst_emit0 [OF n(1), of "TBr bb"] n(3,4) opn by auto
  have "ends_term (cg_fc (br_open bb s2)) (sc_sw c)" using swst_ok [OF 1(1)] by (simp add: swc_ok_def)
  note 2 = swst_upd_last [OF 1(1) this, of f] f [of "nblocks (br_open bb s2)"] n(4)
  show "swst s0 P c (set_block bb (upd_last (sc_sw c) f (br_open bb s2)))"
    "\<not> cur_term (set_block bb (upd_last (sc_sw c) f (br_open bb s2)))"
    using swst_set_block [OF _ _ n(2)] 1(2) 2 by auto
qed

text \<open>The start of a case of a group: the porch ends in the inner dispatch, never in a diagnostic.\<close>

lemma swst_enter_group:
  assumes st: "swst s0 P c s" and opn: "\<not> cur_term s" and bb: "bb < nblocks s"
  shows "\<exists>g. swst s0 P (c\<lparr>sc_groupSw := g\<rparr>) (enter_group_case l bb s) \<and> cur_term (enter_group_case l bb s)"
proof (cases "sc_groupSw c")
  case None
  obtain sel s1 where 1: "emit (ILoad LI32 (sc_groupSel c)) s = (sel, s1)" by fastforce
  have s1: "s1 = emit0 (ILoad LI32 (sc_groupSel c)) s" by (simp add: emit0_def 1)
  have a: "swst s0 P c s1" "\<not> cur_term s1"
    using swst_emit0 [OF st opn, of "ILoad LI32 (sc_groupSel c)"] by (auto simp: s1)
  let ?t = "emit0 (TSwitch sel bb []) s1"
  have b: "swst s0 P c ?t" "cur_term ?t"
    using swst_emit0 [OF a, of "TSwitch sel bb []"] bb by (auto simp: s1)
  have cb: "cur_block s1 = fx_cur (cg_fc ?t)" by (simp add: cur_block_def emit0_def emit_def Let_def)
  have "ends_term (cg_fc ?t) (cur_block s1)"
    using b(2) cur_in_range [OF swst_good [OF b(1)]] by (simp add: ends_term_def cur_term_blk cb)
  then have "swc_ok (cg_fc ?t) (c\<lparr>sc_groupSw := Some (cur_block s1)\<rparr>)"
    using swst_ok [OF b(1)] by (simp add: swc_ok_def)
  note u = swst_upd_swc [OF b(1), of "\<lambda>c. c\<lparr>sc_groupSw := Some (cur_block s1)\<rparr>", OF this]
  have "enter_group_case l bb s = upd_swc (\<lambda>c. c\<lparr>sc_groupSw := Some (cur_block s1)\<rparr>) ?t"
    using opn st None by (simp add: enter_group_case_def 1 Let_def)
  then show ?thesis using u b(2) by (intro exI [of _ "Some (cur_block s1)"]) simp
next
  case (Some g)
  then have "enter_group_case l bb s = emit0 (TBr bb) s" using opn st by (simp add: enter_group_case_def br_open_def)
  moreover have "c\<lparr>sc_groupSw := Some g\<rparr> = c" using Some by (cases c) simp
  ultimately show ?thesis
    using swst_emit0 [OF st opn, of "TBr bb"] bb by (intro exI [of _ "Some g"]) simp
qed

lemma swst_group_case:
  assumes st: "swst s0 (insert bb P) c s" and bb: "bb \<notin> P" and opn: "\<not> cur_term s" and gr: "sc_inGroup c"
  shows "\<exists>g k. swst s0 (insert bb P) (c\<lparr>sc_groupSw := g, sc_nextGroupId := k\<rparr>) (group_case l bb vs s)
    \<and> cur_term (group_case l bb vs s)"
proof -
  have bbr: "bb < nblocks s" by (rule swst_in_range [OF st]) simp
  let ?s1 = "enter_group_case l bb s"
  obtain g where 1: "swst s0 (insert bb P) (c\<lparr>sc_groupSw := g\<rparr>) ?s1" "cur_term ?s1"
    using swst_enter_group [OF st opn bbr] by blast
  let ?c1 = "c\<lparr>sc_groupSw := g\<rparr>"
  define i where "i = sc_nextGroupId (cur_swc ?s1)"
  let ?c2 = "?c1\<lparr>sc_nextGroupId := Suc i\<rparr>"
  let ?s2 = "upd_swc (\<lambda>c. c\<lparr>sc_nextGroupId := Suc i\<rparr>) ?s1"
  have "swc_ok (cg_fc ?s1) ?c2" using swst_ok [OF 1(1)] by simp
  note 2 = swst_upd_swc [OF 1(1), of "\<lambda>c. c\<lparr>sc_nextGroupId := Suc i\<rparr>", OF this]
  obtain stub s3 where 3: "new_block ''sw.substub'' ?s2 = (stub, s3)" by fastforce
  note n = swst_new_block [OF 2(1) 3]
  let ?st = "IStore (VInt 32 (of_nat i)) (sc_groupSel (cur_swc s3))"
  have a: "swst s0 (insert stub (insert bb P)) ?c2 (emit_at stub ?st s3)" "cur_term (emit_at stub ?st s3)"
    using swst_emit_at [OF n(1,2), of ?st] n(3) 2(2) 1(2) by auto
  have gs: "sc_groupStart ?c2 < nblocks s3" using swst_ok [OF n(1)] gr by (simp add: swc_ok_def nblocks_def)
  let ?s4 = "emit_at stub (TBr (sc_groupStart (cur_swc s3))) (emit_at stub ?st s3)"
  have b: "swst s0 (insert bb P) ?c2 ?s4" "cur_term ?s4"
    using swst_emit_at [OF a(1) n(2), of "TBr (sc_groupStart (cur_swc s3))"] a(2) n(1) gs by auto
  have "ends_term (cg_fc ?s4) (sc_sw ?c2)" using swst_ok [OF b(1)] by (simp only: swc_ok_def)
  moreover have "changes (nblocks ?s4) (add_cases vs stub)" using n(4) by (intro changes_add_cases) simp
  ultimately have c: "swst s0 (insert bb P) ?c2 (upd_last (sc_sw (cur_swc ?s4)) (add_cases vs stub) ?s4)"
    "cur_term (upd_last (sc_sw (cur_swc ?s4)) (add_cases vs stub) ?s4)"
    using swst_upd_last [OF b(1)] b by auto
  let ?s5 = "upd_last (sc_sw (cur_swc ?s4)) (add_cases vs stub) ?s4"
  have eq: "group_case l bb vs s = (case sc_groupSw (cur_swc ?s5) of Some g \<Rightarrow> upd_last g (add_cases [of_nat i] bb) ?s5 | None \<Rightarrow> ?s5)"
    unfolding group_case_def Let_def i_def [symmetric] by (simp add: 3)
  have "swst s0 (insert bb P) ?c2 (group_case l bb vs s) \<and> cur_term (group_case l bb vs s)"
  proof (cases g)
    case None
    then show ?thesis using c by (simp add: eq)
  next
    case (Some k)
    then have "ends_term (cg_fc ?s5) k" using swst_ok [OF c(1)] by (simp add: swc_ok_def)
    moreover have "bb < nblocks ?s5" using swst_in_range [OF c(1), of bb] by simp
    ultimately show ?thesis
      using swst_upd_last [OF c(1), of k, OF _ changes_add_cases] c Some by (auto simp: eq)
  qed
  then show ?thesis by blast
qed

lemma gp_more [simp]:
  "gp (c\<lparr>sc_nextCaseVal := v\<rparr>) P = gp c P" "gp (c\<lparr>sc_groupSw := g\<rparr>) P = gp c P"
  "gp (c\<lparr>sc_nextGroupId := k\<rparr>) P = gp c P" "gp (c\<lparr>sc_sawDefault := d\<rparr>) P = gp c P"
  by (simp_all add: gp_def)

lemma enter_group_same [simp]:
  "cg_fault (enter_group_case l bb s) = cg_fault s" "nblocks (enter_group_case l bb s) = nblocks s"
  by (simp_all add: enter_group_case_def Let_def case_prod_beta)

lemma group_case_same: "cg_fault (group_case l bb vs s) = cg_fault s" "nblocks s \<le> nblocks (group_case l bb vs s)"
  by (simp_all add: group_case_def Let_def case_prod_beta split: option.split)

text \<open>An operation on the state inside a switch, where the compiler has not failed.\<close>

lemma fsw_step:
  assumes f: "fsw s0 P s" and n: "nblocks s \<le> nblocks s'" and ft: "cg_fault s' = cg_fault s"
    and st: "\<And>c. swst s0 (gp c P) c s \<Longrightarrow> sc_inGroup c \<longrightarrow> sc_groupEnd c \<notin> P \<Longrightarrow> \<not> cur_term s \<Longrightarrow>
      \<exists>c'. swst s0 (gp c' P) c' s' \<and> (sc_inGroup c' \<longrightarrow> sc_groupEnd c' \<notin> P) \<and> \<not> cur_term s'"
  shows "fsw s0 P s'"
  using f n ft st by (force simp: fsw_def sw0_def)

lemma item_flows_case: "item_flows (genCaseLabel l cs)"
proof (unfold item_flows_def, intro allI impI)
  fix s0 P s s'
  assume f: "fsw s0 P s" and r: "genCaseLabel l cs s = Some s'"
  then obtain lo hi s1 vs where 1: "case_bounds l cs s = Some (lo, hi, s1)" and vs: "case_values lo hi = Some vs"
    by (auto simp: genCaseLabel_def bind_eq_Some_conv)
  obtain bb s2 where 2: "new_block ''sw.case'' s1 = (bb, s2)" by fastforce
  note same = case_bounds_same [OF 1] arg_cong [OF 2, of "\<lambda>x. cg_fault (snd x)"] arg_cong [OF 2, of "\<lambda>x. nblocks (snd x)"]
  have s': "s' = set_block bb (if sc_inGroup (cur_swc s2) then group_case l bb vs s2
      else upd_last (sc_sw (cur_swc s2)) (add_cases vs bb) (br_open bb s2))"
    using r by (auto simp: genCaseLabel_def 1 vs 2 Let_def)
  show "fsw s0 P s'"
  proof (rule fsw_step [OF f])
    show "nblocks s \<le> nblocks s'" using same group_case_same(2) [of s2 l bb vs] by (auto simp: s')
    show "cg_fault s' = cg_fault s" using same by (simp add: s' group_case_same)
    fix c
    assume c: "swst s0 (gp c P) c s" "sc_inGroup c \<longrightarrow> sc_groupEnd c \<notin> P" "\<not> cur_term s"
    obtain v where st: "swst s0 (gp c P) (c\<lparr>sc_nextCaseVal := v\<rparr>) s1" and ct: "\<not> cur_term s1"
      using case_bounds_swst [OF c(1) 1] c(3) by blast
    note n = swst_new_block [OF st 2]
    show "\<exists>c'. swst s0 (gp c' P) c' s' \<and> (sc_inGroup c' \<longrightarrow> sc_groupEnd c' \<notin> P) \<and> \<not> cur_term s'"
    proof (cases "sc_inGroup c")
      case True
      then obtain g k where "swst s0 (insert bb (gp c P)) (c\<lparr>sc_nextCaseVal := v, sc_groupSw := g, sc_nextGroupId := k\<rparr>)
          (group_case l bb vs s2)" and t: "cur_term (group_case l bb vs s2)"
        using swst_group_case [OF n(1,2), of l vs] n(3) ct by auto
      from swst_set_block [OF this n(2)] show ?thesis
        using True n(1) c(2) by (auto simp: s' intro!: exI [of _ "c\<lparr>sc_nextCaseVal := v, sc_groupSw := g, sc_nextGroupId := k\<rparr>"])
    next
      case False
      then show ?thesis
        using swst_plain_case [OF st ct 2, of "add_cases vs bb", OF changes_add_cases] n(1)
        by (auto simp: s' intro!: exI [of _ "c\<lparr>sc_nextCaseVal := v\<rparr>"])
    qed
  qed
qed

subsection \<open>The other items\<close>

lemma cur_swc_br_open [simp]: "cur_swc (br_open b s) = cur_swc s"
  by (simp add: cur_swc_def br_open_def emit0_def emit_def Let_def)

lemma cur_swc_set_block [simp]: "cur_swc (set_block b s) = cur_swc s"
  by (simp add: cur_swc_def set_block_def upd_fc_def)

lemma new_block_same: "new_block n s = (b, s') \<Longrightarrow> cg_fault s' = cg_fault s \<and> nblocks s' = Suc (nblocks s)"
  by (auto simp: new_block_def upd_fc_def nblocks_def)

text \<open>A fresh block that the open one falls through to.\<close>

lemma swst_fall:
  assumes st: "swst s0 P c s" and opn: "\<not> cur_term s" and nb: "new_block n s = (bb, s2)"
  shows "swst s0 P c (set_block bb (br_open bb s2))" and "\<not> cur_term (set_block bb (br_open bb s2))"
    and "bb < nblocks s2"
proof -
  note n = swst_new_block [OF st nb]
  have br: "br_open bb s2 = emit0 (TBr bb) s2" using n(3) opn by (simp add: br_open_def)
  have 1: "swst s0 (insert bb P) c (br_open bb s2)" "cur_term (br_open bb s2)"
    unfolding br using swst_emit0 [OF n(1), of "TBr bb"] n(3,4) opn by auto
  show "swst s0 P c (set_block bb (br_open bb s2))" "\<not> cur_term (set_block bb (br_open bb s2))" "bb < nblocks s2"
    using swst_set_block [OF 1 n(2)] n(4) by auto
qed

lemma fsw_genDefault: "fsw s0 P s \<Longrightarrow> fsw s0 P (genDefault l s)"
proof -
  assume f: "fsw s0 P s"
  obtain bb s1 where 1: "new_block ''sw.default'' s = (bb, s1)" by fastforce
  note same = new_block_same [OF 1]
  let ?s2 = "set_block bb (br_open bb s1)"
  show ?thesis
  proof (rule fsw_step [OF f])
    show "nblocks s \<le> nblocks (genDefault l s)" "cg_fault (genDefault l s) = cg_fault s"
      using same by (auto simp: genDefault_def 1 Let_def)
    fix c
    assume c: "swst s0 (gp c P) c s" "sc_inGroup c \<longrightarrow> sc_groupEnd c \<notin> P" "\<not> cur_term s"
    note 2 = swst_fall [OF c(1,3) 1]
    show "\<exists>c'. swst s0 (gp c' P) c' (genDefault l s) \<and> (sc_inGroup c' \<longrightarrow> sc_groupEnd c' \<notin> P) \<and> \<not> cur_term (genDefault l s)"
    proof (cases "sc_inGroup c")
      case True
      then have "genDefault l s = cg_error l ''default: inside start:/end: group'' ?s2"
        using 2(1) by (simp add: genDefault_def 1 Let_def del: cur_swc_br_open cur_swc_set_block)
      then show ?thesis using swst_error [OF 2(1)] 2(2) c(2) by (auto intro!: exI [of _ c])
    next
      case False
      then have eq: "genDefault l s = upd_swc (\<lambda>c. c\<lparr>sc_sawDefault := True\<rparr>) (upd_last (sc_sw c) (set_default bb) ?s2)"
        using 2(1) by (simp add: genDefault_def 1 Let_def del: cur_swc_br_open cur_swc_set_block)
      have "ends_term (cg_fc ?s2) (sc_sw c)" using swst_ok [OF 2(1)] by (simp add: swc_ok_def)
      note 3 = swst_upd_last [OF 2(1) this changes_set_default, of bb]
      have b: "bb < nblocks ?s2" using 2(3) by simp
      have "swc_ok (cg_fc (upd_last (sc_sw c) (set_default bb) ?s2)) (c\<lparr>sc_sawDefault := True\<rparr>)"
        using swst_ok [OF 3(1) [OF b]] by simp
      note 4 = swst_upd_swc [OF 3(1) [OF b], of "\<lambda>c. c\<lparr>sc_sawDefault := True\<rparr>", OF this]
      show ?thesis
        using 4 3(2) [OF b] 2(2) False by (auto simp: eq intro!: exI [of _ "c\<lparr>sc_sawDefault := True\<rparr>"])
    qed
  qed
qed

lemma fsw_genSubEnd: "fsw s0 P s \<Longrightarrow> fsw s0 P (genSubEnd l s)"
proof -
  assume f: "fsw s0 P s"
  show ?thesis
  proof (rule fsw_step [OF f])
    show "nblocks s \<le> nblocks (genSubEnd l s)" "cg_fault (genSubEnd l s) = cg_fault s"
      by (simp_all add: genSubEnd_def Let_def)
    fix c
    assume c: "swst s0 (gp c P) c s" "sc_inGroup c \<longrightarrow> sc_groupEnd c \<notin> P" "\<not> cur_term s"
    show "\<exists>c'. swst s0 (gp c' P) c' (genSubEnd l s) \<and> (sc_inGroup c' \<longrightarrow> sc_groupEnd c' \<notin> P) \<and> \<not> cur_term (genSubEnd l s)"
    proof (cases "sc_inGroup c")
      case False
      then show ?thesis using c swst_error [OF c(1)] by (auto simp: genSubEnd_def intro!: exI [of _ c])
    next
      case True
      let ?e = "sc_groupEnd c"
      have st: "swst s0 (insert ?e P) c s" using c(1) True by (simp add: gp_def)
      have br: "br_open ?e s = emit0 (TBr ?e) s" using c(3) by (simp add: br_open_def)
      have 1: "swst s0 (insert ?e P) c (br_open ?e s)" "cur_term (br_open ?e s)"
        unfolding br using swst_emit0 [OF st c(3), of "TBr ?e"] swst_in_range [OF st, of ?e] by auto
      have "swc_ok (cg_fc (br_open ?e s)) (c\<lparr>sc_inGroup := False\<rparr>)" using swst_ok [OF 1(1)] by (simp add: swc_ok_def)
      note 2 = swst_upd_swc [OF 1(1), of "\<lambda>c. c\<lparr>sc_inGroup := False\<rparr>", OF this]
      have eq: "genSubEnd l s = set_block ?e (upd_swc (\<lambda>c. c\<lparr>sc_inGroup := False\<rparr>) (br_open ?e s))"
        using c(1) True by (simp add: genSubEnd_def Let_def)
      show ?thesis
        using swst_set_block [OF 2(1)] 2(2) 1(2) c(2) True
        by (auto simp: eq gp_def intro!: exI [of _ "c\<lparr>sc_inGroup := False\<rparr>"])
    qed
  qed
qed

lemma fsw_genSubStart: "fsw s0 P s \<Longrightarrow> fsw s0 P (genSubStart l s)"
proof -
  assume f: "fsw s0 P s"
  obtain sb s1 where 1: "new_block ''sw.porch'' s = (sb, s1)" by fastforce
  obtain eb s2 where 2: "new_block ''sw.endporch'' s1 = (eb, s2)" by fastforce
  obtain sel s3 where 3: "entryAlloca LI32 ''sw.sel'' s2 = (sel, s3)" by fastforce
  have same3: "cg_fault s3 = cg_fault s2" "nblocks s3 = nblocks s2" "cur_term s3 = cur_term s2"
    using 3 by (auto simp: entryAlloca_def Let_def nblocks_def cur_term_blk)
  note same = new_block_same [OF 1] new_block_same [OF 2] same3
  let ?g = "\<lambda>c. c\<lparr>sc_inGroup := True, sc_groupStart := sb, sc_groupEnd := eb, sc_groupSel := sel, sc_groupSw := None, sc_nextGroupId := 0\<rparr>"
  let ?s4 = "upd_swc ?g s3"
  show ?thesis
  proof (rule fsw_step [OF f])
    show "nblocks s \<le> nblocks (genSubStart l s)" "cg_fault (genSubStart l s) = cg_fault s"
      using same by (auto simp: genSubStart_def 1 2 3 Let_def)
    fix c
    assume c: "swst s0 (gp c P) c s" "sc_inGroup c \<longrightarrow> sc_groupEnd c \<notin> P" "\<not> cur_term s"
    show "\<exists>c'. swst s0 (gp c' P) c' (genSubStart l s) \<and> (sc_inGroup c' \<longrightarrow> sc_groupEnd c' \<notin> P) \<and> \<not> cur_term (genSubStart l s)"
    proof (cases "sc_inGroup c")
      case True
      then show ?thesis using c swst_error [OF c(1)] by (auto simp: genSubStart_def intro!: exI [of _ c])
    next
      case False
      then have st: "swst s0 P c s" using c(1) by (simp add: gp_def)
      note n1 = swst_new_block [OF st 1]
      note n2 = swst_new_block [OF n1(1) 2]
      have st3: "swst s0 (insert eb (insert sb P)) c s3" and ct3: "\<not> cur_term s3"
        using swst_alloca [OF n2(1), of LI32 "''sw.sel''"] n1(3) n2(3) c(3) by (auto simp: 3)
      have "swc_ok (cg_fc s3) (?g c)"
        using swst_ok [OF st3] n1(4) n2(4,5) same3(2) by (simp add: swc_ok_def nblocks_def)
      note st4 = swst_upd_swc [OF st3, of ?g, OF this]
      have ct4: "\<not> cur_term ?s4" using st4(2) ct3 by simp
      have st5: "swst s0 (insert eb (insert sb P)) (?g c) (emit0 (IStore (VInt 32 0) sel) ?s4)"
        "\<not> cur_term (emit0 (IStore (VInt 32 0) sel) ?s4)"
        using swst_emit0 [OF st4(1) ct4, of "IStore (VInt 32 0) sel"] by auto
      let ?s6 = "emit0 (TBr sb) (emit0 (IStore (VInt 32 0) sel) ?s4)"
      have st6: "swst s0 (insert sb (insert eb P)) (?g c) ?s6" "cur_term ?s6"
        using swst_emit0 [OF st5, of "TBr sb"] swst_in_range [OF st5(1), of sb] by (auto simp: insert_commute)
      have eq: "genSubStart l s = set_block sb ?s6"
        using False st ct4 by (simp add: genSubStart_def 1 2 3 Let_def)
      have "sb \<notin> insert eb P" "eb \<notin> P" using n1(2) n2(2) by auto
      then show ?thesis
        using swst_set_block [OF st6] by (auto simp: eq gp_def intro!: exI [of _ "?g c"])
    qed
  qed
qed

lemma item_flows_item:
  assumes "flows g"
  shows "item_flows (switch_item b g)"
proof -
  have plain: "item_flows (\<lambda>s. Some (f s))" if "\<And>s0 P s. fsw s0 P s \<Longrightarrow> fsw s0 P (f s)" for f
    using that by (auto simp: item_flows_def)
  show ?thesis
  proof (cases b)
    case (SCase l c)
    then have "switch_item b g = genCaseLabel l c" by auto
    then show ?thesis by (simp add: item_flows_case)
  next
    case (SDefault l)
    then have "switch_item b g = (\<lambda>s. Some (genDefault l s))" by auto
    then show ?thesis using plain [of "genDefault l"] fsw_genDefault by simp
  next
    case (SSubStart l)
    then have "switch_item b g = (\<lambda>s. Some (genSubStart l s))" by auto
    then show ?thesis using plain [of "genSubStart l"] fsw_genSubStart by simp
  next
    case (SSubEnd l)
    then have "switch_item b g = (\<lambda>s. Some (genSubEnd l s))" by auto
    then show ?thesis using plain [of "genSubEnd l"] fsw_genSubEnd by simp
  qed (use item_flows_stmt [OF assms] in \<open>auto simp: item_flows_def\<close>)
qed

subsection \<open>The switch\<close>

lemma good_push_scope: "good P s \<Longrightarrow> good P (push_scope s)"
  unfolding push_scope_def by (rule good_frame) simp_all

lemma good_pop_scope: "good P s \<Longrightarrow> good P (pop_scope s)"
  unfolding pop_scope_def by (rule good_frame) simp_all

lemma scope_same [simp]:
  "cg_fault (push_scope s) = cg_fault s" "nblocks (push_scope s) = nblocks s" "cur_term (push_scope s) = cur_term s"
  "cg_fault (pop_scope s) = cg_fault s" "nblocks (pop_scope s) = nblocks s" "cur_term (pop_scope s) = cur_term s"
  by (simp_all add: push_scope_def pop_scope_def upd_fc_def nblocks_def cur_term_blk)

lemma fsw_in_scope:
  assumes g: "item_flows g" and f: "fsw s P s" and r: "in_scope g s = Some s'"
  shows "fsw s P s'"
proof -
  obtain s1 where 1: "g (push_scope s) = Some s1" and s': "s' = pop_scope s1" using r by (auto simp: in_scope_def)
  have br: "fx_breaks (cg_fc (push_scope s)) = fx_breaks (cg_fc s)" "fx_breaks (cg_fc (pop_scope s1)) = fx_breaks (cg_fc s1)"
    by (simp_all add: push_scope_def pop_scope_def upd_fc_def)
  have "swst (push_scope s) Q c (push_scope s)" if "swst s Q c s" for Q c
    using that good_push_scope by (simp add: swst_def br)
  then have "fsw (push_scope s) P (push_scope s)"
    using f by (force simp: fsw_def sw0_def)
  from item_flowsD [OF g this 1] have f1: "fsw (push_scope s) P s1" .
  have "swst s Q c (pop_scope s1)" if "swst (push_scope s) Q c s1" for Q c
  proof -
    have "keeps0 s (pop_scope s1)" if "keeps0 (push_scope s) s1"
      using that by (simp add: keeps0_def errs_ext_def fx_keeps_def sc_keeps_def mf_keeps_def push_scope_def pop_scope_def upd_fc_def)
    then show ?thesis using that good_pop_scope by (auto simp: swst_def br)
  qed
  then show ?thesis using f1 by (force simp: s' fsw_def sw0_def)
qed

lemma good_weaken: "good Q s \<Longrightarrow> P \<subseteq> Q \<Longrightarrow> good P (cg_error l m s)"
  using mod_ok_errors [of s l m] by (auto simp: good_def cg_error_def)

text \<open>The head of the switch, up to the block for the statements in front of the first case.\<close>

lemma switch_head:
  fixes v
  assumes fl: "fl s0 (insert firstb Q) s" and first: "firstb \<notin> Q" and exit: "exitb \<in> Q" and nf: "\<not> cg_fault s"
  defines "s6 \<equiv> startDeadBlock ''sw.preamble'' (push_break exitb (Some (new_swc firstb exitb))
      (emit0 (TSwitch v exitb []) (set_block firstb (emit0 (TBr firstb) s))))"
  shows "swst s6 Q (new_swc firstb exitb) s6" and "\<not> cur_term s6" and "keeps0 s0 s6"
    and "tl (fx_breaks (cg_fc s6)) = fx_breaks (cg_fc s0)"
proof -
  let ?c = "new_swc firstb exitb"
  let ?a = "set_block firstb (emit0 (TBr firstb) s)"
  have "fl s0 Q ?a" using first fl_in_range [OF fl] by (intro fl_jump [OF fl]) auto
  then have a: "good Q ?a" "\<not> cur_term ?a" "cg_keeps s0 ?a" using nf by (auto simp: fl_def fl0_def)
  have ex: "exitb < nblocks ?a" using fl_in_range [OF fl] exit by simp
  let ?t = "emit0 (TSwitch v exitb []) ?a"
  note t = good_emit0 [OF a(1,2), of "TSwitch v exitb []"]
  have gt: "good Q ?t" "cur_term ?t" "cg_keeps ?a ?t" using t ex by (simp_all add: nblocks_def)
  have "fx_cur (cg_fc ?t) = firstb" by (simp add: emit0_def emit_def Let_def set_block_def upd_fc_def)
  then have "ends_term (cg_fc ?t) firstb"
    using gt(2) cur_in_range [OF gt(1)] by (simp add: ends_term_def cur_term_blk)
  then have ok: "swc_ok (cg_fc ?t) ?c" by (simp add: swc_ok_def new_swc_def)
  let ?p = "push_break exitb (Some ?c) ?t"
  have gp: "good Q ?p" using gt(1) ex ok by (intro good_push_break) auto
  have ctp: "cur_term ?p" using gt(2) by (simp add: push_break_def upd_fc_def cur_term_blk)
  have kp: "keeps0 ?t ?p" by (simp add: keeps0_def errs_ext_def fx_keeps_def sc_keeps_def mf_keeps_def push_break_def upd_fc_def)
  have brp: "fx_breaks (cg_fc ?p) = (exitb, Some ?c) # fx_breaks (cg_fc s0)"
    using gt(3) a(3) by (simp add: push_break_def upd_fc_def cg_keeps_def)
  obtain d s5 where nb: "new_block ''sw.preamble'' ?p = (d, s5)" by fastforce
  have s6: "s6 = set_block d s5" by (simp add: s6_def startDeadBlock_def nb)
  note n = good_new_block [OF gp nb]
  have "cur_term s5" using n(3) ctp by simp
  note 6 = good_set_block [OF n(1) this n(2)]
  have k6: "cg_keeps ?p s6" using n(4) 6(3) by (auto simp: s6 intro: cg_keeps_trans)
  have br6: "fx_breaks (cg_fc s6) = (exitb, Some ?c) # fx_breaks (cg_fc s0)" using k6 brp by (simp add: cg_keeps_def)
  show "swst s6 Q ?c s6" using 6(1) br6 by (simp add: swst_def s6)
  show "\<not> cur_term s6" using 6(2) by (simp add: s6)
  show "keeps0 s0 s6" using a(3) gt(3) kp k6 by (meson keeps0_of keeps0_trans)
  show "tl (fx_breaks (cg_fc s6)) = fx_breaks (cg_fc s0)" by (simp add: br6)
qed

text \<open>The end of the switch.\<close>

definition close_switch :: "srcloc \<Rightarrow> nat \<Rightarrow> cg \<Rightarrow> cg" where
  "close_switch l exitb s7 =
     (let s8 = pop_break s7;
          s9 = (if sc_inGroup (cur_swc s7) then cg_error l ''start: without matching end: in switch'' s8 else s8)
      in set_block exitb (br_open exitb s9))"

lemma switch_tail:
  assumes st: "swst s6 (gp c (insert exitb P)) c s7" and opn: "\<not> cur_term s7" and ex: "exitb \<notin> P"
  shows "good P (close_switch l exitb s7)" and "\<not> cur_term (close_switch l exitb s7)"
    and "keeps0 s6 (close_switch l exitb s7)" and "fx_breaks (cg_fc (close_switch l exitb s7)) = tl (fx_breaks (cg_fc s6))"
proof -
  let ?s8 = "pop_break s7"
  let ?s9 = "if sc_inGroup (cur_swc s7) then cg_error l ''start: without matching end: in switch'' ?s8 else ?s8"
  have g8: "good (gp c (insert exitb P)) ?s8" using good_pop_break [OF swst_good [OF st]] .
  have k8: "keeps0 s7 ?s8"
    by (simp add: keeps0_def errs_ext_def fx_keeps_def sc_keeps_def mf_keeps_def pop_break_def upd_fc_def)
  have b8: "fx_breaks (cg_fc ?s8) = tl (fx_breaks (cg_fc s6))" using st by (auto simp: swst_def pop_break_def upd_fc_def)
  have ct8: "\<not> cur_term ?s8" using opn by (simp add: pop_break_def upd_fc_def cur_term_blk)
  have g9: "good (insert exitb P) ?s9"
    using g8 st good_weaken [OF g8, of "insert exitb P"] by (auto simp: gp_def split: if_splits)
  have k9: "keeps0 ?s8 ?s9" by (simp add: keeps0_def errs_ext_def mf_keeps_def cg_error_def)
  have b9: "fx_breaks (cg_fc ?s9) = tl (fx_breaks (cg_fc s6))" using b8 by (simp add: cg_error_def)
  have ct9: "\<not> cur_term ?s9" using ct8 by simp
  have "exitb < nblocks ?s9" using g9 by (auto simp: good_def pend_def opens_def nblocks_def dest!: subsetD)
  note e = good_emit0 [OF g9 ct9, of "TBr exitb"]
  have br: "br_open exitb ?s9 = emit0 (TBr exitb) ?s9" using ct9 by (simp add: br_open_def)
  have e1: "good (insert exitb P) (br_open exitb ?s9)" "cur_term (br_open exitb ?s9)" "cg_keeps ?s9 (br_open exitb ?s9)"
    using e \<open>exitb < nblocks ?s9\<close> unfolding br by (simp_all add: nblocks_def)
  note f = good_set_block [OF e1(1,2) ex]
  have eq: "close_switch l exitb s7 = set_block exitb (br_open exitb ?s9)" by (simp add: close_switch_def Let_def)
  have k: "cg_keeps ?s9 (close_switch l exitb s7)" unfolding eq using e1(3) f(3) by (rule cg_keeps_trans)
  show "good P (close_switch l exitb s7)" "\<not> cur_term (close_switch l exitb s7)" using f by (simp_all only: eq not_False_eq_True)
  have "keeps0 s6 s7" using st by (simp add: swst_def)
  then show "keeps0 s6 (close_switch l exitb s7)" using k8 k9 k by (meson keeps0_of keeps0_trans)
  show "fx_breaks (cg_fc (close_switch l exitb s7)) = tl (fx_breaks (cg_fc s6))" using k b9 by (simp add: cg_keeps_def)
qed

lemma item_flows_fault:
  assumes "item_flows g" and "cg_fault s" and "g s = Some s'"
  shows "cg_fault s'"
proof -
  let ?s0 = "s\<lparr>cg_aot := \<not> cg_aot s'\<rparr>"
  have "fsw ?s0 {} s" using assms(2) by (simp add: fsw_def nblocks_def)
  from item_flowsD [OF assms(1) this assms(3)] show ?thesis
    by (auto simp: fsw_def sw0_def swst_def keeps0_def mf_keeps_def)
qed

lemma break_same [simp]:
  "cg_fault (push_break b w s) = cg_fault s" "nblocks (push_break b w s) = nblocks s"
  "cg_fault (pop_break s) = cg_fault s" "nblocks (pop_break s) = nblocks s"
  by (simp_all add: push_break_def pop_break_def upd_fc_def nblocks_def)

lemma close_switch_same [simp]:
  "cg_fault (close_switch l b s) = cg_fault s" "nblocks (close_switch l b s) = nblocks s"
  by (simp_all add: close_switch_def Let_def)

lemma flows_genSwitch:
  assumes items: "item_flows items"
  shows "flows (genSwitch n l e items)"
proof (unfold flows_def, intro allI impI)
  fix s0 P s s'
  assume fl: "fl s0 P s" and r: "genSwitch n l e items s = Some s'"
  obtain x s1 where 1: "genExpr n e s = Some (x, s1)" using r by (cases "genExpr n e s") (auto simp: genSwitch_def)
  obtain v s2 where 2: "convert x tyI64 False s1 = (v, s2)" by fastforce
  obtain exitb s3 where 3: "new_block ''sw.end'' s2 = (exitb, s3)" by fastforce
  obtain firstb s4 where 4: "new_block ''sw.dispatch'' s3 = (firstb, s4)" by fastforce
  have f2: "fl s0 P s2" using fs.Q_convert [OF genExpr_fl [OF fl 1], of x tyI64 False] by (simp add: 2)
  note b = fl_two_blocks [OF f2 3 4]
  let ?s6 = "startDeadBlock ''sw.preamble'' (push_break exitb (Some (new_swc firstb exitb))
      (emit0 (TSwitch v exitb []) (set_block firstb (emit0 (TBr firstb) s4))))"
  obtain s7 where 7: "in_scope items ?s6 = Some s7" and s': "s' = close_switch l exitb s7"
    using r by (cases "in_scope items ?s6") (auto simp: genSwitch_def Let_def 1 2 3 4 close_switch_def)
  have n6: "nblocks ?s6 = Suc (nblocks s4)" "cg_fault ?s6 = cg_fault s4" by simp_all
  have range: "\<forall>k \<in> insert exitb P. k < nblocks s4" using fl_in_range [OF b(1)] by blast
  have "fsw ?s6 (insert exitb P) ?s6"
  proof (cases "cg_fault s4")
    case True
    then show ?thesis using range by (auto simp: fsw_def n6)
  next
    case False
    have gp: "gp (new_swc firstb exitb) Q = Q" and ng: "\<not> sc_inGroup (new_swc firstb exitb)" for Q
      by (simp_all add: gp_def new_swc_def)
    have "sw0 ?s6 (insert exitb P) ?s6"
      using switch_head(1,2) [OF b(1), of exitb v] b(3,4) False
      unfolding sw0_def by (intro exI [of _ "new_swc firstb exitb"]) (simp add: gp ng)
    then show ?thesis using range by (auto simp: fsw_def n6)
  qed
  from fsw_in_scope [OF items this 7] have f7: "fsw ?s6 (insert exitb P) s7" .
  have span: "nblocks s0 \<le> nblocks s'" "\<forall>k \<in> P. k < nblocks s'"
    using f7 fl_nblocks [OF b(1)] by (auto simp: s' fsw_def)
  show "fl s0 P s'"
  proof (cases "cg_fault s7")
    case True
    then show ?thesis using span by (simp add: fl_def s')
  next
    case False
    have nf: "\<not> cg_fault s4"
    proof
      assume "cg_fault s4"
      then have "cg_fault (push_scope ?s6)" by simp
      moreover obtain s8 where 8: "items (push_scope ?s6) = Some s8" and "s7 = pop_scope s8" using 7 by (auto simp: in_scope_def)
      ultimately show False using item_flows_fault [OF items _ 8] False by simp
    qed
    obtain c where c: "swst ?s6 (gp c (insert exitb P)) c s7" "\<not> cur_term s7"
      using f7 False by (auto simp: fsw_def sw0_def)
    note h = switch_head [OF b(1), of exitb v]
    note t = switch_tail [OF c b(2), of l]
    have "keeps0 s0 s'" using h(3) t(3) b(3,4) nf by (auto simp: s' intro: keeps0_trans)
    moreover have "fx_breaks (cg_fc s') = fx_breaks (cg_fc s0)" using h(4) t(4) b(3,4) nf by (simp add: s')
    ultimately have "cg_keeps s0 s'" by (simp add: cg_keeps_def)
    then show ?thesis using t(1,2) span by (simp add: fl_def fl0_def s')
  qed
qed

subsection \<open>Every statement\<close>

lemma flows_comp: "flows f \<Longrightarrow> flows g \<Longrightarrow> flows (\<lambda>s. Option.bind (f s) g)"
  unfolding flows_def bind_eq_Some_conv by blast

lemma item_flows_comp: "item_flows f \<Longrightarrow> item_flows g \<Longrightarrow> item_flows (\<lambda>s. Option.bind (f s) g)"
  unfolding item_flows_def bind_eq_Some_conv by blast

lemma flows_const: "(\<And>s0 P s. fl s0 P s \<Longrightarrow> fl s0 P (f s)) \<Longrightarrow> flows (\<lambda>s. Some (f s))"
  by (auto simp: flows_def)

lemma flows_expr: "flows (\<lambda>s. map_option snd (genExpr n e s))"
  unfolding flows_def by (auto dest: genExpr_fl)

text \<open>The equations of \<^const>\<open>genStmt\<close> without the state.\<close>

lemma genStmt_fun:
  "genStmt n (SBlock l ss) = in_scope (genStmts n ss)"
  "genStmt n (SExpr l e) = (\<lambda>s. map_option snd (genExpr n e s))"
  "genStmt n (SIf l e a els) = genIf n l e (genStmt n a) (map_option (genStmt n) els)"
  "genStmt n (SWhile l e b) = genWhile n l e (genStmt n b)"
  "genStmt n (SDoWhile l b x) = genDoWhile n l x (genStmt n b)"
  "genStmt n (SFor l inits x posts b) = genFor n l inits x (genStmts n posts) (genStmt n b)"
  "genStmt n (SSwitch l u e b) = genSwitch n l e (case b of SBlock l2 ss \<Rightarrow> genItems n ss | _ \<Rightarrow> switch_item b (genStmt n b))"
  "genStmt n (SReturn l x) = genReturn n x"
  "genStmt n (SVarDecl l st ds) = genVarDecl n st ds"
  "genStmt n (STry l body handler) = genTry (genStmts n body) (genStmts n handler)"
  "genStmt n (SLock l b) = genStmt n b"
  "genStmts n [] = (\<lambda>s. Some s)"
  "genStmts n (b # ss) = (\<lambda>s. Option.bind (genStmt n b s) (genStmts n ss))"
  "genItems n (b # ss) = (\<lambda>s. Option.bind (switch_item b (genStmt n b) s) (genItems n ss))"
  by (rule ext, simp)+

lemma flows_seq: "(\<forall>b \<in> set ss. flows (genStmt n b)) \<Longrightarrow> flows (genStmts n ss)"
proof (induction ss)
  case (Cons b ss)
  then show ?case unfolding genStmt_fun by (intro flows_comp) simp_all
qed (simp add: flows_def)

lemma item_flows_seq: "(\<forall>b \<in> set ss. flows (genStmt n b)) \<Longrightarrow> item_flows (genItems n ss)"
proof (induction ss)
  case (Cons b ss)
  then show ?case unfolding genStmt_fun by (intro item_flows_comp item_flows_item) simp_all
qed (simp add: item_flows_def)

lemma flows_genStmt_sub:
  "flows (genStmt n b) \<and> (\<forall>l ss. b = SBlock l ss \<longrightarrow> (\<forall>x \<in> set ss. flows (genStmt n x)))"
proof (induction b)
  case (SBlock l ss)
  then have "flows (in_scope (genStmts n ss))" by (intro flows_in_scope flows_seq) blast
  then show ?case using SBlock by (simp add: genStmt_fun)
next
  case (SIf l e a els)
  have "flows g" if "map_option (genStmt n) els = Some g" for g
  proof -
    from that obtain b where b: "els = Some b" "g = genStmt n b" by (cases els) simp_all
    then have "b \<in> set_option els" by simp
    then show ?thesis using SIf(2) b(2) by blast
  qed
  then have "flows (genIf n l e (genStmt n a) (map_option (genStmt n) els))"
    using SIf(1) by (intro flows_genIf) blast+
  then show ?case by (simp add: genStmt_fun)
next
  case (SFor l inits e posts b)
  then show ?case by (simp add: genStmt_fun flows_genFor flows_seq)
next
  case (SSwitch l u e b)
  have "item_flows (case b of SBlock l2 ss \<Rightarrow> genItems n ss | _ \<Rightarrow> switch_item b (genStmt n b))"
  proof (cases "\<exists>l2 ss. b = SBlock l2 ss")
    case True
    then obtain l2 ss where b: "b = SBlock l2 ss" by blast
    then have "item_flows (genItems n ss)" using SSwitch by (intro item_flows_seq) blast
    then show ?thesis by (simp add: b)
  next
    case False
    have "item_flows (switch_item b (genStmt n b))" using SSwitch by (intro item_flows_item) blast
    moreover have "(case b of SBlock l2 ss \<Rightarrow> genItems n ss | _ \<Rightarrow> switch_item b (genStmt n b)) = switch_item b (genStmt n b)"
      using False by (cases b) simp_all
    ultimately show ?thesis by simp
  qed
  then show ?case by (simp add: genStmt_fun flows_genSwitch)
next
  case (STry l body handler)
  then show ?case by (simp add: genStmt_fun flows_genTry flows_seq)
qed (simp_all add: genStmt_fun flows_genWhile flows_genDoWhile flows_genReturn flows_genVarDecl flows_expr,
     auto simp: flows_def bad_label_def fl_genBreak fl_genGoto fl_genLabel fl_error)

lemma flows_genStmt: "flows (genStmt n b)"
  using flows_genStmt_sub by blast

lemma flows_genStmts: "flows (genStmts n ss)"
  by (simp add: flows_seq flows_genStmt)

end
