(* ===== verification/HC_ModuleFlow.thy ===== *)
theory HC_ModuleFlow
  imports HC_SwitchFlow
begin

text \<open>The control flow of whole functions and of the module.\<close>

subsection \<open>The end of a function\<close>

lemma finish_return:
  assumes "good {} s" and "\<not> cur_term s"
  shows "good {} (emit0 (TRet v) s)" and "cur_term (emit0 (TRet v) s)"
  using good_emit0 [OF assms, of "TRet v"] by auto

lemma all_term_when_done:
  assumes "good {} s" and "cur_term s" and "cg_errors s = []" and "undefined_labels (cg_fc s) = []"
  shows "all_term (cg_fc s)"
proof -
  let ?fx = "cg_fc s"
  have "filter (\<lambda>(n, b). n \<notin> set (fx_labelsDefined ?fx)) (fx_labels ?fx) = []"
    using arg_cong [OF assms(4), of length] by (simp add: undefined_labels_def)
  then have "ulabs ?fx = {}" by (auto simp: ulabs_def filter_empty_conv)
  moreover have "pend ?fx = {}" using assms(1,3) by (simp add: good_def)
  moreover have "fx_cur ?fx \<notin> opens ?fx" using assms(2) by (simp add: cur_term_blk opens_def)
  ultimately have "opens ?fx = {}" by (auto simp: pend_def)
  then show ?thesis by (auto simp: all_term_def opens_def blk_def in_set_conv_nth)
qed

text \<open>The labels without a definition.\<close>

definition closing :: "cg \<Rightarrow> cg \<Rightarrow> bool" where
  "closing s s' \<longleftrightarrow> blocks_wf (cg_fc s') \<and> errs_ext s s' \<and> mf_keeps s s' \<and> cg_mfuns s' = cg_mfuns s
     \<and> fx_fn (cg_fc s') = fx_fn (cg_fc s) \<and> cg_fault s' = cg_fault s"

lemma closing_label: "closing s s' \<Longrightarrow> closing s (close_label l s')"
proof -
  assume c: "closing s s'"
  let ?m = "label_error (fst l) s'"
  let ?s1 = "cg_error no_loc ?m s'"
  have m: "?m \<noteq> porch_msg" by (simp add: label_error_def)
  have "errs_ext s' ?s1" using m by (simp add: errs_ext_def cg_error_def)
  then have e: "errs_ext s ?s1" using c by (auto simp: closing_def intro: errs_ext_trans)
  have c1: "closing s ?s1" using c e by (simp add: closing_def mf_keeps_def cg_error_def)
  show ?thesis
  proof (cases "has_term (block_at ?s1 (snd l))")
    case True
    then show ?thesis using c1 by (simp add: close_label_def)
  next
    case False
    let ?t = "TRet (zero_ret (fx_ret (cg_fc ?s1)))"
    have "blocks_wf (add_code (snd l) (fx_next (cg_fc ?s1), ?t) (cg_fc ?s1))"
      using c1 False by (intro blocks_wf_add_code) (simp_all add: closing_def block_at_def blk_def)
    then have "closing s (emit_at (snd l) ?t ?s1)"
      using c1 by (simp add: closing_def emit_at_def upd_fc_def blocks_wf_def errs_ext_def mf_keeps_def)
    then show ?thesis using False by (simp add: close_label_def Let_def)
  qed
qed

lemma closing_labels: "closing s s' \<Longrightarrow> closing s (fold close_label ls s')"
  by (induction ls arbitrary: s') (simp_all add: closing_label)

lemma close_label_errors: "cg_errors (close_label l s) \<noteq> []"
  by (simp add: close_label_def cg_error_def emit_at_def upd_fc_def Let_def)

lemma fold_close_errors: "cg_errors s \<noteq> [] \<Longrightarrow> cg_errors (fold close_label ls s) \<noteq> []"
  by (induction ls arbitrary: s) (simp_all add: close_label_errors)

lemma fold_close_fault: "cg_fault (fold close_label ls s) = cg_fault s"
proof (induction ls arbitrary: s)
  case (Cons l ls)
  have "cg_fault (close_label l s) = cg_fault s"
    by (simp add: close_label_def cg_error_def emit_at_def upd_fc_def Let_def)
  then show ?case using Cons by simp
qed simp

lemma finishFn_fault: "cg_fault (finishFn s) = cg_fault s"
  by (simp add: finishFn_def Let_def fold_close_fault)

text \<open>\<open>finishFn\<close> adds a finished function to the module.\<close>

lemma finishFn_ok:
  assumes "good {} s" and "\<not> cur_term s"
  shows "mod_ok (finishFn s)" and "errs_ext s (finishFn s)" and "mf_keeps s (finishFn s)"
proof -
  let ?s1 = "emit0 (TRet (zero_ret (fx_ret (cg_fc s)))) s"
  let ?ls = "undefined_labels (cg_fc ?s1)"
  let ?s2 = "fold close_label ?ls ?s1"
  have g1: "good {} ?s1" and ct1: "cur_term ?s1" using finish_return [OF assms] by auto
  have "closing ?s1 ?s1" using g1 by (simp add: closing_def good_def fx_inv_def)
  from closing_labels [OF this] have c: "closing ?s1 ?s2" .
  have same: "cg_errors ?s1 = cg_errors s" "mf_keeps s ?s1" "cg_fault ?s1 = cg_fault s" "cg_mfuns ?s1 = cg_mfuns s"
    by (simp_all add: emit0_def emit_def Let_def mf_keeps_def)
  have fin: "finishFn s = ?s2\<lparr>cg_mfuns := (cg_mfuns ?s2)[fx_fn (cg_fc ?s2) := (cg_mfuns ?s2 ! fx_fn (cg_fc ?s2))
      \<lparr>lf_body := Some (cg_fc ?s2)\<rparr>]\<rparr>"
    using assms(2) by (simp add: finishFn_def Let_def)
  have complete: "all_term (cg_fc ?s2)" if "cg_errors ?s2 = []"
  proof -
    have "?ls = []"
    proof (rule ccontr)
      assume "?ls \<noteq> []"
      then obtain l ls where "?ls = l # ls" by (cases ?ls) auto
      then show False using that fold_close_errors [OF close_label_errors, of ls l ?s1] by simp
    qed
    then show ?thesis using that all_term_when_done [OF g1 ct1] by simp
  qed
  have "mod_ok ?s2"
    using g1 c by (auto simp: good_def mod_ok_def closing_def errs_ext_def)
  moreover have "set (cg_mfuns (finishFn s)) \<subseteq> insert ((cg_mfuns ?s2 ! fx_fn (cg_fc ?s2))\<lparr>lf_body := Some (cg_fc ?s2)\<rparr>) (set (cg_mfuns ?s2))"
    by (simp add: fin set_update_subset_insert)
  moreover have "cg_errors (finishFn s) = cg_errors ?s2" by (simp add: fin)
  ultimately show "mod_ok (finishFn s)"
    using complete c by (auto simp: mod_ok_def closing_def dest!: subsetD)
  have "errs_ext s ?s2" using c same(1) by (auto simp: closing_def errs_ext_def)
  then show "errs_ext s (finishFn s)" by (simp add: fin errs_ext_def)
  show "mf_keeps s (finishFn s)"
    using c same by (auto simp: fin closing_def mf_keeps_def)
qed

lemma finishFn_body:
  assumes "good {} s" and "\<not> cur_term s" and "fx_fn (cg_fc s) < length (cg_mfuns s)"
  shows "\<exists>f fx. f \<in> set (cg_mfuns (finishFn s)) \<and> lf_body f = Some fx"
proof -
  let ?s1 = "emit0 (TRet (zero_ret (fx_ret (cg_fc s)))) s"
  let ?s2 = "fold close_label (undefined_labels (cg_fc ?s1)) ?s1"
  have "closing ?s1 ?s1" using finish_return(1) [OF assms(1,2)] by (simp add: closing_def good_def fx_inv_def)
  from closing_labels [OF this] have "cg_mfuns ?s2 = cg_mfuns s" "fx_fn (cg_fc ?s2) = fx_fn (cg_fc s)"
    by (auto simp: closing_def emit0_def emit_def Let_def)
  then have "(cg_mfuns (finishFn s)) ! fx_fn (cg_fc s) = (cg_mfuns s ! fx_fn (cg_fc s))\<lparr>lf_body := Some (cg_fc ?s2)\<rparr>"
    and "length (cg_mfuns (finishFn s)) = length (cg_mfuns s)"
    using assms(2,3) by (simp_all add: finishFn_def Let_def)
  then show ?thesis
    using assms(3) nth_mem [of "fx_fn (cg_fc s)" "cg_mfuns (finishFn s)"] by (intro exI conjI) auto
qed

subsection \<open>Functions\<close>

lemma beginFn_inv: "fx_inv (beginFn k r)" "pend (beginFn k r) = {}" "\<not> has_term (blk (beginFn k r) (fx_cur (beginFn k r)))"
  by (auto simp: beginFn_def fx_inv_def blocks_wf_def code_wf_def lab_ok_def ulabs_def pend_def opens_def blk_def)

lemma fl_begin: "mod_ok s \<Longrightarrow> fl (s\<lparr>cg_fc := beginFn k r\<rparr>) {} (s\<lparr>cg_fc := beginFn k r\<rparr>)"
  using beginFn_inv [of k r] by (simp add: fl_def fl0_def good_def cur_term_blk mod_ok_def)

lemma fl_fc:
  assumes "fl s0 P s" and "fx_inv (f (cg_fc s)) = fx_inv (cg_fc s)" and "pend (f (cg_fc s)) = pend (cg_fc s)"
    and "fx_keeps (cg_fc s) (f (cg_fc s))" and "sc_keeps (cg_fc s) (f (cg_fc s))"
    and "fx_breaks (f (cg_fc s)) = fx_breaks (cg_fc s)" and "fx_blocks (f (cg_fc s)) = fx_blocks (cg_fc s)"
    and "fx_cur (f (cg_fc s)) = fx_cur (cg_fc s)"
  shows "fl s0 P (upd_fc f s)"
proof -
  have "good P (upd_fc f s)" if "good P s" using that assms(2,3) by (simp add: good_def upd_fc_def mod_ok_def)
  moreover have "cg_keeps s (upd_fc f s)" using assms(4-6) by (simp add: cg_keeps_def keeps0_def errs_ext_def mf_keeps_def upd_fc_def)
  moreover have "nblocks (upd_fc f s) = nblocks s" "cur_term (upd_fc f s) = cur_term s" "cg_fault (upd_fc f s) = cg_fault s"
    using assms(7,8) by (simp_all add: nblocks_def cur_term_blk upd_fc_def blk_def)
  ultimately show ?thesis using assms(1) by (auto simp: fl_def fl0_def intro: cg_keeps_trans)
qed

lemma fl_bind_builtin: "fl s0 P s \<Longrightarrow> fl s0 P (bind_builtin n a t s)"
  unfolding bind_builtin_def
  by (rule fl_fc) (auto simp: fx_keeps_def sc_keeps_def split: list.split)

lemma fl_bind_variadic: "fl s0 P s \<Longrightarrow> fl s0 P (bind_variadic i s)"
  by (auto simp: bind_variadic_def Let_def intro!: fs.vc fl_bind_builtin)

lemma fl_bind_params: "fl s0 P s \<Longrightarrow> fs.sq s0 P (bind_params i ps s)"
  by (induction ps arbitrary: i s)
    (auto simp: bind_param_def Let_def intro!: fs.vc fs.Q_storeTo fl_declareLocal)

text \<open>What the generation of a function or an item keeps: the module, and the context it returns to.\<close>

lemma fl_genFuncBody:
  assumes fl: "fl s0 {} s" and r: "genFuncBody n fd k s = Some s'"
  shows "fl s0 {} s'"
proof -
  let ?s0 = "s\<lparr>cg_fc := beginFn k (ret_kind (fun_ret (fd_type fd)))\<rparr>"
  obtain s1 where 1: "bind_params 0 (fun_params (fd_type fd)) ?s0 = Some s1"
    using r by (auto simp: genFuncBody_def Let_def bind_eq_Some_conv)
  define s2 where "s2 = (if fun_variadic (fd_type fd) then bind_variadic (length (fun_params (fd_type fd))) s1 else s1)"
  obtain s3 where 3: "genStmts n (fd_body fd) s2 = Some s3" and s': "s' = (finishFn s3)\<lparr>cg_fc := cg_fc s\<rparr>"
    using r 1 by (auto simp: genFuncBody_def Let_def bind_eq_Some_conv s2_def)
  have fc: "cg_fc s' = cg_fc s" by (simp add: s')
  have step: "fl x {} s3" if "fl x {} ?s0" for x
  proof -
    have "fl x {} s1" using fl_bind_params [OF that] 1 by (simp add: fs.sq_def)
    then have "fl x {} s2" by (simp add: s2_def fl_bind_variadic)
    then show ?thesis by (rule flowsD [OF flows_genStmts _ 3])
  qed
  have fault: "cg_fault s3" if "cg_fault s"
  proof -
    let ?x = "?s0\<lparr>cg_aot := \<not> cg_aot s3\<rparr>"
    have "fl ?x {} ?s0" using that by (simp add: fl_def nblocks_def)
    from step [OF this] show ?thesis by (auto simp: fl_def fl0_def cg_keeps_def keeps0_def mf_keeps_def)
  qed
  show ?thesis
  proof (cases "cg_fault s'")
    case True
    then show ?thesis using fl by (simp add: fl_def nblocks_def fc)
  next
    case False
    then have nf3: "\<not> cg_fault s3" by (simp add: s' finishFn_fault)
    then have nf: "\<not> cg_fault s" using fault by blast
    then have g: "good {} s" "\<not> cur_term s" "cg_keeps s0 s" using fl by (auto simp: fl_def fl0_def)
    have "fl ?s0 {} ?s0" using g(1) by (intro fl_begin) (simp add: good_def)
    from step [OF this] nf3 have 4: "good {} s3" "\<not> cur_term s3" "cg_keeps ?s0 s3" by (auto simp: fl_def fl0_def)
    note f = finishFn_ok [OF 4(1,2)]
    have ee: "errs_ext s s'" and mk: "mf_keeps s s'"
      using 4(3) f(2,3) by (auto simp: s' cg_keeps_def keeps0_def errs_ext_def mf_keeps_def)
    have "mod_ok s'" using f(1) by (simp add: s' mod_ok_def)
    moreover have "cg_errors s' = [] \<Longrightarrow> cg_errors s = []" using ee by (auto simp: errs_ext_def)
    ultimately have "good {} s'" using g(1) by (auto simp: good_def fc)
    moreover have "cg_keeps s s'" using ee mk by (simp add: cg_keeps_def keeps0_def fc)
    ultimately show ?thesis using fl g by (auto simp: fl_def fl0_def nblocks_def fc cur_term_blk intro: cg_keeps_trans)
  qed
qed

subsection \<open>The module\<close>

lemma fl_fields:
  assumes "fl s0 P s" and "cg_fc s' = cg_fc s" and "cg_errors s' = cg_errors s" and "cg_fault s' = cg_fault s"
    and "cg_mfuns s' = cg_mfuns s" and "cg_store s' = cg_store s" and "cg_classes s' = cg_classes s" and "cg_aot s' = cg_aot s"
  shows "fl s0 P s'"
  using assms by (simp add: fl_def fl0_def nblocks_def good_def mod_ok_def cur_term_blk cg_keeps_def keeps0_def errs_ext_def mf_keeps_def)

lemma fl_declareFunc: "fl s0 P s \<Longrightarrow> fl s0 P (snd (declareFunc fd s))"
proof -
  assume fl: "fl s0 P s"
  have body: "fl s0 P (t\<lparr>cg_bodyDeclared := x\<rparr>)" if "fl s0 P t" for t x
    using that by (rule fl_fields) simp_all
  have uniq: "fl s0 P (t\<lparr>cg_uniq := k\<rparr>)" if "fl s0 P t" for t k
    using that by (rule fl_fields) simp_all
  show ?thesis
    using fl unfolding declareFunc_def Let_def
    by (auto split: option.split intro!: fs.vc body fl_function uniq)
qed

lemma fl_set_global_init: "fl s0 P s \<Longrightarrow> fl s0 P (set_global_init k c s)"
  unfolding set_global_init_def by (rule fl_fields) simp_all

lemma fl_declareGlobal: "fl s0 P s \<Longrightarrow> fs.rq s0 P (declareGlobal g s)"
proof -
  assume fl: "fl s0 P s"
  have glob: "fl s0 P (t\<lparr>cg_globals := x\<rparr>)" if "fl s0 P t" for t x
    using that by (rule fl_fields) simp_all
  show ?thesis
    using fl unfolding declareGlobal_def Let_def
    by (auto split: option.split intro!: fs.vc fl_tryConstInit fl_global glob fl_set_global_init)
qed

lemma fl_funcs: "fl s0 P s \<Longrightarrow> fl s0 P (s\<lparr>cg_funcs := x\<rparr>)"
  by (rule fl_fields) simp_all

lemma fl_declare_item: "fl s0 P s \<Longrightarrow> fs.rq s0 P (declare_item it s)"
proof -
  assume fl: "fl s0 P s"
  have "fl s0 P (define_forward v s)" for v
    using fl by (auto simp: define_forward_def intro: fl_set_global_init split: val.split)
  then show ?thesis
    using fl unfolding declare_item_def
    by (auto simp: Let_def split: topitem.split option.split intro!: fs.vc fl_declareFunc fl_declareGlobal fl_funcs)
qed

lemma fl_declare_items: "fl s0 P s \<Longrightarrow> fs.rq s0 P (declare_items its s)"
  by (induction its arbitrary: s) (auto intro!: fs.vc fl_declare_item)

lemma fl_gen_item: "fl s0 {} s \<Longrightarrow> fs.sq s0 {} (gen_item n x s)"
proof -
  assume fl: "fl s0 {} s"
  have body: "fs.sq s0 {} (genFuncBody n fd k t)" if "fl s0 {} t" for fd k t
    using fl_genFuncBody [OF that] by (simp add: fs.sq_def)
  have stmt: "fs.sq s0 {} (genStmt n b s)" for b using flows_sq [OF flows_genStmt fl] .
  show ?thesis
    using fl stmt unfolding gen_item_def
    by (auto simp: Let_def split: topitem.split option.split intro!: fs.vc body fl_funcs fl_genInit fl_fault)
qed

lemma fl_gen_items: "fl s0 {} s \<Longrightarrow> fs.sq s0 {} (gen_items n xs s)"
  by (induction xs arbitrary: s) (auto intro!: fs.vc fl_gen_item)

lemma gen_main_same [simp]:
  "cg_errors (gen_main start s) = cg_errors s" "cg_fault (gen_main start s) = cg_fault s"
  by (simp_all add: gen_main_def Let_def case_prod_beta emit0_def emit_def getRT_def new_function_def split: option.split)

lemma gen_main_ok:
  assumes "mod_ok s"
  shows "mod_ok (gen_main start s)"
proof -
  obtain m s1 where 1: "new_function (LI32, [LI32, LPtr]) False ''main'' s = (m, s1)" by fastforce
  obtain rt s2 where 2: "getRT ''HC_RtInit'' LVoid [LI64, LPtr] (s1\<lparr>cg_fc := beginFn m RetInt\<rparr>) = (rt, s2)" by fastforce
  have m1: "mod_ok s1" using mod_ok_new_function [OF assms] arg_cong [OF 1, of snd] by (metis snd_conv)
  have e1: "cg_errors s1 = cg_errors s" "cg_fault s1 = cg_fault s" using 1 by (auto simp: new_function_def)
  have m2: "mod_ok s2" "cg_errors s2 = cg_errors s" "cg_fault s2 = cg_fault s" "cg_fc s2 = beginFn m RetInt"
    using 2 m1 e1 by (auto simp: getRT_def new_function_def mod_ok_def split: option.splits)
  define s5 where "s5 = emit0 (TRet (Some (VInt 32 0))) (emit0 (ICall (VFun start) LVoid [])
      (emit0 (ICall (VFun rt) LVoid [fst (emit (ICast CSExt (VArg 0 LI32) LI64) s2), VArg 1 LPtr])
        (snd (emit (ICast CSExt (VArg 0 LI32) LI64) s2))))"
  have gm: "gen_main start s = s5\<lparr>cg_mfuns := (cg_mfuns s5)[m := (cg_mfuns s5 ! m)\<lparr>lf_body := Some (cg_fc s5)\<rparr>]\<rparr>"
    by (simp add: gen_main_def 1 2 Let_def s5_def case_prod_beta)
  have s5: "cg_mfuns s5 = cg_mfuns s2" "cg_errors s5 = cg_errors s2" "cg_fault s5 = cg_fault s2"
    by (simp_all add: s5_def emit0_def emit_def Let_def)
  have body: "blocks_wf (cg_fc s5)" "all_term (cg_fc s5)"
    by (simp_all add: s5_def emit0_def emit_def Let_def m2 beginFn_def add_code_def blocks_wf_def code_wf_def all_term_def has_term_def)
  have "set (cg_mfuns (gen_main start s)) \<subseteq> insert ((cg_mfuns s5 ! m)\<lparr>lf_body := Some (cg_fc s5)\<rparr>) (set (cg_mfuns s5))"
    by (simp add: gm set_update_subset_insert)
  moreover have "cg_errors (gen_main start s) = cg_errors s5" by (simp add: gm)
  ultimately show "mod_ok (gen_main start s)" using m2(1) body s5 by (auto simp: mod_ok_def dest!: subsetD)
qed

lemma errs_ext_porch:
  assumes "errs_ext s s'" and "porch_msg \<notin> snd ` set (cg_errors s)"
  shows "porch_msg \<notin> snd ` set (cg_errors s')"
proof -
  obtain es where "cg_errors s' = es @ cg_errors s" "porch_msg \<notin> snd ` set es" using assms(1) unfolding errs_ext_def by blast
  then show ?thesis using assms(2) by (simp add: image_Un)
qed

lemma gen_program_ok:
  assumes "gen_program n items (cg_init aot st cls) = Some s" and "\<not> cg_fault s"
  shows "mod_ok s" and "porch_msg \<notin> snd ` set (cg_errors s)"
proof -
  let ?i = "cg_init aot st cls"
  obtain its s1 where 1: "declare_items items ?i = Some (its, s1)"
    using assms(1) by (auto simp: gen_program_def bind_eq_Some_conv)
  obtain start s2 where 2: "new_function (LVoid, []) False ''__HC_startup'' s1 = (start, s2)" by fastforce
  let ?b = "s2\<lparr>cg_fc := beginFn start RetVoid\<rparr>"
  obtain s3 where 3: "gen_items n its ?b = Some s3"
    and s: "s = (if cg_aot (finishFn s3) then gen_main start (finishFn s3) else finishFn s3)"
    using assms(1) 1 2 by (auto simp: gen_program_def bind_eq_Some_conv Let_def split: if_splits)
  have i: "fl ?i {} ?i"
    using beginFn_inv [of 0 RetVoid] by (simp add: fl_def fl0_def good_def cur_term_blk mod_ok_def cg_init_def)
  have "fl ?i {} s1" using fl_declare_items [OF i] 1 by (simp add: fs.rq_def)
  then have f2: "fl ?i {} s2" using fl_function [of ?i "{}" s1] 2 by (metis snd_conv)
  have nf3: "\<not> cg_fault s3" using assms(2) by (simp add: s finishFn_fault split: if_splits)
  have run: "fl x {} s3" if "fl x {} ?b" for x using fl_gen_items [OF that] 3 by (simp add: fs.sq_def)
  have nf2: "\<not> cg_fault s2"
  proof
    assume "cg_fault s2"
    then have "fl (?b\<lparr>cg_aot := \<not> cg_aot s3\<rparr>) {} ?b" by (simp add: fl_def nblocks_def)
    from run [OF this] nf3 show False by (simp add: fl_def fl0_def cg_keeps_def keeps0_def mf_keeps_def)
  qed
  then have m2: "mod_ok s2" and e2: "porch_msg \<notin> snd ` set (cg_errors s2)"
    using f2 by (auto simp: fl_def fl0_def good_def cg_keeps_def keeps0_def errs_ext_def cg_init_def)
  from run [OF fl_begin [OF m2]] nf3 have 4: "good {} s3" "\<not> cur_term s3" "errs_ext ?b s3"
    by (auto simp: fl_def fl0_def cg_keeps_def keeps0_def)
  note f = finishFn_ok [OF 4(1,2)]
  show "mod_ok s" using f(1) gen_main_ok [OF f(1)] by (simp add: s)
  have "porch_msg \<notin> snd ` set (cg_errors ?b)" using e2 by simp
  from errs_ext_porch [OF f(2) errs_ext_porch [OF 4(3) this]]
  have "porch_msg \<notin> snd ` set (cg_errors (finishFn s3))" .
  then show "porch_msg \<notin> snd ` set (cg_errors s)" by (simp add: s)
qed

end
