(* ===== verification/HC_GenSpec.thy ===== *)
theory HC_GenSpec
  imports HC_ModuleFlow
begin

text \<open>
  The properties of the code generator: the control flow of what it generates, where it does not return, and
  the diagnostics it can give.
\<close>

subsection \<open>The loop of a case label\<close>

lemma case_values_Some:
  assumes "case_values v hi = Some r"
  shows "sint hi < 2 ^ 63 - 1"
proof (rule case_values.raw_induct [of "\<lambda>v hi r. sint hi < 2 ^ 63 - 1", OF _ assms])
  fix f v hi r
  assume ih: "\<And>v hi r. f v hi = Some r \<Longrightarrow> sint hi < 2 ^ 63 - 1"
    and r: "(if slt hi v then Some [] else do { vs \<leftarrow> f (v + 1) hi; Some (v # vs) }) = Some r"
  have "sint v < 2 ^ 63" by (rule sint_range_64)
  then show "sint hi < 2 ^ 63 - 1" using r ih by (auto simp: slt_def bind_eq_Some_conv split: if_splits)
qed

lemma sint_inc: "sint (v :: i64) < 2 ^ 63 - 1 \<Longrightarrow> sint (v + 1) = sint v + 1"
proof -
  assume "sint v < 2 ^ 63 - 1"
  have "sint (v + 1) = sint (word_of_int (sint v + 1) :: i64)" by simp
  also have "\<dots> = sint v + 1"
    using \<open>sint v < 2 ^ 63 - 1\<close> sint_range_64 [of v] by (intro sint_word_of_int_64) simp_all
  finally show ?thesis .
qed

lemma case_values_up:
  assumes "sint hi < 2 ^ 63 - 1"
  shows "nat (sint hi - sint v + 1) = k \<Longrightarrow> sint v \<le> sint hi + 1 \<Longrightarrow> case_values v hi = Some (map word_of_int [sint v..sint hi])"
proof (induction k arbitrary: v)
  case 0
  then have "slt hi v" by (simp add: slt_def)
  moreover have "[sint v..sint hi] = []" using 0 by simp
  ultimately show ?case by (simp add: case_values.simps)
next
  case (Suc k)
  then have le: "sint v \<le> sint hi" by simp
  have up: "sint (v + 1) = sint v + 1" using le assms by (intro sint_inc) simp
  have "case_values (v + 1) hi = Some (map word_of_int [sint v + 1..sint hi])"
    using Suc.IH [of "v + 1"] Suc.prems le by (simp add: up)
  moreover have "[sint v..sint hi] = sint v # [sint v + 1..sint hi]" using le by (simp add: upto_rec1)
  ultimately show ?case using le by (simp add: case_values.simps [of v] slt_def)
qed

text \<open>
  C20: The loop that adds the values of a case label to the switch ends, with exactly the values from the
  lower to the upper bound, unless the upper bound is the largest integer: then the compiler never
  returns (\<open>case 0x7FFFFFFFFFFFFFFF:\<close>).
\<close>

theorem case_label_values:
  "case_values v hi = (if sint hi = 2 ^ 63 - 1 then None else Some (map word_of_int [sint v..sint hi]))"
proof (cases "sint hi = 2 ^ 63 - 1")
  case True
  then have "case_values v hi = None" using case_values_Some [of v hi] by (cases "case_values v hi") auto
  then show ?thesis using True by simp
next
  case False
  then have hi: "sint hi < 2 ^ 63 - 1" using sint_range_64(2) [of hi] by simp
  show ?thesis
  proof (cases "sint v \<le> sint hi + 1")
    case True
    then show ?thesis using case_values_up [OF hi refl True] hi by simp
  next
    case no: False
    then show ?thesis using hi by (simp add: case_values.simps [of v] slt_def)
  qed
qed

subsection \<open>Control flow\<close>

lemma statement_flow:
  assumes "good P s" and "\<not> cur_term s" and "genStmt n b s = Some s'" and "\<not> cg_fault s'"
  shows "good P s' \<and> \<not> cur_term s' \<and> cg_keeps s s'"
proof -
  have "\<forall>k \<in> P. k < nblocks s" using assms(1) by (auto simp: good_def pend_def opens_def nblocks_def dest!: subsetD)
  then have "fl s P s" using assms(1,2) by (simp add: fl_def fl0_def)
  from flowsD [OF flows_genStmt this assms(3)] assms(4) show ?thesis by (simp add: fl_def fl0_def)
qed

text \<open>
  C12: A statement of any form, with the insertion point in an open block, leaves it in an open block, does
  not touch the blocks that are waiting to be filled, keeps every terminator at the end of its block and
  every target inside the function, restores the scopes and the break targets, and only adds diagnostics.
\<close>

theorem statement_control_flow:
  assumes "good P s" and "\<not> cur_term s" and "genStmt n b s = Some s'" and "\<not> cg_fault s'"
  shows "good P s' \<and> \<not> cur_term s' \<and> cg_keeps s s'"
  using statement_flow [OF assms] .

text \<open>Some statements that the generator gets through without failing, for the examples.\<close>

definition runs :: "gstmt \<Rightarrow> bool" where
  "runs g \<longleftrightarrow> (\<forall>s. \<exists>s'. g s = Some s' \<and> cg_fault s' = cg_fault s)"

lemma runsD: "runs g \<Longrightarrow> \<exists>s'. g s = Some s' \<and> cg_fault s' = cg_fault s"
  by (simp add: runs_def)

lemma runs_in_scope: "runs g \<Longrightarrow> runs (in_scope g)"
  unfolding runs_def in_scope_def by (metis option.map(2) scope_same(1,4))

lemma runs_in_loop: "runs g \<Longrightarrow> runs (in_loop b g)"
  unfolding runs_def in_loop_def by (metis option.map(2) break_same(1,3))

lemma runs_comp: "runs f \<Longrightarrow> runs g \<Longrightarrow> runs (\<lambda>s. Option.bind (f s) g)"
  unfolding runs_def by (metis bind.bind_lunit)

lemma runs_plain: "(\<And>s. cg_fault (f s) = cg_fault s) \<Longrightarrow> runs (\<lambda>s. Some (f s))"
  by (simp add: runs_def)

lemma runs_forever:
  assumes "runs body"
  shows "runs (genFor n l [] None (\<lambda>s. Some s) body)"
  unfolding runs_def
proof
  fix s
  obtain condb s1 where 1: "new_block ''for.cond'' s = (condb, s1)" by fastforce
  obtain bodyb s2 where 2: "new_block ''for.body'' s1 = (bodyb, s2)" by fastforce
  obtain endb s3 where 3: "new_block ''for.end'' s2 = (endb, s3)" by fastforce
  let ?b = "set_block bodyb (emit0 (TBr bodyb) (set_block condb (emit0 (TBr condb) s3)))"
  obtain s6 where 6: "in_loop endb body ?b = Some s6" "cg_fault s6 = cg_fault ?b"
    using runsD [OF runs_in_loop [OF assms]] by blast
  show "\<exists>s'. genFor n l [] None (\<lambda>s. Some s) body s = Some s' \<and> cg_fault s' = cg_fault s"
    using new_block_same [OF 1] new_block_same [OF 2] new_block_same [OF 3] 6
    by (simp add: genFor_def Let_def 1 2 3)
qed

lemma fault_jumps [simp]:
  "cg_fault (genBreak l s) = cg_fault s" "cg_fault (genGoto x s) = cg_fault s" "cg_fault (genLabel l x s) = cg_fault s"
proof -
  have lab: "cg_fault (snd (getLabelBlock x s)) = cg_fault s"
    by (simp add: getLabelBlock_def Let_def case_prod_beta split: option.split)
  show "cg_fault (genBreak l s) = cg_fault s" by (simp add: genBreak_def Let_def split: list.split)
  show "cg_fault (genGoto x s) = cg_fault s" "cg_fault (genLabel l x s) = cg_fault s"
    using lab by (simp_all add: genGoto_def genLabel_def Let_def case_prod_beta)
qed

text \<open>\<open>for (;;) { break; goto x; x: }\<close>\<close>

definition demo_loop :: stmt where
  "demo_loop = SFor no_loc [] None [] (SBlock no_loc [SBreak no_loc, SGoto no_loc ''x'', SLabel no_loc ''x''])"

lemma runs_demo_loop: "runs (genStmt n demo_loop)"
proof -
  have "runs (genStmts n [SBreak no_loc, SGoto no_loc ''x'', SLabel no_loc ''x''])"
    by (simp add: runs_def)
  then have "runs (genFor n no_loc [] None (\<lambda>s. Some s) (in_scope (genStmts n [SBreak no_loc, SGoto no_loc ''x'', SLabel no_loc ''x''])))"
    by (intro runs_forever runs_in_scope)
  moreover have "genStmts n [] = (\<lambda>s. Some s)" by (rule ext) simp
  ultimately show ?thesis by (simp only: demo_loop_def genStmt_fun)
qed

lemma runs_codegen:
  assumes "runs (genStmt n b)"
  shows "\<exists>s ok. codegen (\<lambda>_ _. True) n False [] [] [IStmt b] = Some (s, ok) \<and> \<not> cg_fault s
    \<and> (\<exists>f fx. f \<in> set (cg_mfuns s) \<and> lf_body f = Some fx)"
proof -
  let ?i = "cg_init False [] []"
  obtain start s2 where 2: "new_function (LVoid, []) False ''__HC_startup'' ?i = (start, s2)" by fastforce
  have s2: "\<not> cg_fault s2" "length (cg_mfuns s2) = 1" "start = 0" using 2 by (auto simp: new_function_def cg_init_def)
  let ?b = "s2\<lparr>cg_fc := beginFn start RetVoid\<rparr>"
  obtain s3 where 3: "genStmt n b ?b = Some s3" "cg_fault s3 = cg_fault ?b" using runsD [OF assms] by blast
  have "good {} ?b" "\<not> cur_term ?b"
    using beginFn_inv [of start RetVoid] 2 by (auto simp: good_def cur_term_blk mod_ok_def new_function_def cg_init_def)
  from statement_flow [OF this 3(1)] 3(2) s2(1) have g: "good {} s3" "\<not> cur_term s3" "cg_keeps ?b s3" by simp_all
  then have "fx_fn (cg_fc s3) < length (cg_mfuns s3)" "cg_aot s3 = False"
    using s2(2,3) 2 by (auto simp: cg_keeps_def keeps0_def fx_keeps_def mf_keeps_def beginFn_def new_function_def cg_init_def)
  note f = finishFn_body [OF g(1,2) this(1)] finishFn_ok(3) [OF g(1,2)]
  have "gen_program n [IStmt b] ?i = Some (finishFn s3)"
    using 2 3 f(2) \<open>cg_aot s3 = False\<close> by (simp add: gen_program_def declare_item_def gen_item_def mf_keeps_def)
  then show ?thesis using f(1) 3(2) s2(1) by (auto simp: codegen_def finishFn_fault)
qed

lemma demo_start: "good {} (cg_init False [] [])" "\<not> cur_term (cg_init False [] [])"
  using beginFn_inv [of 0 RetVoid] by (simp_all add: good_def cur_term_blk mod_ok_def cg_init_def)

theorem statement_control_flow_witness:
  "\<exists>s'. genStmt 2 demo_loop (cg_init False [] []) = Some s' \<and> good {} s' \<and> \<not> cur_term s' \<and> cg_keeps (cg_init False [] []) s'"
proof -
  obtain s' where "genStmt 2 demo_loop (cg_init False [] []) = Some s'" "\<not> cg_fault s'"
    using runsD [OF runs_demo_loop, of 2 "cg_init False [] []"] by (auto simp: cg_init_def)
  then show ?thesis using statement_control_flow [OF demo_start, of 2 demo_loop s'] by blast
qed

text \<open>
  C10: In the module of every program, every block of every function has terminators at its end only, which
  go to blocks of the function; and when no diagnostic was given, every block has one.
\<close>

theorem control_flow_graph:
  assumes "codegen verify n aot st cls items = Some (s, ok)" and "\<not> cg_fault s"
    and "f \<in> set (cg_mfuns s)" and "lf_body f = Some fx"
  shows "blocks_wf fx \<and> (cg_errors s = [] \<longrightarrow> all_term fx)"
proof -
  have "gen_program n items (cg_init aot st cls) = Some s" using assms(1) by (auto simp: codegen_def bind_eq_Some_conv)
  from gen_program_ok(1) [OF this assms(2)] assms(3,4) show ?thesis by (auto simp: mod_ok_def)
qed

theorem control_flow_graph_witness:
  "\<exists>s ok f fx. codegen (\<lambda>_ _. True) 2 False [] [] [IStmt demo_loop] = Some (s, ok) \<and> f \<in> set (cg_mfuns s)
     \<and> lf_body f = Some fx \<and> blocks_wf fx"
proof -
  obtain s ok f fx where s: "codegen (\<lambda>_ _. True) 2 False [] [] [IStmt demo_loop] = Some (s, ok)" "\<not> cg_fault s"
    "f \<in> set (cg_mfuns s)" "lf_body f = Some fx"
    using runs_codegen [OF runs_demo_loop] by blast
  then show ?thesis using control_flow_graph [OF s] by blast
qed

text \<open>
  C19: The generator never gives the diagnostic \<open>start: front porch may not end in a jump\<close>: whatever ends
  the porch, the insertion point is in an open block again when the first case label is reached.
\<close>

theorem porch_diagnostic_is_dead:
  assumes "codegen verify n aot st cls items = Some (s, ok)" and "\<not> cg_fault s"
  shows "(l, ''start: front porch may not end in a jump'') \<notin> set (cg_errors s)"
proof -
  have "gen_program n items (cg_init aot st cls) = Some s" using assms(1) by (auto simp: codegen_def bind_eq_Some_conv)
  from gen_program_ok(2) [OF this assms(2)] show ?thesis by (auto simp: image_iff)
qed

text \<open>\<open>switch (0) { start: break; case 0: end: }\<close>\<close>

definition porch_jump :: stmt where
  "porch_jump = SSwitch no_loc False (EIntLit no_loc 0)
     (SBlock no_loc [SSubStart no_loc, SBreak no_loc, SCase no_loc (Some (EIntLit no_loc 0, None)), SSubEnd no_loc])"

lemma runs_case: "runs (genCaseLabel l (Some (EIntLit l2 0, None)))"
  unfolding runs_def
proof
  fix s
  obtain lo hi s1 where 1: "case_bounds l (Some (EIntLit l2 0, None)) s = Some (lo, hi, s1)" and 0: "lo = 0" "hi = 0"
    by (simp add: case_bounds_def case_lo_def case_hi_def slt_def Let_def)
  have v: "case_values lo hi = Some [0]" by (simp add: 0 case_values.simps slt_def)
  obtain bb s2 where 2: "new_block ''sw.case'' s1 = (bb, s2)" by fastforce
  show "\<exists>s'. genCaseLabel l (Some (EIntLit l2 0, None)) s = Some s' \<and> cg_fault s' = cg_fault s"
    using case_bounds_same [OF 1] new_block_same [OF 2]
    by (simp add: genCaseLabel_def 1 v 2 Let_def group_case_same)
qed

lemma runs_items:
  "runs (genItems n [])"
  "runs (switch_item b (genStmt n b)) \<Longrightarrow> runs (genItems n ss) \<Longrightarrow> runs (genItems n (b # ss))"
  by (simp add: runs_def) (simp only: genStmt_fun runs_comp)

lemma runs_switch:
  assumes "runs items"
  shows "runs (genSwitch (Suc n) l (EIntLit l2 v) items)"
  unfolding runs_def
proof
  fix s
  obtain exitb s3 where 3: "new_block ''sw.end'' s = (exitb, s3)" by fastforce
  obtain firstb s4 where 4: "new_block ''sw.dispatch'' s3 = (firstb, s4)" by fastforce
  let ?s6 = "startDeadBlock ''sw.preamble'' (push_break exitb (Some (new_swc firstb exitb))
      (emit0 (TSwitch (cI64 v) exitb []) (set_block firstb (emit0 (TBr firstb) s4))))"
  obtain s7 where 7: "in_scope items ?s6 = Some s7" "cg_fault s7 = cg_fault ?s6"
    using runsD [OF runs_in_scope [OF assms]] by blast
  have "genSwitch (Suc n) l (EIntLit l2 v) items s = Some (close_switch l exitb s7)"
    using 7(1) by (simp add: genSwitch_def convert_def to_int_def ptrToI64_def tyI64_def tyInt_def Let_def 3 4 close_switch_def)
  then show "\<exists>s'. genSwitch (Suc n) l (EIntLit l2 v) items s = Some s' \<and> cg_fault s' = cg_fault s"
    using 7(2) new_block_same [OF 3] new_block_same [OF 4] by simp
qed

lemma runs_porch_jump: "runs (genStmt (Suc n) porch_jump)"
proof -
  have fault: "cg_fault (genSubStart l s) = cg_fault s" "cg_fault (genSubEnd l s) = cg_fault s" for l s
    by (simp_all add: genSubStart_def genSubEnd_def Let_def case_prod_beta)
  let ?items = "[SSubStart no_loc, SBreak no_loc, SCase no_loc (Some (EIntLit no_loc 0, None)), SSubEnd no_loc]"
  have "runs (genItems (Suc n) ?items)"
    using runs_case by (intro runs_items) (simp_all add: runs_def fault)
  from runs_switch [OF this] show ?thesis by (simp add: porch_jump_def genStmt_fun del: genItems.simps)
qed

theorem porch_diagnostic_is_dead_witness:
  "\<exists>s ok. codegen (\<lambda>_ _. True) 2 False [] [] [IStmt porch_jump] = Some (s, ok)
     \<and> (no_loc, ''start: front porch may not end in a jump'') \<notin> set (cg_errors s)"
proof -
  obtain s ok where s: "codegen (\<lambda>_ _. True) 2 False [] [] [IStmt porch_jump] = Some (s, ok)" "\<not> cg_fault s"
    using runs_codegen [OF runs_porch_jump [of 1]] by (auto simp: numeral_2_eq_2)
  then show ?thesis using porch_diagnostic_is_dead [OF s] by blast
qed

subsection \<open>Default arguments\<close>




end
