(* ===== verification/HC_IrTypes.thy ===== *)
theory HC_IrTypes
  imports HC_GenTop
begin

text \<open>
  The types of the generated code: every instruction gets operands of the types it takes, calls match the
  functions they call, and returns match the function they leave. This theory holds the invariant of the
  generator's state and shows that the builder and the helpers of \<open>HC_GenBase\<close> keep it.
\<close>

subsection \<open>Types, expressions and classes of the program\<close>

text \<open>An integer type has at most eight bytes, as all types have that the parser builds.\<close>

fun ok_ty :: "ty \<Rightarrow> bool"
  and ok_fparam :: "fparam \<Rightarrow> bool"
  and ok_expr :: "expr \<Rightarrow> bool" where
  "ok_ty TyVoid = True"
| "ok_ty (TyInt n _) = (n \<le> 8)"
| "ok_ty TyF64 = True"
| "ok_ty (TyPtr t) = ok_ty t"
| "ok_ty (TyArray t _) = ok_ty t"
| "ok_ty (TyClass _) = True"
| "ok_ty (TyFunc r ps _) = (ok_ty r \<and> (\<forall>p \<in> set ps. ok_fparam p))"
| "ok_fparam (FParam _ t d _ _) = (ok_ty t \<and> (case d of None \<Rightarrow> True | Some e \<Rightarrow> ok_expr e))"
| "ok_expr (EUnary _ _ _ k) = ok_expr k"
| "ok_expr (EBinary _ _ k1 k2) = (ok_expr k1 \<and> ok_expr k2)"
| "ok_expr (EChainCmp _ k ks) = (ok_expr k \<and> (\<forall>x \<in> set ks. ok_expr (snd x)))"
| "ok_expr (EAssign _ _ k1 k2) = (ok_expr k1 \<and> ok_expr k2)"
| "ok_expr (ECall _ k as) = (ok_expr k \<and> (\<forall>a \<in> set as. case a of None \<Rightarrow> True | Some e \<Rightarrow> ok_expr e))"
| "ok_expr (EIndex _ k1 k2) = (ok_expr k1 \<and> ok_expr k2)"
| "ok_expr (EMember _ _ k _) = ok_expr k"
| "ok_expr (ECast _ t k) = (ok_ty t \<and> ok_expr k)"
| "ok_expr (ESizeofExpr _ k) = ok_expr k"
| "ok_expr (EInitList _ ks) = (\<forall>k \<in> set ks. ok_expr k)"
| "ok_expr _ = True"

definition ok_class :: "classinfo \<Rightarrow> bool" where
  "ok_class c \<longleftrightarrow> (\<forall>m \<in> set (ci_members c). ok_ty (cm_type m)) \<and> (\<forall>t. ci_wholeType c = Some t \<longrightarrow> ok_ty t)"

definition ok_store :: "store \<Rightarrow> bool" where
  "ok_store st \<longleftrightarrow> (\<forall>c \<in> set st. ok_class c)"

lemma ok_consts [simp]:
  "ok_ty tyVoid" "ok_ty tyI64" "ok_ty tyU64" "ok_ty tyU8" "ok_ty tyF64" "ok_ty (tyPtr t) = ok_ty t"
  "ok_ty (tyArray t len) = ok_ty t" "ok_ty (tyInt n u) = (n \<le> 8)"
  by (simp_all add: tyVoid_def tyI64_def tyU64_def tyU8_def tyF64_def tyPtr_def tyArray_def tyInt_def)

lemma ok_pointee [simp]: "ok_ty t \<Longrightarrow> ok_ty (pointee t)"
  by (cases t) simp_all

lemma ok_byte_if_void [simp]: "ok_ty t \<Longrightarrow> ok_ty (byte_if_void t)"
  by (simp add: byte_if_void_def)

lemma ok_subIntType: "subIntType n = Some t \<Longrightarrow> ok_ty t"
  by (auto simp: subIntType_def split: if_splits)

lemma ok_fun_ret [simp]: "ok_ty t \<Longrightarrow> ok_ty (fun_ret t)"
  by (cases t) simp_all

lemma ok_fun_params: "ok_ty t \<Longrightarrow> p \<in> set (fun_params t) \<Longrightarrow> ok_fparam p"
  by (cases t) simp_all

lemma ok_param_type [simp]: "ok_fparam p \<Longrightarrow> ok_ty (param_type p)"
  by (cases p) simp

lemma ok_param_dflt: "ok_fparam p \<Longrightarrow> param_dflt p = Some e \<Longrightarrow> ok_expr e"
  by (cases p) simp

lemma class_at_ok: "ok_store st \<Longrightarrow> class_at st c = Some ci \<Longrightarrow> ok_class ci"
  by (auto simp: ok_store_def class_at_def split: if_splits)

lemma findMember_ok: "ok_store st \<Longrightarrow> findMember st k c n = Some (Some m) \<Longrightarrow> ok_ty (cm_type m)"
proof (induction k arbitrary: c)
  case (Suc k)
  then obtain ci where ci: "class_at st c = Some ci" by (auto split: option.splits)
  show ?case
  proof (cases "find (\<lambda>m. cm_name m = n) (ci_members ci)")
    case None
    then show ?thesis using Suc ci by (auto split: option.splits)
  next
    case (Some x)
    then have "x \<in> set (ci_members ci)" by (auto simp: find_Some_iff)
    moreover have "x = m" using Some Suc.prems(2) ci by simp
    ultimately have "m \<in> set (ci_members ci)" by simp
    then show ?thesis using class_at_ok [OF Suc.prems(1) ci] by (auto simp: ok_class_def)
  qed
qed simp

lemma whole_type_ok: "ok_store st \<Longrightarrow> ok_ty t \<Longrightarrow> whole_type st k t = Some w \<Longrightarrow> ok_ty w"
proof (induction k arbitrary: t)
  case (Suc k)
  show ?case
  proof (cases t)
    case (TyClass c)
    then show ?thesis using Suc class_at_ok [OF Suc.prems(1), of c]
      by (auto simp: ok_class_def split: option.splits)
  qed (use Suc in auto)
qed simp

subsection \<open>Typed code\<close>

text \<open>A return gives what the function returns.\<close>

fun ret_ok :: "lty \<Rightarrow> instr \<Rightarrow> bool" where
  "ret_ok rt (TRet None) = (rt = LVoid)"
| "ret_ok rt (TRet (Some v)) = (val_ty v = rt)"
| "ret_ok rt _ = True"

definition code_ok :: "(nat \<Rightarrow> (lty \<times> lty list) option) \<Rightarrow> lty \<Rightarrow> fnctx \<Rightarrow> bool" where
  "code_ok fty rt fx \<longleftrightarrow> (\<forall>bl \<in> set (fx_blocks fx). \<forall>c \<in> set (bl_code bl). instr_ok fty (snd c) \<and> ret_ok rt (snd c))"

text \<open>Every function of the module that has a body.\<close>

definition module_typed :: "lfun list \<Rightarrow> bool" where
  "module_typed fs \<longleftrightarrow> (\<forall>f \<in> set fs. \<forall>fx. lf_body f = Some fx \<longrightarrow>
     code_ok (\<lambda>k. if k < length fs then Some (lf_type (fs ! k)) else None) (fst (lf_type f)) fx)"

definition ret_lty :: "retkind \<Rightarrow> lty" where
  "ret_lty r = (case r of RetVoid \<Rightarrow> LVoid | RetF64 \<Rightarrow> LF64 | RetInt \<Rightarrow> LI64)"

text \<open>The functions of the runtime that the generator calls by name. The code gives their types where it
  calls them, and takes a function of the module that has the name already.\<close>

definition rt_sigs :: "(string \<times> lty \<times> lty list) list" where
  "rt_sigs = [(''HC_Pow'', LF64, [LF64, LF64]), (''HC_PowI64'', LI64, [LI64, LI64]), (''HC_TryPush'', LPtr, [LPtr]),
     (''HC_TryPop'', LVoid, []), (''HC_CatchEnter'', LVoid, []), (''HC_CatchDone'', LVoid, []),
     (''setjmp'', LI32, [LPtr]), (''HC_RtInit'', LVoid, [LI64, LPtr])]"

subsection \<open>The invariant\<close>

definition ok_var :: "varsym \<Rightarrow> bool" where
  "ok_var v \<longleftrightarrow> val_ty (vs_addr v) = LPtr \<and> ok_ty (vs_type v)"

definition ok_vars :: "(string \<times> varsym) list \<Rightarrow> bool" where
  "ok_vars vs \<longleftrightarrow> (\<forall>x \<in> set vs. ok_var (snd x))"

definition ok_funsym :: "cg \<Rightarrow> funcsym \<Rightarrow> bool" where
  "ok_funsym s f \<longleftrightarrow> ok_ty (fs_type f) \<and> (\<exists>k. fs_fn f = Some k \<and> fun_type s k = Some (llvmFnType (fs_type f)))"

definition ok_swc :: "swctx option \<Rightarrow> bool" where
  "ok_swc x \<longleftrightarrow> (\<forall>c. x = Some c \<longrightarrow> sc_inGroup c \<longrightarrow> val_ty (sc_groupSel c) = LPtr)"

definition ok_ctx :: "fnctx \<Rightarrow> bool" where
  "ok_ctx fx \<longleftrightarrow> (\<forall>sc \<in> set (fx_scopes fx). ok_vars sc) \<and> (\<forall>x \<in> set (fx_breaks fx). ok_swc (snd x))"

definition ok_env :: "cg \<Rightarrow> bool" where
  "ok_env s \<longleftrightarrow> ok_store (cg_store s) \<and> ok_ctx (cg_fc s) \<and> ok_vars (cg_globals s)
     \<and> (\<forall>x \<in> set (cg_funcs s). ok_funsym s (snd x))
     \<and> (\<forall>f \<in> set (cg_mfuns s). \<forall>x \<in> set rt_sigs. lf_name f = Some (fst x) \<longrightarrow> lf_type f = snd x)"

text \<open>What is known of a state: types of functions, the current function, what it returns and where its breaks
  go, and whether a fault has happened before.\<close>

record tctx =
  tc_funs :: "(nat \<times> lty \<times> lty list) set"
  tc_fn :: nat
  tc_ret :: retkind
  tc_breaks :: "(nat \<times> swctx option) list"
  tc_fault :: bool

definition wt :: "tctx \<Rightarrow> cg \<Rightarrow> bool" where
  "wt p s \<longleftrightarrow> ok_env s \<and> (\<forall>x \<in> tc_funs p. fun_type s (fst x) = Some (snd x))
     \<and> fx_fn (cg_fc s) = tc_fn p \<and> fx_ret (cg_fc s) = tc_ret p \<and> fx_breaks (cg_fc s) = tc_breaks p
     \<and> (tc_fault p \<longrightarrow> cg_fault s)
     \<and> (cg_fault s \<or> code_ok (fun_type s) (ret_lty (tc_ret p)) (cg_fc s) \<and> module_typed (cg_mfuns s))"

definition knows :: "nat \<Rightarrow> lty \<times> lty list \<Rightarrow> tctx \<Rightarrow> tctx" where
  "knows k t p = p\<lparr>tc_funs := insert (k, t) (tc_funs p)\<rparr>"

lemma wt_knows: "wt (knows k t p) s \<longleftrightarrow> wt p s \<and> fun_type s k = Some t"
  by (auto simp: wt_def knows_def)

lemma wt_store: "wt p s \<Longrightarrow> ok_store (cg_store s)"
  by (simp add: wt_def ok_env_def)

lemma instr_ok_mono:
  assumes "instr_ok fty i" and "\<And>k t. fty k = Some t \<Longrightarrow> fty' k = Some t"
  shows "instr_ok fty' i"
  using assms by (cases i) (auto split: val.splits)

lemma code_ok_mono: "code_ok fty rt fx \<Longrightarrow> (\<And>k t. fty k = Some t \<Longrightarrow> fty' k = Some t) \<Longrightarrow> code_ok fty' rt fx"
  unfolding code_ok_def using instr_ok_mono by blast

lemma fun_type_eq: "fun_type s = (\<lambda>k. if k < length (cg_mfuns s) then Some (lf_type (cg_mfuns s ! k)) else None)"
  by (simp add: fun_type_def fun_eq_iff)

subsection \<open>The builder\<close>

text \<open>Steps that leave the functions of the module and the symbols alone.\<close>

lemma fun_type_cong: "cg_mfuns s' = cg_mfuns s \<Longrightarrow> fun_type s' = fun_type s"
  by (simp add: fun_type_def fun_eq_iff)

lemma ok_env_cong:
  assumes "ok_env s" and "cg_mfuns s' = cg_mfuns s" and "cg_store s' = cg_store s" and "cg_funcs s' = cg_funcs s"
    and "ok_ctx (cg_fc s')" and "ok_vars (cg_globals s')"
  shows "ok_env s'"
  using assms by (simp add: ok_env_def ok_funsym_def fun_type_cong [OF assms(2)])

lemma wt_cong:
  assumes "wt p s" and "cg_mfuns s' = cg_mfuns s" and "cg_store s' = cg_store s" and "cg_funcs s' = cg_funcs s"
    and "ok_ctx (cg_fc s')" and "ok_vars (cg_globals s')" and "cg_fault s \<Longrightarrow> cg_fault s'"
    and "fx_fn (cg_fc s') = tc_fn p" and "fx_ret (cg_fc s') = tc_ret p" and "fx_breaks (cg_fc s') = tc_breaks p"
    and "\<not> cg_fault s' \<Longrightarrow> code_ok (fun_type s) (ret_lty (tc_ret p)) (cg_fc s) \<Longrightarrow> code_ok (fun_type s) (ret_lty (tc_ret p)) (cg_fc s')"
  shows "wt p s'"
  using assms ok_env_cong [of s s'] fun_type_cong [OF assms(2)] by (auto simp: wt_def)

lemma code_ok_update:
  assumes "code_ok fty rt fx" and "b < length (fx_blocks fx) \<Longrightarrow> \<forall>c \<in> set (bl_code bl). instr_ok fty (snd c) \<and> ret_ok rt (snd c)"
  shows "code_ok fty rt (fx\<lparr>fx_blocks := (fx_blocks fx)[b := bl]\<rparr>)"
proof (cases "b < length (fx_blocks fx)")
  case True
  have "set ((fx_blocks fx)[b := bl]) \<subseteq> insert bl (set (fx_blocks fx))" by (rule set_update_subset_insert)
  then show ?thesis using assms True by (auto simp: code_ok_def)
next
  case False
  then show ?thesis using assms(1) by (simp add: list_update_beyond)
qed

lemma code_ok_block: "code_ok fty rt fx \<Longrightarrow> b < length (fx_blocks fx) \<Longrightarrow> c \<in> set (bl_code (fx_blocks fx ! b))
    \<Longrightarrow> instr_ok fty (snd c) \<and> ret_ok rt (snd c)"
  unfolding code_ok_def using nth_mem by blast

lemma code_ok_add_code:
  "code_ok fty rt fx \<Longrightarrow> instr_ok fty (snd i) \<Longrightarrow> ret_ok rt (snd i) \<Longrightarrow> code_ok fty rt (add_code b i fx)"
  unfolding add_code_def by (rule code_ok_update) (auto dest: code_ok_block)

lemma add_code_same [simp]: "fx_fn (add_code b i fx) = fx_fn fx" "fx_ret (add_code b i fx) = fx_ret fx"
  "fx_breaks (add_code b i fx) = fx_breaks fx"
  by (simp_all add: add_code_def)

lemma code_ok_frame [simp]:
  "code_ok fty rt (fx\<lparr>fx_next := k\<rparr>) = code_ok fty rt fx" "code_ok fty rt (fx\<lparr>fx_allocas := al\<rparr>) = code_ok fty rt fx"
  "code_ok fty rt (fx\<lparr>fx_scopes := sc\<rparr>) = code_ok fty rt fx" "code_ok fty rt (fx\<lparr>fx_localNames := ns\<rparr>) = code_ok fty rt fx"
  "code_ok fty rt (fx\<lparr>fx_cur := c\<rparr>) = code_ok fty rt fx" "code_ok fty rt (fx\<lparr>fx_breaks := bs\<rparr>) = code_ok fty rt fx"
  "code_ok fty rt (fx\<lparr>fx_labelsDefined := ns\<rparr>) = code_ok fty rt fx" "code_ok fty rt (fx\<lparr>fx_labels := ls\<rparr>) = code_ok fty rt fx"
  by (simp_all add: code_ok_def)

lemma ok_ctx_frame [simp]:
  "ok_ctx (fx\<lparr>fx_next := k\<rparr>) = ok_ctx fx" "ok_ctx (fx\<lparr>fx_allocas := al\<rparr>) = ok_ctx fx"
  "ok_ctx (fx\<lparr>fx_localNames := ns\<rparr>) = ok_ctx fx" "ok_ctx (fx\<lparr>fx_cur := c\<rparr>) = ok_ctx fx"
  "ok_ctx (fx\<lparr>fx_labelsDefined := ns\<rparr>) = ok_ctx fx" "ok_ctx (fx\<lparr>fx_labels := ls\<rparr>) = ok_ctx fx"
  "ok_ctx (fx\<lparr>fx_blocks := bl\<rparr>) = ok_ctx fx" "ok_ctx (add_code b i fx) = ok_ctx fx"
  by (simp_all add: ok_ctx_def add_code_def)

lemma wt_ctx: "wt p s \<Longrightarrow> ok_ctx (cg_fc s)" "wt p s \<Longrightarrow> ok_vars (cg_globals s)"
  by (simp_all add: wt_def ok_env_def)

lemma wt_fx: "wt p s \<Longrightarrow> fx_fn (cg_fc s) = tc_fn p" "wt p s \<Longrightarrow> fx_ret (cg_fc s) = tc_ret p"
  "wt p s \<Longrightarrow> fx_breaks (cg_fc s) = tc_breaks p"
  by (simp_all add: wt_def)

definition fits :: "tctx \<Rightarrow> cg \<Rightarrow> instr \<Rightarrow> bool" where
  "fits p s i \<longleftrightarrow> cg_fault s \<or> instr_ok (fun_type s) i \<and> ret_ok (ret_lty (tc_ret p)) i"

lemma wt_emit [simp]: "wt p s \<Longrightarrow> fits p s i \<Longrightarrow> wt p (snd (emit i s))"
  by (rule wt_cong [of p s]) (auto simp: emit_def Let_def wt_ctx wt_fx fits_def code_ok_add_code)

lemma val_ty_emit [simp]: "val_ty (fst (emit i s)) = instr_ty i"
  by (simp add: emit_def Let_def)

lemma wt_emit0 [simp]: "wt p s \<Longrightarrow> fits p s i \<Longrightarrow> wt p (emit0 i s)"
  by (simp add: emit0_def)

lemma wt_emit_at [simp]: "wt p s \<Longrightarrow> fits p s i \<Longrightarrow> wt p (emit_at b i s)"
  by (rule wt_cong [of p s]) (auto simp: emit_at_def upd_fc_def wt_ctx wt_fx fits_def code_ok_add_code)

lemma wt_fault [simp]: "wt p s \<Longrightarrow> wt p (s\<lparr>cg_fault := True\<rparr>)"
  by (rule wt_cong [of p s]) (auto simp: wt_ctx wt_fx)

lemma wt_error [simp]: "wt p s \<Longrightarrow> wt p (cg_error l m s)"
  by (rule wt_cong [of p s]) (auto simp: cg_error_def wt_ctx wt_fx)

lemma wt_entryAlloca [simp]: "wt p s \<Longrightarrow> wt p (snd (entryAlloca t n s))"
  by (rule wt_cong [of p s]) (auto simp: entryAlloca_def Let_def wt_ctx wt_fx)

lemma val_ty_entryAlloca [simp]: "val_ty (fst (entryAlloca t n s)) = LPtr"
  by (simp add: entryAlloca_def Let_def)

lemma wt_new_global [simp]: "wt p s \<Longrightarrow> wt p (snd (new_global g s))"
  by (rule wt_cong [of p s]) (auto simp: new_global_def wt_ctx wt_fx)

lemma wt_new_block [simp]: "wt p s \<Longrightarrow> wt p (snd (new_block n s))"
  by (rule wt_cong [of p s]) (auto simp: new_block_def upd_fc_def wt_ctx wt_fx code_ok_def)

lemma wt_set_block [simp]: "wt p s \<Longrightarrow> wt p (set_block b s)"
  by (rule wt_cong [of p s]) (auto simp: set_block_def upd_fc_def wt_ctx wt_fx)

lemma wt_startDeadBlock [simp]: "wt p s \<Longrightarrow> wt p (startDeadBlock n s)"
  by (simp add: startDeadBlock_def case_prod_beta)

lemma fits_br [simp]: "fits p s (TBr b)"
  by (simp add: fits_def)

lemma wt_br_open [simp]: "wt p s \<Longrightarrow> wt p (br_open b s)"
  by (simp add: br_open_def)

subsection \<open>Functions\<close>

lemma fun_type_new_function:
  "fun_type (snd (new_function t i n s)) k = (if k = length (cg_mfuns s) then Some t else fun_type s k)"
  by (auto simp: new_function_def fun_type_def nth_append)

lemma fun_type_grows: "fun_type s k = Some u \<Longrightarrow> fun_type (snd (new_function t i n s)) k = Some u"
  by (auto simp: new_function_def fun_type_def nth_append split: if_splits)

lemma fst_new_function [simp]: "fun_type (snd (new_function t i n s)) (fst (new_function t i n s)) = Some t"
  by (simp add: new_function_def fun_type_def)

definition rt_name_ok :: "string \<Rightarrow> lty \<times> lty list \<Rightarrow> bool" where
  "rt_name_ok n t \<longleftrightarrow> (\<forall>x \<in> set rt_sigs. fst x = n \<longrightarrow> snd x = t)"

lemma module_typed_new:
  assumes "module_typed fs" and "lf_body f = None"
  shows "module_typed (fs @ [f])"
  unfolding module_typed_def
proof (intro ballI allI impI)
  fix g fx assume g: "g \<in> set (fs @ [f])" "lf_body g = Some fx"
  then have "g \<in> set fs" using assms(2) by auto
  then have "code_ok (\<lambda>k. if k < length fs then Some (lf_type (fs ! k)) else None) (fst (lf_type g)) fx"
    using assms(1) g(2) by (simp add: module_typed_def)
  then show "code_ok (\<lambda>k. if k < length (fs @ [f]) then Some (lf_type ((fs @ [f]) ! k)) else None) (fst (lf_type g)) fx"
    by (rule code_ok_mono) (auto simp: nth_append split: if_splits)
qed

lemma wt_new_function [simp]:
  assumes "wt p s" and "rt_name_ok n t"
  shows "wt p (snd (new_function t i n s))"
proof -
  let ?s = "snd (new_function t i n s)"
  have same: "cg_store ?s = cg_store s" "cg_fc ?s = cg_fc s" "cg_globals ?s = cg_globals s" "cg_funcs ?s = cg_funcs s"
    "cg_fault ?s = cg_fault s"
    and mf: "cg_mfuns ?s = cg_mfuns s @ [\<lparr>lf_name = (if name_taken n s then None else Some n), lf_type = t, lf_internal = i, lf_body = None\<rparr>]"
    by (simp_all add: new_function_def)
  have "ok_env ?s"
    using assms by (fastforce simp: wt_def ok_env_def ok_funsym_def same mf rt_name_ok_def intro: fun_type_grows)
  moreover have "fun_type ?s (fst x) = Some (snd x)" if "x \<in> tc_funs p" for x
    using assms(1) that by (simp add: wt_def fun_type_grows)
  moreover have "code_ok (fun_type s) rt fx \<Longrightarrow> code_ok (fun_type ?s) rt fx" for rt fx
    by (erule code_ok_mono) (rule fun_type_grows)
  ultimately show ?thesis using assms(1) by (auto simp: wt_def same mf module_typed_new)
qed

lemma fun_index_Some: "fun_index n fs = Some k \<Longrightarrow> k < length fs \<and> lf_name (fs ! k) = Some n"
  by (auto simp: fun_index_def find_Some_iff)

lemma rt_unique: "(n, t) \<in> set rt_sigs \<Longrightarrow> rt_name_ok n t"
  by (auto simp: rt_name_ok_def rt_sigs_def)

lemma wt_getRT:
  assumes "wt p s" and "(n, ret, as) \<in> set rt_sigs"
  shows "wt (knows (fst (getRT n ret as s)) (ret, as) p) (snd (getRT n ret as s))"
proof (cases "getFunction n s")
  case None
  then show ?thesis using assms by (simp add: getRT_def wt_knows rt_unique)
next
  case (Some k)
  then have k: "k < length (cg_mfuns s)" "lf_name (cg_mfuns s ! k) = Some n"
    using fun_index_Some by (auto simp: getFunction_def)
  then have "cg_mfuns s ! k \<in> set (cg_mfuns s)" by simp
  then have "lf_type (cg_mfuns s ! k) = (ret, as)"
    using assms k(2) by (fastforce simp: wt_def ok_env_def)
  then show ?thesis using assms k(1) Some by (simp add: getRT_def wt_knows fun_type_def)
qed

end
