(* ===== verification/HC_ExprTypes.thy ===== *)
theory HC_ExprTypes
  imports HC_IrTypes
begin

text \<open>
  Typed code from expressions: \<open>genExpr\<close> and everything below it keeps the invariant of \<open>HC_IrTypes\<close>,
  yields rvalues that are \<open>i64\<close> or \<open>double\<close>, and addresses that are pointers.
\<close>

subsection \<open>Rvalues and lvalues\<close>

definition ok_rv :: "rv \<Rightarrow> bool" where
  "ok_rv r \<longleftrightarrow> ok_ty (snd r) \<and> (\<forall>v. fst r = Some v \<longrightarrow> val_ty v = LI64 \<or> val_ty v = LF64)"

definition ok_lv :: "lv \<Rightarrow> bool" where
  "ok_lv l \<longleftrightarrow> (\<forall>a t. l = Some (a, t) \<longrightarrow> val_ty a = LPtr \<and> ok_ty t)"

lemma ok_rv_simps [simp]:
  "ok_rv (None, t) = ok_ty t" "ok_rv (Some v, t) = (ok_ty t \<and> (val_ty v = LI64 \<or> val_ty v = LF64))"
  by (auto simp: ok_rv_def)

lemma ok_lv_simps [simp]: "ok_lv None" "ok_lv (Some (a, t)) = (val_ty a = LPtr \<and> ok_ty t)"
  by (auto simp: ok_lv_def)

lemma ok_rv_ty [simp]: "ok_rv r \<Longrightarrow> ok_ty (snd r)"
  by (simp add: ok_rv_def)

lemma ok_rv_pair [dest]: "ok_rv (v, t) \<Longrightarrow> ok_ty t"
  by (simp add: ok_rv_def)

subsection \<open>Results of generators\<close>

definition res :: "tctx \<Rightarrow> ('a \<Rightarrow> bool) \<Rightarrow> ('a \<times> cg) option \<Rightarrow> bool" where
  "res p R m \<longleftrightarrow> (\<forall>x s. m = Some (x, s) \<longrightarrow> R x \<and> wt p s)"

definition sres :: "tctx \<Rightarrow> cg option \<Rightarrow> bool" where
  "sres p m \<longleftrightarrow> (\<forall>s. m = Some s \<longrightarrow> wt p s)"

lemma res_None [simp]: "res p R None"
  by (simp add: res_def)

lemma sres_None [simp]: "sres p None"
  by (simp add: sres_def)

lemma res_Some [simp]: "res p R (Some (x, s)) \<longleftrightarrow> R x \<and> wt p s"
  by (auto simp: res_def)

lemma res_Some_if [simp]: "res p R (Some (if b then x else y)) = (if b then res p R (Some x) else res p R (Some y))"
  by simp

lemma res_SomeI: "R (fst x) \<Longrightarrow> wt p (snd x) \<Longrightarrow> res p R (Some x)"
  by (cases x) simp

lemma sres_Some [simp]: "sres p (Some s) \<longleftrightarrow> wt p s"
  by (simp add: sres_def)

lemma res_bind: "res p Q m \<Longrightarrow> (\<And>x s. Q x \<Longrightarrow> wt p s \<Longrightarrow> res p R (g x s)) \<Longrightarrow> res p R (Option.bind m (\<lambda>(x, s). g x s))"
  by (cases m) (auto simp: res_def)

lemma res_sbind: "sres p m \<Longrightarrow> (\<And>s. wt p s \<Longrightarrow> res p R (g s)) \<Longrightarrow> res p R (Option.bind m g)"
  by (cases m) (auto simp: res_def sres_def)

lemma sres_bind: "res p Q m \<Longrightarrow> (\<And>x s. Q x \<Longrightarrow> wt p s \<Longrightarrow> sres p (g x s)) \<Longrightarrow> sres p (Option.bind m (\<lambda>(x, s). g x s))"
  by (cases m) (auto simp: res_def sres_def)

lemma sres_sbind: "sres p m \<Longrightarrow> (\<And>s. wt p s \<Longrightarrow> sres p (g s)) \<Longrightarrow> sres p (Option.bind m g)"
  by (cases m) (auto simp: sres_def)

lemma res_obind: "(\<And>t. m = Some t \<Longrightarrow> res p R (g t)) \<Longrightarrow> res p R (Option.bind m g)"
  by (cases m) auto

lemma sres_obind: "(\<And>t. m = Some t \<Longrightarrow> sres p (g t)) \<Longrightarrow> sres p (Option.bind m g)"
  by (cases m) auto

text \<open>A step that cannot fail: its value stays in terms of the step, its state becomes a new one.\<close>

lemma res_let: "wt p (snd f) \<Longrightarrow> (\<And>s. wt p s \<Longrightarrow> res p R (g (fst f) s)) \<Longrightarrow> res p R (case f of (x, s) \<Rightarrow> g x s)"
  by (cases f) simp

lemma sres_let: "wt p (snd f) \<Longrightarrow> (\<And>s. wt p s \<Longrightarrow> sres p (g (fst f) s)) \<Longrightarrow> sres p (case f of (x, s) \<Rightarrow> g x s)"
  by (cases f) simp

lemma wt_let: "wt p (snd f) \<Longrightarrow> (\<And>s. wt p s \<Longrightarrow> wt p (snd (g (fst f) s))) \<Longrightarrow> wt p (snd (case f of (x, s) \<Rightarrow> g x s))"
  by (cases f) simp

lemma wt_slet: "wt p (snd f) \<Longrightarrow> (\<And>s. wt p s \<Longrightarrow> wt p (g (fst f) s)) \<Longrightarrow> wt p (case f of (x, s) \<Rightarrow> g x s)"
  by (cases f) simp

lemma res_Some_let:
  "wt p (snd f) \<Longrightarrow> (\<And>s. wt p s \<Longrightarrow> res p R (Some (g (fst f) s))) \<Longrightarrow> res p R (Some (case f of (x, s) \<Rightarrow> g x s))"
  by (cases f) simp

lemmas lets = res_let sres_let wt_let wt_slet res_Some_let

text \<open>A function of the runtime, known from here on.\<close>

lemma res_knows: "res (knows k t p) R m \<Longrightarrow> res p R m"
  by (auto simp: res_def wt_knows)

lemma wt_call [simp]:
  assumes "wt p s" and "(k, t, map val_ty vs) \<in> tc_funs p"
  shows "wt p (snd (emit (ICall (VFun k) t vs) s))"
proof -
  have "fun_type s k = Some (t, map val_ty vs)" using assms by (auto simp: wt_def)
  then show ?thesis using assms by (simp add: fits_def)
qed

lemma wt_call0 [simp]: "wt p s \<Longrightarrow> (k, t, map val_ty vs) \<in> tc_funs p \<Longrightarrow> wt p (emit0 (ICall (VFun k) t vs) s)"
  by (simp add: emit0_def)

lemma knows_funs [simp]: "x \<in> tc_funs (knows k t p) \<longleftrightarrow> x = (k, t) \<or> x \<in> tc_funs p"
  by (simp add: knows_def)

lemma tc_ret_knows [simp]: "tc_ret (knows k t p) = tc_ret p"
  by (simp add: knows_def)

subsection \<open>Conversions\<close>

lemma wt_asPtr [simp]: "wt p s \<Longrightarrow> wt p (snd (asPtr v s))"
  by (auto simp: asPtr_def fits_def split: option.split)

lemma asPtr_ty [simp]: "val_ty (fst (asPtr v s)) = LPtr"
  by (simp add: asPtr_def split: option.split)

lemma wt_ptrToI64 [simp]: "wt p s \<Longrightarrow> wt p (snd (ptrToI64 v s))"
  by (simp add: ptrToI64_def fits_def)

lemma ptrToI64_ty [simp]: "val_ty (fst (ptrToI64 v s)) = (if val_ty v = LPtr then LI64 else val_ty v)"
  by (simp add: ptrToI64_def)

lemma wt_widen: "wt p s \<Longrightarrow> val_ty v = memTy st t \<Longrightarrow> ok_ty t \<Longrightarrow> \<not> isAggregate t \<Longrightarrow> wt p (snd (widen v t s))"
  by (cases t) (auto simp: widen_def fits_def split: bool.split)

lemma widen_ty: "val_ty v = memTy st t \<Longrightarrow> val_ty (fst (widen v t s)) = value_type t"
  by (cases t) (auto simp: widen_def value_type_def split: bool.split)

lemma wt_to_double [simp]: "wt p s \<Longrightarrow> val_ty v = LI64 \<Longrightarrow> wt p (snd (to_double v t s))"
  by (simp add: to_double_def ptrToI64_def fits_def)

lemma to_double_ty [simp]: "val_ty (fst (to_double v t s)) = LF64"
  by (simp add: to_double_def case_prod_beta)

lemma wt_to_int [simp]: "wt p s \<Longrightarrow> wt p (snd (to_int v s))"
  by (simp add: to_int_def fits_def)

lemma to_int_ty [simp]: "val_ty v = LI64 \<or> val_ty v = LF64 \<Longrightarrow> val_ty (fst (to_int v s)) = LI64"
  by (auto simp: to_int_def)

lemma wt_narrow [simp]: "wt p s \<Longrightarrow> val_ty v = LI64 \<Longrightarrow> wt p (snd (narrow t v s))"
  by (cases t) (auto simp: narrow_def fits_def Let_def intro!: lets)

lemma narrow_ty [simp]: "val_ty v = LI64 \<Longrightarrow> val_ty (fst (narrow t v s)) = LI64"
  by (cases t) (auto simp: narrow_def case_prod_beta)

lemma wt_convert [simp]: "wt p s \<Longrightarrow> ok_rv r \<Longrightarrow> wt p (snd (convert r t b s))"
  by (cases r; cases "fst r") (auto simp: convert_def Let_def intro!: lets)

lemma convert_ty [simp]: "ok_rv r \<Longrightarrow> val_ty (fst (convert r t b s)) = value_type t"
  by (cases r; cases "fst r") (auto simp: convert_def value_type_def case_prod_beta)

lemma value_type_simps [simp]: "value_type tyF64 = LF64" "value_type tyI64 = LI64" "value_type TyF64 = LF64"
  by (simp_all add: value_type_def tyF64_def tyI64_def tyInt_def)

lemma value_type_cases: "value_type t = LI64 \<or> value_type t = LF64"
  by (simp add: value_type_def)

subsection \<open>Memory\<close>

lemma wt_trunc: "wt p s \<Longrightarrow> val_ty v = LI64 \<Longrightarrow> ok_ty t \<Longrightarrow> \<not> isAggregate t \<Longrightarrow> memTy st t \<noteq> LF64 \<Longrightarrow> memTy st t \<noteq> LI64
    \<Longrightarrow> wt p (snd (emit (ICast CTrunc v (memTy st t)) s))"
  by (cases t) (auto simp: fits_def)

lemma memTy_not_void [simp]: "memTy st t \<noteq> LVoid"
  by (cases t) simp_all

lemma wt_store_plain [simp]:
  assumes "wt p s" and "val_ty a = LPtr" and "ok_rv r" and "ok_ty t"
  shows "wt p (store_plain a r t s)"
proof (cases "isAggregate t")
  case True
  then show ?thesis using assms by (auto simp: store_plain_def Let_def fits_def intro!: lets)
next
  case False
  note trunc = wt_trunc [OF _ _ assms(4) False]
  show ?thesis
    using assms(1-3) False
    by (auto simp: store_plain_def Let_def fits_def intro!: lets trunc)
qed

lemma resolve_ok: "wt p s \<Longrightarrow> ok_ty t \<Longrightarrow> resolve s t = Some w \<Longrightarrow> ok_ty w"
  by (rule whole_type_ok [OF wt_store])

lemma wt_storeTo: "wt p s \<Longrightarrow> val_ty a = LPtr \<Longrightarrow> ok_rv r \<Longrightarrow> ok_ty t \<Longrightarrow> sres p (storeTo a r t s)"
  unfolding storeTo_def by (intro sres_obind) (simp add: resolve_ok del: whole_type.simps)

lemma load_plain_ok [simp]: "ok_ty t \<Longrightarrow> ok_rv (fst (load_plain a t s))"
  using value_type_cases
  by (cases t) (auto simp: load_plain_def case_prod_beta widen_ty [where st = "cg_store s"])

lemma load_plain_value [simp]: "fst (fst (load_plain a t s)) \<noteq> None"
  by (cases t) (auto simp: load_plain_def case_prod_beta)

lemma wt_load_plain [simp]: "wt p s \<Longrightarrow> val_ty a = LPtr \<Longrightarrow> ok_ty t \<Longrightarrow> wt p (snd (load_plain a t s))"
  by (cases t) (auto simp: load_plain_def fits_def Let_def intro!: lets wt_widen)

lemma wt_loadFrom: "wt p s \<Longrightarrow> val_ty a = LPtr \<Longrightarrow> ok_ty t \<Longrightarrow> res p ok_rv (loadFrom a t s)"
  unfolding loadFrom_def by (intro res_obind) (simp add: res_SomeI resolve_ok del: whole_type.simps)

lemma wt_truthy [simp]: "wt p s \<Longrightarrow> ok_rv r \<Longrightarrow> wt p (snd (truthy r l s))"
  by (cases r; cases "fst r") (auto simp: truthy_def fits_def Let_def intro!: lets)

lemma truthy_ty [simp]: "val_ty (fst (truthy r l s)) = LI1"
  by (auto simp: truthy_def case_prod_beta split: option.split)

lemma wt_boolToI64 [simp]: "wt p s \<Longrightarrow> val_ty v = LI1 \<Longrightarrow> wt p (snd (boolToI64 v s))"
  by (simp add: boolToI64_def fits_def)

lemma boolToI64_ty [simp]: "val_ty (fst (boolToI64 v s)) = LI64"
  by (simp add: boolToI64_def)

lemma wt_strLits [simp]: "wt p s \<Longrightarrow> wt p (s\<lparr>cg_uniq := k, cg_strLits := ls\<rparr>)"
  by (rule wt_cong [of p s]) (auto simp: wt_ctx wt_fx)

lemma wt_stringConst [simp]: "wt p s \<Longrightarrow> wt p (snd (stringConst t s))"
  by (auto simp: stringConst_def Let_def intro!: lets split: option.split)

lemma wt_strRV [simp]: "wt p s \<Longrightarrow> wt p (snd (strRV t s))"
  by (auto simp: strRV_def fits_def Let_def intro!: lets)

lemma strRV_ok [simp]: "ok_rv (fst (strRV t s))"
  by (simp add: strRV_def case_prod_beta)

subsection \<open>Operators\<close>

lemma ok_arith_type [simp]: "ok_ty a \<Longrightarrow> ok_ty c \<Longrightarrow> ok_ty (arith_type a c)"
  by (simp add: arith_type_def)

lemma float_binop_float: "float_binop q = Some b \<Longrightarrow> is_float_op b"
  by (auto simp: float_binop_def split: punct.splits)

lemma int_binop_int: "int_binop u q = Some b \<Longrightarrow> \<not> is_float_op b"
  by (auto simp: int_binop_def split: punct.splits if_splits)

lemma wt_bin [simp]: "wt p s \<Longrightarrow> val_ty x = val_ty y \<Longrightarrow> (if is_float_op b then val_ty x = LF64 else is_int_ty (val_ty x))
    \<Longrightarrow> wt p (snd (emit (IBin b x y) s))"
  by (cases "is_float_op b") (simp_all add: fits_def)

text \<open>A call of a runtime function.\<close>

lemma wt_rt_call:
  assumes "wt p s" and "(n, t, as) \<in> set rt_sigs" and "map val_ty vs = as"
  shows "wt p (snd (emit (ICall (VFun (fst (getRT n t as s))) t vs) (snd (getRT n t as s))))"
proof -
  have "wt (knows (fst (getRT n t as s)) (t, as) p) (snd (getRT n t as s))" by (rule wt_getRT [OF assms(1,2)])
  then have "wt (knows (fst (getRT n t as s)) (t, as) p) (snd (emit (ICall (VFun (fst (getRT n t as s))) t vs) (snd (getRT n t as s))))"
    using assms(3) by simp
  then show ?thesis by (simp add: wt_knows)
qed

lemma int_ok_rv: "ok_rv r \<Longrightarrow> \<not> is_double (fst r) \<Longrightarrow> fst r = Some v \<Longrightarrow> val_ty v = LI64"
  by (auto simp: ok_rv_def is_double_def)

lemma wt_arith_f64: "wt p s \<Longrightarrow> ok_rv a \<Longrightarrow> ok_rv c \<Longrightarrow> wt p (snd (arith_f64 q a c l s))"
  by (cases "float_binop q")
    (auto simp: arith_f64_def Let_def case_prod_beta rt_sigs_def float_binop_float intro!: wt_rt_call)

lemma arith_f64_ok: "ok_rv a \<Longrightarrow> ok_rv c \<Longrightarrow> ok_rv (fst (arith_f64 q a c l s))"
  by (cases "float_binop q") (auto simp: arith_f64_def Let_def case_prod_beta)

lemma wt_arith_i64: "wt p s \<Longrightarrow> ok_rv a \<Longrightarrow> ok_rv c \<Longrightarrow> wt p (snd (arith_i64 q a c l s))"
  by (cases "int_binop (isU64 (snd a) \<or> isU64 (snd c)) q")
    (auto simp: arith_i64_def Let_def case_prod_beta rt_sigs_def int_binop_int intro!: wt_rt_call)

lemma arith_i64_ok: "ok_rv a \<Longrightarrow> ok_rv c \<Longrightarrow> ok_rv (fst (arith_i64 q a c l s))"
  by (cases "int_binop (isU64 (snd a) \<or> isU64 (snd c)) q") (auto simp: arith_i64_def Let_def case_prod_beta)

lemma wt_arith [simp]: "wt p s \<Longrightarrow> ok_rv a \<Longrightarrow> ok_rv c \<Longrightarrow> wt p (snd (arith q a c l s))"
  by (simp add: arith_def wt_arith_f64 wt_arith_i64)

lemma arith_ok [simp]: "ok_rv a \<Longrightarrow> ok_rv c \<Longrightarrow> ok_rv (fst (arith q a c l s))"
  by (simp add: arith_def arith_f64_ok arith_i64_ok)

lemma wt_cmp [simp]: "wt p s \<Longrightarrow> ok_rv a \<Longrightarrow> ok_rv c \<Longrightarrow> wt p (snd (cmp q a c s))"
  by (cases "float_pred q"; cases "int_pred (isU64 (snd a) \<or> isU64 (snd c)) q")
    (auto simp: cmp_def Let_def case_prod_beta fits_def)

lemma cmp_ty [simp]: "val_ty (fst (cmp q a c s)) = LI1"
  by (cases "float_pred q"; cases "int_pred (isU64 (snd a) \<or> isU64 (snd c)) q")
    (auto simp: cmp_def Let_def case_prod_beta)

subsection \<open>Symbols and static types\<close>

lemma ok_vars_map_of: "ok_vars vs \<Longrightarrow> map_of vs n = Some v \<Longrightarrow> ok_var v"
  by (auto simp: ok_vars_def dest!: map_of_SomeD)

lemma ok_scopes: "\<forall>sc \<in> set scs. ok_vars sc \<Longrightarrow> lookup_scopes scs n = Some v \<Longrightarrow> ok_var v"
  by (induction scs) (auto split: option.splits dest: ok_vars_map_of)

lemma lookupVar_ok: "wt p s \<Longrightarrow> lookupVar s n = Some v \<Longrightarrow> ok_var v"
  using wt_ctx [of p s] ok_scopes [of "fx_scopes (cg_fc s)" n v] ok_vars_map_of [of "cg_globals s" n v]
  by (simp add: lookupVar_def ok_ctx_def split: option.splits)

lemma lookupFun_ok: "wt p s \<Longrightarrow> lookupFun s n = Some f \<Longrightarrow> ok_funsym s f"
  by (auto simp: lookupFun_def wt_def ok_env_def dest!: map_of_SomeD)

lemma ok_call_type [simp]: "ok_ty t \<Longrightarrow> ok_ty (call_type t)"
  by (cases t rule: call_type.cases) auto

lemma ok_index_type [simp]: "ok_ty t \<Longrightarrow> ok_ty (index_type t)"
  by (cases t) auto

lemma ident_type_ok: "wt p s \<Longrightarrow> ok_ty (ident_type s n)"
  by (auto simp: ident_type_def ok_var_def ok_funsym_def dest: lookupVar_ok lookupFun_ok split: option.split)

lemma member_type_ok: "wt p s \<Longrightarrow> ok_ty bt \<Longrightarrow> member_type s bt n = Some t \<Longrightarrow> ok_ty t"
  by (auto simp: member_type_def bind_eq_Some_conv simp del: findMember.simps
      dest: findMember_ok [OF wt_store] ok_subIntType split: option.splits ty.splits)

lemma typeOf_ok:
  assumes "wt p s"
  shows "ok_expr e \<Longrightarrow> typeOf s e = Some t \<Longrightarrow> ok_ty t"
proof (induction "size e" arbitrary: e t rule: less_induct)
  case less
  note id = ident_type_ok [OF assms]
  show ?case
  proof (cases e)
    case (EUnary l q pre k)
    then obtain u where u: "typeOf s k = Some u \<or> t = tyI64" "t = tyPtr u \<or> t = pointee u \<or> t = u \<or> t = tyI64"
      using less.prems by (auto simp: bind_eq_Some_conv split: if_splits)
    then show ?thesis using less.hyps [of k u] less.prems EUnary by auto
  next
    case (EBinary l q k1 k2)
    then obtain a c where "typeOf s k1 = Some a" "typeOf s k2 = Some c" "t = tyF64 \<or> t = a \<or> t = c \<or> t = tyI64"
      using less.prems by (auto simp: bind_eq_Some_conv split: if_splits)
    then show ?thesis using less.hyps [of k1 a] less.hyps [of k2 c] less.prems EBinary by auto
  next
    case (EAssign l q k1 k2)
    then show ?thesis using less.hyps [of k1 t] less.prems by auto
  next
    case (EIndex l k1 k2)
    then obtain a where "typeOf s k1 = Some a" "t = index_type a" using less.prems by (auto simp: bind_eq_Some_conv)
    then show ?thesis using less.hyps [of k1 a] less.prems EIndex by auto
  next
    case (EMember l arrow k n)
    then obtain a where a: "typeOf s k = Some a" "member_type s (if arrow \<and> isPtr a then pointee a else a) n = Some t"
      using less.prems by (auto simp: bind_eq_Some_conv)
    then have "ok_ty a" using less.hyps [of k a] less.prems EMember by auto
    then show ?thesis using member_type_ok [OF assms _ a(2)] by simp
  next
    case (ECall l callee as)
    show ?thesis
    proof (cases "\<exists>l n. callee = EIdent l n")
      case True
      then show ?thesis using less.prems ECall id lookupFun_ok [OF assms]
        by (auto simp: ok_funsym_def split: option.splits if_splits)
    next
      case False
      then have "typeOf s e = Option.bind (typeOf s callee) (\<lambda>t. Some (call_type t))"
        using ECall by (cases callee) simp_all
      then obtain a where "typeOf s callee = Some a" "t = call_type a"
        using less.prems(2) by (cases "typeOf s callee") auto
      then show ?thesis using less.hyps [of callee a] less.prems ECall by auto
    qed
  qed (use less id in auto)
qed

subsection \<open>Calls\<close>

text \<open>The two recursive calls; they keep what is known of a state, whatever that is.\<close>

locale typed_calls =
  fixes gx :: gexpr and gl :: glval
  assumes gx: "wt p s \<Longrightarrow> ok_expr e \<Longrightarrow> res p ok_rv (gx e s)"
    and gl: "wt p s \<Longrightarrow> ok_expr e \<Longrightarrow> res p ok_lv (gl e s)"
begin

definition ok_args :: "expr option list \<Rightarrow> bool" where
  "ok_args as \<longleftrightarrow> (\<forall>a \<in> set as. case a of None \<Rightarrow> True | Some e \<Rightarrow> ok_expr e)"

lemma ok_args_simps [simp]:
  "ok_args []" "ok_args (None # as) = ok_args as" "ok_args (Some e # as) = (ok_expr e \<and> ok_args as)"
  by (auto simp: ok_args_def)

lemma ok_args_sub: "ok_args as \<Longrightarrow> ok_args (drop n as)" "ok_args as \<Longrightarrow> ok_args (take n as)"
  by (auto simp: ok_args_def dest: in_set_dropD in_set_takeD)

lemma wt_gen_arg:
  assumes "wt p s" and "ok_fparam a" and "\<And>e. arg = Some e \<Longrightarrow> ok_expr e"
  shows "res p ok_rv (gen_arg gx l i a arg prev s)"
  using assms
  by (auto simp: gen_arg_def intro!: gx res_SomeI split: option.split dest: ok_param_dflt)

lemma wt_gen_params:
  assumes "wt p s" and "\<forall>a \<in> set ps. ok_fparam a" and "ok_args args"
  shows "res p (\<lambda>vs. map val_ty vs = map (\<lambda>a. value_type (param_type a)) ps) (gen_params gx l i ps args prev s)"
  using assms
proof (induction ps arbitrary: i args prev s)
  case (Cons a ps)
  let ?arg = "case args of [] \<Rightarrow> None | x # _ \<Rightarrow> x"
  have arg: "ok_expr e" if "?arg = Some e" for e using Cons.prems(3) that by (cases args) auto
  have args: "ok_args (drop (Suc 0) args)" using Cons.prems(3) by (rule ok_args_sub)
  have a: "ok_fparam a" and ps: "\<forall>a \<in> set ps. ok_fparam a" using Cons.prems(2) by auto
  show ?case
    unfolding gen_params.simps Let_def
    by (rule res_bind [OF wt_gen_arg [OF Cons.prems(1) a arg]], assumption, rule res_obind, rule res_let)
      (auto simp: value_type_def tyF64_def tyI64_def tyInt_def intro!: res_bind [OF Cons.IH [OF _ ps args]])
qed simp

lemma wt_gen_extra:
  "wt p s \<Longrightarrow> ok_args as \<Longrightarrow> res p (\<lambda>vs. \<forall>v \<in> set vs. val_ty v = LI64) (gen_extra gx l as s)"
proof (induction as arbitrary: s)
  case (Cons a as)
  show ?case
  proof (cases a)
    case None
    then show ?thesis using Cons by (auto intro!: res_bind [OF Cons.IH])
  next
    case (Some e)
    have 1: "res p ok_rv (gx e s)" using Cons.prems Some by (intro gx) auto
    show ?thesis
      unfolding Some gen_extra.simps Let_def
      by (rule res_bind [OF 1], rule res_let)
        (use Cons.prems Some in \<open>auto simp: fits_def ok_rv_def intro!: res_bind [OF Cons.IH] split: option.split\<close>)
  qed
qed simp

lemma wt_gen_untyped: "wt p s \<Longrightarrow> ok_args as \<Longrightarrow> res p (\<lambda>_. True) (gen_untyped gx l as s)"
proof (induction as arbitrary: s)
  case (Cons a as)
  show ?case
  proof (cases a)
    case None
    then show ?thesis using Cons by (auto intro!: res_bind [OF Cons.IH])
  next
    case (Some e)
    have 1: "res p ok_rv (gx e s)" using Cons.prems Some by (intro gx) auto
    show ?thesis
      unfolding Some gen_untyped.simps Let_def
      by (rule res_bind [OF 1], rule res_let)
        (use Cons.prems Some in \<open>auto intro!: res_bind [OF Cons.IH] split: option.split\<close>)
  qed
qed simp

end

lemma wt_store_slots [simp]:
  "wt p s \<Longrightarrow> val_ty al = LPtr \<Longrightarrow> \<forall>v \<in> set vs. val_ty v = LI64 \<Longrightarrow> wt p (store_slots t al i vs s)"
  by (induction vs arbitrary: i s) (auto simp: fits_def Let_def intro!: lets)

lemma wt_gen_argv [simp]: "wt p s \<Longrightarrow> \<forall>v \<in> set vs. val_ty v = LI64 \<Longrightarrow> wt p (snd (gen_argv vs s))"
  by (auto simp: gen_argv_def fits_def Let_def intro!: lets)

lemma gen_argv_ty [simp]: "val_ty (fst (gen_argv vs s)) = LI64"
  by (simp add: gen_argv_def Let_def case_prod_beta)

context typed_calls begin

text \<open>A callee: a function of the module with its type, or the value of a pointer.\<close>

definition ok_callee :: "tctx \<Rightarrow> funcsym \<Rightarrow> bool" where
  "ok_callee p f \<longleftrightarrow> ok_ty (fs_type f) \<and> (\<forall>k. fs_fn f = Some k \<longrightarrow> (k, llvmFnType (fs_type f)) \<in> tc_funs p)"

lemma asPtr_reg: "(\<And>x. v = Some x \<Longrightarrow> val_ty x \<noteq> LPtr) \<Longrightarrow> \<exists>k. fst (asPtr v s) = VReg k LPtr"
  by (cases v) (auto simp: asPtr_def emit_def Let_def)

lemma wt_call_ptr: "wt p s \<Longrightarrow> (\<And>x. v = Some x \<Longrightarrow> val_ty x \<noteq> LPtr) \<Longrightarrow> wt p (snd (emit (ICall (fst (asPtr v s0)) t vs) s))"
  using asPtr_reg [of v s0] by (auto simp: fits_def)

lemma wt_call_args:
  assumes "wt p s" and "ok_callee p f" and "fs_fn f = None \<Longrightarrow> \<forall>x. fnPtr = Some x \<longrightarrow> val_ty x \<noteq> LPtr" and "map val_ty vs = snd (llvmFnType (fs_type f))"
  shows "wt p (snd (case fs_fn f of Some k \<Rightarrow> emit (ICall (VFun k) (fst (llvmFnType (fs_type f))) vs) s
     | None \<Rightarrow> (let (a, s3) = asPtr fnPtr s in emit (ICall a (fst (llvmFnType (fs_type f))) vs) s3)))"
  using assms
  by (auto simp: ok_callee_def Let_def intro!: lets wt_call_ptr split: option.split)

lemma wt_genCallTo_known:
  assumes "wt p s" and "ok_callee p f" and "ok_args args" and "fs_fn f = None \<Longrightarrow> \<forall>x. fnPtr = Some x \<longrightarrow> val_ty x \<noteq> LPtr"
  shows "res p ok_rv (genCallTo gx f args l fnPtr s)"
proof -
  let ?ps = "fun_params (fs_type f)" and ?t = "llvmFnType (fs_type f)"
  have ps: "\<forall>a \<in> set ?ps. ok_fparam a" using assms(2) ok_fun_params by (auto simp: ok_callee_def)
  have ret: "ok_ty (fun_ret (fs_type f))" using assms(2) by (simp add: ok_callee_def)
  have val: "fun_ret (fs_type f) \<noteq> TyVoid \<Longrightarrow> val_ty (fst (emit (ICall g (fst ?t) vs) u)) = LI64
      \<or> val_ty (fst (emit (ICall g (fst ?t) vs) u)) = LF64" for g vs u
    by (simp add: llvmFnType_def)
  have call: "res p ok_rv (let (v, s3) = (case fs_fn f of
         Some k \<Rightarrow> emit (ICall (VFun k) (fst ?t) vs) u
       | None \<Rightarrow> (let (a, s3) = asPtr fnPtr u in emit (ICall a (fst ?t) vs) s3))
     in Some (if fun_ret (fs_type f) = TyVoid then (None, tyVoid) else (Some v, fun_ret (fs_type f)), s3))"
    if "wt p u" and "map val_ty vs = snd ?t" for u vs
    unfolding Let_def
    by (rule res_let, use wt_call_args [OF that(1) assms(2,4) that(2)] in \<open>simp add: Let_def\<close>)
      (use ret val in \<open>auto split: option.split simp: case_prod_beta\<close>)
  have extra: "res p (\<lambda>vs1. map val_ty vs1 = snd ?t)
      (if fun_variadic (fs_type f)
       then do {
         (ex, s2) \<leftarrow> gen_extra gx l (drop n as) u;
         let (arr, s3) = gen_argv ex s2;
         Some (vs @ [cI64 (of_nat (length ex)), arr], s3)
       }
       else Some (vs, u))"
    if "wt p u" and "ok_args as" and "map val_ty vs = map (\<lambda>a. value_type (param_type a)) ?ps" for u n as vs
  proof (cases "fun_variadic (fs_type f)")
    case True
    have "ok_args (drop n as)" using that(2) by (rule ok_args_sub)
    then show ?thesis
      using True that
      by (auto simp: llvmFnType_def case_prod_beta intro!: res_bind [OF wt_gen_extra])
  next
    case False
    then show ?thesis using that by (simp add: llvmFnType_def)
  qed
  have args: "ok_args (if b then take n args else args)" for b n using assms(3) by (simp add: ok_args_sub)
  have start: "wt p (if b then cg_error l m s else s)" for b m using assms(1) by simp
  show ?thesis
    unfolding genCallTo_def Let_def
    by (rule res_bind [OF wt_gen_params [OF start ps args]],
        rule res_bind [OF extra [unfolded Let_def] call [unfolded Let_def]]) (assumption | rule args)+
qed

lemma wt_call_sym:
  assumes "wt p s" and "lookupFun s n = Some f" and "ok_args args"
  shows "res p ok_rv (genCallTo gx f args l fnPtr s)"
proof -
  from lookupFun_ok [OF assms(1,2)] obtain k where k: "ok_ty (fs_type f)" "fs_fn f = Some k"
    "fun_type s k = Some (llvmFnType (fs_type f))" by (auto simp: ok_funsym_def)
  let ?p = "knows k (llvmFnType (fs_type f)) p"
  have "wt ?p s" using assms(1) k by (simp add: wt_knows)
  moreover have "ok_callee ?p f" using k by (simp add: ok_callee_def)
  ultimately have "res ?p ok_rv (genCallTo gx f args l fnPtr s)"
    by (rule wt_genCallTo_known) (use assms k in simp_all)
  then show ?thesis by (rule res_knows)
qed

lemma wt_gen_intrinsic: "wt p s \<Longrightarrow> ok_args args \<Longrightarrow> res p ok_rv (gen_intrinsic gx n args l s)"
  by (auto simp: gen_intrinsic_def Let_def intro!: res_bind [OF gx] res_Some_let split: list.split option.split)

lemma wt_gen_indirect:
  assumes "wt p s" and "ok_expr callee" and "ok_args args"
  shows "res p ok_rv (gen_indirect gx callee args l s)"
  unfolding gen_indirect_def Let_def
proof (rule res_bind [OF gx [OF assms(1,2)]], goal_cases)
  case (1 fv s1)
  let ?ft = "if isPtr (snd fv) \<and> isFunc (pointee (snd fv)) then pointee (snd fv) else snd fv"
  have ft: "ok_ty ?ft" using 1 by simp
  have fv: "\<forall>x. fst fv = Some x \<longrightarrow> val_ty x \<noteq> LPtr" using 1(1) by (auto simp: ok_rv_def)
  show ?case
  proof (cases "isFunc ?ft")
    case True
    have "ok_callee p \<lparr>fs_fn = None, fs_type = ?ft\<rparr>" using ft by (simp add: ok_callee_def)
    from wt_genCallTo_known [OF 1(2) this assms(3), where fnPtr = "fst fv" and l = l] show ?thesis
      using True fv by simp
  next
    case False
    show ?thesis
      unfolding if_not_P [OF False]
      by (rule res_bind [OF wt_gen_untyped [OF 1(2) assms(3)]])
        (use fv in \<open>auto intro!: lets wt_call_ptr\<close>)
  qed
qed

lemma wt_genCall:
  assumes "wt p s" and "ok_expr callee" and "ok_args args"
  shows "res p ok_rv (genCall gx callee args l s)"
proof (cases "\<exists>l n. callee = EIdent l n")
  case True
  then show ?thesis
    using assms by (auto simp: genCall_def intro!: wt_gen_indirect wt_gen_intrinsic wt_call_sym split: option.split)
next
  case False
  then have "genCall gx callee args l s = gen_indirect gx callee args l s"
    by (cases callee) (simp_all add: genCall_def)
  then show ?thesis using assms by (simp add: wt_gen_indirect)
qed

subsection \<open>Lvalues\<close>

lemma wt_gen_ident_lv [simp]:
  "wt p s \<Longrightarrow> wt p (snd (gen_ident_lv l n s))" "wt p s \<Longrightarrow> ok_lv (fst (gen_ident_lv l n s))"
  by (auto simp: gen_ident_lv_def ok_var_def split: option.split dest: lookupVar_ok)

lemma wt_not_lvalue [simp]: "wt p s \<Longrightarrow> wt p (snd (not_lvalue l s))" "ok_lv (fst (not_lvalue l s))"
  by (simp_all add: not_lvalue_def)

lemma res_not_lvalue [simp]: "wt p s \<Longrightarrow> res p ok_lv (Some (not_lvalue l s))"
  by (simp add: res_SomeI)

lemma wt_gen_deref_lv: "wt p s \<Longrightarrow> ok_expr k \<Longrightarrow> res p ok_lv (gen_deref_lv gx l k s)"
  unfolding gen_deref_lv_def Let_def
  by (rule res_bind [OF gx], assumption, assumption, simp, intro impI res_Some_let, simp_all)

definition ok_base :: "(rv \<times> ty) option \<Rightarrow> bool" where
  "ok_base b \<longleftrightarrow> (\<forall>r t. b = Some (r, t) \<longrightarrow> ok_rv r \<and> ok_ty t)"

lemma wt_gen_index_base:
  assumes "wt p s" and "ok_expr b"
  shows "res p ok_base (gen_index_base gx gl b s)"
  unfolding gen_index_base_def
proof (rule res_obind)
  fix t assume t: "typeOf s b = Some t"
  then have ok: "ok_ty t" using typeOf_ok [OF assms(1,2)] by simp
  have other: "res p ok_base (Option.bind (gx b s) (\<lambda>(bv, s1). Some (Some (bv, pointee (snd bv)), s1)))"
    by (rule res_bind [OF gx [OF assms]]) (simp add: ok_base_def)
  show "res p ok_base (case t of
        TyArray el _ \<Rightarrow> do {
          (blv, s1) \<leftarrow> gl b s;
          Some (case blv of
              None \<Rightarrow> (None, s1)
            | Some (a, _) \<Rightarrow> (let (v, s2) = emit (ICast CPtrToInt a LI64) s1 in (Some ((Some v, tyPtr el), el), s2)))
        }
      | _ \<Rightarrow> do { (bv, s1) \<leftarrow> gx b s; Some (Some (bv, pointee (snd bv)), s1) })"
    using ok other
    by (cases t) (auto simp: ok_base_def fits_def Let_def intro!: res_bind [OF gl [OF assms]] res_Some_let split: option.split)
qed

lemma wt_gen_index_plain:
  assumes "wt p s" and "ok_expr b" and "ok_expr i"
  shows "res p ok_lv (gen_index_plain gx gl b i s)"
  unfolding gen_index_plain_def
proof (rule res_bind [OF wt_gen_index_base [OF assms(1,2)]], goal_cases)
  case (1 r s1)
  show ?case
  proof (cases r)
    case None
    then show ?thesis using 1 by simp
  next
    case (Some x)
    then obtain bv el where r: "r = Some (bv, el)" "ok_rv bv" "ok_ty el" using 1(1) by (cases x) (auto simp: ok_base_def)
    have fault: "wt p (if c then s else s\<lparr>cg_fault := True\<rparr>)" if "wt p s" for c s using that by simp
    show ?thesis
      unfolding r(1) option.case prod.case Let_def
    proof (rule res_bind [OF gx [OF 1(2) assms(3)]], rule res_let, use 1 in simp, rule res_let, use 1 in simp, goal_cases)
      case (1 iv s2 s3 s4)
      let ?off = "fst (emit (IBin BMul (fst (convert iv tyI64 True s2)) (cI64 (size_at_least_1 (cg_store s) (byte_if_void el)))) s3)"
      have off: "val_ty ?off = LI64" using 1(1) by simp
      have sum: "wt p (snd (emit (IBin BAdd w ?off) u))" if "wt p u" and "val_ty w = LI64 \<or> cg_fault u" for w u
        using that off by (auto simp: fits_def)
      have rest: "res p ok_lv (let (addr, s6) = emit (IBin BAdd w ?off) u; (a, s7) = asPtr (Some addr) s6
            in Some (Some (a, byte_if_void el), s7))" if "wt p u" and "val_ty w = LI64 \<or> cg_fault u" for w u
        unfolding Let_def by (rule res_let, rule sum [OF that], rule res_let) (use r(3) in simp_all)
      show ?case
      proof (cases "fst bv")
        case None
        then show ?thesis using rest [of "s4\<lparr>cg_fault := True\<rparr>" "cI64 0"] 1 by (simp add: Let_def)
      next
        case (Some v)
        then have v: "val_ty v = LI64 \<or> val_ty v = LF64" using r(2) by (simp add: ok_rv_def)
        then have "ptrToI64 v s4 = (v, s4)" by (auto simp: ptrToI64_def)
        then show ?thesis
          using rest [of s4 v] rest [of "s4\<lparr>cg_fault := True\<rparr>" v] v 1 Some by (auto simp: Let_def)
      qed
    qed
  qed
qed

lemma wt_gen_subint_index:
  "wt p s \<Longrightarrow> val_ty a = LPtr \<Longrightarrow> ok_ty t \<Longrightarrow> ok_expr i \<Longrightarrow> res p ok_lv (gen_subint_index gx a t i s)"
  by (auto simp: gen_subint_index_def fits_def Let_def intro!: res_bind [OF gx] lets)

lemma wt_genIndexLV:
  assumes "wt p s" and "ok_expr b" and "ok_expr i"
  shows "res p ok_lv (genIndexLV gx gl b i s)"
proof (cases "\<exists>l k n t. b = EMember l False k n \<and> subIntType n = Some t")
  case True
  then obtain l k n t where b: "b = EMember l False k n" "subIntType n = Some t" by blast
  have t: "ok_ty t" using ok_subIntType [OF b(2)] .
  have k: "ok_expr k" using assms(2) b(1) by simp
  show ?thesis
    unfolding genIndexLV_def b(1) expr.case bool.case b(2) option.case
    by (rule res_bind [OF gl [OF assms(1) k]])
      (use t assms b(1) in \<open>auto intro!: wt_gen_subint_index wt_gen_index_plain split: option.split\<close>)
next
  case False
  then have "genIndexLV gx gl b i s = gen_index_plain gx gl b i s"
    by (cases b) (auto simp: genIndexLV_def split: bool.split option.split)
  then show ?thesis using assms by (simp add: wt_gen_index_plain)
qed

lemma wt_gen_member_at:
  assumes "wt p s" and "val_ty a = LPtr" and "\<And>t. bt = Some t \<Longrightarrow> ok_ty t"
  shows "res p ok_lv (gen_member_at l a bt n s)"
proof (cases "\<exists>c. bt = Some (TyClass c)")
  case True
  then obtain c where c: "bt = Some (TyClass c)" by blast
  show ?thesis
    unfolding gen_member_at_def c option.case ty.case
    by (rule res_obind)
      (use assms in \<open>auto simp: fits_def Let_def simp del: findMember.simps intro!: res_Some_let
        split: option.split dest: findMember_ok [OF wt_store [OF assms(1)]]\<close>)
next
  case False
  then have "gen_member_at l a bt n s = Some (case bt of
            Some t \<Rightarrow>
              if (isInt t \<or> t = TyF64) \<and> subIntType n \<noteq> None then (Some (a, the (subIntType n)), s)
              else (no_lv, cg_error l (''member access on non-class value of type '' @ ty_str (cg_store s) t) s)
          | None \<Rightarrow> (no_lv, cg_error l ''member access on non-class value'' s))"
    by (auto simp: gen_member_at_def split: option.split ty.split)
  then show ?thesis using assms by (auto split: option.split dest: ok_subIntType)
qed

lemma wt_genMemberLV:
  assumes "wt p s" and "ok_expr k"
  shows "res p ok_lv (genMemberLV gx gl l arrow k n s)"
proof (cases arrow)
  case True
  show ?thesis
    unfolding genMemberLV_def if_P [OF True] Let_def
    by (rule res_bind [OF gx [OF assms]], rule res_let, simp, rule wt_gen_member_at) (auto split: if_splits)
next
  case False
  show ?thesis
    unfolding genMemberLV_def if_not_P [OF False]
    by (rule res_bind [OF gl [OF assms]]) (auto intro!: wt_gen_member_at split: option.split)
qed

subsection \<open>Operators\<close>

lemma wt_gen_address:
  assumes "wt p s" and "ok_expr k"
  shows "res p ok_rv (gen_address gl k s)"
proof -
  have lv: "res p ok_rv (do {
          (lv, s1) \<leftarrow> gl k s;
          Some (case lv of
              None \<Rightarrow> (zero_rv, s1)
            | Some (a, t) \<Rightarrow> (let (v, s2) = emit (ICast CPtrToInt a LI64) s1 in ((Some v, tyPtr t), s2)))
        })"
    by (rule res_bind [OF gl [OF assms]]) (auto simp: fits_def Let_def intro!: res_Some_let split: option.split)
  show ?thesis
  proof (cases "case k of EIdent _ n \<Rightarrow> (if lookupVar s n = None then lookupFun s n else None) | _ \<Rightarrow> None")
    case None
    then show ?thesis using lv by (simp add: gen_address_def Let_def)
  next
    case (Some f)
    then obtain l n where "k = EIdent l n" "lookupFun s n = Some f" by (auto split: expr.splits if_splits)
    then have "ok_ty (fs_type f)" using lookupFun_ok [OF assms(1)] by (simp add: ok_funsym_def)
    then show ?thesis using Some assms(1) by (auto simp: gen_address_def fits_def Let_def intro!: res_let)
  qed
qed

lemma wt_gen_deref: "wt p s \<Longrightarrow> ok_expr k \<Longrightarrow> res p ok_rv (gen_deref gx k s)"
  unfolding gen_deref_def Let_def
  by (rule res_bind [OF gx], assumption, assumption, simp, intro impI res_let, simp, rule wt_loadFrom, simp_all)

end

lemma loadFrom_Some:
  assumes "wt p s" and "val_ty a = LPtr" and "ok_ty t"
  shows "res p (\<lambda>r. \<exists>v. fst r = Some v \<and> ok_rv (Some v, snd r)) (loadFrom a t s)"
proof -
  have "ok_rv (fst (load_plain a w s)) \<and> fst (fst (load_plain a w s)) \<noteq> None \<and> wt p (snd (load_plain a w s))"
    if "resolve s t = Some w" for w
    using resolve_ok [OF assms(1,3) that] assms(1,2) by simp
  then have w: "(\<exists>v. fst (fst (load_plain a w s)) = Some v \<and> ok_rv (Some v, snd (fst (load_plain a w s)))) \<and> wt p (snd (load_plain a w s))"
    if "resolve s t = Some w" for w
    using that by (metis option.exhaust prod.collapse)
  show ?thesis
    unfolding loadFrom_def by (intro res_obind res_SomeI) (use w in blast)+
qed

context typed_calls begin

lemma wt_gen_step:
  assumes "wt p s" and "ok_expr k"
  shows "res p ok_rv (gen_step gl inc pre k s)"
  unfolding gen_step_def
proof (rule res_bind [OF gl [OF assms]], goal_cases)
  case (1 lv s1)
  show ?case
  proof (cases lv)
    case None
    then show ?thesis using 1 by simp
  next
    case (Some x)
    then obtain a t where at: "lv = Some (a, t)" "val_ty a = LPtr" "ok_ty t" using 1 by (cases x) auto
    show ?thesis
      unfolding at(1) option.case prod.case Let_def
      by (rule res_bind [OF loadFrom_Some [OF 1(2) at(2,3)]])
        (auto simp: fits_def intro!: res_let res_sbind [OF wt_storeTo] at(2,3))
  qed
qed

lemma wt_not_bits [simp]: "wt p s \<Longrightarrow> is_int_ty (val_ty v) \<Longrightarrow> wt p (snd (emit (INot v) s))"
  "wt p s \<Longrightarrow> is_int_ty (val_ty v) \<Longrightarrow> wt p (snd (emit (INeg v) s))"
  by (simp_all add: fits_def)

lemma wt_gen_minus:
  assumes "wt p s" and "ok_rv v"
  shows "res p ok_rv (if is_double (fst v)
        then (let (r, s2) = emit (IFNeg (the (fst v))) s in Some ((Some r, tyF64), s2))
        else (let (x, s2) = convert v tyI64 False s; (r, s3) = emit (INeg x) s2
              in Some ((Some r, if isInt (snd v) then snd v else tyI64), s3)))"
proof (cases "is_double (fst v)")
  case True
  then obtain x where "fst v = Some x" "val_ty x = LF64" by (auto simp: is_double_def split: option.splits)
  then show ?thesis using True assms(1) by (auto simp: Let_def fits_def intro!: res_let)
next
  case False
  then show ?thesis using assms by (auto simp: Let_def intro!: res_let)
qed

lemma wt_genUnary:
  assumes "wt p s" and "ok_expr k"
  shows "res p ok_rv (genUnary gx gl l q pre k s)"
proof (cases "q = PMinus")
  case True
  show ?thesis
    unfolding True genUnary_def punct.case
    by (rule res_bind [OF gx [OF assms]]) (simp only: wt_gen_minus)
next
  case False
  then show ?thesis
    using assms wt_gen_address [OF assms] wt_gen_deref [OF assms] wt_gen_step [OF assms] gx [OF assms]
    by (cases q) (auto simp: genUnary_def Let_def intro!: res_bind [OF gx] res_let)
qed

lemma fits_cond [simp]: "val_ty c = LI1 \<Longrightarrow> fits p s (TCondBr c a b)"
  by (simp add: fits_def)

lemma fits_phi [simp]: "\<forall>x \<in> set ps. val_ty (fst x) = LI64 \<Longrightarrow> fits p s (IPhi ps)"
  by (auto simp: fits_def)

lemma wt_genShortCircuit:
  assumes "wt p s" and "ok_expr k1" and "ok_expr k2"
  shows "res p ok_rv (genShortCircuit gx l b k1 k2 s)"
  unfolding genShortCircuit_def Let_def
  by (rule res_bind [OF gx [OF assms(1,2)]], rule res_let, simp, rule res_let, simp, rule res_let, simp,
      rule res_bind [OF gx [OF _ assms(3)]], simp, rule res_let, simp, rule res_let, simp, rule res_let)
    (simp_all add: fits_def)

lemma wt_chain_links:
  assumes "wt p s" and "ok_rv prev" and "\<forall>x \<in> set ks. ok_expr (snd x)" and "\<forall>x \<in> set inc. val_ty (fst x) = LI64"
  shows "res p (\<lambda>inc'. \<forall>x \<in> set inc'. val_ty (fst x) = LI64) (chain_links gx endb prev ks inc s)"
  using assms
proof (induction ks arbitrary: prev inc s)
  case (Cons x ks)
  obtain q k where x: "x = (q, k)" by (cases x)
  have k: "ok_expr k" using Cons.prems(3) x by simp
  show ?case
    unfolding x chain_links.simps Let_def
  proof (rule res_bind [OF gx [OF Cons.prems(1) k]], rule res_let, goal_cases)
    case (2 cur s1 s2)
    then show ?case
      using Cons.prems by (auto intro!: res_let Cons.IH)
  qed (use Cons.prems in simp)
qed simp

lemma wt_genChainCmp:
  assumes "wt p s" and "ok_expr k" and "\<forall>x \<in> set ks. ok_expr (snd x)"
  shows "res p ok_rv (genChainCmp gx k ks s)"
  unfolding genChainCmp_def Let_def
proof (rule res_let, use assms in simp, rule res_bind [OF gx [OF _ assms(2)]], assumption,
    rule res_bind [OF wt_chain_links [OF _ _ assms(3)]], assumption, assumption, simp, goal_cases)
  case (1 s1 prev s2 inc s3)
  then show ?case by (intro res_let) auto
qed

lemma res_arith [simp]: "wt p s \<Longrightarrow> ok_rv a \<Longrightarrow> ok_rv c \<Longrightarrow> res p ok_rv (Some (arith q a c l s))"
  by (simp add: res_SomeI)

lemma wt_genBinary:
  assumes "wt p s" and "ok_expr k1" and "ok_expr k2"
  shows "res p ok_rv (genBinary gx l q k1 k2 s)"
  unfolding genBinary_def Let_def
  using assms wt_genShortCircuit [OF assms]
  by (auto intro!: res_bind [OF gx] res_Some_let)

lemma wt_genAssign:
  assumes "wt p s" and "ok_expr k1" and "ok_expr k2"
  shows "res p ok_rv (genAssign gx gl l q k1 k2 s)"
  unfolding genAssign_def Let_def
proof (rule res_bind [OF gl [OF assms(1,2)]], goal_cases)
  case (1 lv s1)
  show ?case
  proof (cases lv)
    case None
    then show ?thesis using 1 assms by (auto intro!: res_bind [OF gx] gx)
  next
    case (Some x)
    then obtain a t where at: "lv = Some (a, t)" "val_ty a = LPtr" "ok_ty t" using 1 by (cases x) auto
    show ?thesis
      unfolding at(1) option.case prod.case
      using 1 assms at(2,3)
      by (auto intro!: res_bind [OF gx] res_bind [OF wt_loadFrom] res_sbind [OF wt_storeTo] res_let)
  qed
qed

lemma wt_gen_cast:
  assumes "wt p s" and "ok_expr k" and "ok_ty t"
  shows "res p ok_rv (gen_cast gx t k s)"
  unfolding gen_cast_def Let_def
proof (rule res_bind [OF gx [OF assms(1,2)]], goal_cases)
  case (1 v s1)
  then show ?case
    using assms(3) value_type_cases [of t]
    by (auto simp: ok_rv_def intro!: res_Some_let split: option.split)
qed

lemma wt_genIdent: "wt p s \<Longrightarrow> res p ok_rv (genIdent gx l n s)"
  by (auto simp: genIdent_def ok_var_def intro!: wt_loadFrom wt_call_sym split: option.split dest: lookupVar_ok)

lemma wt_gen_load_lv: "wt p s \<Longrightarrow> ok_expr e \<Longrightarrow> res p ok_rv (gen_load_lv gl e s)"
  unfolding gen_load_lv_def
  by (rule res_bind [OF gl]) (auto intro!: wt_loadFrom split: option.split)

subsection \<open>The recursion\<close>

lemma wt_expr_step:
  assumes "wt p s" and "ok_expr e"
  shows "res p ok_rv (expr_step gx gl e s)"
proof (cases e)
  case (EOffsetOf l c r m)
  then show ?thesis using assms by (auto simp del: evalConst.simps intro!: res_obind split: option.split)
next
  case (ESizeofExpr l k)
  then show ?thesis using assms by (auto intro!: res_obind)
next
  case (EStrLit l t)
  then show ?thesis using assms by (simp add: res_SomeI)
next
  case (ECall l k as)
  then have "ok_args as" using assms(2) by (simp add: ok_args_def)
  then show ?thesis using assms ECall by (simp add: wt_genCall)
qed (use assms in \<open>simp_all add: wt_genIdent wt_genUnary wt_genBinary wt_genChainCmp wt_genAssign wt_gen_load_lv wt_gen_cast\<close>)

lemma wt_lvalue_step:
  assumes "wt p s" and "ok_expr e"
  shows "res p ok_lv (lvalue_step gx gl e s)"
proof (cases e)
  case (EUnary l q pre k)
  then show ?thesis using assms by (auto intro!: wt_gen_deref_lv res_bind [OF wt_genUnary] gl)
next
  case (EAssign l q k1 k2)
  then show ?thesis using assms by (auto intro!: res_bind [OF gx] gl)
next
  case (ECast l t k)
  then show ?thesis using assms by (auto intro!: res_bind [OF gl] simp: ok_lv_def)
next
  case (EIdent l n)
  then show ?thesis using assms by (simp add: res_SomeI)
qed (use assms in \<open>simp_all add: wt_genIndexLV wt_genMemberLV\<close>)

end

lemma typed_rec: "typed_calls (genExpr n) (genLValue n)"
proof (induction n)
  case 0
  then show ?case by unfold_locales simp_all
next
  case (Suc n)
  then show ?case
    by (auto intro!: typed_calls.intro typed_calls.wt_expr_step typed_calls.wt_lvalue_step)
qed

interpretation ge: typed_calls "genExpr n" "genLValue n" for n
  by (rule typed_rec)

end
