(* ===== verification/HC_StmtTypes.thy ===== *)
theory HC_StmtTypes
  imports HC_ExprTypes
begin

text \<open>Typed code from statements.\<close>

subsection \<open>The statements of the program\<close>

definition ok_vdecl :: "vdecl \<Rightarrow> bool" where
  "ok_vdecl d \<longleftrightarrow> ok_ty (vd_type d) \<and> (\<forall>e. vd_init d = Some e \<longrightarrow> ok_expr e)"

definition ok_opt :: "expr option \<Rightarrow> bool" where
  "ok_opt e \<longleftrightarrow> (\<forall>x. e = Some x \<longrightarrow> ok_expr x)"

fun ok_stmt :: "stmt \<Rightarrow> bool" where
  "ok_stmt (SBlock _ ss) = (\<forall>b \<in> set ss. ok_stmt b)"
| "ok_stmt (SExpr _ e) = ok_expr e"
| "ok_stmt (SIf _ e a b) = (ok_expr e \<and> ok_stmt a \<and> (case b of None \<Rightarrow> True | Some x \<Rightarrow> ok_stmt x))"
| "ok_stmt (SWhile _ e b) = (ok_expr e \<and> ok_stmt b)"
| "ok_stmt (SDoWhile _ b e) = (ok_stmt b \<and> ok_opt e)"
| "ok_stmt (SFor _ es e ps b) = ((\<forall>x \<in> set es. ok_expr x) \<and> ok_opt e \<and> (\<forall>x \<in> set ps. ok_stmt x) \<and> ok_stmt b)"
| "ok_stmt (SSwitch _ _ e b) = (ok_expr e \<and> ok_stmt b)"
| "ok_stmt (SReturn _ e) = ok_opt e"
| "ok_stmt (SVarDecl _ _ ds) = (\<forall>d \<in> set ds. ok_vdecl d)"
| "ok_stmt (STry _ a b) = ((\<forall>x \<in> set a. ok_stmt x) \<and> (\<forall>x \<in> set b. ok_stmt x))"
| "ok_stmt (SLock _ b) = ok_stmt b"
| "ok_stmt _ = True"

definition styped :: "gstmt \<Rightarrow> bool" where
  "styped g \<longleftrightarrow> (\<forall>p s. wt p s \<longrightarrow> sres p (g s))"

lemma stypedI: "(\<And>p s. wt p s \<Longrightarrow> sres p (g s)) \<Longrightarrow> styped g"
  by (simp add: styped_def)

lemma stypedD: "styped g \<Longrightarrow> wt p s \<Longrightarrow> sres p (g s)"
  by (simp add: styped_def)

lemma sres_map: "sres p m \<Longrightarrow> (\<And>s. wt p s \<Longrightarrow> wt q (f s)) \<Longrightarrow> sres q (map_option f m)"
  by (cases m) (auto simp: sres_def)

subsection \<open>Scopes and breaks\<close>

lemma upd_fc_same:
  "cg_fc (upd_fc f s) = f (cg_fc s)" "cg_mfuns (upd_fc f s) = cg_mfuns s" "cg_store (upd_fc f s) = cg_store s"
  "cg_funcs (upd_fc f s) = cg_funcs s" "cg_globals (upd_fc f s) = cg_globals s" "cg_fault (upd_fc f s) = cg_fault s"
  by (simp_all add: upd_fc_def)

lemma wt_fc_cong:
  assumes "wt p s" and "ok_ctx (cg_fc s) \<Longrightarrow> ok_ctx (f (cg_fc s))" and "fx_fn (f (cg_fc s)) = fx_fn (cg_fc s)"
    and "fx_ret (f (cg_fc s)) = fx_ret (cg_fc s)"
    and "fx_breaks (cg_fc s) = tc_breaks p \<Longrightarrow> fx_breaks (f (cg_fc s)) = tc_breaks q"
    and q: "tc_funs q = tc_funs p" "tc_fn q = tc_fn p" "tc_ret q = tc_ret p" "tc_fault q = tc_fault p"
    and "\<And>fty rt. code_ok fty rt (cg_fc s) \<Longrightarrow> code_ok fty rt (f (cg_fc s))"
  shows "wt q (upd_fc f s)"
proof -
  have ft: "fun_type (upd_fc f s) = fun_type s" by (rule fun_type_cong) (simp add: upd_fc_same)
  have "ok_env (upd_fc f s)"
    by (rule ok_env_cong [of s]) (use assms(1,2) in \<open>auto simp: wt_def ok_env_def upd_fc_same\<close>)
  then show ?thesis using assms by (auto simp: wt_def upd_fc_same ft)
qed

lemma ok_ctx_scopes:
  "ok_ctx fx \<Longrightarrow> ok_ctx (fx\<lparr>fx_scopes := [] # fx_scopes fx\<rparr>)" "ok_ctx fx \<Longrightarrow> ok_ctx (fx\<lparr>fx_scopes := tl (fx_scopes fx)\<rparr>)"
  by (cases "fx_scopes fx"; simp add: ok_ctx_def ok_vars_def)+

lemma ok_ctx_breaks:
  "ok_ctx fx \<Longrightarrow> ok_swc (snd x) \<Longrightarrow> ok_ctx (fx\<lparr>fx_breaks := x # fx_breaks fx\<rparr>)"
  "ok_ctx fx \<Longrightarrow> ok_ctx (fx\<lparr>fx_breaks := tl (fx_breaks fx)\<rparr>)"
  by (cases "fx_breaks fx"; simp add: ok_ctx_def)+

lemma wt_push_scope: "wt p s \<Longrightarrow> wt p (push_scope s)"
  unfolding push_scope_def by (rule wt_fc_cong) (simp_all add: ok_ctx_scopes)

lemma wt_pop_scope: "wt p s \<Longrightarrow> wt p (pop_scope s)"
  unfolding pop_scope_def by (rule wt_fc_cong) (simp_all add: ok_ctx_scopes)

lemma styped_in_scope:
  assumes "styped g"
  shows "styped (in_scope g)"
  unfolding in_scope_def by (rule stypedI, rule sres_map [OF stypedD [OF assms wt_push_scope] wt_pop_scope])

definition with_break :: "nat \<Rightarrow> swctx option \<Rightarrow> tctx \<Rightarrow> tctx" where
  "with_break b sw p = p\<lparr>tc_breaks := (b, sw) # tc_breaks p\<rparr>"

lemma wt_push_break: "wt p s \<Longrightarrow> ok_swc sw \<Longrightarrow> wt (with_break b sw p) (push_break b sw s)"
  unfolding push_break_def by (rule wt_fc_cong) (simp_all add: with_break_def ok_ctx_breaks)

lemma wt_pop_break: "wt (with_break b sw p) s \<Longrightarrow> wt p (pop_break s)"
  unfolding pop_break_def
  by (rule wt_fc_cong [where p = "with_break b sw p"]) (auto simp: with_break_def ok_ctx_breaks)

lemma styped_in_loop:
  assumes "styped g"
  shows "styped (in_loop b g)"
  unfolding in_loop_def
  by (rule stypedI, rule sres_map [OF stypedD [OF assms wt_push_break] wt_pop_break]) (simp_all add: ok_swc_def)

subsection \<open>Branches, loops and jumps\<close>

definition is_bool :: "val \<Rightarrow> bool" where
  "is_bool v \<longleftrightarrow> val_ty v = LI1"

lemma wt_gen_cond: "wt p s \<Longrightarrow> ok_expr e \<Longrightarrow> res p is_bool (gen_cond n l e s)"
  unfolding gen_cond_def by (rule res_bind [OF ge.gx]) (auto simp: is_bool_def intro!: res_SomeI)

lemma wt_condbr [simp]: "wt p s \<Longrightarrow> is_bool c \<Longrightarrow> wt p (emit0 (TCondBr c a b) s)"
  by (simp add: is_bool_def)

lemma styped_genIf:
  assumes "ok_expr e" and "styped thn" and "\<And>g. els = Some g \<Longrightarrow> styped g"
  shows "styped (genIf n l e thn els)"
proof (rule stypedI)
  fix p s assume s: "wt p s"
  have els: "sres p (case els of None \<Rightarrow> Some s6 | Some g \<Rightarrow> map_option (br_open b) (g (set_block c s6)))"
    if "wt p s6" for s6 b c
  proof (cases els)
    case (Some g)
    then show ?thesis
      using sres_map [OF stypedD [OF assms(3) [OF Some] wt_set_block [OF that]] wt_br_open] by simp
  qed (use that in simp)
  have elb: "wt p (snd (if els = None then (b, s3) else new_block x s3))" if "wt p s3" for b x s3
    using that by simp
  show "sres p (genIf n l e thn els s)"
    unfolding genIf_def Let_def
    by (rule sres_bind [OF wt_gen_cond [OF s assms(1)]], rule sres_let, simp, rule sres_let, simp, rule sres_let, rule elb,
        assumption, rule sres_sbind [OF stypedD [OF assms(2)]], simp, rule sres_sbind [OF els]) simp_all
qed

lemma styped_genWhile:
  assumes "ok_expr e" and "styped body"
  shows "styped (genWhile n l e body)"
  unfolding genWhile_def Let_def
  by (rule stypedI, (rule sres_let, simp)+, rule sres_bind [OF wt_gen_cond [OF _ assms(1)]], simp,
      rule sres_sbind [OF stypedD [OF styped_in_loop [OF assms(2)]]]) simp_all

lemma styped_genDoWhile:
  assumes "ok_opt e" and "styped body"
  shows "styped (genDoWhile n l e body)"
proof (rule stypedI)
  fix p s assume s: "wt p s"
  have c: "res p is_bool (case e of Some x \<Rightarrow> gen_cond n l x s5 | None \<Rightarrow> Some (cFalse, s5\<lparr>cg_fault := True\<rparr>))"
    if "wt p s5" for s5
    using that assms(1) by (auto simp: ok_opt_def is_bool_def [of cFalse] intro!: wt_gen_cond split: option.split)
  show "sres p (genDoWhile n l e body s)"
    unfolding genDoWhile_def Let_def
    by (rule sres_let, simp add: s, rule sres_let, simp, rule sres_let, simp,
        rule sres_sbind [OF stypedD [OF styped_in_loop [OF assms(2)]]], simp, rule sres_bind [OF c]) simp_all
qed

lemma styped_gen_exprs: "\<forall>e \<in> set es. ok_expr e \<Longrightarrow> styped (gen_exprs n es)"
proof (induction es)
  case (Cons e es)
  then have e: "ok_expr e" and es: "styped (gen_exprs n es)" by auto
  show ?case
    unfolding gen_exprs.simps by (rule stypedI, rule sres_bind [OF ge.gx [OF _ e]], assumption) (rule stypedD [OF es])
qed (simp add: styped_def)

lemma styped_genFor:
  assumes "\<forall>x \<in> set es. ok_expr x" and "ok_opt e" and "styped posts" and "styped body"
  shows "styped (genFor n l es e posts body)"
proof (rule stypedI)
  fix p s assume s: "wt p s"
  have c: "sres p (case e of
         Some e \<Rightarrow> do { (c, s5) \<leftarrow> gen_cond n l e s4; Some (emit0 (TCondBr c a b) s5) }
       | None \<Rightarrow> Some (emit0 (TBr a) s4))" if "wt p s4" for s4 a b
    using that assms(2) by (auto simp: ok_opt_def intro!: sres_bind [OF wt_gen_cond] split: option.split)
  have post: "sres p (if cur_term s6 then Some s6 else map_option (emit0 (TBr a)) (posts s6))" if "wt p s6" for s6 a
    using that sres_map [OF stypedD [OF assms(3) that], where f = "emit0 (TBr a)" and q = p] by simp
  show "sres p (genFor n l es e posts body s)"
    unfolding genFor_def Let_def
    by (rule sres_sbind [OF stypedD [OF styped_gen_exprs [OF assms(1)] s]], rule sres_let, simp, rule sres_let, simp,
        rule sres_let, simp, rule sres_sbind [OF c], simp,
        rule sres_sbind [OF stypedD [OF styped_in_loop [OF assms(4)]]], simp, rule sres_sbind [OF post]) simp_all
qed

lemma wt_genBreak: "wt p s \<Longrightarrow> wt p (genBreak l s)"
  by (auto simp: genBreak_def split: list.split prod.split)

lemma wt_labels: "wt p s \<Longrightarrow> wt p (upd_fc (\<lambda>fx. fx\<lparr>fx_labels := ls fx\<rparr>) s)"
  "wt p s \<Longrightarrow> wt p (upd_fc (\<lambda>fx. fx\<lparr>fx_labelsDefined := ds fx\<rparr>) s)"
  by (erule wt_fc_cong; simp)+

lemma wt_getLabelBlock [simp]: "wt p s \<Longrightarrow> wt p (snd (getLabelBlock n s))"
  by (auto simp: getLabelBlock_def Let_def intro!: wt_let wt_labels split: option.split)

lemma wt_genGoto: "wt p s \<Longrightarrow> wt p (genGoto n s)"
  by (auto simp: genGoto_def Let_def intro!: wt_slet)

lemma wt_genLabel: "wt p s \<Longrightarrow> wt p (genLabel l n s)"
  by (auto simp: genLabel_def Let_def intro!: wt_slet wt_labels wt_set_block wt_br_open)

lemma fits_ret [simp]: "tc_ret p = r \<Longrightarrow> fits p s (TRet (zero_ret r))"
  by (cases r) (simp_all add: fits_def zero_ret_def ret_lty_def)

lemma styped_genReturn:
  assumes "ok_opt e"
  shows "styped (genReturn n e)"
proof (rule stypedI)
  fix p s assume s: "wt p s"
  have val: "wt p (case tc_ret p of
               RetVoid \<Rightarrow> emit0 (TRet None) s1
             | RetF64 \<Rightarrow> (let (v, s2) = convert r tyF64 True s1 in emit0 (TRet (Some v)) s2)
             | RetInt \<Rightarrow> (let (v, s2) = convert r tyI64 False s1 in emit0 (TRet (Some v)) s2))"
    if "wt p s1" and "ok_rv r" for s1 r
  proof (cases "tc_ret p")
    case RetInt
    then show ?thesis using that by (auto simp: fits_def ret_lty_def Let_def intro!: wt_slet)
  next
    case RetF64
    then show ?thesis using that by (auto simp: fits_def ret_lty_def Let_def intro!: wt_slet)
  next
    case RetVoid
    then show ?thesis using that by (simp add: fits_def ret_lty_def)
  qed
  show "sres p (genReturn n e s)"
  proof (cases e)
    case None
    then show ?thesis using s by (simp add: genReturn_def wt_fx)
  next
    case (Some x)
    then have "ok_expr x" using assms by (simp add: ok_opt_def)
    from ge.gx [OF s this, where n = n] show ?thesis
      unfolding Some genReturn_def option.case wt_fx(2) [OF s]
      by (rule sres_sbind [OF sres_bind]) (simp_all add: val)
  qed
qed

subsection \<open>Switch\<close>

text \<open>Inside a switch its context is on top of the break targets.\<close>

definition swt :: "tctx \<Rightarrow> cg \<Rightarrow> bool" where
  "swt p s \<longleftrightarrow> (\<exists>b c. wt (with_break b (Some c) p) s)"

definition swres :: "tctx \<Rightarrow> cg option \<Rightarrow> bool" where
  "swres p m \<longleftrightarrow> (\<forall>s. m = Some s \<longrightarrow> swt p s)"

lemma swres_Some [simp]: "swres p (Some s) = swt p s" "swres p None"
  by (simp_all add: swres_def)

lemma swres_obind: "(\<And>t. m = Some t \<Longrightarrow> swres p (g t)) \<Longrightarrow> swres p (Option.bind m g)"
  by (cases m) auto

lemma swres_sbind: "swres p m \<Longrightarrow> (\<And>s. swt p s \<Longrightarrow> swres p (g s)) \<Longrightarrow> swres p (Option.bind m g)"
  by (cases m) auto

lemma swt_lift: "swt p s \<Longrightarrow> (\<And>b c. wt (with_break b (Some c) p) s \<Longrightarrow> wt (with_break b (Some c) p) s') \<Longrightarrow> swt p s'"
  unfolding swt_def by blast

lemma fits_with_break [simp]: "fits (with_break b c p) = fits p"
  by (simp add: fits_def with_break_def fun_eq_iff)

lemma swt_builder [simp]:
  "swt p s \<Longrightarrow> swt p (snd (new_block n s))" "swt p s \<Longrightarrow> swt p (set_block k s)" "swt p s \<Longrightarrow> swt p (br_open k s)"
  "swt p s \<Longrightarrow> swt p (cg_error l m s)" "swt p s \<Longrightarrow> fits p s i \<Longrightarrow> swt p (emit0 i s)" "swt p s \<Longrightarrow> fits p s i \<Longrightarrow> swt p (snd (emit i s))"
  "swt p s \<Longrightarrow> fits p s i \<Longrightarrow> swt p (emit_at k i s)" "swt p s \<Longrightarrow> swt p (snd (entryAlloca t n s))"
  by (erule swt_lift; simp)+

lemma swt_let: "swt p (snd f) \<Longrightarrow> (\<And>s. swt p s \<Longrightarrow> swt p (g (fst f) s)) \<Longrightarrow> swt p (case f of (x, s) \<Rightarrow> g x s)"
  by (cases f) simp

lemma swres_let: "swt p (snd f) \<Longrightarrow> (\<And>s. swt p s \<Longrightarrow> swres p (g (fst f) s)) \<Longrightarrow> swres p (case f of (x, s) \<Rightarrow> g x s)"
  by (cases f) simp

lemma swt_top:
  assumes "swt p s"
  obtains b c where "wt (with_break b (Some c) p) s" "fx_breaks (cg_fc s) = (b, Some c) # tc_breaks p" "cur_swc s = c" "ok_swc (Some c)"
proof -
  obtain b c where 1: "wt (with_break b (Some c) p) s" using assms by (auto simp: swt_def)
  then have 2: "fx_breaks (cg_fc s) = (b, Some c) # tc_breaks p" using wt_fx(3) [OF 1] by (simp add: with_break_def)
  moreover have "ok_swc (Some c)" using wt_ctx(1) [OF 1] 2 by (simp add: ok_ctx_def)
  ultimately show ?thesis using that [OF 1] by (simp add: cur_swc_def)
qed

lemma swt_sel: "swt p s \<Longrightarrow> sc_inGroup (cur_swc s) \<Longrightarrow> val_ty (sc_groupSel (cur_swc s)) = LPtr"
  by (erule swt_top) (simp add: ok_swc_def)

lemma swt_upd_swc:
  assumes "swt p s" and "ok_swc (Some (f (cur_swc s)))"
  shows "swt p (upd_swc f s)"
proof -
  obtain b c where c: "wt (with_break b (Some c) p) s" "fx_breaks (cg_fc s) = (b, Some c) # tc_breaks p" "cur_swc s = c"
    using swt_top [OF assms(1)] by metis
  have "wt (with_break b (Some (f c)) p) (upd_swc f s)"
    unfolding upd_swc_def
    by (rule wt_fc_cong [OF c(1)]) (use c assms(2) in \<open>auto simp: ok_ctx_def with_break_def\<close>)
  then show ?thesis by (auto simp: swt_def)
qed

text \<open>A change of the instruction that ends a block.\<close>

definition typed_change :: "(instr \<Rightarrow> instr) \<Rightarrow> bool" where
  "typed_change f \<longleftrightarrow> (\<forall>fty rt i. instr_ok fty i \<longrightarrow> ret_ok rt i \<longrightarrow> instr_ok fty (f i) \<and> ret_ok rt (f i))"

lemma typed_add_cases: "typed_change (add_cases vs b)" "typed_change (set_default b)"
proof -
  have "instr_ok fty i \<longrightarrow> ret_ok rt i \<longrightarrow> instr_ok fty (add_cases vs b i) \<and> ret_ok rt (add_cases vs b i)" for fty rt i
    by (cases i) auto
  moreover have "instr_ok fty i \<longrightarrow> ret_ok rt i \<longrightarrow> instr_ok fty (set_default b i) \<and> ret_ok rt (set_default b i)" for fty rt i
    by (cases i) auto
  ultimately show "typed_change (add_cases vs b)" "typed_change (set_default b)" by (simp_all add: typed_change_def)
qed

lemma change_last_ok:
  "typed_change f \<Longrightarrow> \<forall>c \<in> set cs. instr_ok fty (snd c) \<and> ret_ok rt (snd c)
    \<Longrightarrow> \<forall>c \<in> set (change_last f cs). instr_ok fty (snd c) \<and> ret_ok rt (snd c)"
  by (induction cs) (auto simp: typed_change_def)

lemma wt_upd_last:
  assumes "wt p s" and "typed_change f"
  shows "wt p (upd_last b f s)"
  unfolding upd_last_def
proof (rule wt_fc_cong [OF assms(1)])
  fix fty rt assume ok: "code_ok fty rt (cg_fc s)"
  show "code_ok fty rt ((cg_fc s)\<lparr>fx_blocks := (fx_blocks (cg_fc s))[b := (fx_blocks (cg_fc s) ! b)
      \<lparr>bl_code := change_last f (bl_code (fx_blocks (cg_fc s) ! b))\<rparr>]\<rparr>)"
  proof (rule code_ok_update [OF ok])
    assume "b < length (fx_blocks (cg_fc s))"
    then have "\<forall>c \<in> set (bl_code (fx_blocks (cg_fc s) ! b)). instr_ok fty (snd c) \<and> ret_ok rt (snd c)"
      by (blast dest: code_ok_block [OF ok])
    from change_last_ok [OF assms(2) this] show "\<forall>c \<in> set (bl_code ((fx_blocks (cg_fc s) ! b)
        \<lparr>bl_code := change_last f (bl_code (fx_blocks (cg_fc s) ! b))\<rparr>)). instr_ok fty (snd c) \<and> ret_ok rt (snd c)"
      by simp
  qed
qed simp_all

lemma swt_upd_last [simp]: "swt p s \<Longrightarrow> typed_change f \<Longrightarrow> swt p (upd_last b f s)"
  by (erule swt_lift) (rule wt_upd_last)

lemma swt_swc: "swt p s \<Longrightarrow> ok_swc (Some (cur_swc s))"
  by (erule swt_top) simp

lemma swt_upd_swc_plain [simp]:
  "swt p s \<Longrightarrow> swt p (upd_swc (\<lambda>c. c\<lparr>sc_nextCaseVal := v\<rparr>) s)" "swt p s \<Longrightarrow> swt p (upd_swc (\<lambda>c. c\<lparr>sc_groupSw := g\<rparr>) s)"
  "swt p s \<Longrightarrow> swt p (upd_swc (\<lambda>c. c\<lparr>sc_nextGroupId := i\<rparr>) s)" "swt p s \<Longrightarrow> swt p (upd_swc (\<lambda>c. c\<lparr>sc_sawDefault := d\<rparr>) s)"
  "swt p s \<Longrightarrow> swt p (upd_swc (\<lambda>c. c\<lparr>sc_inGroup := False\<rparr>) s)"
  by (frule swt_swc, erule swt_upd_swc, simp add: ok_swc_def)+

definition sw3 :: "tctx \<Rightarrow> (i64 \<times> i64 \<times> cg) option \<Rightarrow> bool" where
  "sw3 p m \<longleftrightarrow> (\<forall>lo hi s. m = Some (lo, hi, s) \<longrightarrow> swt p s)"

lemma bind_SomeE:
  assumes "Option.bind m f = Some y" obtains x where "m = Some x" "f x = Some y"
  using assms by (cases m) auto

lemma swt_case_lo: "swt p s \<Longrightarrow> case_lo l e s = Some (lo, s') \<Longrightarrow> swt p s'"
  unfolding case_lo_def by (elim bind_SomeE) (auto split: option.splits)

lemma swt_case_hi: "swt p s \<Longrightarrow> case_hi l lo h s = Some (hi, s') \<Longrightarrow> swt p s'"
  unfolding case_hi_def by (cases h) (auto elim!: bind_SomeE split: option.splits)

lemma swt_case_bounds:
  assumes "swt p s" and "case_bounds l c s = Some (lo, hi, s')"
  shows "swt p s'"
proof -
  obtain lo1 hi1 s2 where 1: "(case c of
         None \<Rightarrow> Some (sc_nextCaseVal (cur_swc s), sc_nextCaseVal (cur_swc s), s)
       | Some (e, h) \<Rightarrow> do {
           (lo, s1) \<leftarrow> case_lo l e s;
           (hi, s2) \<leftarrow> case_hi l lo h s1;
           Some (lo, hi, s2)
         }) = Some (lo1, hi1, s2)"
    and 2: "s' = upd_swc (\<lambda>c. c\<lparr>sc_nextCaseVal := hi1 + 1\<rparr>) s2 \<or>
            s' = cg_error l ''case range too large'' (upd_swc (\<lambda>c. c\<lparr>sc_nextCaseVal := hi1 + 1\<rparr>) s2)"
    using assms(2) unfolding case_bounds_def by (elim bind_SomeE) (auto simp: Let_def split: if_splits)
  have "swt p s2"
  proof (cases c)
    case None
    then show ?thesis using 1 assms(1) by simp
  next
    case (Some eh)
    obtain a b where eh: "eh = (a, b)" by (cases eh)
    obtain s1 where "case_lo l a s = Some (lo1, s1)" "case_hi l lo1 b s1 = Some (hi1, s2)"
      using 1 Some eh by (auto elim!: bind_SomeE)
    then show ?thesis by (blast intro: swt_case_hi swt_case_lo [OF assms(1)])
  qed
  then show ?thesis using 2 by auto
qed

lemma swt_enter_group_case:
  assumes "swt p s" and "sc_inGroup (cur_swc s)"
  shows "swt p (enter_group_case l bb s)"
proof -
  have "swt p (let (sel, s1) = emit (ILoad LI32 (sc_groupSel (cur_swc s))) s; b = cur_block s1
                 in upd_swc (\<lambda>c. c\<lparr>sc_groupSw := Some b\<rparr>) (emit0 (TSwitch sel bb []) s1))"
    unfolding Let_def
    by (rule swt_let) (use assms(1) swt_sel [OF assms] in \<open>simp_all add: fits_def\<close>)
  then show ?thesis using assms(1) by (simp add: enter_group_case_def)
qed

lemma cur_swc_fc: "fx_breaks (cg_fc s') = fx_breaks (cg_fc s) \<Longrightarrow> cur_swc s' = cur_swc s"
  by (simp add: cur_swc_def)

lemma cur_swc_same [simp]:
  "cur_swc (snd (emit i s)) = cur_swc s" "cur_swc (emit0 i s) = cur_swc s" "cur_swc (snd (new_block n s)) = cur_swc s"
  "cur_swc (cg_error l m s) = cur_swc s" "cur_swc (set_block b s) = cur_swc s" "cur_swc (br_open b s) = cur_swc s"
  "cur_swc (emit_at b i s) = cur_swc s" "cur_swc (upd_last b f s) = cur_swc s" "cur_swc (snd (entryAlloca t n s)) = cur_swc s"
  by (simp_all add: cur_swc_def emit0_def emit_def Let_def new_block_def cg_error_def set_block_def br_open_def upd_fc_def
      emit_at_def upd_last_def entryAlloca_def)

definition has_swc :: "cg \<Rightarrow> bool" where
  "has_swc s \<longleftrightarrow> (\<exists>b c bs. fx_breaks (cg_fc s) = (b, Some c) # bs)"

lemma swt_has_swc: "swt p s \<Longrightarrow> has_swc s"
  by (erule swt_top) (simp add: has_swc_def)

lemma has_swc_same [simp]:
  "has_swc (snd (emit i s)) = has_swc s" "has_swc (emit0 i s) = has_swc s" "has_swc (snd (new_block n s)) = has_swc s"
  "has_swc (cg_error l m s) = has_swc s" "has_swc (emit_at b i s) = has_swc s" "has_swc (br_open b s) = has_swc s"
  by (simp_all add: has_swc_def emit0_def emit_def Let_def new_block_def cg_error_def upd_fc_def emit_at_def br_open_def)

lemma cur_swc_upd [simp]: "has_swc s \<Longrightarrow> cur_swc (upd_swc f s) = f (cur_swc s)"
  by (auto simp: cur_swc_def upd_swc_def upd_fc_def has_swc_def)

lemma enter_group_swc: "has_swc s \<Longrightarrow> sc_inGroup (cur_swc (enter_group_case l bb s)) = sc_inGroup (cur_swc s)"
  by (simp add: enter_group_case_def Let_def case_prod_beta)

lemma swt_group_case:
  assumes "swt p s" and "sc_inGroup (cur_swc s)"
  shows "swt p (group_case l bb vs s)"
proof -
  let ?s1 = "enter_group_case l bb s"
  have 1: "swt p ?s1" "sc_inGroup (cur_swc ?s1)"
    using swt_enter_group_case [OF assms] enter_group_swc [OF swt_has_swc [OF assms(1)]] assms(2) by simp_all
  let ?s2 = "upd_swc (\<lambda>c. c\<lparr>sc_nextGroupId := Suc (sc_nextGroupId (cur_swc ?s1))\<rparr>) ?s1"
  have 2: "swt p ?s2" "sc_inGroup (cur_swc ?s2)" using 1 swt_has_swc [OF 1(1)] by simp_all
  let ?s3 = "snd (new_block ''sw.substub'' ?s2)" and ?stub = "fst (new_block ''sw.substub'' ?s2)"
  have 3: "swt p ?s3" "val_ty (sc_groupSel (cur_swc ?s3)) = LPtr" using 2 swt_sel [of p ?s3] by simp_all
  let ?s4 = "emit_at ?stub (TBr (sc_groupStart (cur_swc ?s3)))
      (emit_at ?stub (IStore (VInt 32 (of_nat (sc_nextGroupId (cur_swc ?s1)))) (sc_groupSel (cur_swc ?s3))) ?s3)"
  have 4: "swt p ?s4" using 3 by (simp add: fits_def)
  then have 5: "swt p (upd_last k (add_cases xs b) ?s4)" for k xs b by (simp add: typed_add_cases)
  then have 6: "swt p (upd_last g (add_cases ys b') (upd_last k (add_cases xs b) ?s4))" for g ys b' k xs b
    by (simp add: typed_add_cases)
  show ?thesis
    unfolding group_case_def Let_def case_prod_beta
    using 5 6 by (auto split: option.split)
qed

lemma swt_genCaseLabel: "swt p s \<Longrightarrow> swres p (genCaseLabel l c s)"
proof -
  assume s: "swt p s"
  show ?thesis
    unfolding genCaseLabel_def Let_def
  proof (rule swres_obind)
    fix x assume "case_bounds l c s = Some x"
    then obtain lo hi s1 where x: "x = (lo, hi, s1)" "swt p s1" using swt_case_bounds [OF s] by (cases x) auto
    show "swres p (case x of (lo, hi, s1) \<Rightarrow> Option.bind (case_values lo hi) (\<lambda>vs. case new_block ''sw.case'' s1 of (bb, s2) \<Rightarrow>
        Some (set_block bb (if sc_inGroup (cur_swc s2) then group_case l bb vs s2
          else upd_last (sc_sw (cur_swc s2)) (add_cases vs bb) (br_open bb s2)))))"
      unfolding x(1) prod.case
      by (rule swres_obind, rule swres_let) (use x(2) in \<open>simp_all add: swt_group_case typed_add_cases\<close>)
  qed
qed

lemma swt_genDefault: "swt p s \<Longrightarrow> swt p (genDefault l s)"
  unfolding genDefault_def Let_def by (rule swt_let) (simp_all add: typed_add_cases)

lemma swt_genSubStart: "swt p s \<Longrightarrow> swt p (genSubStart l s)"
proof -
  assume s: "swt p s"
  have "swt p (let (sb, s1) = new_block ''sw.porch'' s; (eb, s2) = new_block ''sw.endporch'' s1;
                (sel, s3) = entryAlloca LI32 ''sw.sel'' s2;
                s4 = upd_swc (\<lambda>c. c\<lparr>sc_inGroup := True, sc_groupStart := sb, sc_groupEnd := eb, sc_groupSel := sel,
                       sc_groupSw := None, sc_nextGroupId := 0\<rparr>) s3;
                s5 = (if cur_term s4 then s4 else emit0 (TBr sb) (emit0 (IStore (VInt 32 0) sel) s4))
            in set_block sb s5)"
    unfolding Let_def
  proof (rule swt_let, simp add: s, rule swt_let, simp, rule swt_let, simp, goal_cases)
    case (1 s1 s2 s3)
    let ?sel = "fst (entryAlloca LI32 ''sw.sel'' s2)"
    have "swt p (upd_swc (\<lambda>c. c\<lparr>sc_inGroup := True, sc_groupStart := a, sc_groupEnd := b, sc_groupSel := ?sel,
        sc_groupSw := None, sc_nextGroupId := 0\<rparr>) s3)" for a b
      by (rule swt_upd_swc [OF 1(3)]) (simp add: ok_swc_def)
    then show ?case by (simp add: fits_def)
  qed
  then show ?thesis using s by (simp add: genSubStart_def)
qed

lemma swt_genSubEnd: "swt p s \<Longrightarrow> swt p (genSubEnd l s)"
  by (simp add: genSubEnd_def Let_def)

lemma swres_styped: "styped g \<Longrightarrow> swt p s \<Longrightarrow> swres p (g s)"
  unfolding swres_def swt_def by (blast dest: stypedD [unfolded sres_def])

lemma swres_switch_item: "styped g \<Longrightarrow> swt p s \<Longrightarrow> swres p (switch_item b g s)"
  by (cases b) (simp_all add: swt_genCaseLabel swt_genDefault swt_genSubStart swt_genSubEnd swres_styped)

end
