(* ===== verification/HC_DeclTypes.thy ===== *)
theory HC_DeclTypes
  imports HC_StmtTypes HC_SwitchFlow
begin

text \<open>Typed code from switches, handlers, initialisers, declarations and whole statements.\<close>

subsection \<open>A whole switch\<close>

definition swtyped :: "gstmt \<Rightarrow> bool" where
  "swtyped g \<longleftrightarrow> (\<forall>p s. swt p s \<longrightarrow> swres p (g s))"

lemma swtypedI: "(\<And>p s. swt p s \<Longrightarrow> swres p (g s)) \<Longrightarrow> swtyped g"
  by (simp add: swtyped_def)

lemma swtypedD: "swtyped g \<Longrightarrow> swt p s \<Longrightarrow> swres p (g s)"
  by (simp add: swtyped_def)

lemma swtyped_switch_item: "styped g \<Longrightarrow> swtyped (switch_item b g)"
  by (rule swtypedI) (rule swres_switch_item)

lemma swt_push_scope: "swt p s \<Longrightarrow> swt p (push_scope s)"
  by (erule swt_lift) (rule wt_push_scope)

lemma swt_pop_scope: "swt p s \<Longrightarrow> swt p (pop_scope s)"
  by (erule swt_lift) (rule wt_pop_scope)

lemma swtyped_in_scope: "swtyped g \<Longrightarrow> swtyped (in_scope g)"
  unfolding in_scope_def
  by (rule swtypedI) (auto simp: swres_def intro!: swt_pop_scope dest!: swtypedD [OF _ swt_push_scope])

lemma swt_pop_break: "swt p s \<Longrightarrow> wt p (pop_break s)"
  unfolding swt_def by (auto intro: wt_pop_break)

lemma swt_new_swc: "wt p s \<Longrightarrow> swt p (push_break b (Some (new_swc x y)) s)"
  unfolding swt_def by (intro exI, erule wt_push_break) (simp add: ok_swc_def new_swc_def)

lemma swt_startDeadBlock [simp]: "swt p s \<Longrightarrow> swt p (startDeadBlock n s)"
  by (erule swt_lift) simp

lemma styped_genSwitch:
  assumes "ok_expr e" and "swtyped items"
  shows "styped (genSwitch n l e items)"
proof (rule stypedI, unfold sres_def, intro allI impI)
  fix p s s' assume s: "wt p s" and r: "genSwitch n l e items s = Some s'"
  obtain x s1 where 1: "genExpr n e s = Some (x, s1)" using r by (cases "genExpr n e s") (auto simp: genSwitch_def)
  then have x: "ok_rv x" "wt p s1" using ge.gx [OF s assms(1), of n] by (auto simp: res_def)
  obtain v s2 where 2: "convert x tyI64 False s1 = (v, s2)" by fastforce
  then have v: "val_ty v = LI64" "wt p s2"
    using convert_ty [OF x(1), of tyI64 False s1] wt_convert [OF x(2,1), of tyI64 False] by simp_all
  obtain exitb s3 where 3: "new_block ''sw.end'' s2 = (exitb, s3)" by fastforce
  obtain firstb s4 where 4: "new_block ''sw.dispatch'' s3 = (firstb, s4)" by fastforce
  have w4: "wt p s4" using wt_new_block [OF wt_new_block [OF v(2)], of "''sw.dispatch''" "''sw.end''"] 3 4 by simp
  let ?s5 = "emit0 (TSwitch v exitb []) (set_block firstb (emit0 (TBr firstb) s4))"
  let ?s6 = "startDeadBlock ''sw.preamble'' (push_break exitb (Some (new_swc firstb exitb)) ?s5)"
  have "wt p ?s5" using w4 v(1) by (simp add: fits_def)
  then have w6: "swt p ?s6" by (simp add: swt_new_swc)
  obtain s7 where 7: "in_scope items ?s6 = Some s7"
    and s': "s' = set_block exitb (br_open exitb (if sc_inGroup (cur_swc s7)
        then cg_error l ''start: without matching end: in switch'' (pop_break s7) else pop_break s7))"
    using r by (cases "in_scope items ?s6") (auto simp: genSwitch_def Let_def 1 2 3 4)
  have "swt p s7" using swtypedD [OF swtyped_in_scope [OF assms(2)] w6] 7 by (simp add: swres_def)
  then show "wt p s'" using swt_pop_break by (simp add: s')
qed

subsection \<open>Handlers\<close>

lemma in_rt_sigs:
  "(''HC_TryPush'', LPtr, [LPtr]) \<in> set rt_sigs" "(''HC_TryPop'', LVoid, []) \<in> set rt_sigs"
  "(''HC_CatchEnter'', LVoid, []) \<in> set rt_sigs" "(''HC_CatchDone'', LVoid, []) \<in> set rt_sigs"
  "(''setjmp'', LI32, [LPtr]) \<in> set rt_sigs" "(''HC_RtInit'', LVoid, [LI64, LPtr]) \<in> set rt_sigs"
  by (simp_all add: rt_sigs_def)

lemma sres_knows: "sres (knows k t p) m \<Longrightarrow> sres p m"
  by (auto simp: sres_def wt_knows)

lemma sres_getRT:
  assumes "wt p s" and "(n, ret, as) \<in> set rt_sigs"
    and "\<And>k s'. wt (knows k (ret, as) p) s' \<Longrightarrow> sres (knows k (ret, as) p) (g k s')"
  shows "sres p (case getRT n ret as s of (k, s') \<Rightarrow> g k s')"
  using assms(3) [OF wt_getRT [OF assms(1,2)]] by (auto simp: case_prod_beta intro: sres_knows)

lemma call_rt_ty [simp]: "val_ty (fst (call_rt f t as s)) = t"
  by (simp add: call_rt_def)

lemma wt_call_rt [simp]: "wt p s \<Longrightarrow> (k, t, map val_ty vs) \<in> tc_funs p \<Longrightarrow> wt p (snd (call_rt k t vs s))"
  by (simp add: call_rt_def)

lemma styped_genTry:
  assumes "styped body" and "styped handler"
  shows "styped (genTry body handler)"
proof (rule stypedI)
  fix p s assume s: "wt p s"
  show "sres p (genTry body handler s)"
    unfolding genTry_def Let_def
    apply (rule sres_let, simp add: s)
    apply (rule sres_getRT, assumption, rule in_rt_sigs)+
    apply (rule sres_let, simp)
    apply (rule sres_let, simp)
    apply (rule sres_let, simp)
    apply (rule sres_let, simp)
    apply (rule sres_let, simp)
    apply (rule sres_let, simp add: fits_def)
    apply (rule sres_sbind [OF stypedD [OF styped_in_scope [OF assms(1)]]], simp add: fits_def)
    apply (rule sres_sbind [OF stypedD [OF styped_in_scope [OF assms(2)]]])
    apply simp
    apply simp
    done
qed

subsection \<open>Initialisers\<close>

lemma flat_members_ok: "ok_store st \<Longrightarrow> flat_members st k c = Some ms \<Longrightarrow> m \<in> set ms \<Longrightarrow> ok_ty (cm_type m)"
proof (induction k arbitrary: c ms)
  case (Suc k)
  show ?case
  proof (cases "class_at st c")
    case (Some ci)
    obtain b where b: "(case base_of st c of Some b \<Rightarrow> flat_members st k b | None \<Rightarrow> Some []) = Some b" "ms = b @ ci_members ci"
      using Suc.prems(2) Some by (auto elim!: bind_SomeE)
    have "ok_ty (cm_type m)" if "m \<in> set b"
      using b(1) that Suc.IH [OF Suc.prems(1)] by (auto split: option.splits)
    then show ?thesis using Suc.prems(3) b(2) class_at_ok [OF Suc.prems(1) Some] by (auto simp: ok_class_def)
  qed (use Suc.prems in simp)
qed simp

definition ok_slots :: "(nat \<Rightarrow> (i64 \<times> ty) option) \<Rightarrow> bool" where
  "ok_slots f \<longleftrightarrow> (\<forall>i off t. f i = Some (off, t) \<longrightarrow> ok_ty t)"

lemma slots_ok: "ok_store st \<Longrightarrow> ok_ty t \<Longrightarrow> slots st t = Some (Some f) \<Longrightarrow> ok_slots f"
  by (cases t) (auto simp: slots_def ok_slots_def simp del: flat_members.simps elim!: bind_SomeE split: if_splits
      intro: flat_members_ok [OF _ _ nth_mem])

lemma styped_init_plain:
  assumes "val_ty addr = LPtr" and "ok_ty t" and "ok_expr e"
  shows "styped (init_plain n addr t e)"
proof (rule stypedI)
  fix p s assume s: "wt p s"
  have plain: "sres p (do { (r, s1) \<leftarrow> genExpr n e s;
      if isAggregate t
      then (let (src, s2) = asPtr (fst r) s1 in Some (emit0 (IMemCpy addr src (ty_size (cg_store s) t)) s2))
      else storeTo addr r t s1 })"
  proof (rule sres_bind [OF ge.gx [OF s assms(3)]])
    fix r s1 assume r: "ok_rv r" "wt p s1"
    have "sres p (Some (let (src, s2) = asPtr (fst r) s1 in emit0 (IMemCpy addr src (ty_size (cg_store s) t)) s2))"
      unfolding sres_Some Let_def by (rule wt_slet) (use r assms(1) in \<open>simp_all add: fits_def\<close>)
    moreover have "sres p (storeTo addr r t s1)" by (rule wt_storeTo [OF r(2) assms(1) r(1) assms(2)])
    ultimately show "sres p (if isAggregate t
      then (let (src, s2) = asPtr (fst r) s1 in Some (emit0 (IMemCpy addr src (ty_size (cg_store s) t)) s2))
      else storeTo addr r t s1)" by (simp add: case_prod_beta)
  qed
  have lit: "sres p (let (g, s1) = stringConst x s; sz = ty_size (cg_store s) t
         in Some (emit0 (IMemCpy addr (VGlobal g) (if of_nat (length x + 1) \<le> sz then of_nat (length x + 1) else sz)) s1))" for x
    unfolding Let_def by (rule sres_let) (use s assms(1) in \<open>simp_all add: fits_def\<close>)
  show "sres p (init_plain n addr t e s)"
    unfolding init_plain_def prod.case by (simp only: split: ty.split nat.split expr.split) (use plain lit in blast)
qed

lemma wt_init_slot [simp]: "wt p s \<Longrightarrow> val_ty a = LPtr \<Longrightarrow> wt p (snd (emit (IGep LI8 a [cI64 off]) s))"
  by (simp add: fits_def)

definition typed_init :: "nat \<Rightarrow> expr \<Rightarrow> bool" where
  "typed_init n e \<longleftrightarrow> (\<forall>a t. val_ty a = LPtr \<longrightarrow> ok_ty t \<longrightarrow> styped (genInit n a t e)
     \<and> (\<forall>l ks. e = EInitList l ks \<longrightarrow> styped (genInitList n a t l ks)))"

lemma typed_initD:
  "typed_init n e \<Longrightarrow> val_ty a = LPtr \<Longrightarrow> ok_ty t \<Longrightarrow> styped (genInit n a t e)"
  "typed_init n (EInitList l ks) \<Longrightarrow> val_ty a = LPtr \<Longrightarrow> ok_ty t \<Longrightarrow> styped (genInitList n a t l ks)"
  by (simp_all add: typed_init_def)

lemma sres_init_kid:
  assumes "typed_init n k" and "val_ty a = LPtr" and "ok_ty t" and "wt p s"
  shows "sres p (case k of EInitList l2 ks2 \<Rightarrow> genInitList n a t l2 ks2 s | _ \<Rightarrow> genInit n a t k s)"
  using assms typed_initD [of n] by (cases k) (auto intro: stypedD simp del: genInit.simps genInitList.simps)

lemma styped_init_elems:
  assumes "ok_slots f" and "val_ty a = LPtr" and "\<forall>k \<in> set ks. typed_init n k"
  shows "styped (init_elems n a f l i ks)"
  using assms(3)
proof (induction ks arbitrary: i)
  case (Cons k ks)
  then have rest: "styped (init_elems n a f l (Suc i) ks)" and k: "typed_init n k" by auto
  show ?case
  proof (rule stypedI)
    fix p s assume s: "wt p s"
    have "sres p (let (ea, s1) = emit (IGep LI8 a [cI64 off]) s
         in Option.bind
              (case k of EInitList l2 ks2 \<Rightarrow> genInitList n ea t l2 ks2 s1 | _ \<Rightarrow> genInit n ea t k s1)
              (init_elems n a f l (Suc i) ks))" if "f i = Some (off, t)" for off t
      unfolding Let_def
      by (rule sres_let, rule wt_init_slot [OF s assms(2)], rule sres_sbind [OF sres_init_kid [OF k] stypedD [OF rest]])
        (use assms(1) that in \<open>auto simp: ok_slots_def\<close>)
    then show "sres p (init_elems n a f l i (k # ks) s)"
      using s by (simp split: option.split)
  qed
qed (simp add: styped_def)

lemma styped_genInitList:
  assumes "val_ty a = LPtr" and "ok_ty t" and "\<forall>k \<in> set ks. typed_init n k"
  shows "styped (genInitList n a t l ks)"
proof (rule stypedI)
  fix p s assume s: "wt p s"
  show "sres p (genInitList n a t l ks s)"
    using s stypedD [OF styped_init_elems [OF slots_ok [OF wt_store [OF s] assms(2)] assms(1,3)] s]
    by (auto split: option.split)
qed

lemma typed_init_size: "size e < m \<Longrightarrow> ok_expr e \<Longrightarrow> typed_init n e"
proof (induction m arbitrary: e)
  case (Suc m)
  show ?case
  proof (cases "\<exists>l ks. e = EInitList l ks")
    case True
    then obtain l ks where e: "e = EInitList l ks" by blast
    have "typed_init n k" if k: "k \<in> set ks" for k
      using Suc.IH Suc.prems size_list_estimation' [OF k, of "size k" size] k by (auto simp: e)
    then have "styped (genInitList n a t l ks)" if "val_ty a = LPtr" "ok_ty t" for a t
      using that by (intro styped_genInitList) auto
    then show ?thesis by (auto simp: e typed_init_def styped_def fits_def)
  next
    case False
    then show ?thesis
      using Suc.prems(2) styped_init_plain [of _ _ e n] by (auto simp: typed_init_def styped_def genInit_plain)
  qed
qed simp

lemma styped_genInit: "val_ty a = LPtr \<Longrightarrow> ok_ty t \<Longrightarrow> ok_expr e \<Longrightarrow> styped (genInit n a t e)"
  using typed_init_size [of e "Suc (size e)"] by (auto intro: typed_initD)

subsection \<open>Declarations\<close>

lemma ok_regSlotType [simp]: "ok_ty t \<Longrightarrow> ok_ty (regSlotType t)"
  by (cases t) (simp_all add: regSlotType_def)

lemma ok_vars_update: "ok_vars vs \<Longrightarrow> ok_var v \<Longrightarrow> ok_vars (AList.update n v vs)"
  by (induction vs) (auto simp: ok_vars_def)

lemma ok_ctx_declare:
  "ok_ctx fx \<Longrightarrow> ok_var v \<Longrightarrow>
    ok_ctx (fx\<lparr>fx_localNames := ns, fx_scopes := (case fx_scopes fx of [] \<Rightarrow> [] | sc # scs \<Rightarrow> AList.update n v sc # scs)\<rparr>)"
  by (cases "fx_scopes fx") (auto simp: ok_ctx_def ok_vars_update)

lemma wt_declareLocal:
  assumes "wt p s" and "ok_var v"
  shows "wt p (declareLocal n v l s)"
proof -
  have "wt p (upd_fc (\<lambda>fx. fx\<lparr>fx_localNames := n # fx_localNames fx,
      fx_scopes := (case fx_scopes fx of [] \<Rightarrow> [] | sc # scs \<Rightarrow> AList.update n v sc # scs)\<rparr>) s)"
    by (rule wt_fc_cong [OF assms(1)]) (use assms(2) in \<open>simp_all add: ok_ctx_declare code_ok_def\<close>)
  then show ?thesis using assms(1) by (simp add: declareLocal_def)
qed

lemma wt_tryConstInit: "wt p s \<Longrightarrow> res p (\<lambda>_. True) (tryConstInit e t s)"
  by (auto simp: tryConstInit_def Let_def case_prod_beta res_def elim!: bind_SomeE)

lemma styped_genStaticLocal:
  assumes "ok_vdecl d"
  shows "styped (genStaticLocal d)"
proof (rule stypedI)
  fix p s assume s: "wt p s"
  have k: "res p (\<lambda>_. True) (case vd_init d of None \<Rightarrow> Some (None, s) | Some e \<Rightarrow> tryConstInit e (vd_type d) s)"
    using s by (auto simp: wt_tryConstInit split: option.split)
  show "sres p (genStaticLocal d s)"
    unfolding genStaticLocal_def Let_def
    by (rule sres_bind [OF k], rule sres_let)
      (use assms in \<open>auto simp: ok_vdecl_def ok_var_def intro!: wt_declareLocal\<close>)
qed

lemma styped_gen_local:
  assumes "ok_vdecl d"
  shows "styped (gen_local n d)"
proof (rule stypedI)
  fix p s assume s: "wt p s"
  let ?t = "regSlotType (vd_type d)"
  let ?a = "fst (entryAlloca (memTy (cg_store s) ?t) (vd_name d) s)"
  let ?s = "declareLocal (vd_name d) \<lparr>vs_addr = ?a, vs_type = ?t\<rparr> (vd_loc d) (snd (entryAlloca (memTy (cg_store s) ?t) (vd_name d) s))"
  have "wt p ?s" using s assms by (intro wt_declareLocal) (auto simp: ok_var_def ok_vdecl_def)
  moreover have "vd_init d = Some e \<Longrightarrow> sres p (genInit n ?a ?t e ?s)" for e
    by (rule stypedD [OF styped_genInit \<open>wt p ?s\<close>]) (use assms in \<open>auto simp: ok_vdecl_def\<close>)
  ultimately show "sres p (gen_local n d s)"
    by (auto simp: gen_local_def Let_def case_prod_beta split: option.split)
qed

lemma styped_bind: "styped g \<Longrightarrow> styped h \<Longrightarrow> styped (\<lambda>s. Option.bind (g s) h)"
  by (rule stypedI, rule sres_sbind) (auto intro: stypedD)

lemma styped_genVarDecl: "\<forall>d \<in> set ds. ok_vdecl d \<Longrightarrow> styped (genVarDecl n static ds)"
proof (induction ds)
  case (Cons d ds)
  then have d: "ok_vdecl d" and ds: "styped (genVarDecl n static ds)" by auto
  have "styped (\<lambda>s. if static then genStaticLocal d s else gen_local n d s)"
    using styped_genStaticLocal [OF d] styped_gen_local [OF d] by (auto simp: styped_def)
  from styped_bind [OF this ds] show ?case by (simp add: styped_def)
qed (simp add: styped_def)

subsection \<open>All statements\<close>

lemma swtyped_bind: "swtyped g \<Longrightarrow> swtyped h \<Longrightarrow> swtyped (\<lambda>s. Option.bind (g s) h)"
  by (rule swtypedI, rule swres_sbind) (auto intro: swtypedD)

lemma styped_Some: "(\<And>p s. wt p s \<Longrightarrow> wt p (f s)) \<Longrightarrow> styped (\<lambda>s. Some (f s))"
  by (simp add: styped_def)

lemma styped_expr: "ok_expr e \<Longrightarrow> styped (\<lambda>s. map_option snd (genExpr n e s))"
  by (rule stypedI, frule (1) ge.gx [where n = n]) (auto simp: sres_def res_def)

lemma styped_genStmts: "\<forall>b \<in> set ss. styped (genStmt n b) \<Longrightarrow> styped (genStmts n ss)"
proof (induction ss)
  case (Cons b ss)
  then show ?case unfolding genStmt_fun by (intro styped_bind) simp_all
qed (simp add: styped_def)

lemma swtyped_genItems: "\<forall>b \<in> set ss. styped (genStmt n b) \<Longrightarrow> swtyped (genItems n ss)"
proof (induction ss)
  case (Cons b ss)
  then show ?case unfolding genStmt_fun by (intro swtyped_bind swtyped_switch_item) simp_all
qed (simp add: swtyped_def)

lemma styped_genStmt_sub:
  "ok_stmt b \<Longrightarrow> styped (genStmt n b) \<and> (\<forall>l ss. b = SBlock l ss \<longrightarrow> (\<forall>x \<in> set ss. styped (genStmt n x)))"
proof (induction b)
  case (SBlock l ss)
  then have "styped (in_scope (genStmts n ss))" by (intro styped_in_scope styped_genStmts) simp
  then show ?case using SBlock by (simp add: genStmt_fun)
next
  case (SIf l e a els)
  have "styped g" if "map_option (genStmt n) els = Some g" for g
    using that SIf(2,3) by (cases els) auto
  then have "styped (genIf n l e (genStmt n a) (map_option (genStmt n) els))"
    using SIf(1,3) by (intro styped_genIf) auto
  then show ?case by (simp add: genStmt_fun)
next
  case (SFor l es e ps b)
  then show ?case by (simp add: genStmt_fun styped_genFor styped_genStmts)
next
  case (SSwitch l u e b)
  then have b: "styped (genStmt n b)" "\<forall>l ss. b = SBlock l ss \<longrightarrow> (\<forall>x \<in> set ss. styped (genStmt n x))" and e: "ok_expr e"
    by auto
  have "swtyped (case b of SBlock l2 ss \<Rightarrow> genItems n ss | _ \<Rightarrow> switch_item b (genStmt n b))"
    using b swtyped_switch_item [OF b(1), of b] swtyped_genItems [of _ n]
    by (cases b) (simp_all del: genStmt.simps)
  then show ?case using e by (simp add: genStmt_fun styped_genSwitch)
next
  case (STry l body handler)
  then show ?case by (simp add: genStmt_fun styped_genTry styped_genStmts)
qed (simp_all add: genStmt_fun styped_genWhile styped_genDoWhile styped_genReturn styped_genVarDecl styped_expr,
     auto simp: styped_def bad_label_def wt_genBreak wt_genGoto wt_genLabel)

lemma styped_genStmt: "ok_stmt b \<Longrightarrow> styped (genStmt n b)"
  using styped_genStmt_sub by blast

lemma styped_body: "\<forall>b \<in> set ss. ok_stmt b \<Longrightarrow> styped (genStmts n ss)"
  by (simp add: styped_genStmts styped_genStmt)

end
