(* ===== verification/HC_ModuleTypes.thy ===== *)
theory HC_ModuleTypes
  imports HC_DeclTypes HC_ModuleFlow
begin

text \<open>Typed code of whole functions and of the module.\<close>

subsection \<open>The items of the program\<close>

text \<open>A function that has the name of a function of the runtime has its type as well.\<close>

definition ok_fundecl :: "funcdecl \<Rightarrow> bool" where
  "ok_fundecl fd \<longleftrightarrow> ok_ty (fd_type fd) \<and> (\<forall>b \<in> set (fd_body fd). ok_stmt b)
     \<and> rt_name_ok (fn_symbol fd) (llvmFnType (fd_type fd))"

definition ok_global :: "globalvar \<Rightarrow> bool" where
  "ok_global g \<longleftrightarrow> ok_ty (gv_type g) \<and> ok_opt (gv_init g)"

fun ok_item :: "topitem \<Rightarrow> bool" where
  "ok_item (IFunc fd) = ok_fundecl fd"
| "ok_item (IGlobal g) = ok_global g"
| "ok_item (IStmt b) = ok_stmt b"
| "ok_item (IClass c) = True"

subsection \<open>Steps of the module\<close>

lemma wt_module_fields:
  assumes "wt p s" and "cg_fc s' = cg_fc s" and "cg_fault s' = cg_fault s" and "cg_mfuns s' = cg_mfuns s"
    and "cg_store s' = cg_store s" and "cg_funcs s' = cg_funcs s" and "ok_vars (cg_globals s')"
  shows "wt p s'"
  by (rule wt_cong [OF assms(1)]) (use assms wt_fx [OF assms(1)] wt_ctx [OF assms(1)] in simp_all)

lemma wt_set_global_init [simp]: "wt p s \<Longrightarrow> wt p (set_global_init k c s)"
  by (frule wt_ctx(2), erule wt_module_fields) (simp_all add: set_global_init_def)

lemma ok_funs_update: "\<forall>x \<in> set fs. ok_funsym s (snd x) \<Longrightarrow> ok_funsym s f \<Longrightarrow> \<forall>x \<in> set (AList.update n f fs). ok_funsym s (snd x)"
  by (induction fs) auto

lemma wt_bind_function:
  assumes "wt p s" and "ok_ty t" and "fun_type s k = Some (llvmFnType t)"
  shows "wt p (s\<lparr>cg_funcs := AList.update n \<lparr>fs_fn = Some k, fs_type = t\<rparr> (cg_funcs s)\<rparr>)" (is "wt p ?s")
proof -
  have ft: "fun_type ?s = fun_type s" by (rule fun_type_cong) simp
  have sym: "ok_funsym ?s = ok_funsym s" by (simp add: ok_funsym_def fun_eq_iff ft)
  have "\<forall>x \<in> set (cg_funcs s). ok_funsym s (snd x)" using assms(1) by (simp add: wt_def ok_env_def)
  from ok_funs_update [OF this, of "\<lparr>fs_fn = Some k, fs_type = t\<rparr>" n] assms(2,3)
  have "\<forall>x \<in> set (cg_funcs ?s). ok_funsym ?s (snd x)" unfolding sym by (simp add: ok_funsym_def)
  then have "ok_env ?s" using assms(1) by (simp add: wt_def ok_env_def)
  then show ?thesis using assms(1) by (simp add: wt_def ft)
qed

lemma rt_name_dot: "rt_name_ok (n @ CHR ''.'' # m) t"
proof -
  have "CHR ''.'' \<in> set (n @ CHR ''.'' # m)" by simp
  moreover have "\<forall>x \<in> set rt_sigs. CHR ''.'' \<notin> set (fst x)" by (simp add: rt_sigs_def)
  ultimately show ?thesis unfolding rt_name_ok_def by metis
qed

lemma new_function_ok:
  "wt p s \<Longrightarrow> rt_name_ok n t \<Longrightarrow> wt p (snd (new_function t i n s))
     \<and> fun_type (snd (new_function t i n s)) (fst (new_function t i n s)) = Some t"
  by simp

lemma getFunction_type: "getFunction n s = Some k \<Longrightarrow> fun_type s k = Some (lf_type (cg_mfuns s ! k))"
  using fun_index_Some [of n "cg_mfuns s" k] by (simp add: getFunction_def fun_type_def)

lemma wt_declareFunc:
  assumes "wt p s" and "ok_fundecl fd"
  shows "wt p (snd (declareFunc fd s))"
    and "fun_type (snd (declareFunc fd s)) (fst (declareFunc fd s)) = Some (llvmFnType (fd_type fd))"
proof -
  let ?t = "llvmFnType (fd_type fd)" and ?n = "fn_symbol fd" and ?i = "fd_linkage fd = LStatic"
  define r where "r = (case (case getFunction ?n s of
        None \<Rightarrow> None
      | Some k \<Rightarrow> if lf_type (cg_mfuns s ! k) \<noteq> ?t \<or> (fd_hasBody fd \<and> ?n \<in> set (cg_bodyDeclared s)) then None else Some k) of
      Some k \<Rightarrow> (k, s)
    | None \<Rightarrow> (case getFunction ?n s of
         Some _ \<Rightarrow> new_function ?t ?i (?n @ ''.'' @ dec_of_nat (cg_uniq s)) (s\<lparr>cg_uniq := Suc (cg_uniq s)\<rparr>)
       | None \<Rightarrow> new_function ?t ?i ?n s))"
  have uniq: "wt p (s\<lparr>cg_uniq := k\<rparr>)" for k
    by (rule wt_module_fields [OF assms(1)]) (simp_all add: wt_ctx [OF assms(1)])
  have "wt p (snd r) \<and> fun_type (snd r) (fst r) = Some ?t"
    using assms uniq
    by (auto simp: r_def ok_fundecl_def rt_name_dot getFunction_type split: option.split)
  then have r: "wt p (snd r)" "fun_type (snd r) (fst r) = Some ?t" by simp_all
  have d: "declareFunc fd s = (fst r, if fd_hasBody fd then (snd r)\<lparr>cg_bodyDeclared := ?n # cg_bodyDeclared (snd r)\<rparr> else snd r)"
    by (simp add: declareFunc_def Let_def r_def case_prod_beta)
  have "wt p ((snd r)\<lparr>cg_bodyDeclared := x\<rparr>)" for x
    by (rule wt_module_fields [OF r(1)]) (simp_all add: wt_ctx [OF r(1)])
  moreover have "fun_type ((snd r)\<lparr>cg_bodyDeclared := x\<rparr>) = fun_type (snd r)" for x
    by (rule fun_type_cong) simp
  ultimately show "wt p (snd (declareFunc fd s))"
    and "fun_type (snd (declareFunc fd s)) (fst (declareFunc fd s)) = Some ?t"
    using r by (simp_all add: d)
qed

lemma wt_declareGlobal:
  assumes "wt p s" and "ok_global g"
  shows "res p ok_global (declareGlobal g s)"
proof -
  define r where "r = new_global \<lparr>lg_name = gv_symbol g, lg_type = memTy (cg_store s) (gv_type g),
      lg_internal = (gv_linkage g = LStatic),
      lg_init = (if gv_isDecl g then None else Some (KNull (memTy (cg_store s) (gv_type g))))\<rparr> s"
  define s2 where "s2 = (snd r)\<lparr>cg_globals := AList.update (gv_name g)
      \<lparr>vs_addr = VGlobal (fst r), vs_type = gv_type g\<rparr> (cg_globals (snd r))\<rparr>"
  have "wt p (snd r)" using assms(1) by (simp add: r_def)
  then have 2: "wt p s2"
    using assms(2) unfolding s2_def
    by (rule_tac wt_module_fields) (simp_all add: wt_ctx ok_vars_update ok_var_def ok_global_def)
  have init: "res p ok_global (do { (c, s3) \<leftarrow> tryConstInit e (gv_type g) s2;
            Some (case c of Some x \<Rightarrow> (g\<lparr>gv_init := None\<rparr>, set_global_init (fst r) x s3) | None \<Rightarrow> (g, s3)) })" for e
    by (rule res_bind [OF wt_tryConstInit [OF 2]])
      (use assms(2) in \<open>auto simp: ok_global_def ok_opt_def split: option.split\<close>)
  have "declareGlobal g s = (case (if gv_isDecl g then None else gv_init g) of
      None \<Rightarrow> Some (g, s2)
    | Some e \<Rightarrow> do { (c, s3) \<leftarrow> tryConstInit e (gv_type g) s2;
            Some (case c of Some x \<Rightarrow> (g\<lparr>gv_init := None\<rparr>, set_global_init (fst r) x s3) | None \<Rightarrow> (g, s3)) })"
    unfolding declareGlobal_def Let_def r_def s2_def case_prod_beta by (rule refl)
  then show ?thesis
    using 2 init assms(2) by (simp split: option.split)
qed

definition item_at :: "cg \<Rightarrow> topitem \<times> nat \<Rightarrow> bool" where
  "item_at s x \<longleftrightarrow> ok_item (fst x) \<and> (\<forall>fd. fst x = IFunc fd \<longrightarrow> fun_type s (snd x) = Some (llvmFnType (fd_type fd)))"

lemma wt_declare_item:
  assumes "wt p s" and "ok_item it" and "declare_item it s = Some (x, s')"
  shows "wt p s'" and "item_at s' x"
proof -
  have "wt p s' \<and> item_at s' x"
  proof (cases it)
    case (IFunc fd)
    have fd: "ok_fundecl fd" using assms(2) IFunc by simp
    note d = wt_declareFunc [OF assms(1) fd]
    have "ok_ty (fd_type fd)" using fd by (simp add: ok_fundecl_def)
    note b = wt_bind_function [OF d(1) this d(2)]
    have "fun_type (t\<lparr>cg_funcs := z\<rparr>) = fun_type t" for t z by (rule fun_type_cong) simp
    then show ?thesis using assms(3) d b fd by (auto simp: IFunc declare_item_def item_at_def Let_def case_prod_beta split: if_splits)
  next
    case (IGlobal g)
    then have g: "ok_global g" using assms(2) by simp
    have "wt p (define_forward v s)" for v using assms(1) by (simp add: define_forward_def split: val.split)
    then show ?thesis
      using assms(1,3) g wt_declareGlobal [OF assms(1) g]
      by (auto simp: IGlobal declare_item_def item_at_def res_def split: option.splits elim!: bind_SomeE)
  qed (use assms in \<open>auto simp: declare_item_def item_at_def\<close>)
  then show "wt p s'" and "item_at s' x" by simp_all
qed

lemma item_at_keeps:
  assumes "item_at s x" and "wt p s" and "\<And>q. tc_fn q = tc_fn p \<Longrightarrow> tc_ret q = tc_ret p \<Longrightarrow> tc_breaks q = tc_breaks p
      \<Longrightarrow> tc_fault q = tc_fault p \<Longrightarrow> wt q s \<Longrightarrow> wt q s'"
  shows "item_at s' x"
proof (cases "fst x")
  case (IFunc fd)
  let ?t = "llvmFnType (fd_type fd)"
  have "wt (knows (snd x) ?t p) s" using assms(1,2) by (simp add: wt_knows item_at_def IFunc)
  then have "wt (knows (snd x) ?t p) s'" by (intro assms(3)) (simp_all add: knows_def)
  then show ?thesis using assms(1) by (simp add: wt_knows item_at_def IFunc)
qed (use assms(1) in \<open>simp_all add: item_at_def\<close>)

lemma wt_declare_items:
  "wt p s \<Longrightarrow> \<forall>it \<in> set its. ok_item it \<Longrightarrow> declare_items its s = Some (xs, s') \<Longrightarrow> wt p s' \<and> (\<forall>x \<in> set xs. item_at s' x)"
proof (induction its arbitrary: p s xs)
  case (Cons it its)
  obtain x s1 ys where x: "declare_item it s = Some (x, s1)" and ys: "declare_items its s1 = Some (ys, s')"
    and xs: "xs = x # ys"
    using Cons.prems(3) by (auto elim!: bind_SomeE)
  have it: "ok_item it" and its: "\<forall>it \<in> set its. ok_item it" using Cons.prems(2) by auto
  note 1 = wt_declare_item [OF Cons.prems(1) it x]
  have keep: "wt q s1 \<Longrightarrow> wt q s'" for q using Cons.IH [OF _ its ys] by blast
  have "item_at s' x" by (rule item_at_keeps [OF 1(2) 1(1)]) (rule keep)
  then show ?case using Cons.IH [OF 1(1) its ys] by (simp add: xs)
qed simp

subsection \<open>Function bodies\<close>

text \<open>All that is known of the functions in a state.\<close>

definition in_fn :: "cg \<Rightarrow> nat \<Rightarrow> retkind \<Rightarrow> tctx" where
  "in_fn s k r = \<lparr>tc_funs = {x. fun_type s (fst x) = Some (snd x)}, tc_fn = k, tc_ret = r, tc_breaks = [], tc_fault = cg_fault s\<rparr>"

lemma code_ok_begin: "code_ok fty rt (beginFn k r)"
  by (simp add: code_ok_def beginFn_def)

lemma wt_begin: "wt p s \<Longrightarrow> wt (in_fn s k r) (s\<lparr>cg_fc := beginFn k r\<rparr>)"
proof -
  assume s: "wt p s"
  have ft: "fun_type (s\<lparr>cg_fc := beginFn k r\<rparr>) = fun_type s" by (rule fun_type_cong) simp
  have "ok_env (s\<lparr>cg_fc := beginFn k r\<rparr>)"
    by (rule ok_env_cong [of s]) (use s in \<open>simp_all add: wt_def ok_env_def ok_ctx_def ok_vars_def beginFn_def\<close>)
  moreover have "fx_fn (beginFn k r) = k" "fx_ret (beginFn k r) = r" "fx_breaks (beginFn k r) = []"
    by (simp_all add: beginFn_def)
  ultimately show ?thesis using s by (auto simp: wt_def in_fn_def ft code_ok_begin)
qed

text \<open>Back in the context from before.\<close>

lemma wt_return:
  assumes "wt p s" and "wt (in_fn s k r) s'"
  shows "wt p (s'\<lparr>cg_fc := cg_fc s\<rparr>)"
proof -
  have ft: "fun_type (s'\<lparr>cg_fc := cg_fc s\<rparr>) = fun_type s'" by (rule fun_type_cong) simp
  have grows: "fun_type s i = Some t \<Longrightarrow> fun_type s' i = Some t" for i t
    using assms(2) by (cases t) (auto simp: wt_def in_fn_def)
  have "ok_env (s'\<lparr>cg_fc := cg_fc s\<rparr>)"
    by (rule ok_env_cong [of s']) (use assms in \<open>simp_all add: wt_def ok_env_def\<close>)
  moreover have "cg_fault s \<Longrightarrow> cg_fault s'" using assms(2) by (simp add: wt_def in_fn_def)
  moreover have "code_ok (fun_type s) rt fx \<Longrightarrow> code_ok (fun_type s') rt fx" for rt fx
    by (erule code_ok_mono) (rule grows)
  ultimately show ?thesis using assms grows by (auto simp: wt_def ft)
qed

lemma module_typed_body:
  assumes "module_typed fs" and "code_ok (\<lambda>k. if k < length fs then Some (lf_type (fs ! k)) else None) (fst (lf_type (fs ! n))) fx"
  shows "module_typed (fs[n := (fs ! n)\<lparr>lf_body := Some fx\<rparr>])"
proof (cases "n < length fs")
  case True
  let ?fs = "fs[n := (fs ! n)\<lparr>lf_body := Some fx\<rparr>]"
  have t: "lf_type (?fs ! k) = lf_type (fs ! k)" if "k < length fs" for k using that by (cases "k = n") simp_all
  have same: "(\<lambda>k. if k < length ?fs then Some (lf_type (?fs ! k)) else None) = (\<lambda>k. if k < length fs then Some (lf_type (fs ! k)) else None)"
    using t by (auto simp: fun_eq_iff)
  have "set ?fs \<subseteq> insert ((fs ! n)\<lparr>lf_body := Some fx\<rparr>) (set fs)" by (rule set_update_subset_insert)
  then show ?thesis unfolding module_typed_def same using assms by (auto simp: module_typed_def)
qed (use assms(1) in \<open>simp add: list_update_beyond\<close>)

text \<open>A body for a function of the module.\<close>

definition put_body :: "nat \<Rightarrow> cg \<Rightarrow> cg" where
  "put_body k s = s\<lparr>cg_mfuns := (cg_mfuns s)[k := (cg_mfuns s ! k)\<lparr>lf_body := Some (cg_fc s)\<rparr>]\<rparr>"

lemma put_body_fun_type: "fun_type (put_body k s) = fun_type s"
proof -
  have "lf_type ((cg_mfuns s)[k := (cg_mfuns s ! k)\<lparr>lf_body := b\<rparr>] ! i) = lf_type (cg_mfuns s ! i)"
    if "i < length (cg_mfuns s)" for i b
    using that by (cases "i = k") simp_all
  then show ?thesis by (simp add: put_body_def fun_type_def fun_eq_iff)
qed

lemma ok_env_put_body: "ok_env s \<Longrightarrow> ok_env (put_body k s)"
proof (cases "k < length (cg_mfuns s)")
  case True
  assume env: "ok_env s"
  have "set (cg_mfuns (put_body k s)) \<subseteq> insert ((cg_mfuns s ! k)\<lparr>lf_body := Some (cg_fc s)\<rparr>) (set (cg_mfuns s))"
    by (simp add: put_body_def set_update_subset_insert)
  then have "\<forall>f \<in> set (cg_mfuns (put_body k s)). \<exists>g \<in> set (cg_mfuns s). lf_name f = lf_name g \<and> lf_type f = lf_type g"
    using nth_mem [OF True] by (fastforce dest!: subsetD)
  then show ?thesis
    using env put_body_fun_type [of k s] unfolding ok_env_def ok_funsym_def by (simp add: put_body_def) metis
qed (simp add: put_body_def list_update_beyond)

lemma wt_put_body:
  assumes "wt p s" and "(k, t, as) \<in> tc_funs p" and "cg_fault s \<or> code_ok (fun_type s) t (cg_fc s)"
  shows "wt p (put_body k s)"
proof -
  have ft: "fun_type s k = Some (t, as)" using assms(1,2) by (auto simp: wt_def)
  then have "k < length (cg_mfuns s)" "fst (lf_type (cg_mfuns s ! k)) = t" by (auto simp: fun_type_def split: if_splits)
  then have "module_typed (cg_mfuns (put_body k s))" if "module_typed (cg_mfuns s)" "code_ok (fun_type s) t (cg_fc s)"
    using module_typed_body [OF that(1), of k "cg_fc s"] that(2) by (simp add: put_body_def fun_type_eq)
  moreover have "cg_fc (put_body k s) = cg_fc s" "cg_fault (put_body k s) = cg_fault s" by (simp_all add: put_body_def)
  moreover have "ok_env (put_body k s)" using assms(1) by (intro ok_env_put_body) (simp add: wt_def)
  ultimately show ?thesis using assms(1,3) by (auto simp: wt_def put_body_fun_type)
qed

lemma wt_close_label: "wt p s \<Longrightarrow> wt p (close_label l s)"
  by (auto simp: close_label_def Let_def wt_fx(2) [OF wt_error])

lemma wt_close_labels: "wt p s \<Longrightarrow> wt p (fold close_label ls s)"
  by (induction ls arbitrary: s) (simp_all add: wt_close_label)

lemma wt_finishFn:
  assumes "wt p s" and "(tc_fn p, ret_lty (tc_ret p), as) \<in> tc_funs p"
  shows "wt p (finishFn s)"
proof -
  let ?s1 = "if cur_term s then s else emit0 (TRet (zero_ret (fx_ret (cg_fc s)))) s"
  let ?s2 = "fold close_label (undefined_labels (cg_fc ?s1)) ?s1"
  have 2: "wt p ?s2" using assms(1) by (intro wt_close_labels) (simp add: wt_fx)
  have "finishFn s = put_body (tc_fn p) ?s2" using wt_fx(1) [OF 2] by (simp add: finishFn_def Let_def put_body_def)
  moreover have "wt p (put_body (tc_fn p) ?s2)"
    by (rule wt_put_body [OF 2 assms(2)]) (use 2 in \<open>auto simp: wt_def\<close>)
  ultimately show ?thesis by simp
qed

subsection \<open>Parameters\<close>

lemma value_type_param: "val_ty (VArg i (value_type t)) = value_type t"
  by simp

lemma sres_bind_param:
  assumes "wt q s" and "ok_fparam p"
  shows "sres q (bind_param i p s)"
proof -
  let ?t = "regSlotType (param_type p)"
  have t: "ok_ty ?t" using assms(2) by simp
  have rv: "ok_rv (Some (VArg i (value_type (param_type p))), if ?t = TyF64 then tyF64 else tyI64)"
    by (cases "param_type p") (auto simp: ok_rv_def regSlotType_def value_type_def tyInt_def split: if_splits)
  show ?thesis
    unfolding bind_param_def Let_def
    by (rule sres_let, simp add: assms(1), rule sres_sbind [OF wt_storeTo [OF _ _ rv t]])
      (simp_all add: wt_declareLocal ok_var_def t)
qed

lemma styped_bind_params: "\<forall>p \<in> set ps. ok_fparam p \<Longrightarrow> styped (bind_params i ps)"
proof (induction ps arbitrary: i)
  case (Cons p ps)
  then have p: "ok_fparam p" and ps: "styped (bind_params (Suc i) ps)" by auto
  show ?case
    unfolding bind_params.simps by (rule stypedI, rule sres_sbind [OF sres_bind_param [OF _ p]], assumption) (rule stypedD [OF ps])
qed (simp add: styped_def)

lemma wt_bind_builtin: "wt p s \<Longrightarrow> val_ty a = LPtr \<Longrightarrow> ok_ty t \<Longrightarrow> wt p (bind_builtin n a t s)"
  unfolding bind_builtin_def
  by (erule wt_fc_cong) (simp_all add: ok_ctx_declare ok_var_def code_ok_def)

lemma wt_bind_variadic: "wt p s \<Longrightarrow> wt p (bind_variadic i s)"
  unfolding bind_variadic_def Let_def
  by (rule wt_slet, simp, rule wt_slet, simp) (simp add: wt_bind_builtin fits_def)

lemma wt_genFuncBody:
  assumes "wt p s" and "ok_fundecl fd" and "(k, llvmFnType (fd_type fd)) \<in> tc_funs p"
  shows "sres p (genFuncBody n fd k s)"
proof (unfold sres_def, intro allI impI)
  fix s' assume r: "genFuncBody n fd k s = Some s'"
  let ?r = "ret_kind (fun_ret (fd_type fd))"
  let ?q = "in_fn s k ?r"
  let ?s0 = "s\<lparr>cg_fc := beginFn k ?r\<rparr>"
  have t: "ok_ty (fd_type fd)" and b: "\<forall>b \<in> set (fd_body fd). ok_stmt b" using assms(2) by (simp_all add: ok_fundecl_def)
  have ps: "styped (bind_params 0 (fun_params (fd_type fd)))"
    by (rule styped_bind_params) (use ok_fun_params [OF t] in blast)
  obtain s1 where 1: "bind_params 0 (fun_params (fd_type fd)) ?s0 = Some s1"
    using r by (auto simp: genFuncBody_def Let_def elim!: bind_SomeE)
  define s2 where "s2 = (if fun_variadic (fd_type fd) then bind_variadic (length (fun_params (fd_type fd))) s1 else s1)"
  obtain s3 where 3: "genStmts n (fd_body fd) s2 = Some s3" and s': "s' = (finishFn s3)\<lparr>cg_fc := cg_fc s\<rparr>"
    using r 1 by (auto simp: genFuncBody_def Let_def s2_def elim!: bind_SomeE)
  have "wt ?q s1" using stypedD [OF ps wt_begin [OF assms(1), of k ?r]] 1 by (simp add: sres_def)
  then have "wt ?q s2" by (simp add: s2_def wt_bind_variadic)
  then have w3: "wt ?q s3" using stypedD [OF styped_body [OF b]] 3 by (auto simp: sres_def)
  have "ret_lty ?r = fst (llvmFnType (fd_type fd))"
    by (auto simp: ret_kind_def ret_lty_def llvmFnType_def)
  moreover have "fun_type s k = Some (llvmFnType (fd_type fd))" using assms(1,3) by (auto simp: wt_def)
  ultimately have "(tc_fn ?q, ret_lty (tc_ret ?q), snd (llvmFnType (fd_type fd))) \<in> tc_funs ?q"
    by (simp add: in_fn_def)
  from wt_finishFn [OF w3 this] show "wt p s'" unfolding s' by (rule wt_return [OF assms(1)])
qed

subsection \<open>Items and the program\<close>

definition item_known :: "tctx \<Rightarrow> topitem \<times> nat \<Rightarrow> bool" where
  "item_known p x \<longleftrightarrow> ok_item (fst x) \<and> (\<forall>fd. fst x = IFunc fd \<longrightarrow> (snd x, llvmFnType (fd_type fd)) \<in> tc_funs p)"

lemma wt_gen_item:
  assumes "wt p s" and "item_known p x"
  shows "sres p (gen_item n x s)"
proof (cases "fst x")
  case (IFunc fd)
  have fd: "ok_fundecl fd" "(snd x, llvmFnType (fd_type fd)) \<in> tc_funs p" using assms(2) by (simp_all add: item_known_def IFunc)
  then have "fun_type s (snd x) = Some (llvmFnType (fd_type fd))" using assms(1) by (auto simp: wt_def)
  then have "wt p (s\<lparr>cg_funcs := AList.update (fd_name fd) \<lparr>fs_fn = Some (snd x), fs_type = fd_type fd\<rparr> (cg_funcs s)\<rparr>)"
    using fd(1) by (intro wt_bind_function [OF assms(1)]) (simp_all add: ok_fundecl_def)
  from this wt_genFuncBody [OF this fd, of n] show ?thesis by (simp add: gen_item_def IFunc Let_def)
next
  case (IGlobal g)
  have "sres p (genInit n (vs_addr v) (vs_type v) e s)" if "map_of (cg_globals s) x = Some v" "gv_init g = Some e" for v e x
  proof -
    have "ok_var v" by (rule ok_vars_map_of [OF wt_ctx(2) [OF assms(1)] that(1)])
    moreover have "ok_expr e" using assms(2) that(2) by (simp add: item_known_def IGlobal ok_global_def ok_opt_def)
    ultimately show ?thesis using stypedD [OF styped_genInit assms(1)] by (simp add: ok_var_def)
  qed
  then show ?thesis using assms(1) by (simp add: gen_item_def IGlobal split: option.split)
next
  case (IStmt b)
  then have "ok_stmt b" using assms(2) by (simp add: item_known_def)
  then show ?thesis using stypedD [OF styped_genStmt assms(1)] by (simp add: gen_item_def IStmt)
qed (use assms(1) in \<open>simp add: gen_item_def\<close>)

lemma wt_gen_items: "wt p s \<Longrightarrow> \<forall>x \<in> set xs. item_known p x \<Longrightarrow> sres p (gen_items n xs s)"
proof (induction xs arbitrary: s)
  case (Cons x xs)
  have x: "item_known p x" using Cons.prems(2) by simp
  show ?case
    unfolding gen_items.simps by (rule sres_sbind [OF wt_gen_item [OF Cons.prems(1) x]], rule Cons.IH) (use Cons.prems in simp_all)
qed simp

lemma wt_gen_main:
  assumes "wt p s" and "(start, LVoid, []) \<in> tc_funs p" and "\<not> cg_fault s"
  shows "module_typed (cg_mfuns (gen_main start s))"
proof -
  obtain m s1 where 1: "new_function (LI32, [LI32, LPtr]) False ''main'' s = (m, s1)" by fastforce
  let ?b = "s1\<lparr>cg_fc := beginFn m RetInt\<rparr>"
  obtain rt s2 where 2: "getRT ''HC_RtInit'' LVoid [LI64, LPtr] ?b = (rt, s2)" by fastforce
  have "rt_name_ok ''main'' (LI32, [LI32, LPtr])" by (simp add: rt_name_ok_def rt_sigs_def)
  from new_function_ok [OF assms(1) this, of False] 1
  have w1: "wt p s1" and m1: "fun_type s1 m = Some (LI32, [LI32, LPtr])" by (metis fst_conv snd_conv)+
  have st: "fun_type s1 start = Some (LVoid, [])" using w1 assms(2) by (auto simp: wt_def)
  let ?q = "in_fn s1 m RetInt"
  have w2: "wt (knows rt (LVoid, [LI64, LPtr]) ?q) s2"
    using wt_getRT [OF wt_begin [OF w1, of m RetInt] in_rt_sigs(6)] 2 by simp
  have ft: "fun_type s2 rt = Some (LVoid, [LI64, LPtr])" "fun_type s2 m = Some (LI32, [LI32, LPtr])" "fun_type s2 start = Some (LVoid, [])"
    using w2 m1 st by (auto simp: wt_def knows_def in_fn_def)
  have same: "cg_fc s2 = beginFn m RetInt" "cg_fault s2 = cg_fault s1" "cg_fault s1 = cg_fault s"
    using 1 2 by (auto simp: getRT_def new_function_def split: option.splits)
  have mt: "module_typed (cg_mfuns s2)" using w2 same assms(3) by (simp add: wt_def)
  define s5 where "s5 = emit0 (TRet (Some (VInt 32 0))) (emit0 (ICall (VFun start) LVoid [])
      (emit0 (ICall (VFun rt) LVoid [fst (emit (ICast CSExt (VArg 0 LI32) LI64) s2), VArg 1 LPtr])
        (snd (emit (ICast CSExt (VArg 0 LI32) LI64) s2))))"
  have gm: "gen_main start s = put_body m s5"
    by (simp add: gen_main_def 1 2 Let_def s5_def case_prod_beta put_body_def)
  have mf: "cg_mfuns s5 = cg_mfuns s2" by (simp add: s5_def emit0_def emit_def Let_def)
  have ty: "m < length (cg_mfuns s2)" "fst (lf_type (cg_mfuns s2 ! m)) = LI32" using ft(2) by (auto simp: fun_type_def split: if_splits)
  have "code_ok (fun_type s2) LI32 (cg_fc s5)"
    by (simp add: s5_def emit0_def emit_def Let_def same(1) beginFn_def add_code_def code_ok_def ft)
  then show ?thesis
    using module_typed_body [OF mt, of m "cg_fc s5"] ty by (simp add: gm put_body_def mf fun_type_eq)
qed

lemma gen_program_typed:
  assumes "gen_program n items (cg_init aot st cls) = Some s" and "\<not> cg_fault s"
    and "ok_store st" and "\<forall>it \<in> set items. ok_item it"
  shows "module_typed (cg_mfuns s)"
proof -
  let ?i = "cg_init aot st cls"
  let ?p = "\<lparr>tc_funs = {}, tc_fn = 0, tc_ret = RetVoid, tc_breaks = [], tc_fault = False\<rparr>"
  obtain its s1 where 1: "declare_items items ?i = Some (its, s1)"
    using assms(1) by (auto simp: gen_program_def elim!: bind_SomeE)
  obtain start s2 where 2: "new_function (LVoid, []) False ''__HC_startup'' s1 = (start, s2)" by fastforce
  let ?b = "s2\<lparr>cg_fc := beginFn start RetVoid\<rparr>" and ?q = "in_fn s2 start RetVoid"
  obtain s3 where 3: "gen_items n its ?b = Some s3"
    and s: "s = (if cg_aot (finishFn s3) then gen_main start (finishFn s3) else finishFn s3)"
    using assms(1) 1 2 by (auto simp: gen_program_def Let_def elim!: bind_SomeE split: if_splits)
  have "wt ?p ?i"
    using assms(3) by (simp add: wt_def ok_env_def cg_init_def ok_ctx_def ok_vars_def beginFn_def code_ok_def module_typed_def)
  from wt_declare_items [OF this assms(4) 1] have w1: "wt ?p s1" and its: "\<forall>x \<in> set its. item_at s1 x" by simp_all
  have name: "rt_name_ok ''__HC_startup'' (LVoid, [])" by (simp add: rt_name_ok_def rt_sigs_def)
  from new_function_ok [OF w1 name, of False] 2
  have w2: "wt ?p s2" and st: "fun_type s2 start = Some (LVoid, [])" by (metis fst_conv snd_conv)+
  have s2: "s2 = snd (new_function (LVoid, []) False ''__HC_startup'' s1)" using 2 by simp
  have "item_at s2 x" if "x \<in> set its" for x
    unfolding s2 by (rule item_at_keeps [OF _ w1]) (use its that name in auto)
  then have known: "\<forall>x \<in> set its. item_known ?q x" by (simp add: item_at_def item_known_def in_fn_def)
  have w3: "wt ?q s3" using wt_gen_items [OF wt_begin [OF w2] known, of n] 3 by (simp add: sres_def)
  have start: "(start, LVoid, []) \<in> tc_funs ?q" using st by (simp add: in_fn_def)
  then have w4: "wt ?q (finishFn s3)" by (intro wt_finishFn [OF w3]) (simp add: in_fn_def ret_lty_def)
  have nf: "\<not> cg_fault (finishFn s3)" using assms(2) by (simp add: s split: if_splits)
  show ?thesis
  proof (cases "cg_aot (finishFn s3)")
    case True
    then show ?thesis using wt_gen_main [OF w4 start nf] by (simp add: s)
  next
    case False
    then show ?thesis using w4 nf by (simp add: s wt_def)
  qed
qed

end
