(* ===== verification/HC_TypeSpec.thy ===== *)
theory HC_TypeSpec
  imports HC_GenSpec HC_ModuleTypes
begin

text \<open>The property of the types of the generated code.\<close>



end
