(* ===== verification/HC_DriverSpec.thy ===== *)
theory HC_DriverSpec
  imports HC_Driver HC_TypeSpec
begin

text \<open>The properties of the driver.\<close>

subsection \<open>Accepted programs\<close>


definition lowers :: "event \<Rightarrow> lmodule \<Rightarrow> bool" where
  "lowers ev m \<longleftrightarrow> (\<exists>argv. ev = EvRun m argv) \<or> (\<exists>obj. ev = EvObject m obj)"

lemma lowers_simps [simp]:
  "\<not> lowers (EvErr x) m" "\<not> lowers (EvOut x) m" "\<not> lowers (EvSystem x) m" "\<not> lowers (EvRemove x) m"
  "lowers (EvRun k argv) m \<longleftrightarrow> k = m" "lowers (EvObject k obj) m \<longleftrightarrow> k = m"
  by (auto simp: lowers_def)











text \<open>A host on which the file \<open>a.HC\<close> is empty and can be compiled without the prelude.\<close>

definition demo_llvm :: "bool \<Rightarrow> llvm" where
  "demo_llvm b = \<lparr>l_verify = \<lambda>_ _. b, l_pipeline = \<lambda>_ m. m, l_create = \<lambda>_. None, l_add = \<lambda>_ _. None, l_lookup = \<lambda>_ _. None,
     l_stream = \<lambda>_. out0, l_print = \<lambda>_. [], l_target = None, l_open = \<lambda>_. None, l_emits = True\<rparr>"

definition demo_host :: host where
  "demo_host = \<lparr>h_env = \<lparr>e_file = \<lambda>_. Some [], e_exe = None, e_date = [], e_time = []\<rparr>, h_self = None, h_readable = \<lambda>_. False,
     h_devLib = None, h_cc = None, h_system = \<lambda>_. 1\<rparr>"



lemma gen_nothing: "\<exists>s. gen_program n [] (cg_init False st cls) = Some s \<and> cg_errors s = []"
  by (simp add: gen_program_def new_function_def cg_init_def beginFn_def finishFn_def emit0_def emit_def Let_def
      undefined_labels_def cur_term_blk blk_def add_code_def zero_ret_def)

lemma front_end_nothing:
  assumes "lx_conds lx = []" and "lx_pending lx = []" and "\<not> lx_hadError lx" and "lx_stack lx = [mk_source [] f d]"
  shows "front_end e (Suc (Suc n)) lx = Some (pst0 [], lx\<lparr>lx_stack := []\<rparr>)" and "\<not> hadError (pst0 [], lx\<lparr>lx_stack := []\<rparr>)"
proof -
  have "end_source lx = lx\<lparr>lx_stack := []\<rparr>" using assms by (simp add: end_source_def pop_source_def)
  then have "lex_all e (Suc (Suc n)) (Suc (Suc n)) lx = Some ([], lx\<lparr>lx_stack := []\<rparr>)"
    using assms by (simp add: lexer_next_def atEof_def top_def mk_source_def peekc_def eof_token_def token0_def)
  moreover have "parseProgram [] = Some (pst0 [])"
    by (simp add: parseProgram_def parse_with_def pst0_def p_tok_def eofTok_def token0_def)
  ultimately show "front_end e (Suc (Suc n)) lx = Some (pst0 [], lx\<lparr>lx_stack := []\<rparr>)" by (simp add: front_end_def)
  show "\<not> hadError (pst0 [], lx\<lparr>lx_stack := []\<rparr>)"
    using assms(3) by (simp add: hadError_def p_hadError_def pst0_def lx_hadError_def)
qed







subsection \<open>The command line\<close>

text \<open>A command line for options.\<close>

definition render :: "options \<Rightarrow> string list" where
  "render c = (if o_outExe c = [] then [] else [''-o'', o_outExe c]) @ (if o_outObj c = [] then [] else [''-c'', o_outObj c])
     @ concat (map (\<lambda>d. [''-I'', d]) (o_dirs c)) @ (if o_emitLL c then [''--emit-llvm''] else [])
     @ (if o_noPrelude c then [''--no-prelude''] else []) @ (if o_noRun c then [''--no-run''] else [])
     @ (''-O'' @ dec_of_nat (nat (o_opt c))) # o_input c # ''--'' # o_args c"

lemma scan_dirs:
  "scan_args (concat (map (\<lambda>d. [''-I'', d]) ds) @ as) c = scan_args as (c\<lparr>o_dirs := o_dirs c @ ds\<rparr>)"
  by (induction ds arbitrary: c) simp_all

lemma scan_flags:
  "scan_args ((if b then [''--emit-llvm''] else []) @ as) c = scan_args as (c\<lparr>o_emitLL := o_emitLL c \<or> b\<rparr>)"
  "scan_args ((if b then [''--no-prelude''] else []) @ as) c = scan_args as (c\<lparr>o_noPrelude := o_noPrelude c \<or> b\<rparr>)"
  "scan_args ((if b then [''--no-run''] else []) @ as) c = scan_args as (c\<lparr>o_noRun := o_noRun c \<or> b\<rparr>)"
  by (cases c; simp add: is_opt_level_def)+

lemma scan_outputs:
  "scan_args ((if x = [] then [] else [''-o'', x]) @ as) c = scan_args as (c\<lparr>o_outExe := if x = [] then o_outExe c else x\<rparr>)"
  "scan_args ((if x = [] then [] else [''-c'', x]) @ as) c = scan_args as (c\<lparr>o_outObj := if x = [] then o_outObj c else x\<rparr>)"
  by (cases c; simp)+

lemma opt_digit_char: "k < 10 \<Longrightarrow> opt_digit (digit_char k) = int k"
proof -
  assume k: "k < 10"
  have "(of_char (digit_char k) :: int) = int (of_char (digit_char k))" by (simp only: of_nat_of_char)
  also have "\<dots> = 48 + int k" using k by (simp add: digit_char_def)
  finally show ?thesis using k by (simp add: opt_digit_def)
qed

lemma scan_level:
  assumes "0 \<le> k" and "k \<le> 9"
  shows "scan_args ((''-O'' @ dec_of_nat (nat k)) # as) c = scan_args as (c\<lparr>o_opt := k\<rparr>)"
proof -
  have "dec_of_nat (nat k) = [digit_char (nat k)]" using assms by (subst dec_of_nat.simps) simp
  then show ?thesis using assms opt_digit_char [of "nat k"] by (simp add: is_opt_level_def)
qed

text \<open>
  C17: Options are read back: the command line that spells out some options, in whatever combination, is scanned to
  exactly these options, include directories and program arguments in their order.
\<close>

theorem options_round_trip:
  assumes "0 \<le> o_opt c" and "o_opt c \<le> 9" and "o_input c \<noteq> []" and "hd (o_input c) \<noteq> CHR ''-''"
  shows "scan_args (render c) options0 = Inr c"
proof -
  have i: "o_input c \<noteq> ''--''" "o_input c \<noteq> ''-o''" "o_input c \<noteq> ''-c''" "o_input c \<noteq> ''-I''" "o_input c \<noteq> ''--emit-llvm''"
    "o_input c \<noteq> ''--no-prelude''" "o_input c \<noteq> ''--no-run''" "\<not> is_opt_level (o_input c)"
    using assms(3,4) by (auto simp: is_opt_level_def hd_conv_nth)
  have "scan_args (o_input c # ''--'' # o_args c) q = Inr (q\<lparr>o_input := o_input c, o_args := o_args c\<rparr>)" if "o_input q = []" for q
    using i assms(3,4) that by simp
  then show ?thesis
    unfolding render_def scan_outputs scan_dirs scan_flags scan_level [OF assms(1,2)]
    by (cases c) (simp add: options0_def)
qed

theorem options_round_trip_witness:
  "scan_args (render \<lparr>o_input = ''p.HC'', o_outExe = ''p'', o_outObj = [], o_emitLL = True, o_noPrelude = False, o_noRun = False,
     o_opt = 2, o_dirs = [''d'', ''-I''], o_args = [''-o'']\<rparr>) options0
   = Inr \<lparr>o_input = ''p.HC'', o_outExe = ''p'', o_outObj = [], o_emitLL = True, o_noPrelude = False, o_noRun = False,
     o_opt = 2, o_dirs = [''d'', ''-I''], o_args = [''-o'']\<rparr>"
  by (rule options_round_trip) simp_all

subsection \<open>Linking\<close>

definition first_driver :: "host \<Rightarrow> string list \<Rightarrow> string option" where
  "first_driver h ds = find (\<lambda>d. d \<noteq> [] \<and> h_system h (probe_cmd d) = 0) ds"

definition missing_probes :: "host \<Rightarrow> string list \<Rightarrow> event list" where
  "missing_probes h ds =
     map (\<lambda>d. EvSystem (probe_cmd d)) (filter (\<lambda>d. d \<noteq> []) (takeWhile (\<lambda>d. d = [] \<or> h_system h (probe_cmd d) \<noteq> 0) ds))"

lemma try_link_first:
  "try_link h obj out rt ds = (case first_driver h ds of
      None \<Rightarrow> (missing_probes h ds @ [EvErr ''hcc: no C compiler found for linking (set HCC_CC)''], False)
    | Some d \<Rightarrow> (missing_probes h ds @ [EvSystem (probe_cmd d), EvSystem (link_cmd d obj out rt)]
          @ (if h_system h (link_cmd d obj out rt) = 0 then [] else [EvErr (''hcc: link failed: '' @ link_cmd d obj out rt)]),
        h_system h (link_cmd d obj out rt) = 0))"
  by (induction ds) (simp_all add: first_driver_def missing_probes_def split: option.split)

text \<open>
  C18: The linker is the first of \<open>$HCC_CC\<close>, \<open>cc\<close>, \<open>gcc\<close> and \<open>clang\<close> that the shell finds: linking succeeds exactly
  when there is one and its command does, no other driver is run, and the commands before it only ask
  for drivers that are not there.
\<close>

theorem first_driver_links:
  "linkExecutable h obj out rt = (case first_driver h (link_drivers h) of
      None \<Rightarrow> (missing_probes h (link_drivers h) @ [EvErr ''hcc: no C compiler found for linking (set HCC_CC)''], False)
    | Some d \<Rightarrow> (missing_probes h (link_drivers h) @ [EvSystem (probe_cmd d), EvSystem (link_cmd d obj out rt)]
          @ (if h_system h (link_cmd d obj out rt) = 0 then [] else [EvErr (''hcc: link failed: '' @ link_cmd d obj out rt)]),
        h_system h (link_cmd d obj out rt) = 0))"
  unfolding linkExecutable_def by (rule try_link_first)

subsection \<open>Failing snippets\<close>

lemma runExeSnippet_failed:
  assumes "runExeSnippet L e n src name pre = Some (out, False)"
  shows "out = []"
  using assms by (auto simp: runExeSnippet_def run_snippet_def elim!: bind_SomeE split: if_splits option.splits)

text \<open>
  C16: A block of \<open>#exe\<close> that fails is not an error of the program. When lexer, parser, generator or JIT refuse the
  snippet, its message goes to \<open>stderr\<close>, but the lexer goes on behind the block as if it were not there:
  it has no more diagnostics than those of the literals in the block, so the driver compiles and runs the rest.
\<close>

theorem failing_snippets_are_dropped:
  assumes "runExeSnippet L e n body (srcloc_str (here (top lx)) @ '':<#exe>'') pre = Some (out, False)"
    and "peek_is (snd (span_src is_ws (top lx))) 0 (CHR ''{'')"
    and "exe_scan 1 (skipc (snd (span_src is_ws (top lx)))) = (body, True, ds, s)"
  shows "handleExeBlock (e\<lparr>e_exe := Some (exe_hook L e n pre)\<rparr>) lx = add_diags ds (set_top s lx)"
proof -
  have "exe_hook L e n pre body (here (top lx)) = []"
    using assms(1) runExeSnippet_failed [OF assms(1)] by (simp add: exe_hook_def)
  then show ?thesis using assms(2,3) by (simp add: handleExeBlock_def Let_def)
qed

lemma empty_snippet: "runExeSnippet (demo_llvm False) e 2 [] name [] = Some ([], False)"
proof -
  let ?lx = "Lexer_buffer [] name True"
  have lx: "lx_conds ?lx = []" "lx_pending ?lx = []" "\<not> lx_hadError ?lx" "lx_stack ?lx = [mk_source [] name ''.'']"
    by (simp_all add: Lexer_buffer_def push_source_def lexer0_def lx_hadError_def)
  note p = front_end_nothing [OF lx]
  obtain s where "gen_program 2 [] (cg_init False [] []) = Some s" "cg_errors s = []" using gen_nothing by blast
  then have "generate (demo_llvm False) 2 False (pst0 []) = Some (s, False)"
    by (simp add: generate_def codegen_def pst0_def demo_llvm_def)
  then show ?thesis using p(1) [of _ 0] p(2) by (simp add: runExeSnippet_def with_prelude_def numeral_2_eq_2)
qed

theorem failing_snippets_are_dropped_witness:
  "lx_diags (handleExeBlock ((h_env demo_host)\<lparr>e_exe := Some (exe_hook (demo_llvm False) (h_env demo_host) 2 [])\<rparr>)
     (Lexer_buffer ''{} 1;'' ''a.HC'' True)) = []"
proof -
  let ?lx = "Lexer_buffer ''{} 1;'' ''a.HC'' True"
  have t: "snd (span_src is_ws (top ?lx)) = mk_source ''{} 1;'' ''a.HC'' ''.''"
    by (subst span_src.simps) (simp add: Lexer_buffer_def top_def push_source_def mk_source_def getc_def is_ws_def)
  have p: "peek_is (mk_source ''{} 1;'' ''a.HC'' ''.'') 0 (CHR ''{'')" by (simp add: peek_is_def peekc_def mk_source_def)
  have "exe_scan 1 (skipc (mk_source ''{} 1;'' ''a.HC'' ''.'')) = ([], True, [], skipc (skipc (mk_source ''{} 1;'' ''a.HC'' ''.'')))"
    by (subst exe_scan.simps) (simp add: peekc_def mk_source_def getc_def)
  from failing_snippets_are_dropped [OF empty_snippet, of ?lx "[]", unfolded t, OF p this]
  show ?thesis by (simp add: add_diags_def set_top_def Lexer_buffer_def push_source_def lexer0_def)
qed

end
