(* ===== verification/HC_Stdlib.thy ===== *)
theory HC_Stdlib
  imports HC_Jit HC_ModuleTypes
begin

text \<open>
  The interface between the prelude \<open>lib/HolyC.HH\<close> and the runtime: what the prelude declares, as the parser
  builds it, the prototypes of \<open>hcrt.h\<close>, and the class \<open>CTask\<close> against its C struct.
\<close>

subsection \<open>Prototypes in C\<close>



subsection \<open>Declarations in HolyC\<close>






subsection \<open>The task\<close>





subsection \<open>They fit\<close>














end
