(* ===== verification/Spec2Isabelle.thy ===== *)
theory Spec2Isabelle
  imports HC_Conds HC_TokenText HC_TopTotal HC_RoundTrip HC_Dump HC_RtSpec HC_DriverSpec HC_Stdlib
begin

text \<open>
  A model of hcc, the HolyC compiler of this repository, and of its runtime library, with the theorems
  that make them correct.

  The program. \<open>driver.cpp\<close> runs a lexer with a built-in preprocessor (\<open>lexer.cpp\<close>), a recursive-descent
  parser (\<open>parser.cpp\<close>) that pulls tokens from it and builds the AST of \<open>ast.hpp\<close>, a code generator
  (\<open>codegen.cpp\<close>) that turns the AST into a module of LLVM IR, and hands the module to the JIT
  (\<open>jit.cpp\<close>) or to the object file writer and the linker (\<open>aot.cpp\<close>). The generated code calls the C
  runtime \<open>hcrt.c\<close>: formatting, memory, strings, input, random numbers, exceptions.

  Conventions. Fallible recursion runs on fuel and yields an option: \<^const>\<open>None\<close> means that the fuel does
  not suffice, or that the code does not return (a circle of classes, an endless loop), and nothing
  else. Diagnostics are collected in the state, the newest first. A flag \<open>..._fault\<close> in a state is a
  ghost: it is set where the real process is killed or its behaviour is undefined (a trapping
  division, a read out of bounds, a null \<open>Value\<close>). Machine integers are words; signed overflow wraps,
  as on the target. Files, dates, the allocator of the C library and the verifier of LLVM are
  arguments of the definitions that use them.

  Shared: \<open>HC_Prelude\<close> (words, characters, association lists for \<open>std::map\<close>), \<open>HC_Float64\<close> (binary64 as
  far as the compiler computes with it), \<open>HC_Arith\<close> (signed arithmetic of the constant evaluators).

  The lexer. \<open>HC_Tokens\<close> (\<open>lexer.hpp\<close>: tokens, \<open>punctStr\<close>), \<open>HC_Source\<close> (the stack of sources, \<open>peekc\<close>,
  \<open>getc\<close>), \<open>HC_Scan\<close> (literals, numbers, punctuators, comments), \<open>HC_CondEval\<close> (\<open>#if\<close> expressions),
  \<open>HC_Macro\<close>, \<open>HC_Lexer\<close> (directives, includes, \<open>#exe\<close>, \<open>rawNext\<close>, \<open>expandOrReturn\<close>, \<open>next\<close>).
  \<open>HC_LexTotal\<close> proves that lexing returns: \<open>2 * weight\<close> steps suffice, where \<open>weight\<close> is the number of
  characters left plus one for each source. \<open>HC_Conds\<close> proves conditional inclusion against a
  specification without a stack, \<open>HC_TokenText\<close> that spelled tokens are read back.

  The parser. \<open>HC_Ast\<close> (\<open>ast.hpp\<close>, \<open>ast.cpp\<close>; class objects live in a store because they are shared and
  completed in place), \<open>HC_ConstEval\<close> (\<open>evalConstI64\<close>, \<open>evalConst\<close>), \<open>HC_ParserBase\<close> (token primitives,
  types, resynchronisation), \<open>HC_ParserExpr\<close>, \<open>HC_ParserDecl\<close>, \<open>HC_ParserStmt\<close>, \<open>HC_ParserTop\<close>,
  \<open>HC_Dump\<close> (\<open>--dump-ast\<close>). \<open>HC_Reader\<close>, \<open>HC_ExprTotal\<close>, \<open>HC_StmtTotal\<close> and \<open>HC_TopTotal\<close> prove that
  it returns on every token list with one unit of fuel more than there are tokens. \<open>HC_Unparse\<close> is the
  concrete syntax of expressions by the TempleOS precedence table, and \<open>HC_Levels\<close>, \<open>HC_RoundTrip\<close>
  prove that the expression parser inverts it.

  The code generator. \<open>HC_IR\<close> (the module as data, the builder, the state of \<open>class CG\<close>), \<open>HC_GenBase\<close>
  (conversions, loads and stores, symbols, \<open>typeOf\<close>), \<open>HC_GenExpr\<close> (\<open>genExpr\<close>, \<open>genLValue\<close>),
  \<open>HC_GenStmt\<close> (\<open>genStmt\<close>, switches with groups, try, initialisers), \<open>HC_GenTop\<close> (functions, globals,
  \<open>CG::run\<close>). \<open>HC_GenFrame\<close> states what an expression may do to the state as an interface; \<open>HC_GenFlow\<close>,
  \<open>HC_StmtFlow\<close>, \<open>HC_SwitchFlow\<close> and \<open>HC_ModuleFlow\<close> instantiate it for the control flow graph: a block
  that is created and still to be filled is pending, and each generator of a statement works from an
  open block to an open block. \<open>HC_IrTypes\<close> states when the code of a module is typed, and \<open>HC_ExprTypes\<close>,
  \<open>HC_StmtTypes\<close>, \<open>HC_DeclTypes\<close>, \<open>HC_ModuleTypes\<close> follow the generator from the builder to the module:
  what a step knows (types of functions, what the current one returns, its break targets) is carried along,
  and calls of sub-expressions are an interface again. \<open>HC_GenSpec\<close> and \<open>HC_TypeSpec\<close> hold the
  properties. The fuel of the generator counts the
  depth of expressions, default arguments included.

  The runtime. \<open>HC_RtMath\<close>, \<open>HC_RtFormat\<close>, \<open>HC_RtHeap\<close>, \<open>HC_RtStr\<close>, \<open>HC_RtInput\<close>, \<open>HC_RtExcept\<close> follow
  \<open>hcrt.c\<close> (the last together with the control flow \<open>genTry\<close> builds around a try); \<open>HC_RtFormatOk\<close>,
  \<open>HC_RtDate\<close> and \<open>HC_RtText\<close> hold the proofs about formatted text, the calendar and packed characters,
  \<open>HC_RtSpec\<close> the properties.

  The driver. \<open>HC_Jit\<close> (the symbols of the runtime, \<open>makeJit\<close>, \<open>runJIT\<close>, the snippets of \<open>#exe\<close>) and
  \<open>HC_Driver\<close> (the command line, \<open>compileMain\<close>, linking, \<open>main\<close> with its dumps) compose lexer, parser and
  generator; LLVM and the operating system are records of functions, what the process does to the outside is a list
  of events. The fuel is one number for lexing, tokens and expressions. \<open>HC_DriverSpec\<close> holds the
  properties; \<open>HC_Stdlib\<close> compares the declarations of the prelude with \<open>hcrt.h\<close> and the JIT.

  Not modelled: LLVM (its folding of constants, its renaming of equal names, its verifier, optimiser
  and back ends) and the run of the generated code; the wrappers of \<open>hcrt.c\<close> around the mathematical
  functions, \<open>strtod\<close>, the clock and files of the C library; the routines the prelude \<open>lib/HolyC.HH\<close> writes in
  HolyC; the messages of a failing snippet.
\<close>

section \<open>The parser\<close>

text \<open>
  C1: the expression parser inverts the printer. On the tokens of a well-formed expression
  written with the fewest parentheses the TempleOS precedence table allows, followed by anything
  that does not continue it, \<open>parseAssign\<close> returns exactly that expression, with its source
  locations, and leaves what follows.
\<close>

theorem expr_round_trip:
  assumes "wf_expr (ps_classes s) (ps_store s) e" and "ends 0 rest"
    and "ps_toks s = up (ps_store s) 0 e @ rest" and "length (ps_toks s) < n"
  shows "parseAssign n s = Some (e, s\<lparr>ps_toks := rest\<rparr>)"
  by (rule parse_up [OF assms])

text \<open>A witness: \<open>a - b * (c - -2) < f(x, , y)->m;\<close>\<close>

definition demo_expr :: expr where
  "demo_expr =
     EChainCmp no_loc
       (EBinary no_loc PMinus (EIdent no_loc ''a'')
         (EBinary no_loc PStar (EIdent no_loc ''b'')
           (EBinary no_loc PMinus (EIdent no_loc ''c'') (EUnary no_loc PMinus True (EIntLit no_loc 2)))))
       [(PLt, EMember no_loc True
          (ECall no_loc (EIdent no_loc ''f'') [Some (EIdent no_loc ''x''), None, Some (EIdent no_loc ''y'')]) ''m'')]"

theorem expr_round_trip_witness:
  "parseAssign 99 (pst0 (up [] 0 demo_expr @ [pt no_loc PSemi]))
     = Some (demo_expr, pst0 [pt no_loc PSemi])"
proof -
  let ?s = "pst0 (up [] 0 demo_expr @ [pt no_loc PSemi])"
  have "wf_expr (ps_classes ?s) (ps_store ?s) demo_expr"
    by (simp add: pst0_def demo_expr_def wf_ident_def builtinTypes_def has_key_map_of expr_words_def
        rel_ops_def bin_level_def bin_ops_def unary_ops_def)
  moreover have "length (ps_toks ?s) < 99"
    by (simp add: pst0_def demo_expr_def paren_def bin_level_def bin_ops_def)
  ultimately have "parseAssign 99 ?s = Some (demo_expr, ?s\<lparr>ps_toks := [pt no_loc PSemi]\<rparr>)"
    by (intro expr_round_trip) (simp_all add: ends_close pst0_def)
  then show ?thesis by (simp add: pst0_def)
qed

text \<open>
  C2: the parser always returns. For every list of tokens, however malformed, \<open>parseProgram\<close>
  with the fuel \<open>length + 1\<close> yields a program and stops only at the end of the input.
\<close>

theorem parser_returns: "\<exists>s. parseProgram ts = Some s \<and> tk_kind (p_tok s 0) = TkEof"
  using parse_with_returns [of ts "Suc (length ts)"] by (auto simp: parseProgram_def)

text \<open>
  C3: the contract of the expression parser on any input: it returns, consumes a token unless it
  is at the end, adds diagnostics without dropping any, and changes neither the class table, nor
  the class objects, nor the items.
\<close>

theorem parseAssign_contract:
  assumes "length (ps_toks s) < n"
  shows "\<exists>e s'. parseAssign n s = Some (e, s') \<and> suffix (ps_toks s') (ps_toks s)
     \<and> (tk_kind (p_tok s 0) \<noteq> TkEof \<longrightarrow> ps_toks s' \<noteq> ps_toks s) \<and> suffix (ps_diags s) (ps_diags s')
     \<and> ps_classes s' = ps_classes s \<and> ps_store s' = ps_store s \<and> ps_items s' = ps_items s"
  using assign.pe_at [OF assms p_steps_refl, where Q = "\<lambda>_. p_eats s"]
  by (auto simp: p_eats_def p_steps_def elim!: returnsE)

theorem parseAssign_contract_witness:
  "\<exists>e s'. parseAssign 3 (pst0 [pt no_loc PRParen, pt no_loc PRBrace]) = Some (e, s')
     \<and> suffix (ps_toks s') [pt no_loc PRParen, pt no_loc PRBrace]"
  using parseAssign_contract [of "pst0 [pt no_loc PRParen, pt no_loc PRBrace]" 3]
  by (auto simp: pst0_def)

text \<open>
  C4: the contract of the statement parser, with every handler of a statement: it returns,
  consumes a token unless it is at the end, and never changes the class table or the items, so a
  block cannot define a class.
\<close>

theorem parseStmt_contract:
  assumes "length (ps_toks s) < n"
  shows "\<exists>st s'. parseStmt n s = Some (st, s') \<and> suffix (ps_toks s') (ps_toks s)
     \<and> (tk_kind (p_tok s 0) \<noteq> TkEof \<longrightarrow> ps_toks s' \<noteq> ps_toks s) \<and> suffix (ps_diags s) (ps_diags s')
     \<and> ps_classes s' = ps_classes s \<and> ps_store s' = ps_store s \<and> ps_items s' = ps_items s"
  using stmt.ps_at [OF assms p_steps_refl, where Q = "\<lambda>_. p_eats s"]
  by (auto simp: p_eats_def p_steps_def elim!: returnsE)

theorem parseStmt_contract_witness:
  "\<exists>st s'. parseStmt 3 (pst0 [idt no_loc ''while'', pt no_loc PRBrace]) = Some (st, s')
     \<and> ps_classes s' = []"
  using parseStmt_contract [of "pst0 [idt no_loc ''while'', pt no_loc PRBrace]" 3]
  by (auto simp: pst0_def)

section \<open>The lexer\<close>

text \<open>
  C5: every call of \<open>Lexer::next\<close> returns, on every text and in every state, as long as nothing
  can be included: with the fuel twice the characters left (plus one for each source) and one for
  each pending token. It only moves forward, adds diagnostics without dropping any, and keeps the
  stack of \<open>#if\<close>s consistent until the input is exhausted.
\<close>

theorem next_returns:
  assumes "closed_env e" and "2 * weight lx + length (lx_pending lx) + 1 < n"
  shows "\<exists>t lx'. lexer_next e n lx = Some (t, lx') \<and> weight lx' \<le> weight lx
     \<and> suffix (lx_diags lx) (lx_diags lx') \<and> lx_jitMode lx' = lx_jitMode lx
     \<and> (conds_ok (lx_conds lx) \<longrightarrow> atEof lx' \<or> conds_ok (lx_conds lx'))"
  using lexer_next_returns [OF assms] by (auto simp: nx_steps_iff weight_0_iff elim!: returnsE)

definition no_files :: env where
  "no_files = \<lparr>e_file = (\<lambda>_. None), e_exe = None, e_date = [], e_time = []\<rparr>"

theorem next_returns_witness:
  "\<exists>t lx'. lexer_next no_files 99 (Lexer_buffer ''#if 1 #else #if 0'' ''f.HC'' True) = Some (t, lx')"
  using next_returns [of no_files "Lexer_buffer ''#if 1 #else #if 0'' ''f.HC'' True" 99]
  by (auto simp: closed_env_def no_files_def weight_def Lexer_buffer_def push_source_def mk_source_def lexer0_def)



text \<open>
  C7: conditional inclusion meets its specification. A well-nested region sent through the
  handlers of \<open>#ifdef\<close>, \<open>#ifndef\<close>, \<open>#if\<close>, \<open>#ifaot\<close>, \<open>#ifjit\<close>, \<open>#else\<close> and \<open>#endif\<close> is skipped exactly
  where the conditions say so, at any nesting, and the stack of conditions is restored.
\<close>

theorem conditional_inclusion:
  "fst (run_region l r lx) = map (\<lambda>x. x \<and> \<not> skippingConds lx) (live (lx_macros lx) (lx_jitMode lx) r)
   \<and> lx_conds (snd (run_region l r lx)) = lx_conds lx"
  using run_region_live(1) [of l r lx] by (simp add: same_conds_def)






end
